(* ===== verification/Prelude.thy ===== *)
theory Prelude
  imports Main "HOL-Library.Word"
begin

unbundle bit_operations_syntax

section \<open>Machine types, kernel bit-field helpers and shared lemmas\<close>

text \<open>
  Names for the C integer types, the errno values the driver returns, the bit-field macros of
  the kernel headers as the driver uses them, and the list and word lemmas that several
  components share. A C \<open>int\<close> that only carries a return code is an \<open>int\<close>; an unsigned value
  whose width matters is a word.
\<close>

type_synonym u8 = "8 word"
type_synonym u16 = "16 word"
type_synonym u32 = "32 word"
type_synonym s32 = "32 word"
type_synonym u64 = "64 word"

text \<open>A kernel virtual address (MMIO or memory). Pointer arithmetic never wraps in valid C.\<close>

type_synonym iomem = nat

named_theorems layout_simps \<open>evaluated register offsets\<close>
named_theorems trace_simps \<open>effect of the world primitives on the trace\<close>
named_theorems frame_simps \<open>state components an operation leaves alone\<close>

subsection \<open>Error codes\<close>

definition EPERM :: int where "EPERM = 1"

definition ENOMEM :: int where "ENOMEM = 12"

definition EFAULT :: int where "EFAULT = 14"

definition EBUSY :: int where "EBUSY = 16"

definition ENODEV :: int where "ENODEV = 19"

definition EINVAL :: int where "EINVAL = 22"

definition EOPNOTSUPP :: int where "EOPNOTSUPP = 95"

definition ETIMEDOUT :: int where "ETIMEDOUT = 110"

lemmas errno_defs = EPERM_def ENOMEM_def EFAULT_def EBUSY_def ENODEV_def EINVAL_def
  EOPNOTSUPP_def ETIMEDOUT_def

subsection \<open>Bit fields\<close>

definition BIT :: "nat \<Rightarrow> u32" where
  "BIT n = push_bit n 1"

definition GENMASK :: "nat \<Rightarrow> nat \<Rightarrow> u32" where
  "GENMASK h l = push_bit l (mask (h + 1 - l))"

text \<open>The position of the lowest set bit of a field mask.\<close>

definition bf_shf :: "u32 \<Rightarrow> nat" where
  "bf_shf m = length (takeWhile (\<lambda>i. \<not> bit m i) [0..<32])"

definition FIELD_PREP :: "u32 \<Rightarrow> u32 \<Rightarrow> u32" where
  "FIELD_PREP m v = push_bit (bf_shf m) v AND m"

definition FIELD_GET :: "u32 \<Rightarrow> u32 \<Rightarrow> u32" where
  "FIELD_GET m r = drop_bit (bf_shf m) (r AND m)"

definition lower_32_bits :: "u64 \<Rightarrow> u32" where
  "lower_32_bits v = ucast v"

definition upper_32_bits :: "u64 \<Rightarrow> u32" where
  "upper_32_bits v = ucast (drop_bit 32 v)"

definition join_32 :: "u32 \<Rightarrow> u32 \<Rightarrow> u64" where
  "join_32 lo hi = ucast lo OR push_bit 32 (ucast hi)"

lemma join_32_halves [simp]: "join_32 (lower_32_bits v) (upper_32_bits v) = v"
proof (rule bit_word_eqI)
  fix n assume "n < LENGTH(64)"
  then show "bit (join_32 (lower_32_bits v) (upper_32_bits v)) n = bit v n"
    by (cases "n < 32")
      (auto simp: join_32_def lower_32_bits_def upper_32_bits_def bit_simps)
qed

lemma bit_BIT: "bit (BIT n) k \<longleftrightarrow> k = n \<and> n < 32"
  by (auto simp: BIT_def bit_simps)

lemma bit_GENMASK: "l \<le> h \<Longrightarrow> bit (GENMASK h l) k \<longleftrightarrow> l \<le> k \<and> k \<le> h \<and> k < 32"
  by (auto simp: GENMASK_def bit_simps)

subsection \<open>Lists\<close>

text \<open>Updating the last element, as code does through a pointer to the tail of a list.\<close>

definition upd_last :: "('a \<Rightarrow> 'a) \<Rightarrow> 'a list \<Rightarrow> 'a list" where
  "upd_last f xs = (if xs = [] then [] else butlast xs @ [f (last xs)])"

lemma upd_last_snoc [simp]: "upd_last f (xs @ [x]) = xs @ [f x]"
  by (simp add: upd_last_def)

lemma upd_last_Nil [simp]: "upd_last f [] = []"
  by (simp add: upd_last_def)

lemma length_upd_last [simp]: "length (upd_last f xs) = length xs"
  by (simp add: upd_last_def)

lemma upd_last_eq_Nil [simp]: "upd_last f xs = [] \<longleftrightarrow> xs = []"
  by (simp add: upd_last_def)

lemma last_upd_last [simp]: "xs \<noteq> [] \<Longrightarrow> last (upd_last f xs) = f (last xs)"
  by (simp add: upd_last_def)

end
