(* ===== verification/World.thy ===== *)
theory World
  imports Prelude
begin

section \<open>The world a driver call acts on\<close>

text \<open>
  Everything outside the driver's own data: the device behind the MMIO windows, the kernel
  services, and the slab allocator. The device and the services are not code of the repository,
  so they are oracles: the value a read or a call returns is an arbitrary function of the whole
  history of accesses, and every theorem holds for all of them. What the driver does is the
  trace, in program order.

  \<^item> \<open>Writel\<close>, \<open>Writeq\<close> and \<open>Readl\<close> are MMIO accesses. With the Makefile's
    \<open>AKIDA_DW_EDMA_FORCE_32BIT\<close> a \<open>writeq\<close> is two \<open>writel\<close>, low half first.
  \<^item> \<open>Store32\<close>, \<open>Store64\<close> and \<open>DmaWmb\<close> are the plain stores and the barrier used when the
    engine is local.
  \<^item> \<open>Kcall\<close> is a call of a kernel service with the value it returned.
  The allocator hands out fresh addresses, may fail at any call, and records a memory fault: a bad
  \<open>kfree\<close> or a list operation through a null list head.
\<close>

datatype irq_handler = IRQ_COMMON | IRQ_WRITE | IRQ_READ

datatype dma_data_direction = DMA_BIDIRECTIONAL | DMA_TO_DEVICE | DMA_FROM_DEVICE

datatype kcall =
    K_devm_kzalloc
  | K_devm_kcalloc nat
  | K_irq_vector nat
  | K_request_irq int irq_handler nat
  | K_irq_get_msi_desc int
  | K_free_irq int nat
  | K_dma_async_device_register
  | K_dma_async_device_unregister
  | K_tasklet_kill nat
  | K_debugfs_on
  | K_pci_disable_link_state
  | K_pcim_enable_device
  | K_pci_set_master
  | K_dma_set_mask nat
  | K_dma_set_coherent_mask nat
  | K_dmam_alloc_attrs u64
  | K_pci_write_config_dword nat u32
  | K_msleep nat
  | K_pcim_iomap_regions u32
  | K_pcim_iounmap_regions u32
  | K_pci_alloc_irq_vectors
  | K_pci_free_irq_vectors
  | K_pci_dev_msi_enabled
  | K_dma_request_channel u32
  | K_dma_release_channel int
  | K_module_put
  | K_module_get
  | K_terminate_sync int
  | K_ida_alloc
  | K_ida_free int
  | K_misc_register
  | K_misc_deregister
  | K_kmalloc nat
  | K_kfree int
  | K_dma_map_single int u64 dma_data_direction
  | K_dma_unmap_single u64 u64 dma_data_direction
  | K_copy_to_user u64 int u64
  | K_copy_from_user int u64 u64
  | K_io_remap_pfn_range u64 u64 u64
  | K_dma_mmap_attrs int u64 u64

datatype ev =
    Writel iomem u32
  | Writeq iomem u64
  | Readl iomem
  | Store32 iomem u32
  | Store64 iomem u64
  | DmaWmb
  | Kcall kcall int

record world =
  force32 :: bool
  dev :: "ev list \<Rightarrow> iomem \<Rightarrow> u32"
  kret :: "ev list \<Rightarrow> kcall \<Rightarrow> int"
  trace :: "ev list"
  kz_ok :: "nat \<Rightarrow> bool"
  brk :: nat
  live :: "nat list"
  mem_fault :: bool

definition emit :: "ev \<Rightarrow> world \<Rightarrow> world" where
  "emit e w = w\<lparr>trace := trace w @ [e]\<rparr>"

definition writel :: "u32 \<Rightarrow> iomem \<Rightarrow> world \<Rightarrow> world" where
  "writel v a w = emit (Writel a v) w"

definition writeq :: "u64 \<Rightarrow> iomem \<Rightarrow> world \<Rightarrow> world" where
  "writeq v a w =
     (if force32 w then writel (upper_32_bits v) (a + 4) (writel (lower_32_bits v) a w)
      else emit (Writeq a v) w)"

definition readl :: "iomem \<Rightarrow> world \<Rightarrow> u32 \<times> world" where
  "readl a w = (dev w (trace w) a, emit (Readl a) w)"

definition store32 :: "u32 \<Rightarrow> iomem \<Rightarrow> world \<Rightarrow> world" where
  "store32 v a w = emit (Store32 a v) w"

definition store64 :: "u64 \<Rightarrow> iomem \<Rightarrow> world \<Rightarrow> world" where
  "store64 v a w = emit (Store64 a v) w"

definition kcall :: "kcall \<Rightarrow> world \<Rightarrow> int \<times> world" where
  "kcall c w = (let r = kret w (trace w) c in (r, emit (Kcall c r) w))"

text \<open>A zeroed allocation: a fresh non-null address, or failure.\<close>

definition kzalloc :: "world \<Rightarrow> nat option \<times> world" where
  "kzalloc w =
     (if kz_ok w (brk w)
      then (Some (Suc (brk w)), w\<lparr>brk := Suc (brk w), live := Suc (brk w) # live w\<rparr>)
      else (None, w\<lparr>brk := Suc (brk w)\<rparr>))"

definition kfree :: "nat \<Rightarrow> world \<Rightarrow> world" where
  "kfree a w = w\<lparr>live := filter (\<lambda>b. b \<noteq> a) (live w), mem_fault := mem_fault w \<or> a \<notin> set (live w)\<rparr>"

text \<open>What a 32-bit little-endian reader finds in memory after a sequence of accesses.\<close>

fun store_ev :: "ev \<Rightarrow> (iomem \<rightharpoonup> u32) \<Rightarrow> (iomem \<rightharpoonup> u32)" where
  "store_ev (Writel a v) m = m(a \<mapsto> v)"
| "store_ev (Writeq a v) m = m(a \<mapsto> lower_32_bits v, a + 4 \<mapsto> upper_32_bits v)"
| "store_ev (Store32 a v) m = m(a \<mapsto> v)"
| "store_ev (Store64 a v) m = m(a \<mapsto> lower_32_bits v, a + 4 \<mapsto> upper_32_bits v)"
| "store_ev (Readl a) m = m"
| "store_ev DmaWmb m = m"
| "store_ev (Kcall c r) m = m"

definition mem_after :: "ev list \<Rightarrow> (iomem \<rightharpoonup> u32)" where
  "mem_after tr = fold store_ev tr Map.empty"

text \<open>The events added by going from one world to another that extends it.\<close>

definition new_evs :: "world \<Rightarrow> world \<Rightarrow> ev list" where
  "new_evs w w' = drop (length (trace w)) (trace w')"

text \<open>A step that only appends events: oracles and allocator untouched.\<close>

definition io_only :: "world \<Rightarrow> world \<Rightarrow> bool" where
  "io_only w w' \<longleftrightarrow> (\<exists>es. w' = w\<lparr>trace := trace w @ es\<rparr>)"

subsection \<open>Lemmas\<close>

lemma emit_frame [frame_simps, simp]:
  "force32 (emit e w) = force32 w" "dev (emit e w) = dev w" "kret (emit e w) = kret w"
  "kz_ok (emit e w) = kz_ok w" "brk (emit e w) = brk w" "live (emit e w) = live w"
  "mem_fault (emit e w) = mem_fault w" "trace (emit e w) = trace w @ [e]"
  by (simp_all add: emit_def)

lemma io_only_refl [simp, intro]: "io_only w w"
  by (auto simp: io_only_def intro: exI [of _ "[]"])

lemma io_only_trans [trans]: "io_only a b \<Longrightarrow> io_only b c \<Longrightarrow> io_only a c"
  by (auto simp: io_only_def)

lemma io_only_emit [simp, intro]: "io_only w (emit e w)"
  by (auto simp: io_only_def emit_def)

lemma io_only_emitI: "io_only w w' \<Longrightarrow> io_only w (emit e w')"
  by (auto simp: io_only_def emit_def)

lemma io_only_writelI [simp, intro]: "io_only w w' \<Longrightarrow> io_only w (writel v a w')"
  by (simp add: writel_def io_only_emitI)

lemma io_only_writeqI [simp, intro]: "io_only w w' \<Longrightarrow> io_only w (writeq v a w')"
  by (simp add: writeq_def io_only_emitI)

lemma io_only_readlI [simp, intro]: "io_only w w' \<Longrightarrow> io_only w (snd (readl a w'))"
  by (simp add: readl_def io_only_emitI)

lemma io_only_storeI [simp, intro]:
  "io_only w w' \<Longrightarrow> io_only w (store32 v a w')"
  "io_only w w' \<Longrightarrow> io_only w (store64 x a w')"
  by (simp_all add: store32_def store64_def io_only_emitI)

lemma io_only_frame:
  assumes "io_only w w'"
  shows "force32 w' = force32 w" "dev w' = dev w" "kret w' = kret w" "kz_ok w' = kz_ok w"
    "brk w' = brk w" "live w' = live w" "mem_fault w' = mem_fault w"
    "trace w' = trace w @ new_evs w w'"
  using assms by (auto simp: io_only_def new_evs_def)

lemma new_evs_refl [simp]: "new_evs w w = []"
  by (simp add: new_evs_def)

lemma new_evsI: "trace w' = trace w @ es \<Longrightarrow> new_evs w w' = es"
  by (simp add: new_evs_def)

lemma new_evs_trans:
  assumes "io_only a b" "io_only b c"
  shows "new_evs a c = new_evs a b @ new_evs b c"
  using assms by (auto simp: io_only_def new_evs_def)

lemma new_evs_emit:
  assumes "io_only w w'"
  shows "new_evs w (emit e w') = new_evs w w' @ [e]"
  using assms by (auto simp: io_only_def new_evs_def)

lemma new_evs_writel [trace_simps]:
  "io_only w w' \<Longrightarrow> new_evs w (writel v a w') = new_evs w w' @ [Writel a v]"
  by (simp add: writel_def new_evs_emit)

lemma new_evs_readl [trace_simps]:
  "io_only w w' \<Longrightarrow> new_evs w (snd (readl a w')) = new_evs w w' @ [Readl a]"
  by (simp add: readl_def new_evs_emit)

lemma new_evs_writeq [trace_simps]:
  "io_only w w' \<Longrightarrow> new_evs w (writeq v a w') = new_evs w w' @
     (if force32 w then [Writel a (lower_32_bits v), Writel (a + 4) (upper_32_bits v)]
      else [Writeq a v])"
  by (simp add: writeq_def writel_def new_evs_emit io_only_emitI io_only_frame)

lemma new_evs_store [trace_simps]:
  "io_only w w' \<Longrightarrow> new_evs w (store32 v a w') = new_evs w w' @ [Store32 a v]"
  "io_only w w' \<Longrightarrow> new_evs w (store64 x a w') = new_evs w w' @ [Store64 a x]"
  by (simp_all add: store32_def store64_def new_evs_emit)

lemma fold_store_append: "fold store_ev (xs @ ys) m = fold store_ev ys (fold store_ev xs m)"
  by simp

text \<open>
  The 32-bit memory a reader finds after going from one world to another, starting from \<open>m\<close>,
  and what each access does to it.
\<close>

definition memx :: "(iomem \<rightharpoonup> u32) \<Rightarrow> world \<Rightarrow> world \<Rightarrow> (iomem \<rightharpoonup> u32)" where
  "memx m w w' = fold store_ev (new_evs w w') m"

named_theorems memx_simps \<open>effect of the accesses on memory\<close>

lemma memx_refl [simp]: "memx m w w = m"
  by (simp add: memx_def)

lemma memx_trans: "io_only a b \<Longrightarrow> io_only b c \<Longrightarrow> memx m a c = memx (memx m a b) b c"
  by (simp add: memx_def new_evs_trans [of a b c])

lemma memx_writel [memx_simps]:
  "io_only w w' \<Longrightarrow> memx m w (writel v a w') = (memx m w w')(a \<mapsto> v)"
  by (simp add: memx_def trace_simps)

lemma memx_readl [memx_simps]: "io_only w w' \<Longrightarrow> memx m w (snd (readl a w')) = memx m w w'"
  by (simp add: memx_def trace_simps)

lemma memx_writeq [memx_simps]:
  "io_only w w' \<Longrightarrow> memx m w (writeq v a w') =
     (memx m w w')(a \<mapsto> lower_32_bits v, a + 4 \<mapsto> upper_32_bits v)"
  by (simp add: memx_def trace_simps)

lemma memx_store [memx_simps]:
  "io_only w w' \<Longrightarrow> memx m w (store32 v a w') = (memx m w w')(a \<mapsto> v)"
  "io_only w w' \<Longrightarrow> memx m w (store64 x a w') =
     (memx m w w')(a \<mapsto> lower_32_bits x, a + 4 \<mapsto> upper_32_bits x)"
  by (simp_all add: memx_def trace_simps)

lemma memx_wmb [memx_simps]: "io_only w w' \<Longrightarrow> memx m w (emit DmaWmb w') = memx m w w'"
  by (simp add: memx_def new_evs_emit)

text \<open>Addresses an event stores to.\<close>

fun ev_writes :: "ev \<Rightarrow> iomem set" where
  "ev_writes (Writel a v) = {a}"
| "ev_writes (Writeq a v) = {a, a + 4}"
| "ev_writes (Store32 a v) = {a}"
| "ev_writes (Store64 a v) = {a, a + 4}"
| "ev_writes (Readl a) = {}"
| "ev_writes DmaWmb = {}"
| "ev_writes (Kcall c r) = {}"

lemma store_ev_frame: "a \<notin> ev_writes e \<Longrightarrow> store_ev e m a = m a"
  by (cases e) auto

lemma fold_store_frame: "(\<And>e. e \<in> set es \<Longrightarrow> a \<notin> ev_writes e) \<Longrightarrow> fold store_ev es m a = m a"
  by (induction es arbitrary: m) (auto simp: store_ev_frame)

end
