(* ===== verification/Virt_Dma.thy ===== *)
theory Virt_Dma
  imports World
begin

section \<open>Virtual DMA channels (virt-dma.h, dmaengine.h)\<close>

text \<open>
  The vendored kernel headers \<open>kernel/5.16/drivers/dma/virt-dma.h\<close> and \<open>dmaengine.h\<close>: descriptor
  cookies and the five descriptor lists of a channel. A list node belongs to one list at a time, so
  a list is the list of the descriptors themselves; \<open>struct virt_dma_desc\<close> is a record that the
  driver's own descriptor extends, which is \<open>container_of\<close>. The two pieces the headers only
  declare, \<open>vchan_find_desc\<close> and \<open>vchan_tx_submit\<close>, are arguments where they are used.
\<close>

datatype dma_status = DMA_COMPLETE | DMA_IN_PROGRESS | DMA_PAUSED | DMA_ERROR

record virt_dma_desc =
  vd_addr :: nat
  vd_cookie :: s32
  vd_flags :: u64
  vd_reuse :: bool
  vd_residue :: u32

record 'd virt_dma_chan =
  vc_cookie :: s32
  completed_cookie :: s32
  desc_allocated :: "'d list"
  desc_submitted :: "'d list"
  desc_issued :: "'d list"
  desc_completed :: "'d list"
  desc_terminated :: "'d list"
  vc_cyclic :: "nat option"
  vc_tasklet :: bool

record dma_tx_state =
  tx_last :: s32
  tx_used :: s32
  tx_residue :: u32
  tx_in_flight_bytes :: u32

definition DMA_MIN_COOKIE :: s32 where
  "DMA_MIN_COOKIE = 1"

subsection \<open>Cookies\<close>

definition dma_cookie_init :: "('d, 'z) virt_dma_chan_scheme \<Rightarrow> ('d, 'z) virt_dma_chan_scheme" where
  "dma_cookie_init vc = vc\<lparr>vc_cookie := DMA_MIN_COOKIE, completed_cookie := DMA_MIN_COOKIE\<rparr>"

definition dma_cookie_assign ::
  "'a virt_dma_desc_scheme \<Rightarrow> ('d, 'z) virt_dma_chan_scheme \<Rightarrow>
   s32 \<times> 'a virt_dma_desc_scheme \<times> ('d, 'z) virt_dma_chan_scheme" where
  "dma_cookie_assign tx vc =
     (let cookie = vc_cookie vc + 1;
          cookie = (if sint cookie < sint DMA_MIN_COOKIE then DMA_MIN_COOKIE else cookie)
      in (cookie, tx\<lparr>vd_cookie := cookie\<rparr>, vc\<lparr>vc_cookie := cookie\<rparr>))"

text \<open>\<open>BUG_ON(tx->cookie < DMA_MIN_COOKIE)\<close> is the \<open>None\<close> result.\<close>

definition dma_cookie_complete ::
  "'a virt_dma_desc_scheme \<Rightarrow> ('d, 'z) virt_dma_chan_scheme \<Rightarrow>
   ('a virt_dma_desc_scheme \<times> ('d, 'z) virt_dma_chan_scheme) option" where
  "dma_cookie_complete tx vc =
     (if sint (vd_cookie tx) < sint DMA_MIN_COOKIE then None
      else Some (tx\<lparr>vd_cookie := 0\<rparr>, vc\<lparr>completed_cookie := vd_cookie tx\<rparr>))"

definition dma_cookie_status ::
  "(s32 \<Rightarrow> s32 \<Rightarrow> s32 \<Rightarrow> dma_status) \<Rightarrow> ('d, 'z) virt_dma_chan_scheme \<Rightarrow> s32 \<Rightarrow> dma_tx_state option \<Rightarrow>
   dma_status \<times> dma_tx_state option" where
  "dma_cookie_status dma_async_is_complete vc cookie state =
     (let used = vc_cookie vc; complete = completed_cookie vc;
          state = map_option (\<lambda>st. st\<lparr>tx_last := complete, tx_used := used, tx_residue := 0,
                                      tx_in_flight_bytes := 0\<rparr>) state
      in (dma_async_is_complete cookie complete used, state))"

definition dma_set_residue :: "dma_tx_state option \<Rightarrow> u32 \<Rightarrow> dma_tx_state option" where
  "dma_set_residue state residue = map_option (\<lambda>st. st\<lparr>tx_residue := residue\<rparr>) state"

definition dma_set_in_flight_bytes :: "dma_tx_state option \<Rightarrow> u32 \<Rightarrow> dma_tx_state option" where
  "dma_set_in_flight_bytes state n = map_option (\<lambda>st. st\<lparr>tx_in_flight_bytes := n\<rparr>) state"

subsection \<open>Descriptor lists\<close>

definition vchan_tx_prep ::
  "('a virt_dma_desc_scheme, 'z) virt_dma_chan_scheme \<Rightarrow> 'a virt_dma_desc_scheme \<Rightarrow> u64 \<Rightarrow>
   ('a virt_dma_desc_scheme, 'z) virt_dma_chan_scheme" where
  "vchan_tx_prep vc vd tx_flags =
     vc\<lparr>desc_allocated := desc_allocated vc @ [vd\<lparr>vd_flags := tx_flags, vd_residue := 0\<rparr>]\<rparr>"

definition vchan_issue_pending ::
  "('d, 'z) virt_dma_chan_scheme \<Rightarrow> bool \<times> ('d, 'z) virt_dma_chan_scheme" where
  "vchan_issue_pending vc =
     (let vc' = vc\<lparr>desc_issued := desc_issued vc @ desc_submitted vc, desc_submitted := []\<rparr>
      in (desc_issued vc' \<noteq> [], vc'))"

text \<open>The descriptor has been unlinked from its list by the caller.\<close>

definition vchan_cookie_complete ::
  "'a virt_dma_desc_scheme \<Rightarrow> ('a virt_dma_desc_scheme, 'z) virt_dma_chan_scheme \<Rightarrow>
   ('a virt_dma_desc_scheme, 'z) virt_dma_chan_scheme option" where
  "vchan_cookie_complete vd vc =
     (case dma_cookie_complete vd vc of
        None \<Rightarrow> None
      | Some (vd', vc') \<Rightarrow>
          Some (vc'\<lparr>desc_completed := desc_completed vc' @ [vd'], vc_tasklet := True\<rparr>))"

text \<open>Reuse, or the list of descriptors handed to the driver's \<open>desc_free\<close>.\<close>

definition vchan_vdesc_fini ::
  "'a virt_dma_desc_scheme \<Rightarrow> ('a virt_dma_desc_scheme, 'z) virt_dma_chan_scheme \<Rightarrow>
   ('a virt_dma_desc_scheme, 'z) virt_dma_chan_scheme \<times> 'a virt_dma_desc_scheme list" where
  "vchan_vdesc_fini vd vc =
     (if vd_reuse vd then (vc\<lparr>desc_allocated := vd # desc_allocated vc\<rparr>, []) else (vc, [vd]))"

definition vchan_cyclic_callback ::
  "'a virt_dma_desc_scheme \<Rightarrow> ('d, 'z) virt_dma_chan_scheme \<Rightarrow> ('d, 'z) virt_dma_chan_scheme" where
  "vchan_cyclic_callback vd vc = vc\<lparr>vc_cyclic := Some (vd_addr vd), vc_tasklet := True\<rparr>"

definition vchan_terminate_vdesc ::
  "'a virt_dma_desc_scheme \<Rightarrow> ('a virt_dma_desc_scheme, 'z) virt_dma_chan_scheme \<Rightarrow>
   ('a virt_dma_desc_scheme, 'z) virt_dma_chan_scheme" where
  "vchan_terminate_vdesc vd vc =
     (let vc = vc\<lparr>desc_terminated := desc_terminated vc @ [vd]\<rparr>
      in if vc_cyclic vc = Some (vd_addr vd) then vc\<lparr>vc_cyclic := None\<rparr> else vc)"

definition vchan_next_desc :: "('d, 'z) virt_dma_chan_scheme \<Rightarrow> 'd option" where
  "vchan_next_desc vc = (case desc_issued vc of [] \<Rightarrow> None | vd # _ \<Rightarrow> Some vd)"

definition vchan_get_all_descriptors ::
  "('d, 'z) virt_dma_chan_scheme \<Rightarrow> 'd list \<Rightarrow> 'd list \<times> ('d, 'z) virt_dma_chan_scheme" where
  "vchan_get_all_descriptors vc head =
     (head @ desc_allocated vc @ desc_submitted vc @ desc_issued vc @ desc_completed vc @
        desc_terminated vc,
      vc\<lparr>desc_allocated := [], desc_submitted := [], desc_issued := [], desc_completed := [],
         desc_terminated := []\<rparr>)"

text \<open>The list handed to \<open>vchan_dma_desc_free_list\<close>, and the emptied channel.\<close>

definition vchan_free_chan_resources ::
  "('a virt_dma_desc_scheme, 'z) virt_dma_chan_scheme \<Rightarrow>
   'a virt_dma_desc_scheme list \<times> ('a virt_dma_desc_scheme, 'z) virt_dma_chan_scheme" where
  "vchan_free_chan_resources vc =
     (let (head, vc') = vchan_get_all_descriptors vc []
      in (map (\<lambda>vd. vd\<lparr>vd_reuse := False\<rparr>) head, vc'))"

definition vchan_synchronize ::
  "('d, 'z) virt_dma_chan_scheme \<Rightarrow> 'd list \<times> ('d, 'z) virt_dma_chan_scheme" where
  "vchan_synchronize vc =
     (let vc = vc\<lparr>vc_tasklet := False\<rparr>
      in (desc_terminated vc, vc\<lparr>desc_terminated := []\<rparr>))"

subsection \<open>Completion callbacks\<close>

datatype ('r, 'p) desc_callback = DescCallback
  (cb_callback: "'p option") (cb_callback_result: "'r option")

datatype ('r, 'p, 'x) invoked = InvokedPlain 'p | InvokedResult 'r 'x | InvokedNone

definition dmaengine_desc_callback_invoke ::
  "('r, 'p) desc_callback \<Rightarrow> 'x option \<Rightarrow> 'x \<Rightarrow> ('r, 'p, 'x) invoked" where
  "dmaengine_desc_callback_invoke cb result dummy_result =
     (case cb_callback_result cb of
        Some f \<Rightarrow> InvokedResult f (case result of None \<Rightarrow> dummy_result | Some r \<Rightarrow> r)
      | None \<Rightarrow> (case cb_callback cb of Some f \<Rightarrow> InvokedPlain f | None \<Rightarrow> InvokedNone))"

definition dmaengine_desc_callback_valid :: "('r, 'p) desc_callback \<Rightarrow> bool" where
  "dmaengine_desc_callback_valid cb \<longleftrightarrow> cb_callback cb \<noteq> None \<or> cb_callback_result cb \<noteq> None"

subsection \<open>Lemmas\<close>

text \<open>All descriptors of a channel, over its five lists.\<close>

definition vchan_descs :: "('d, 'z) virt_dma_chan_scheme \<Rightarrow> 'd list" where
  "vchan_descs vc = desc_allocated vc @ desc_submitted vc @ desc_issued vc @ desc_completed vc @
     desc_terminated vc"

lemma sint_min_cookie [simp]: "sint DMA_MIN_COOKIE = 1"
  by (simp add: DMA_MIN_COOKIE_def)

lemma cookie_assign_positive:
  "dma_cookie_assign tx vc = (c, tx', vc') \<Longrightarrow> 1 \<le> sint c \<and> vd_cookie tx' = c \<and> vc_cookie vc' = c"
  by (auto simp: dma_cookie_assign_def Let_def split: if_splits)

lemma vchan_next_desc_None [simp]: "vchan_next_desc vc = None \<longleftrightarrow> desc_issued vc = []"
  by (auto simp: vchan_next_desc_def split: list.splits)

lemma vchan_next_desc_Some: "vchan_next_desc vc = Some d \<longleftrightarrow> (\<exists>ds. desc_issued vc = d # ds)"
  by (auto simp: vchan_next_desc_def split: list.splits)

lemma vchan_next_desc_Cons [simp]: "desc_issued vc = d # ds \<Longrightarrow> vchan_next_desc vc = Some d"
  by (simp add: vchan_next_desc_def)

end
