(* ===== verification/Edma_Types.thy ===== *)
theory Edma_Types
  imports Virt_Dma
begin

section \<open>The data of the eDMA driver (edma.h, dw-edma-core.h)\<close>

text \<open>
  The structures of \<open>kernel/common/include/edma.h\<close> and \<open>akida-dw-edma/dw-edma-core.h\<close>. A
  circular list with a list-head element is the pair of the head element and the elements after
  it; the optional pointer to the head is an \<open>option\<close>. Back pointers (\<open>chunk->chan\<close>,
  \<open>chan->dw\<close>) are dropped: the operations take the chip and the channel as arguments. The union
  \<open>dw_edma_xfer\<close> and its tag \<open>type\<close> are one datatype.
\<close>

definition EDMA_LL_SZ :: u64 where
  "EDMA_LL_SZ = 24"

definition EDMA_MAX_WR_CH :: u16 where
  "EDMA_MAX_WR_CH = 8"

definition EDMA_MAX_RD_CH :: u16 where
  "EDMA_MAX_RD_CH = 8"

datatype dw_edma_dir = EDMA_DIR_WRITE | EDMA_DIR_READ

datatype dw_edma_request = EDMA_REQ_NONE | EDMA_REQ_STOP | EDMA_REQ_PAUSE

datatype dw_edma_status = EDMA_ST_IDLE | EDMA_ST_PAUSE | EDMA_ST_BUSY

datatype dw_edma_map_format =
  EDMA_MF_EDMA_LEGACY | EDMA_MF_EDMA_UNROLL | EDMA_MF_HDMA_COMPAT | EDMA_MF_HDMA_NATIVE

datatype dma_transfer_direction = DMA_MEM_TO_MEM | DMA_MEM_TO_DEV | DMA_DEV_TO_MEM

text \<open>Enumerations as the C compiler numbers them.\<close>

fun dir_val :: "dw_edma_dir \<Rightarrow> nat" where
  "dir_val EDMA_DIR_WRITE = 0"
| "dir_val EDMA_DIR_READ = 1"

fun request_val :: "dw_edma_request \<Rightarrow> nat" where
  "request_val EDMA_REQ_NONE = 0"
| "request_val EDMA_REQ_STOP = 1"
| "request_val EDMA_REQ_PAUSE = 2"

text \<open>Requests are compared by their numbers.\<close>

instantiation dw_edma_request :: linorder
begin

definition less_eq_dw_edma_request :: "dw_edma_request \<Rightarrow> dw_edma_request \<Rightarrow> bool" where
  "less_eq_dw_edma_request p q \<longleftrightarrow> request_val p \<le> request_val q"

definition less_dw_edma_request :: "dw_edma_request \<Rightarrow> dw_edma_request \<Rightarrow> bool" where
  "less_dw_edma_request p q \<longleftrightarrow> request_val p < request_val q"

instance
proof
  fix p q :: dw_edma_request
  show "p \<le> q \<Longrightarrow> q \<le> p \<Longrightarrow> p = q"
    by (cases p; cases q) (simp_all add: less_eq_dw_edma_request_def)
qed (auto simp: less_eq_dw_edma_request_def less_dw_edma_request_def)

end

lemma request_le_pause [simp]: "q \<le> EDMA_REQ_PAUSE"
  by (cases q) (simp_all add: less_eq_dw_edma_request_def)

record dw_edma_region =
  paddr :: u64
  vaddr :: iomem
  rg_sz :: u64

record dw_edma_chip =
  chip_dev :: bool
  chip_ops :: bool
  ops_irq_vector :: bool
  ops_pci_address :: "(u64 \<Rightarrow> u64) option"
  chip_nr_irqs :: int
  chip_flags :: u32
  reg_base :: iomem
  ll_wr_cnt :: u16
  ll_rd_cnt :: u16
  ll_region_wr :: "dw_edma_region list"
  ll_region_rd :: "dw_edma_region list"
  dt_region_wr :: "dw_edma_region list"
  dt_region_rd :: "dw_edma_region list"
  chip_mf :: dw_edma_map_format

definition DW_EDMA_CHIP_LOCAL :: u32 where
  "DW_EDMA_CHIP_LOCAL = BIT 0"

definition chip_local :: "dw_edma_chip \<Rightarrow> bool" where
  "chip_local chip \<longleftrightarrow> chip_flags chip AND DW_EDMA_CHIP_LOCAL \<noteq> 0"

record dw_edma_burst =
  b_addr :: nat
  b_sar :: u64
  b_dar :: u64
  b_sz :: u32

record dw_edma_chunk =
  ck_addr :: nat
  ck_burst :: "(dw_edma_burst \<times> dw_edma_burst list) option"
  bursts_alloc :: u32
  ck_cb :: u8
  ll_region :: dw_edma_region

record dw_edma_desc = virt_dma_desc +
  d_chunk :: "(dw_edma_chunk \<times> dw_edma_chunk list) option"
  chunks_alloc :: u32
  alloc_sz :: u32
  xfer_sz :: u32

record dma_slave_config =
  cfg_direction :: dma_transfer_direction
  cfg_src_addr :: u64
  cfg_dst_addr :: u64
  cfg_src_addr_width :: u32
  cfg_dst_addr_width :: u32

record msi_msg =
  address_lo :: u32
  address_hi :: u32
  msi_data :: u32

record dw_edma_chan =
  chan_vc :: "dw_edma_desc virt_dma_chan"
  ch_id :: nat
  ch_dir :: dw_edma_dir
  ll_max :: u32
  ch_msi :: msi_msg
  ch_request :: dw_edma_request
  ch_st :: dw_edma_status
  configured :: bool
  ch_config :: dma_slave_config
  ch_private :: dw_edma_region

record dw_edma_irq =
  irq_msi :: msi_msg
  wr_mask :: u32
  rd_mask :: u32

text \<open>\<open>dw->core\<close> points to one of the two static operation tables.\<close>

datatype dw_edma_core = CORE_NONE | CORE_V0 | CORE_HDMA

record dw_edma =
  dw_chip :: dw_edma_chip
  wr_ch_cnt :: u16
  rd_ch_cnt :: u16
  dw_irqs :: "dw_edma_irq list"
  dw_nr_irqs :: int
  dw_chan :: "dw_edma_chan list"
  dw_core :: dw_edma_core

record data_chunk =
  dc_size :: u64
  dc_icg :: u64
  dc_src_icg :: u64
  dc_dst_icg :: u64

record dma_interleaved_template =
  il_src_start :: u64
  il_dst_start :: u64
  il_dir :: dma_transfer_direction
  il_src_inc :: bool
  il_dst_inc :: bool
  il_src_sgl :: bool
  il_dst_sgl :: bool
  il_numf :: u64
  il_frame_size :: u64
  il_sgl :: "data_chunk list"

text \<open>A scatterlist is the list of its entries: bus address and length.\<close>

type_synonym scatterlist = "(u64 \<times> u32) list"

datatype dw_edma_xfer =
    XFER_SG scatterlist u32
  | XFER_CYCLIC u64 u64 u64
  | XFER_INTERLEAVED dma_interleaved_template

record dw_edma_transfer =
  x_direction :: dma_transfer_direction
  x_flags :: u64
  x_xfer :: dw_edma_xfer

subsection \<open>Auxiliary projections\<close>

text \<open>The bursts of a chunk and the chunks of a descriptor, list heads left out.\<close>

definition bursts :: "dw_edma_chunk \<Rightarrow> dw_edma_burst list" where
  "bursts ck = (case ck_burst ck of None \<Rightarrow> [] | Some (_, bs) \<Rightarrow> bs)"

definition chunks :: "('a) dw_edma_desc_scheme \<Rightarrow> dw_edma_chunk list" where
  "chunks d = (case d_chunk d of None \<Rightarrow> [] | Some (_, cks) \<Rightarrow> cks)"

text \<open>The linked-list region the chip gives a channel.\<close>

definition ll_region_of :: "dw_edma_chip \<Rightarrow> dw_edma_dir \<Rightarrow> nat \<Rightarrow> dw_edma_region" where
  "ll_region_of chip dir i =
     (if dir = EDMA_DIR_WRITE then ll_region_wr chip ! i else ll_region_rd chip ! i)"

end
