(* ===== verification/Regs.thy ===== *)
theory Regs
  imports Edma_Types
begin

section \<open>Register layouts (dw-edma-v0-regs.h, dw-hdma-v0-regs.h)\<close>

text \<open>
  A packed C structure is the list of its fields with their sizes in bytes, in order; \<open>offsetof\<close>
  and \<open>sizeof\<close> add sizes up. A 64-bit register that the code splits is listed as its \<open>.lsb\<close>
  and \<open>.msb\<close> halves.
\<close>

type_synonym layout = "(string \<times> nat) list"

fun offsetof :: "layout \<Rightarrow> string \<Rightarrow> nat" where
  "offsetof [] n = 0"
| "offsetof ((f, s) # fs) n = (if f = n then 0 else s + offsetof fs n)"

definition sizeof :: "layout \<Rightarrow> nat" where
  "sizeof l = sum_list (map snd l)"

subsection \<open>eDMA v0\<close>

definition EDMA_V0_MAX_NR_CH :: nat where "EDMA_V0_MAX_NR_CH = 8"

definition EDMA_V0_VIEWPORT_MASK :: u32 where "EDMA_V0_VIEWPORT_MASK = GENMASK 2 0"

definition EDMA_V0_DONE_INT_MASK :: u32 where "EDMA_V0_DONE_INT_MASK = GENMASK 7 0"

definition EDMA_V0_ABORT_INT_MASK :: u32 where "EDMA_V0_ABORT_INT_MASK = GENMASK 23 16"

definition EDMA_V0_WRITE_CH_COUNT_MASK :: u32 where "EDMA_V0_WRITE_CH_COUNT_MASK = GENMASK 3 0"

definition EDMA_V0_READ_CH_COUNT_MASK :: u32 where "EDMA_V0_READ_CH_COUNT_MASK = GENMASK 19 16"

definition EDMA_V0_CH_STATUS_MASK :: u32 where "EDMA_V0_CH_STATUS_MASK = GENMASK 6 5"

definition EDMA_V0_DOORBELL_CH_MASK :: u32 where "EDMA_V0_DOORBELL_CH_MASK = GENMASK 2 0"

definition EDMA_V0_LINKED_LIST_ERR_MASK :: u32 where "EDMA_V0_LINKED_LIST_ERR_MASK = GENMASK 7 0"

definition EDMA_V0_CH_ODD_MSI_DATA_MASK :: u32 where "EDMA_V0_CH_ODD_MSI_DATA_MASK = GENMASK 31 16"

definition EDMA_V0_CH_EVEN_MSI_DATA_MASK :: u32 where "EDMA_V0_CH_EVEN_MSI_DATA_MASK = GENMASK 15 0"

definition dw_edma_v0_ch_regs :: layout where
  "dw_edma_v0_ch_regs =
     [(''ch_control1'', 4), (''ch_control2'', 4), (''transfer_size'', 4),
      (''sar.lsb'', 4), (''sar.msb'', 4), (''dar.lsb'', 4), (''dar.msb'', 4),
      (''llp.lsb'', 4), (''llp.msb'', 4)]"

definition dw_edma_v0_ch :: layout where
  "dw_edma_v0_ch =
     [(''wr'', sizeof dw_edma_v0_ch_regs), (''padding_1'', 55 * 4),
      (''rd'', sizeof dw_edma_v0_ch_regs), (''padding_2'', 55 * 4)]"

definition dw_edma_v0_unroll :: layout where
  "dw_edma_v0_unroll =
     [(''padding_1'', 4), (''wr_engine_chgroup'', 4), (''rd_engine_chgroup'', 4),
      (''wr_engine_hshake_cnt.lsb'', 4), (''wr_engine_hshake_cnt.msb'', 4), (''padding_2'', 2 * 4),
      (''rd_engine_hshake_cnt.lsb'', 4), (''rd_engine_hshake_cnt.msb'', 4), (''padding_3'', 2 * 4),
      (''wr_ch0_pwr_en'', 4), (''wr_ch1_pwr_en'', 4), (''wr_ch2_pwr_en'', 4), (''wr_ch3_pwr_en'', 4),
      (''wr_ch4_pwr_en'', 4), (''wr_ch5_pwr_en'', 4), (''wr_ch6_pwr_en'', 4), (''wr_ch7_pwr_en'', 4),
      (''padding_4'', 8 * 4),
      (''rd_ch0_pwr_en'', 4), (''rd_ch1_pwr_en'', 4), (''rd_ch2_pwr_en'', 4), (''rd_ch3_pwr_en'', 4),
      (''rd_ch4_pwr_en'', 4), (''rd_ch5_pwr_en'', 4), (''rd_ch6_pwr_en'', 4), (''rd_ch7_pwr_en'', 4),
      (''padding_5'', 30 * 4), (''ch'', EDMA_V0_MAX_NR_CH * sizeof dw_edma_v0_ch)]"

definition dw_edma_v0_legacy :: layout where
  "dw_edma_v0_legacy = [(''viewport_sel'', 4), (''ch'', sizeof dw_edma_v0_ch_regs)]"

definition dw_edma_v0_regs :: layout where
  "dw_edma_v0_regs =
     [(''ctrl_data_arb_prior'', 4), (''padding_1'', 4), (''ctrl'', 4), (''wr_engine_en'', 4),
      (''wr_doorbell'', 4), (''padding_2'', 4),
      (''wr_ch_arb_weight.lsb'', 4), (''wr_ch_arb_weight.msb'', 4), (''padding_3'', 3 * 4),
      (''rd_engine_en'', 4), (''rd_doorbell'', 4), (''padding_4'', 4),
      (''rd_ch_arb_weight.lsb'', 4), (''rd_ch_arb_weight.msb'', 4), (''padding_5'', 3 * 4),
      (''wr_int_status'', 4), (''padding_6'', 4), (''wr_int_mask'', 4), (''wr_int_clear'', 4),
      (''wr_err_status'', 4),
      (''wr_done_imwr.lsb'', 4), (''wr_done_imwr.msb'', 4),
      (''wr_abort_imwr.lsb'', 4), (''wr_abort_imwr.msb'', 4),
      (''wr_ch01_imwr_data'', 4), (''wr_ch23_imwr_data'', 4), (''wr_ch45_imwr_data'', 4),
      (''wr_ch67_imwr_data'', 4), (''padding_7'', 4 * 4), (''wr_linked_list_err_en'', 4),
      (''padding_8'', 3 * 4),
      (''rd_int_status'', 4), (''padding_9'', 4), (''rd_int_mask'', 4), (''rd_int_clear'', 4),
      (''padding_10'', 4), (''rd_err_status.lsb'', 4), (''rd_err_status.msb'', 4),
      (''padding_11'', 2 * 4), (''rd_linked_list_err_en'', 4), (''padding_12'', 4),
      (''rd_done_imwr.lsb'', 4), (''rd_done_imwr.msb'', 4),
      (''rd_abort_imwr.lsb'', 4), (''rd_abort_imwr.msb'', 4),
      (''rd_ch01_imwr_data'', 4), (''rd_ch23_imwr_data'', 4), (''rd_ch45_imwr_data'', 4),
      (''rd_ch67_imwr_data'', 4), (''padding_13'', 4 * 4),
      (''type'', sizeof dw_edma_v0_unroll)]"

text \<open>Linked-list elements: a data element and the closing link element.\<close>

definition dw_edma_v0_lli :: layout where
  "dw_edma_v0_lli = [(''control'', 4), (''transfer_size'', 4), (''sar.reg'', 8), (''dar.reg'', 8)]"

definition dw_edma_v0_llp :: layout where
  "dw_edma_v0_llp = [(''control'', 4), (''reserved'', 4), (''llp.reg'', 8)]"

subsection \<open>HDMA v0\<close>

definition HDMA_V0_MAX_NR_CH :: nat where "HDMA_V0_MAX_NR_CH = 8"

definition HDMA_V0_LOCAL_ABORT_INT_EN :: u32 where "HDMA_V0_LOCAL_ABORT_INT_EN = BIT 6"

definition HDMA_V0_REMOTE_ABORT_INT_EN :: u32 where "HDMA_V0_REMOTE_ABORT_INT_EN = BIT 5"

definition HDMA_V0_LOCAL_STOP_INT_EN :: u32 where "HDMA_V0_LOCAL_STOP_INT_EN = BIT 4"

definition HDMA_V0_REMOTE_STOP_INT_EN :: u32 where "HDMA_V0_REMOTE_STOP_INT_EN = BIT 3"

definition HDMA_V0_ABORT_INT_MASK :: u32 where "HDMA_V0_ABORT_INT_MASK = BIT 2"

definition HDMA_V0_STOP_INT_MASK :: u32 where "HDMA_V0_STOP_INT_MASK = BIT 0"

definition HDMA_V0_LINKLIST_EN :: u32 where "HDMA_V0_LINKLIST_EN = BIT 0"

definition HDMA_V0_CONSUMER_CYCLE_STAT :: u32 where "HDMA_V0_CONSUMER_CYCLE_STAT = BIT 1"

definition HDMA_V0_CONSUMER_CYCLE_BIT :: u32 where "HDMA_V0_CONSUMER_CYCLE_BIT = BIT 0"

definition HDMA_V0_DOORBELL_START :: u32 where "HDMA_V0_DOORBELL_START = BIT 0"

definition HDMA_V0_CH_STATUS_MASK :: u32 where "HDMA_V0_CH_STATUS_MASK = GENMASK 1 0"

definition dw_hdma_v0_ch_regs :: layout where
  "dw_hdma_v0_ch_regs =
     [(''ch_en'', 4), (''doorbell'', 4), (''prefetch'', 4), (''handshake'', 4),
      (''llp.lsb'', 4), (''llp.msb'', 4), (''cycle_sync'', 4), (''transfer_size'', 4),
      (''sar.lsb'', 4), (''sar.msb'', 4), (''dar.lsb'', 4), (''dar.msb'', 4),
      (''watermark_en'', 4), (''control1'', 4), (''func_num'', 4), (''qos'', 4),
      (''padding_1'', 16 * 4),
      (''ch_stat'', 4), (''int_stat'', 4), (''int_setup'', 4), (''int_clear'', 4),
      (''msi_stop.lsb'', 4), (''msi_stop.msb'', 4),
      (''msi_watermark.lsb'', 4), (''msi_watermark.msb'', 4),
      (''msi_abort.lsb'', 4), (''msi_abort.msb'', 4), (''msi_msgdata'', 4),
      (''padding_2'', 21 * 4)]"

definition dw_hdma_v0_ch :: layout where
  "dw_hdma_v0_ch = [(''wr'', sizeof dw_hdma_v0_ch_regs), (''rd'', sizeof dw_hdma_v0_ch_regs)]"

definition dw_hdma_v0_regs :: layout where
  "dw_hdma_v0_regs = [(''ch'', HDMA_V0_MAX_NR_CH * sizeof dw_hdma_v0_ch)]"

definition dw_hdma_v0_lli :: layout where
  "dw_hdma_v0_lli = [(''control'', 4), (''transfer_size'', 4), (''sar.reg'', 8), (''dar.reg'', 8)]"

definition dw_hdma_v0_llp :: layout where
  "dw_hdma_v0_llp = [(''control'', 4), (''reserved'', 4), (''llp.reg'', 8)]"

subsection \<open>Evaluated offsets\<close>

text \<open>The register of a direction: the macros paste \<open>wr_\<close> or \<open>rd_\<close> before the name.\<close>

definition rw_name :: "dw_edma_dir \<Rightarrow> string \<Rightarrow> string" where
  "rw_name dir n = (if dir = EDMA_DIR_WRITE then ''wr_'' @ n else ''rd_'' @ n)"

lemma sizeofs [layout_simps]:
  "sizeof dw_edma_v0_ch_regs = 0x24" "sizeof dw_edma_v0_ch = 0x200"
  "sizeof dw_hdma_v0_ch_regs = 0x100" "sizeof dw_hdma_v0_ch = 0x200"
  "sizeof dw_edma_v0_lli = 24" "sizeof dw_edma_v0_llp = 16"
  "sizeof dw_hdma_v0_lli = 24" "sizeof dw_hdma_v0_llp = 16"
  by (simp_all add: sizeof_def dw_edma_v0_ch_regs_def dw_edma_v0_ch_def dw_hdma_v0_ch_regs_def
      dw_hdma_v0_ch_def dw_edma_v0_lli_def dw_edma_v0_llp_def dw_hdma_v0_lli_def dw_hdma_v0_llp_def)

lemma lli_offsets [layout_simps]:
  "offsetof dw_edma_v0_lli ''control'' = 0" "offsetof dw_edma_v0_lli ''transfer_size'' = 4"
  "offsetof dw_edma_v0_lli ''sar.reg'' = 8" "offsetof dw_edma_v0_lli ''dar.reg'' = 16"
  "offsetof dw_edma_v0_llp ''control'' = 0" "offsetof dw_edma_v0_llp ''llp.reg'' = 8"
  "offsetof dw_hdma_v0_lli ''control'' = 0" "offsetof dw_hdma_v0_lli ''transfer_size'' = 4"
  "offsetof dw_hdma_v0_lli ''sar.reg'' = 8" "offsetof dw_hdma_v0_lli ''dar.reg'' = 16"
  "offsetof dw_hdma_v0_llp ''control'' = 0" "offsetof dw_hdma_v0_llp ''llp.reg'' = 8"
  by (simp_all add: dw_edma_v0_lli_def dw_edma_v0_llp_def dw_hdma_v0_lli_def dw_hdma_v0_llp_def)

lemma hdma_offsets [layout_simps]:
  "offsetof dw_hdma_v0_ch_regs ''ch_en'' = 0" "offsetof dw_hdma_v0_ch_regs ''doorbell'' = 4"
  "offsetof dw_hdma_v0_ch_regs ''llp.lsb'' = 0x10" "offsetof dw_hdma_v0_ch_regs ''llp.msb'' = 0x14"
  "offsetof dw_hdma_v0_ch_regs ''cycle_sync'' = 0x18" "offsetof dw_hdma_v0_ch_regs ''control1'' = 0x34"
  "offsetof dw_hdma_v0_ch_regs ''ch_stat'' = 0x80" "offsetof dw_hdma_v0_ch_regs ''int_stat'' = 0x84"
  "offsetof dw_hdma_v0_ch_regs ''int_setup'' = 0x88" "offsetof dw_hdma_v0_ch_regs ''int_clear'' = 0x8c"
  "offsetof dw_hdma_v0_ch_regs ''msi_stop.lsb'' = 0x90" "offsetof dw_hdma_v0_ch_regs ''msi_stop.msb'' = 0x94"
  "offsetof dw_hdma_v0_ch_regs ''msi_abort.lsb'' = 0xa0" "offsetof dw_hdma_v0_ch_regs ''msi_abort.msb'' = 0xa4"
  "offsetof dw_hdma_v0_ch_regs ''msi_msgdata'' = 0xa8"
  "offsetof dw_hdma_v0_regs ''ch'' = 0" "offsetof dw_hdma_v0_ch ''wr'' = 0"
  "offsetof dw_hdma_v0_ch ''rd'' = 0x100"
  by (simp_all add: dw_hdma_v0_ch_regs_def dw_hdma_v0_regs_def dw_hdma_v0_ch_def sizeof_def)

lemma v0_offsets [layout_simps]:
  "offsetof dw_edma_v0_regs ''ctrl'' = 0x08" "offsetof dw_edma_v0_regs ''type'' = 0xfc"
  "offsetof dw_edma_v0_regs (rw_name EDMA_DIR_WRITE ''engine_en'') = 0x0c"
  "offsetof dw_edma_v0_regs (rw_name EDMA_DIR_READ ''engine_en'') = 0x2c"
  "offsetof dw_edma_v0_regs (rw_name EDMA_DIR_WRITE ''doorbell'') = 0x10"
  "offsetof dw_edma_v0_regs (rw_name EDMA_DIR_READ ''doorbell'') = 0x30"
  "offsetof dw_edma_v0_regs (rw_name EDMA_DIR_WRITE ''int_status'') = 0x4c"
  "offsetof dw_edma_v0_regs (rw_name EDMA_DIR_READ ''int_status'') = 0xa0"
  "offsetof dw_edma_v0_regs (rw_name EDMA_DIR_WRITE ''int_mask'') = 0x54"
  "offsetof dw_edma_v0_regs (rw_name EDMA_DIR_READ ''int_mask'') = 0xa8"
  "offsetof dw_edma_v0_regs (rw_name EDMA_DIR_WRITE ''int_clear'') = 0x58"
  "offsetof dw_edma_v0_regs (rw_name EDMA_DIR_READ ''int_clear'') = 0xac"
  "offsetof dw_edma_v0_regs (rw_name EDMA_DIR_WRITE ''linked_list_err_en'') = 0x90"
  "offsetof dw_edma_v0_regs (rw_name EDMA_DIR_READ ''linked_list_err_en'') = 0xc4"
  by (simp_all add: dw_edma_v0_regs_def rw_name_def)

lemma v0_imwr_offsets [layout_simps]:
  "offsetof dw_edma_v0_regs (rw_name EDMA_DIR_WRITE ''done_imwr.lsb'') = 0x60"
  "offsetof dw_edma_v0_regs (rw_name EDMA_DIR_READ ''done_imwr.lsb'') = 0xcc"
  "offsetof dw_edma_v0_regs (rw_name EDMA_DIR_WRITE ''done_imwr.msb'') = 0x64"
  "offsetof dw_edma_v0_regs (rw_name EDMA_DIR_READ ''done_imwr.msb'') = 0xd0"
  "offsetof dw_edma_v0_regs (rw_name EDMA_DIR_WRITE ''abort_imwr.lsb'') = 0x68"
  "offsetof dw_edma_v0_regs (rw_name EDMA_DIR_READ ''abort_imwr.lsb'') = 0xd4"
  "offsetof dw_edma_v0_regs (rw_name EDMA_DIR_WRITE ''abort_imwr.msb'') = 0x6c"
  "offsetof dw_edma_v0_regs (rw_name EDMA_DIR_READ ''abort_imwr.msb'') = 0xd8"
  "offsetof dw_edma_v0_regs (rw_name EDMA_DIR_WRITE ''ch01_imwr_data'') = 0x70"
  "offsetof dw_edma_v0_regs (rw_name EDMA_DIR_READ ''ch01_imwr_data'') = 0xdc"
  "offsetof dw_edma_v0_regs (rw_name EDMA_DIR_WRITE ''ch23_imwr_data'') = 0x74"
  "offsetof dw_edma_v0_regs (rw_name EDMA_DIR_READ ''ch23_imwr_data'') = 0xe0"
  "offsetof dw_edma_v0_regs (rw_name EDMA_DIR_WRITE ''ch45_imwr_data'') = 0x78"
  "offsetof dw_edma_v0_regs (rw_name EDMA_DIR_READ ''ch45_imwr_data'') = 0xe4"
  "offsetof dw_edma_v0_regs (rw_name EDMA_DIR_WRITE ''ch67_imwr_data'') = 0x7c"
  "offsetof dw_edma_v0_regs (rw_name EDMA_DIR_READ ''ch67_imwr_data'') = 0xe8"
  by (simp_all add: dw_edma_v0_regs_def rw_name_def)

lemma v0_ch_offsets [layout_simps]:
  "offsetof dw_edma_v0_ch_regs ''ch_control1'' = 0" "offsetof dw_edma_v0_ch_regs ''llp.lsb'' = 0x1c"
  "offsetof dw_edma_v0_ch_regs ''llp.msb'' = 0x20"
  "offsetof dw_edma_v0_legacy ''viewport_sel'' = 0" "offsetof dw_edma_v0_legacy ''ch'' = 4"
  "offsetof dw_edma_v0_ch ''wr'' = 0" "offsetof dw_edma_v0_ch ''rd'' = 0x100"
  "offsetof dw_edma_v0_unroll ''ch'' = 0x104"
  by (simp_all add: dw_edma_v0_ch_regs_def dw_edma_v0_legacy_def dw_edma_v0_ch_def
      dw_edma_v0_unroll_def sizeof_def EDMA_V0_MAX_NR_CH_def)

lemma field_masks [layout_simps]:
  "EDMA_V0_VIEWPORT_MASK = 7" "EDMA_V0_DONE_INT_MASK = 0xff" "EDMA_V0_ABORT_INT_MASK = 0xff0000"
  "EDMA_V0_WRITE_CH_COUNT_MASK = 0xf" "EDMA_V0_READ_CH_COUNT_MASK = 0xf0000"
  "EDMA_V0_CH_STATUS_MASK = 0x60" "EDMA_V0_DOORBELL_CH_MASK = 7"
  "EDMA_V0_LINKED_LIST_ERR_MASK = 0xff" "EDMA_V0_CH_ODD_MSI_DATA_MASK = 0xffff0000"
  "EDMA_V0_CH_EVEN_MSI_DATA_MASK = 0xffff" "HDMA_V0_CH_STATUS_MASK = 3"
  "HDMA_V0_STOP_INT_MASK = 1" "HDMA_V0_ABORT_INT_MASK = 4"
  by (simp_all add: EDMA_V0_VIEWPORT_MASK_def EDMA_V0_DONE_INT_MASK_def EDMA_V0_ABORT_INT_MASK_def
      EDMA_V0_WRITE_CH_COUNT_MASK_def EDMA_V0_READ_CH_COUNT_MASK_def EDMA_V0_CH_STATUS_MASK_def
      EDMA_V0_DOORBELL_CH_MASK_def EDMA_V0_LINKED_LIST_ERR_MASK_def EDMA_V0_CH_ODD_MSI_DATA_MASK_def
      EDMA_V0_CH_EVEN_MSI_DATA_MASK_def HDMA_V0_CH_STATUS_MASK_def HDMA_V0_STOP_INT_MASK_def
      HDMA_V0_ABORT_INT_MASK_def GENMASK_def BIT_def mask_eq_exp_minus_1)

lemma field_shifts [layout_simps]:
  "bf_shf 7 = 0" "bf_shf 0xff = 0" "bf_shf 0xff0000 = 16" "bf_shf 0xf = 0" "bf_shf 0xf0000 = 16"
  "bf_shf 0x60 = 5" "bf_shf 0xffff0000 = 16" "bf_shf 0xffff = 0" "bf_shf 3 = 0" "bf_shf 1 = 0"
  "bf_shf 4 = 2"
  by (simp_all add: bf_shf_def upt_rec)

end
