(* ===== verification/Samples.thy ===== *)
theory Samples
  imports Regs
begin

section \<open>A concrete device\<close>

text \<open>
  A small configuration on which the theorems with hypotheses are applied: the four channels of an
  Akida 1000 with its register window and its linked-list memory in two BARs, a device that answers
  zero to every read, and an allocator and kernel services that never fail.
\<close>

definition ex_world :: world where
  "ex_world = \<lparr>force32 = True, dev = (\<lambda>_ _. 0), kret = (\<lambda>_ _. 0), trace = [], kz_ok = (\<lambda>_. True),
     brk = 0, live = [], mem_fault = False\<rparr>"

definition ex_region :: "nat \<Rightarrow> dw_edma_region" where
  "ex_region i = \<lparr>paddr = 0x20000000 + of_nat (0x40 * i), vaddr = 0x20000 + 0x40 * i, rg_sz = 0x40\<rparr>"

definition ex_data :: dw_edma_region where
  "ex_data = \<lparr>paddr = 0x20000000, vaddr = 0x20000, rg_sz = 0\<rparr>"

definition ex_chip :: dw_edma_chip where
  "ex_chip = \<lparr>chip_dev = True, chip_ops = True, ops_irq_vector = True, ops_pci_address = None,
     chip_nr_irqs = 1, chip_flags = 0, reg_base = 0x10970, ll_wr_cnt = 2, ll_rd_cnt = 2,
     ll_region_wr = [ex_region 0, ex_region 1], ll_region_rd = [ex_region 2, ex_region 3],
     dt_region_wr = [ex_data, ex_data], dt_region_rd = [ex_data, ex_data],
     chip_mf = EDMA_MF_EDMA_LEGACY\<rparr>"

definition ex_vc :: "'d virt_dma_chan" where
  "ex_vc = \<lparr>vc_cookie = 1, completed_cookie = 1, desc_allocated = [], desc_submitted = [],
     desc_issued = [], desc_completed = [], desc_terminated = [], vc_cyclic = None, vc_tasklet = False\<rparr>"

definition ex_chan :: "dw_edma_dir \<Rightarrow> nat \<Rightarrow> dw_edma_chan" where
  "ex_chan dir i = \<lparr>chan_vc = ex_vc, ch_id = i, ch_dir = dir, ll_max = 1,
     ch_msi = \<lparr>address_lo = 0xfee00000, address_hi = 0, msi_data = 0x4021\<rparr>, ch_request = EDMA_REQ_NONE,
     ch_st = EDMA_ST_IDLE, configured = True,
     ch_config = \<lparr>cfg_direction = DMA_MEM_TO_MEM, cfg_src_addr = 0x1000, cfg_dst_addr = 0x80000000,
       cfg_src_addr_width = 4, cfg_dst_addr_width = 0\<rparr>,
     ch_private = ex_data\<rparr>"

definition ex_burst :: "nat \<Rightarrow> dw_edma_burst" where
  "ex_burst a = \<lparr>b_addr = a, b_sar = 0x1000, b_dar = 0x80000000, b_sz = 0x400\<rparr>"

definition ex_chunk :: "nat \<Rightarrow> dw_edma_chunk" where
  "ex_chunk a = \<lparr>ck_addr = a, ck_burst = Some (ex_burst (a + 1), [ex_burst (a + 2)]), bursts_alloc = 1,
     ck_cb = 1, ll_region = (ex_region 0)\<lparr>rg_sz := 0x400\<rparr>\<rparr>"

text \<open>A submitted descriptor of two chunks, at addresses 1 to 9.\<close>

definition ex_desc :: dw_edma_desc where
  "ex_desc = \<lparr>vd_addr = 1, vd_cookie = 2, vd_flags = 0, vd_reuse = False, vd_residue = 0,
     d_chunk = Some (\<lparr>ck_addr = 2, ck_burst = None, bursts_alloc = 0, ck_cb = 1,
                      ll_region = (ex_region 0)\<lparr>rg_sz := 0\<rparr>\<rparr>, [ex_chunk 4, ex_chunk 7]),
     chunks_alloc = 2, alloc_sz = 0x800, xfer_sz = 0\<rparr>"

lemmas ex_defs = ex_world_def ex_region_def ex_data_def ex_chip_def ex_vc_def ex_chan_def ex_burst_def
  ex_chunk_def ex_desc_def

lemma ex_chan_simps [simp]:
  "ch_id (ex_chan dir i) = i" "ch_dir (ex_chan dir i) = dir" "chan_vc (ex_chan dir i) = ex_vc"
  "configured (ex_chan dir i)" "ch_st (ex_chan dir i) = EDMA_ST_IDLE" "ch_request (ex_chan dir i) = EDMA_REQ_NONE"
  by (simp_all add: ex_chan_def)

lemma ex_chip_simps [simp]:
  "chip_mf ex_chip = EDMA_MF_EDMA_LEGACY" "reg_base ex_chip = 0x10970"
  by (simp_all add: ex_chip_def)

end
