(* ===== verification/Engine.thy ===== *)
theory Engine
  imports Samples
begin

section \<open>What an engine promises to the channel code\<close>

text \<open>
  The contract of the \<open>start\<close> operation of \<open>struct dw_edma_core_ops\<close>, independent of the two
  register maps: the linked list the device finds in memory for a chunk, and the locale
  \<open>dma_engine\<close> with the laws both engines satisfy.
\<close>

text \<open>A done or abort handler; \<open>None\<close> is a kernel \<open>BUG\<close>.\<close>

type_synonym dw_edma_handler = "dw_edma_chan \<Rightarrow> world \<Rightarrow> (dw_edma_chan \<times> world) option"

text \<open>What the device finds at an element address: control, size, source and destination.\<close>

definition read_lli :: "(iomem \<rightharpoonup> u32) \<Rightarrow> iomem \<Rightarrow> (u32 \<times> u32 \<times> u64 \<times> u64) option" where
  "read_lli m a =
     (case (m a, m (a + 4), m (a + 8), m (a + 12), m (a + 16), m (a + 20)) of
        (Some c, Some s, Some sl, Some sh, Some dl, Some dh) \<Rightarrow>
          Some (c, s, join_32 sl sh, join_32 dl dh)
      | _ \<Rightarrow> None)"

definition read_llp :: "(iomem \<rightharpoonup> u32) \<Rightarrow> iomem \<Rightarrow> (u32 \<times> u64) option" where
  "read_llp m a =
     (case (m a, m (a + 8), m (a + 12)) of
        (Some c, Some l, Some h) \<Rightarrow> Some (c, join_32 l h)
      | _ \<Rightarrow> None)"

text \<open>The control words the list should hold: only the last data element raises an interrupt.\<close>

definition lli_control :: "dw_edma_chip \<Rightarrow> dw_edma_chunk \<Rightarrow> nat \<Rightarrow> u32" where
  "lli_control chip ck i =
     (if ck_cb ck \<noteq> 0 then BIT 0 else 0) OR
     (if Suc i = length (bursts ck)
      then BIT 3 OR (if chip_local chip then 0 else BIT 4) else 0)"

definition llp_control :: "dw_edma_chunk \<Rightarrow> u32" where
  "llp_control ck =
     BIT 2 OR BIT 1 OR (if ck_cb ck = 0 then BIT 0 else 0)"

definition ll_holds :: "dw_edma_chip \<Rightarrow> dw_edma_chunk \<Rightarrow> (iomem \<rightharpoonup> u32) \<Rightarrow> bool" where
  "ll_holds chip ck m \<longleftrightarrow>
     (\<forall>i < length (bursts ck). read_lli m (vaddr (ll_region ck) + i * 24) =
        Some (lli_control chip ck i, b_sz (bursts ck ! i), b_sar (bursts ck ! i), b_dar (bursts ck ! i))) \<and>
     read_llp m (vaddr (ll_region ck) + length (bursts ck) * 24) =
        Some (llp_control ck, paddr (ll_region ck))"

text \<open>A chunk whose count field agrees with its list (below \<open>2 ^ 31\<close>, as C's \<open>int j\<close> needs).\<close>

definition burst_count_ok :: "dw_edma_chunk \<Rightarrow> bool" where
  "burst_count_ok ck \<longleftrightarrow> sint (bursts_alloc ck) = int (length (bursts ck))"

text \<open>The list of a chunk and the register window do not overlap.\<close>

definition ll_clear :: "dw_edma_chip \<Rightarrow> dw_edma_chunk \<Rightarrow> bool" where
  "ll_clear chip ck \<longleftrightarrow>
     vaddr (ll_region ck) + length (bursts ck) * 24 + 16 \<le> reg_base chip \<or>
     reg_base chip + 0x1200 \<le> vaddr (ll_region ck)"

definition in_regs :: "dw_edma_chip \<Rightarrow> iomem \<Rightarrow> bool" where
  "in_regs chip a \<longleftrightarrow> reg_base chip \<le> a \<and> a < reg_base chip + 0x1200"

text \<open>A step that only appends events, whose stores go to addresses in \<open>P\<close>.\<close>

definition writes_in :: "(iomem \<Rightarrow> bool) \<Rightarrow> world \<Rightarrow> world \<Rightarrow> bool" where
  "writes_in P w w' \<longleftrightarrow> io_only w w' \<and> (\<forall>e \<in> set (new_evs w w'). \<forall>a \<in> ev_writes e. P a)"

subsection \<open>Lemmas\<close>

lemma read_lli_written:
  "read_lli (m(a + 4 \<mapsto> s, a + 8 \<mapsto> lower_32_bits sa, a + 12 \<mapsto> upper_32_bits sa,
       a + 16 \<mapsto> lower_32_bits da, a + 20 \<mapsto> upper_32_bits da, a \<mapsto> c)) a = Some (c, s, sa, da)"
  by (simp add: read_lli_def)

lemma read_lli_cong:
  assumes "\<And>k. k < 24 \<Longrightarrow> m (a + k) = m' (a + k)"
  shows "read_lli m a = read_lli m' a"
  using assms [of 0] assms [of 4] assms [of 8] assms [of 12] assms [of 16] assms [of 20]
  by (simp add: read_lli_def)

text \<open>Memory that agrees on the list's words holds the list too.\<close>

lemma ll_holds_cong:
  assumes "\<And>a. vaddr (ll_region ck) \<le> a \<Longrightarrow> a < vaddr (ll_region ck) + length (bursts ck) * 24 + 16 \<Longrightarrow>
             m a = m' a"
  shows "ll_holds chip ck m = ll_holds chip ck m'"
proof -
  let ?b = "vaddr (ll_region ck)"
  let ?n = "length (bursts ck)"
  have "read_lli m (?b + i * 24) = read_lli m' (?b + i * 24)" if "i < ?n" for i
    using that by (intro read_lli_cong assms) auto
  moreover have "read_llp m (?b + ?n * 24) = read_llp m' (?b + ?n * 24)"
    by (simp add: read_llp_def assms)
  ultimately show ?thesis
    by (auto simp: ll_holds_def)
qed

lemma writes_in_refl [simp, intro]: "writes_in P w w"
  by (simp add: writes_in_def)

lemma writes_in_io [simp]: "writes_in P w w' \<Longrightarrow> io_only w w'"
  by (simp add: writes_in_def)

lemma writes_in_trans: "writes_in P a b \<Longrightarrow> writes_in P b c \<Longrightarrow> writes_in P a c"
  unfolding writes_in_def using new_evs_trans [of a b c] io_only_trans [of a b c] by auto

lemma writes_in_mono: "writes_in P a b \<Longrightarrow> (\<And>x. P x \<Longrightarrow> Q x) \<Longrightarrow> writes_in Q a b"
  unfolding writes_in_def by blast

lemma writes_in_writel [simp, intro]:
  "writes_in P w w' \<Longrightarrow> P a \<Longrightarrow> writes_in P w (writel v a w')"
  by (auto simp: writes_in_def trace_simps)

lemma writes_in_writeq [simp, intro]:
  "writes_in P w w' \<Longrightarrow> P a \<Longrightarrow> P (a + 4) \<Longrightarrow> writes_in P w (writeq v a w')"
  by (auto simp: writes_in_def trace_simps)

lemma writes_in_readl [simp, intro]: "writes_in P w w' \<Longrightarrow> writes_in P w (snd (readl a w'))"
  by (auto simp: writes_in_def trace_simps)

lemma writes_in_store [simp, intro]:
  "writes_in P w w' \<Longrightarrow> P a \<Longrightarrow> writes_in P w (store32 v a w')"
  "writes_in P w w' \<Longrightarrow> P a \<Longrightarrow> P (a + 4) \<Longrightarrow> writes_in P w (store64 x a w')"
  by (auto simp: writes_in_def trace_simps)

lemma writes_in_wmb [simp, intro]: "writes_in P w w' \<Longrightarrow> writes_in P w (emit DmaWmb w')"
  by (auto simp: writes_in_def new_evs_emit io_only_emitI)

lemma writes_in_memx: "writes_in P w w' \<Longrightarrow> \<not> P a \<Longrightarrow> memx m w w' a = m a"
  unfolding memx_def by (rule fold_store_frame) (auto simp: writes_in_def)

lemma writes_in_no_bell: "writes_in P w w' \<Longrightarrow> \<not> P a \<Longrightarrow> Writel a v \<notin> set (new_evs w w')"
  by (force simp: writes_in_def)

text \<open>The addresses of a chunk's list.\<close>

definition in_ll :: "dw_edma_chunk \<Rightarrow> iomem \<Rightarrow> bool" where
  "in_ll ck a \<longleftrightarrow> vaddr (ll_region ck) \<le> a \<and>
     a < vaddr (ll_region ck) + length (bursts ck) * 24 + 16"

lemma ll_clear_disjoint: "ll_clear chip ck \<Longrightarrow> in_regs chip a \<Longrightarrow> \<not> in_ll ck a"
  by (auto simp: ll_clear_def in_regs_def in_ll_def)

lemma ll_holds_writes:
  assumes ll: "ll_holds chip ck (memx m w w')" and io: "io_only w w'"
    and wr: "writes_in P w' w''" and P: "\<And>a. P a \<Longrightarrow> \<not> in_ll ck a"
  shows "ll_holds chip ck (memx m w w'')"
proof -
  have "memx m w w'' a = memx m w w' a" if "in_ll ck a" for a
    using that P writes_in_memx [OF wr, of a "memx m w w'"]
    by (auto simp: memx_trans [OF io writes_in_io [OF wr]])
  then have "ll_holds chip ck (memx m w w'') = ll_holds chip ck (memx m w w')"
    by (intro ll_holds_cong) (auto simp: in_ll_def)
  then show ?thesis
    using ll by simp
qed

text \<open>The sample chunk meets the two conditions.\<close>

lemma ex_chunk_ok [simp]: "burst_count_ok (ex_chunk a)" "ll_clear ex_chip (ex_chunk a)"
  by (simp_all add: burst_count_ok_def ll_clear_def ex_defs bursts_def)

subsection \<open>The contract\<close>

locale dma_engine =
  fixes start :: "dw_edma_chip \<Rightarrow> dw_edma_chan \<Rightarrow> dw_edma_chunk \<Rightarrow> bool \<Rightarrow> world \<Rightarrow> world"
    and bell :: "dw_edma_chip \<Rightarrow> dw_edma_chan \<Rightarrow> iomem"
    and bell_val :: "dw_edma_chan \<Rightarrow> u32"
  assumes start_io: "io_only w (start chip chan ck first w)"
    and start_bell: "burst_count_ok ck \<Longrightarrow> ll_clear chip ck \<Longrightarrow> ch_id chan < 8 \<Longrightarrow>
      \<exists>es. new_evs w (start chip chan ck first w) = es @ [Writel (bell chip chan) (bell_val chan)] \<and>
           (\<forall>v. Writel (bell chip chan) v \<notin> set es) \<and> ll_holds chip ck (fold store_ev es m)"
begin

text \<open>One start rings the channel's doorbell exactly once, and last.\<close>

lemma start_one_bell:
  assumes "burst_count_ok ck" "ll_clear chip ck" "ch_id chan < 8"
  shows "length (filter (\<lambda>e. \<exists>v. e = Writel (bell chip chan) v)
           (new_evs w (start chip chan ck first w))) = 1"
proof -
  obtain es where es: "new_evs w (start chip chan ck first w) = es @ [Writel (bell chip chan) (bell_val chan)]"
    "\<forall>v. Writel (bell chip chan) v \<notin> set es"
    using start_bell [OF assms] by blast
  then have "filter (\<lambda>e. \<exists>v. e = Writel (bell chip chan) v) es = []"
    by (auto simp: filter_empty_conv)
  with es(1) show ?thesis
    by simp
qed

end

subsection \<open>The contract of the interrupt handler\<close>

text \<open>The channels an interrupt line serves in one direction: those of its mask that exist.\<close>

definition irq_serves :: "dw_edma \<Rightarrow> dw_edma_irq \<Rightarrow> dw_edma_dir \<Rightarrow> nat \<Rightarrow> bool" where
  "irq_serves dw irq dir q \<longleftrightarrow>
     (if dir = EDMA_DIR_WRITE then q < unat (wr_ch_cnt dw) \<and> bit (wr_mask irq) q
      else unat (wr_ch_cnt dw) \<le> q \<and> q < unat (wr_ch_cnt dw) + unat (rd_ch_cnt dw) \<and>
           bit (rd_mask irq) (q - unat (wr_ch_cnt dw)))"

text \<open>The channel array has one entry per write and per read channel.\<close>

definition dw_wf :: "dw_edma \<Rightarrow> bool" where
  "dw_wf dw \<longleftrightarrow> length (dw_chan dw) = unat (wr_ch_cnt dw) + unat (rd_ch_cnt dw)"

text \<open>A handler that never hits a kernel bug on channels satisfying \<open>I\<close> and keeps \<open>I\<close>.\<close>

definition keeps :: "(dw_edma_chan \<Rightarrow> bool) \<Rightarrow> dw_edma_handler \<Rightarrow> bool" where
  "keeps I h \<longleftrightarrow> (\<forall>c w. I c \<longrightarrow> (\<exists>c' w'. h c w = Some (c', w') \<and> I c'))"

lemma keepsD: "keeps I h \<Longrightarrow> I c \<Longrightarrow> \<exists>c' w'. h c w = Some (c', w') \<and> I c'"
  by (simp add: keeps_def)

locale dma_irq =
  fixes handle :: "dw_edma \<Rightarrow> dw_edma_irq \<Rightarrow> dw_edma_dir \<Rightarrow> dw_edma_handler \<Rightarrow> dw_edma_handler \<Rightarrow>
      world \<Rightarrow> (bool \<times> dw_edma \<times> world) option"
    and ready :: "dw_edma \<Rightarrow> bool"
  assumes ready_chan: "ready (dw\<lparr>dw_chan := cs\<rparr>) = ready dw"
    and handle_only: "handle dw irq dir d a w = Some (ret, dw', w') \<Longrightarrow>
      dw' = dw\<lparr>dw_chan := dw_chan dw'\<rparr> \<and> length (dw_chan dw') = length (dw_chan dw)"
    and handle_other: "handle dw irq dir d a w = Some (ret, dw', w') \<Longrightarrow> \<not> irq_serves dw irq dir q \<Longrightarrow>
      dw_chan dw' ! q = dw_chan dw ! q"
    and handle_keeps: "ready dw \<Longrightarrow> dw_wf dw \<Longrightarrow> \<forall>c \<in> set (dw_chan dw). I c \<Longrightarrow> keeps I d \<Longrightarrow>
      keeps I a \<Longrightarrow> \<exists>ret dw' w'. handle dw irq dir d a w = Some (ret, dw', w') \<and>
        (\<forall>c \<in> set (dw_chan dw'). I c)"
begin

definition handle_both where
  "handle_both dw irq d a w =
     (case handle dw irq EDMA_DIR_WRITE (d dw) a w of
        None \<Rightarrow> None
      | Some (r, dw, w) \<Rightarrow>
          (case handle dw irq EDMA_DIR_READ (d dw) a w of
             None \<Rightarrow> None
           | Some (r', dw, w) \<Rightarrow> Some (r \<or> r', dw, w)))"

lemma handle_counts:
  assumes "handle dw irq dir d a w = Some (ret, dw', w')"
  shows "wr_ch_cnt dw' = wr_ch_cnt dw" "rd_ch_cnt dw' = rd_ch_cnt dw" "dw_wf dw' = dw_wf dw"
    "ready dw' = ready dw"
proof -
  have eq: "dw' = dw\<lparr>dw_chan := dw_chan dw'\<rparr>" and len: "length (dw_chan dw') = length (dw_chan dw)"
    using handle_only [OF assms] by auto
  show "wr_ch_cnt dw' = wr_ch_cnt dw" "rd_ch_cnt dw' = rd_ch_cnt dw"
    using arg_cong [OF eq, of wr_ch_cnt] arg_cong [OF eq, of rd_ch_cnt] by simp_all
  then show "dw_wf dw' = dw_wf dw"
    using len by (simp add: dw_wf_def)
  show "ready dw' = ready dw"
    using arg_cong [OF eq, of ready] ready_chan by simp
qed

text \<open>A line shared by both directions: the write pass, then the read pass.\<close>

lemma handle_both_other:
  assumes "handle_both dw irq d a w = Some (ret, dw', w')"
    "\<not> irq_serves dw irq EDMA_DIR_WRITE q" "\<not> irq_serves dw irq EDMA_DIR_READ q"
  shows "dw_chan dw' ! q = dw_chan dw ! q"
proof (cases "handle dw irq EDMA_DIR_WRITE (d dw) a w")
  case None
  then show ?thesis
    using assms(1) by (simp add: handle_both_def)
next
  case (Some r)
  obtain r1 dw1 w1 where 1: "handle dw irq EDMA_DIR_WRITE (d dw) a w = Some (r1, dw1, w1)"
    using Some by (cases r) simp
  obtain r2 where 2: "handle dw1 irq EDMA_DIR_READ (d dw1) a w1 = Some (r2, dw', w')"
    using assms(1) 1 by (simp add: handle_both_def split: option.splits prod.splits)
  have "\<not> irq_serves dw1 irq EDMA_DIR_READ q"
    using assms(3) handle_counts [OF 1] by (simp add: irq_serves_def)
  then show ?thesis
    using handle_other [OF 1 assms(2)] handle_other [OF 2] by simp
qed

lemma handle_both_keeps:
  assumes "ready dw" "dw_wf dw" "\<forall>c \<in> set (dw_chan dw). I c" "\<And>dw. keeps I (d dw)" "keeps I a"
  shows "\<exists>ret dw' w'. handle_both dw irq d a w = Some (ret, dw', w') \<and> (\<forall>c \<in> set (dw_chan dw'). I c)"
proof -
  obtain r1 dw1 w1 where 1: "handle dw irq EDMA_DIR_WRITE (d dw) a w = Some (r1, dw1, w1)"
    "\<forall>c \<in> set (dw_chan dw1). I c"
    using handle_keeps [OF assms(1-3) assms(4) [of dw] assms(5)] by blast
  obtain r2 dw2 w2 where "handle dw1 irq EDMA_DIR_READ (d dw1) a w1 = Some (r2, dw2, w2)"
    "\<forall>c \<in> set (dw_chan dw2). I c"
    using handle_keeps [OF _ _ 1(2) assms(4) [of dw1] assms(5)] handle_counts [OF 1(1)] assms(1,2)
    by blast
  then show ?thesis
    using 1(1) by (simp add: handle_both_def)
qed

end

end
