(* ===== verification/V0_Core.thy ===== *)
theory V0_Core
  imports Engine
begin

section \<open>The eDMA v0 engine (dw-edma-v0-core.c)\<close>

text \<open>
  The register accesses of \<open>akida-dw-edma/dw-edma-v0-core.c\<close>: channel context access through the
  legacy viewport, the linked list written for a chunk, the start sequence, the interrupt handler
  and the MSI configuration. The spin lock around a viewport access makes the two accesses one
  step, as they are here.
\<close>

definition DW_EDMA_V0_CB :: u32 where "DW_EDMA_V0_CB = BIT 0"

definition DW_EDMA_V0_TCB :: u32 where "DW_EDMA_V0_TCB = BIT 1"

definition DW_EDMA_V0_LLP :: u32 where "DW_EDMA_V0_LLP = BIT 2"

definition DW_EDMA_V0_LIE :: u32 where "DW_EDMA_V0_LIE = BIT 3"

definition DW_EDMA_V0_RIE :: u32 where "DW_EDMA_V0_RIE = BIT 4"

definition DW_EDMA_V0_CCS :: u32 where "DW_EDMA_V0_CCS = BIT 8"

definition DW_EDMA_V0_LLE :: u32 where "DW_EDMA_V0_LLE = BIT 9"

subsection \<open>Global registers\<close>

definition SET_32 :: "dw_edma_chip \<Rightarrow> string \<Rightarrow> u32 \<Rightarrow> world \<Rightarrow> world" where
  "SET_32 chip name v w = writel v (reg_base chip + offsetof dw_edma_v0_regs name) w"

definition GET_32 :: "dw_edma_chip \<Rightarrow> string \<Rightarrow> world \<Rightarrow> u32 \<times> world" where
  "GET_32 chip name w = readl (reg_base chip + offsetof dw_edma_v0_regs name) w"

definition SET_RW_32 :: "dw_edma_chip \<Rightarrow> dw_edma_dir \<Rightarrow> string \<Rightarrow> u32 \<Rightarrow> world \<Rightarrow> world" where
  "SET_RW_32 chip dir name v w = SET_32 chip (rw_name dir name) v w"

definition GET_RW_32 :: "dw_edma_chip \<Rightarrow> dw_edma_dir \<Rightarrow> string \<Rightarrow> world \<Rightarrow> u32 \<times> world" where
  "GET_RW_32 chip dir name w = GET_32 chip (rw_name dir name) w"

definition SET_BOTH_32 :: "dw_edma_chip \<Rightarrow> string \<Rightarrow> u32 \<Rightarrow> world \<Rightarrow> world" where
  "SET_BOTH_32 chip name v w =
     SET_RW_32 chip EDMA_DIR_READ name v (SET_RW_32 chip EDMA_DIR_WRITE name v w)"

definition SET_RW_COMPAT :: "dw_edma_chip \<Rightarrow> dw_edma_dir \<Rightarrow> string \<Rightarrow> u32 \<Rightarrow> world \<Rightarrow> world" where
  "SET_RW_COMPAT chip dir name v w =
     writel v (reg_base chip + offsetof dw_edma_v0_regs ''type'' +
               offsetof dw_edma_v0_unroll (rw_name dir name)) w"

subsection \<open>Channel context registers\<close>

definition dw_ch_regs :: "dw_edma_chip \<Rightarrow> dw_edma_dir \<Rightarrow> nat \<Rightarrow> iomem" where
  "dw_ch_regs chip dir ch =
     (let ty = reg_base chip + offsetof dw_edma_v0_regs ''type'' in
      if chip_mf chip = EDMA_MF_EDMA_LEGACY then ty + offsetof dw_edma_v0_legacy ''ch''
      else if dir = EDMA_DIR_WRITE
      then ty + offsetof dw_edma_v0_unroll ''ch'' + ch * sizeof dw_edma_v0_ch +
           offsetof dw_edma_v0_ch ''wr''
      else ty + offsetof dw_edma_v0_unroll ''ch'' + ch * sizeof dw_edma_v0_ch +
           offsetof dw_edma_v0_ch ''rd'')"

definition viewport_addr :: "dw_edma_chip \<Rightarrow> iomem" where
  "viewport_addr chip = reg_base chip + offsetof dw_edma_v0_regs ''type'' +
     offsetof dw_edma_v0_legacy ''viewport_sel''"

definition viewport_val :: "dw_edma_dir \<Rightarrow> nat \<Rightarrow> u32" where
  "viewport_val dir ch =
     (let viewport_sel = FIELD_PREP EDMA_V0_VIEWPORT_MASK (of_nat ch)
      in if dir = EDMA_DIR_READ then viewport_sel OR BIT 31 else viewport_sel)"

definition writel_ch :: "dw_edma_chip \<Rightarrow> dw_edma_dir \<Rightarrow> nat \<Rightarrow> u32 \<Rightarrow> iomem \<Rightarrow> world \<Rightarrow> world" where
  "writel_ch chip dir ch value addr w =
     (if chip_mf chip = EDMA_MF_EDMA_LEGACY
      then writel value addr (writel (viewport_val dir ch) (viewport_addr chip) w)
      else writel value addr w)"

definition readl_ch :: "dw_edma_chip \<Rightarrow> dw_edma_dir \<Rightarrow> nat \<Rightarrow> iomem \<Rightarrow> world \<Rightarrow> u32 \<times> world" where
  "readl_ch chip dir ch addr w =
     (if chip_mf chip = EDMA_MF_EDMA_LEGACY
      then readl addr (writel (viewport_val dir ch) (viewport_addr chip) w)
      else readl addr w)"

definition SET_CH_32 :: "dw_edma_chip \<Rightarrow> dw_edma_dir \<Rightarrow> nat \<Rightarrow> string \<Rightarrow> u32 \<Rightarrow> world \<Rightarrow> world" where
  "SET_CH_32 chip dir ch name v w =
     writel_ch chip dir ch v (dw_ch_regs chip dir ch + offsetof dw_edma_v0_ch_regs name) w"

definition GET_CH_32 :: "dw_edma_chip \<Rightarrow> dw_edma_dir \<Rightarrow> nat \<Rightarrow> string \<Rightarrow> world \<Rightarrow> u32 \<times> world" where
  "GET_CH_32 chip dir ch name w =
     readl_ch chip dir ch (dw_ch_regs chip dir ch + offsetof dw_edma_v0_ch_regs name) w"

subsection \<open>Management callbacks\<close>

definition dw_edma_v0_core_off :: "dw_edma_chip \<Rightarrow> world \<Rightarrow> world" where
  "dw_edma_v0_core_off chip w =
     (let w = SET_BOTH_32 chip ''int_mask'' (EDMA_V0_DONE_INT_MASK OR EDMA_V0_ABORT_INT_MASK) w;
          w = SET_BOTH_32 chip ''int_clear'' (EDMA_V0_DONE_INT_MASK OR EDMA_V0_ABORT_INT_MASK) w
      in SET_BOTH_32 chip ''engine_en'' 0 w)"

definition dw_edma_v0_core_ch_count :: "dw_edma_chip \<Rightarrow> dw_edma_dir \<Rightarrow> world \<Rightarrow> u16 \<times> world" where
  "dw_edma_v0_core_ch_count chip dir w =
     (let (ctrl, w) = GET_32 chip ''ctrl'' w;
          num_ch = (if dir = EDMA_DIR_WRITE then FIELD_GET EDMA_V0_WRITE_CH_COUNT_MASK ctrl
                    else FIELD_GET EDMA_V0_READ_CH_COUNT_MASK ctrl);
          num_ch = (if num_ch > of_nat EDMA_V0_MAX_NR_CH then of_nat EDMA_V0_MAX_NR_CH else num_ch)
      in (ucast num_ch, w))"

definition dw_edma_v0_core_ch_status ::
  "dw_edma_chip \<Rightarrow> dw_edma_chan \<Rightarrow> world \<Rightarrow> dma_status \<times> world" where
  "dw_edma_v0_core_ch_status chip chan w =
     (let (v, w) = GET_CH_32 chip (ch_dir chan) (ch_id chan) ''ch_control1'' w;
          tmp = FIELD_GET EDMA_V0_CH_STATUS_MASK v
      in (if tmp = 1 then DMA_IN_PROGRESS else if tmp = 3 then DMA_COMPLETE else DMA_ERROR, w))"

definition dw_edma_v0_core_clear_done_int :: "dw_edma_chip \<Rightarrow> dw_edma_chan \<Rightarrow> world \<Rightarrow> world" where
  "dw_edma_v0_core_clear_done_int chip chan w =
     SET_RW_32 chip (ch_dir chan) ''int_clear''
       (FIELD_PREP EDMA_V0_DONE_INT_MASK (BIT (ch_id chan))) w"

definition dw_edma_v0_core_clear_abort_int :: "dw_edma_chip \<Rightarrow> dw_edma_chan \<Rightarrow> world \<Rightarrow> world" where
  "dw_edma_v0_core_clear_abort_int chip chan w =
     SET_RW_32 chip (ch_dir chan) ''int_clear''
       (FIELD_PREP EDMA_V0_ABORT_INT_MASK (BIT (ch_id chan))) w"

definition dw_edma_v0_core_status_done_int ::
  "dw_edma_chip \<Rightarrow> dw_edma_dir \<Rightarrow> world \<Rightarrow> u32 \<times> world" where
  "dw_edma_v0_core_status_done_int chip dir w =
     (let (v, w) = GET_RW_32 chip dir ''int_status'' w in (FIELD_GET EDMA_V0_DONE_INT_MASK v, w))"

definition dw_edma_v0_core_status_abort_int ::
  "dw_edma_chip \<Rightarrow> dw_edma_dir \<Rightarrow> world \<Rightarrow> u32 \<times> world" where
  "dw_edma_v0_core_status_abort_int chip dir w =
     (let (v, w) = GET_RW_32 chip dir ''int_status'' w in (FIELD_GET EDMA_V0_ABORT_INT_MASK v, w))"

subsection \<open>Interrupt handler\<close>

text \<open>The bit positions \<open>for_each_set_bit\<close> visits: the value is sampled before the loop.\<close>

definition set_bits_below :: "u32 \<Rightarrow> nat \<Rightarrow> nat list" where
  "set_bits_below v tot = filter (bit v) [0..<tot]"

text \<open>The body of one \<open>for_each_set_bit\<close> loop: acknowledge, then call the handler.\<close>

fun v0_irq_loop ::
  "(dw_edma_chan \<Rightarrow> world \<Rightarrow> world) \<Rightarrow> dw_edma_handler \<Rightarrow> nat \<Rightarrow> nat list \<Rightarrow>
   dw_edma_chan list \<Rightarrow> world \<Rightarrow> (dw_edma_chan list \<times> world) option" where
  "v0_irq_loop clear handler off [] chans w = Some (chans, w)"
| "v0_irq_loop clear handler off (pos # ps) chans w =
     (case handler (chans ! (pos + off)) (clear (chans ! (pos + off)) w) of
        None \<Rightarrow> None
      | Some (chan, w) \<Rightarrow> v0_irq_loop clear handler off ps (chans[pos + off := chan]) w)"

definition dw_edma_v0_core_handle_int ::
  "dw_edma \<Rightarrow> dw_edma_irq \<Rightarrow> dw_edma_dir \<Rightarrow> dw_edma_handler \<Rightarrow> dw_edma_handler \<Rightarrow> world \<Rightarrow>
   (bool \<times> dw_edma \<times> world) option" where
  "dw_edma_v0_core_handle_int dw dw_irq dir done_h abort_h w =
     (let chip = dw_chip dw;
          (tot, off, mask) =
            (if dir = EDMA_DIR_WRITE then (unat (wr_ch_cnt dw), 0, wr_mask dw_irq)
             else (unat (rd_ch_cnt dw), unat (wr_ch_cnt dw), rd_mask dw_irq));
          (val, w) = dw_edma_v0_core_status_done_int chip dir w;
          done_ps = set_bits_below (val AND mask) tot
      in case v0_irq_loop (dw_edma_v0_core_clear_done_int chip) done_h off done_ps (dw_chan dw) w of
           None \<Rightarrow> None
         | Some (chans, w) \<Rightarrow>
             (let (val, w) = dw_edma_v0_core_status_abort_int chip dir w;
                  abort_ps = set_bits_below (val AND mask) tot
              in case v0_irq_loop (dw_edma_v0_core_clear_abort_int chip) abort_h off abort_ps chans w of
                   None \<Rightarrow> None
                 | Some (chans, w) \<Rightarrow>
                     Some (done_ps \<noteq> [] \<or> abort_ps \<noteq> [], dw\<lparr>dw_chan := chans\<rparr>, w)))"

subsection \<open>Linked list of a chunk\<close>

definition dw_edma_v0_write_ll_data ::
  "dw_edma_chip \<Rightarrow> dw_edma_chunk \<Rightarrow> nat \<Rightarrow> u32 \<Rightarrow> u32 \<Rightarrow> u64 \<Rightarrow> u64 \<Rightarrow> world \<Rightarrow> world" where
  "dw_edma_v0_write_ll_data chip chunk i control sz sar dar w =
     (let lli = vaddr (ll_region chunk) + i * sizeof dw_edma_v0_lli in
      if chip_local chip then
        let w = store32 sz (lli + offsetof dw_edma_v0_lli ''transfer_size'') w;
            w = store64 sar (lli + offsetof dw_edma_v0_lli ''sar.reg'') w;
            w = store64 dar (lli + offsetof dw_edma_v0_lli ''dar.reg'') w;
            w = emit DmaWmb w
        in store32 control (lli + offsetof dw_edma_v0_lli ''control'') w
      else
        let w = writel sz (lli + offsetof dw_edma_v0_lli ''transfer_size'') w;
            w = writeq sar (lli + offsetof dw_edma_v0_lli ''sar.reg'') w;
            w = writeq dar (lli + offsetof dw_edma_v0_lli ''dar.reg'') w
        in writel control (lli + offsetof dw_edma_v0_lli ''control'') w)"

definition dw_edma_v0_write_ll_link ::
  "dw_edma_chip \<Rightarrow> dw_edma_chunk \<Rightarrow> nat \<Rightarrow> u32 \<Rightarrow> u64 \<Rightarrow> world \<Rightarrow> world" where
  "dw_edma_v0_write_ll_link chip chunk i control pointer w =
     (let llp = vaddr (ll_region chunk) + i * sizeof dw_edma_v0_lli in
      if chip_local chip then
        let w = store64 pointer (llp + offsetof dw_edma_v0_llp ''llp.reg'') w;
            w = emit DmaWmb w
        in store32 control (llp + offsetof dw_edma_v0_llp ''control'') w
      else
        let w = writeq pointer (llp + offsetof dw_edma_v0_llp ''llp.reg'') w
        in writel control (llp + offsetof dw_edma_v0_llp ''control'') w)"

text \<open>The loop over the bursts: \<open>j\<close> counts down from \<open>bursts_alloc\<close>, \<open>i\<close> counts up.\<close>

fun v0_write_bursts ::
  "dw_edma_chip \<Rightarrow> dw_edma_chunk \<Rightarrow> dw_edma_burst list \<Rightarrow> int \<Rightarrow> nat \<Rightarrow> u32 \<Rightarrow> world \<Rightarrow> nat \<times> world" where
  "v0_write_bursts chip chunk [] j i control w = (i, w)"
| "v0_write_bursts chip chunk (child # bs) j i control w =
     (let j = j - 1;
          control = (if j = 0
                     then control OR DW_EDMA_V0_LIE OR (if chip_local chip then 0 else DW_EDMA_V0_RIE)
                     else control);
          w = dw_edma_v0_write_ll_data chip chunk i control (b_sz child) (b_sar child) (b_dar child) w
      in v0_write_bursts chip chunk bs j (Suc i) control w)"

definition dw_edma_v0_core_write_chunk :: "dw_edma_chip \<Rightarrow> dw_edma_chunk \<Rightarrow> world \<Rightarrow> world" where
  "dw_edma_v0_core_write_chunk chip chunk w =
     (let control = (if ck_cb chunk \<noteq> 0 then DW_EDMA_V0_CB else 0);
          (i, w) = v0_write_bursts chip chunk (bursts chunk) (sint (bursts_alloc chunk)) 0 control w;
          control = DW_EDMA_V0_LLP OR DW_EDMA_V0_TCB;
          control = (if ck_cb chunk = 0 then control OR DW_EDMA_V0_CB else control)
      in dw_edma_v0_write_ll_link chip chunk i control (paddr (ll_region chunk)) w)"

subsection \<open>Starting a chunk\<close>

definition pwr_en_name :: "nat \<Rightarrow> string" where
  "pwr_en_name i = [''ch0_pwr_en'', ''ch1_pwr_en'', ''ch2_pwr_en'', ''ch3_pwr_en'',
                    ''ch4_pwr_en'', ''ch5_pwr_en'', ''ch6_pwr_en'', ''ch7_pwr_en''] ! i"

text \<open>The part of the start sequence under \<open>if (first)\<close>.\<close>

definition v0_start_first :: "dw_edma_chip \<Rightarrow> dw_edma_chan \<Rightarrow> dw_edma_chunk \<Rightarrow> world \<Rightarrow> world" where
  "v0_start_first chip chan chunk w =
     (let dir = ch_dir chan; i = ch_id chan;
          w = SET_RW_32 chip dir ''engine_en'' (BIT 0) w;
          w = (if chip_mf chip = EDMA_MF_HDMA_COMPAT \<and> i < 8
               then SET_RW_COMPAT chip dir (pwr_en_name i) (BIT 0) w else w);
          (tmp, w) = GET_RW_32 chip dir ''int_mask'' w;
          tmp = tmp AND NOT (FIELD_PREP EDMA_V0_DONE_INT_MASK (BIT i));
          tmp = tmp AND NOT (FIELD_PREP EDMA_V0_ABORT_INT_MASK (BIT i));
          w = SET_RW_32 chip dir ''int_mask'' tmp w;
          (tmp, w) = GET_RW_32 chip dir ''linked_list_err_en'' w;
          tmp = tmp OR FIELD_PREP EDMA_V0_LINKED_LIST_ERR_MASK (BIT i);
          w = SET_RW_32 chip dir ''linked_list_err_en'' tmp w;
          w = SET_CH_32 chip dir i ''ch_control1'' (DW_EDMA_V0_CCS OR DW_EDMA_V0_LLE) w;
          w = SET_CH_32 chip dir i ''llp.lsb'' (lower_32_bits (paddr (ll_region chunk))) w
      in SET_CH_32 chip dir i ''llp.msb'' (upper_32_bits (paddr (ll_region chunk))) w)"

definition dw_edma_v0_core_start ::
  "dw_edma_chip \<Rightarrow> dw_edma_chan \<Rightarrow> dw_edma_chunk \<Rightarrow> bool \<Rightarrow> world \<Rightarrow> world" where
  "dw_edma_v0_core_start chip chan chunk first w =
     (let w = dw_edma_v0_core_write_chunk chip chunk w;
          w = (if first then v0_start_first chip chan chunk w else w);
          w = (if \<not> chip_local chip then snd (readl (vaddr (ll_region chunk)) w) else w)
      in SET_RW_32 chip (ch_dir chan) ''doorbell''
           (FIELD_PREP EDMA_V0_DOORBELL_CH_MASK (of_nat (ch_id chan))) w)"

subsection \<open>MSI configuration\<close>

definition imwr_name :: "nat \<Rightarrow> string" where
  "imwr_name i = [''ch01_imwr_data'', ''ch23_imwr_data'', ''ch45_imwr_data'', ''ch67_imwr_data''] ! (i div 2)"

definition dw_edma_v0_core_ch_config :: "dw_edma_chip \<Rightarrow> dw_edma_chan \<Rightarrow> world \<Rightarrow> world" where
  "dw_edma_v0_core_ch_config chip chan w =
     (let dir = ch_dir chan; i = ch_id chan;
          w = SET_RW_32 chip dir ''done_imwr.lsb'' (address_lo (ch_msi chan)) w;
          w = SET_RW_32 chip dir ''done_imwr.msb'' (address_hi (ch_msi chan)) w;
          w = SET_RW_32 chip dir ''abort_imwr.lsb'' (address_lo (ch_msi chan)) w;
          w = SET_RW_32 chip dir ''abort_imwr.msb'' (address_hi (ch_msi chan)) w;
          (tmp, w) = (if i < 8 then GET_RW_32 chip dir (imwr_name i) w else (0, w));
          tmp = (if odd i
                 then tmp AND EDMA_V0_CH_EVEN_MSI_DATA_MASK OR
                      FIELD_PREP EDMA_V0_CH_ODD_MSI_DATA_MASK (msi_data (ch_msi chan))
                 else tmp AND EDMA_V0_CH_ODD_MSI_DATA_MASK OR
                      FIELD_PREP EDMA_V0_CH_EVEN_MSI_DATA_MASK (msi_data (ch_msi chan)))
      in if i < 8 then SET_RW_32 chip dir (imwr_name i) tmp w else w)"

definition dw_edma_v0_core_register :: "dw_edma \<Rightarrow> dw_edma" where
  "dw_edma_v0_core_register dw = dw\<lparr>dw_core := CORE_V0\<rparr>"

subsection \<open>Lemmas: the linked list in memory\<close>

lemmas v0_control_defs = DW_EDMA_V0_CB_def DW_EDMA_V0_TCB_def DW_EDMA_V0_LLP_def
  DW_EDMA_V0_LIE_def DW_EDMA_V0_RIE_def

lemma io_only_write_ll_data [simp, intro]:
  "io_only w w' \<Longrightarrow> io_only w (dw_edma_v0_write_ll_data chip ck i c s sa da w')"
  by (auto simp: dw_edma_v0_write_ll_data_def Let_def intro!: io_only_emitI)

lemma io_only_write_ll_link [simp, intro]:
  "io_only w w' \<Longrightarrow> io_only w (dw_edma_v0_write_ll_link chip ck i c p w')"
  by (auto simp: dw_edma_v0_write_ll_link_def Let_def intro!: io_only_emitI)

lemma memx_write_ll_data [memx_simps]:
  fixes chip ck i
  defines "a \<equiv> vaddr (ll_region ck) + i * 24"
  assumes "io_only w w'"
  shows "memx m w (dw_edma_v0_write_ll_data chip ck i c s sa da w') =
     (memx m w w')(a + 4 \<mapsto> s, a + 8 \<mapsto> lower_32_bits sa, a + 12 \<mapsto> upper_32_bits sa,
       a + 16 \<mapsto> lower_32_bits da, a + 20 \<mapsto> upper_32_bits da, a \<mapsto> c)"
  using assms(2)
  by (simp add: dw_edma_v0_write_ll_data_def a_def Let_def memx_simps layout_simps io_only_emitI
      add.assoc)

lemma memx_write_ll_link [memx_simps]:
  fixes chip ck i
  defines "a \<equiv> vaddr (ll_region ck) + i * 24"
  assumes "io_only w w'"
  shows "memx m w (dw_edma_v0_write_ll_link chip ck i c p w') =
     (memx m w w')(a + 8 \<mapsto> lower_32_bits p, a + 12 \<mapsto> upper_32_bits p, a \<mapsto> c)"
  using assms(2)
  by (simp add: dw_edma_v0_write_ll_link_def a_def Let_def memx_simps layout_simps io_only_emitI
      add.assoc)

lemma v0_write_bursts_io [simp, intro]:
  "io_only w w' \<Longrightarrow> io_only w (snd (v0_write_bursts chip ck bs j i c w'))"
  by (induction chip ck bs j i c w' rule: v0_write_bursts.induct) (auto simp: Let_def)

lemma v0_write_bursts_count [simp]: "fst (v0_write_bursts chip ck bs j i c w) = i + length bs"
  by (induction chip ck bs j i c w rule: v0_write_bursts.induct) (auto simp: Let_def)

text \<open>The loop leaves everything outside its own elements alone.\<close>

lemma v0_write_bursts_frame:
  assumes "io_only w w'"
    and "a < vaddr (ll_region ck) + i * 24 \<or> vaddr (ll_region ck) + (i + length bs) * 24 \<le> a"
  shows "memx m w (snd (v0_write_bursts chip ck bs j i c w')) a = memx m w w' a"
  using assms
proof (induction chip ck bs j i c w' rule: v0_write_bursts.induct)
  case (1 chip ck j i c w')
  then show ?case by simp
next
  case (2 chip ck child bs j i c w')
  let ?c = "if j - 1 = 0 then c OR DW_EDMA_V0_LIE OR (if chip_local chip then 0 else DW_EDMA_V0_RIE) else c"
  let ?w = "dw_edma_v0_write_ll_data chip ck i ?c (b_sz child) (b_sar child) (b_dar child) w'"
  have "memx m w (snd (v0_write_bursts chip ck bs (j - 1) (Suc i) ?c ?w)) a = memx m w ?w a"
    using 2 by (auto simp: Let_def)
  also have "\<dots> = memx m w w' a"
    using 2(2,3) by (auto simp: memx_simps)
  finally show ?case by (simp add: Let_def)
qed

lemma v0_write_bursts_mem:
  assumes "io_only w w'" and "k < length bs"
  shows "read_lli (memx m w (snd (v0_write_bursts chip ck bs (int (length bs)) i c w')))
           (vaddr (ll_region ck) + (i + k) * 24) =
         Some (c OR (if Suc k = length bs
                     then DW_EDMA_V0_LIE OR (if chip_local chip then 0 else DW_EDMA_V0_RIE) else 0),
               b_sz (bs ! k), b_sar (bs ! k), b_dar (bs ! k))"
  using assms
proof (induction bs arbitrary: i k w')
  case Nil
  then show ?case by simp
next
  case (Cons child bs)
  let ?c = "if bs = [] then c OR DW_EDMA_V0_LIE OR (if chip_local chip then 0 else DW_EDMA_V0_RIE) else c"
  let ?w = "dw_edma_v0_write_ll_data chip ck i ?c (b_sz child) (b_sar child) (b_dar child) w'"
  let ?m = "memx m w (snd (v0_write_bursts chip ck bs (int (length bs)) (Suc i) ?c ?w))"
  have unfold: "v0_write_bursts chip ck (child # bs) (int (length (child # bs))) i c w' =
      v0_write_bursts chip ck bs (int (length bs)) (Suc i) ?c ?w"
    by (simp add: Let_def)
  have io: "io_only w ?w"
    using Cons.prems(1) by simp
  show ?case
  proof (cases k)
    case 0
    have "read_lli ?m (vaddr (ll_region ck) + i * 24) =
        read_lli (memx m w ?w) (vaddr (ll_region ck) + i * 24)"
      by (rule read_lli_cong, rule v0_write_bursts_frame [OF io]) simp
    also have "\<dots> = Some (?c, b_sz child, b_sar child, b_dar child)"
      unfolding memx_write_ll_data [OF Cons.prems(1)] by (rule read_lli_written)
    finally show ?thesis
      using 0 by (simp only: unfold) (simp add: or.assoc)
  next
    case (Suc k')
    then have "k' < length bs" and "bs \<noteq> []"
      using Cons.prems(2) by auto
    then show ?thesis
      using Cons.IH [OF io, of k' "Suc i"] Suc by (simp only: unfold) simp
  qed
qed

lemma v0_write_chunk_eq:
  "dw_edma_v0_core_write_chunk chip ck w =
     dw_edma_v0_write_ll_link chip ck (length (bursts ck)) (llp_control ck) (paddr (ll_region ck))
       (snd (v0_write_bursts chip ck (bursts ck) (sint (bursts_alloc ck)) 0
              (if ck_cb ck \<noteq> 0 then DW_EDMA_V0_CB else 0) w))"
  by (simp add: dw_edma_v0_core_write_chunk_def split_beta Let_def llp_control_def or.assoc
      v0_control_defs)

lemma io_only_v0_write_chunk [simp, intro]:
  "io_only w w' \<Longrightarrow> io_only w (dw_edma_v0_core_write_chunk chip ck w')"
  by (simp add: v0_write_chunk_eq)

lemma v0_write_chunk_holds:
  assumes io: "io_only w w'" and cnt: "burst_count_ok ck"
  shows "ll_holds chip ck (memx m w (dw_edma_v0_core_write_chunk chip ck w'))"
proof -
  let ?c = "if ck_cb ck \<noteq> 0 then DW_EDMA_V0_CB else 0"
  let ?w = "snd (v0_write_bursts chip ck (bursts ck) (sint (bursts_alloc ck)) 0 ?c w')"
  let ?base = "vaddr (ll_region ck)"
  let ?n = "length (bursts ck)"
  have io': "io_only w ?w"
    using io by simp
  have m: "memx m w (dw_edma_v0_core_write_chunk chip ck w') =
      (memx m w ?w)(?base + ?n * 24 + 8 \<mapsto> lower_32_bits (paddr (ll_region ck)),
        ?base + ?n * 24 + 12 \<mapsto> upper_32_bits (paddr (ll_region ck)),
        ?base + ?n * 24 \<mapsto> llp_control ck)" (is "?m = _")
    unfolding v0_write_chunk_eq memx_write_ll_link [OF io'] by simp
  have "read_lli ?m (?base + i * 24) =
      Some (lli_control chip ck i, b_sz (bursts ck ! i), b_sar (bursts ck ! i), b_dar (bursts ck ! i))"
    if "i < ?n" for i
  proof -
    have "read_lli ?m (?base + i * 24) = read_lli (memx m w ?w) (?base + i * 24)"
      using that by (intro read_lli_cong) (simp add: m)
    then show ?thesis
      using v0_write_bursts_mem [OF io that, of m chip ck 0 ?c] cnt
      by (simp add: burst_count_ok_def lli_control_def v0_control_defs)
  qed
  moreover have "read_llp ?m (?base + ?n * 24) = Some (llp_control ck, paddr (ll_region ck))"
    by (simp add: read_llp_def m)
  ultimately show ?thesis
    by (simp add: ll_holds_def)
qed

lemma v0_write_chunk_frame:
  assumes "io_only w w'"
    and "a < vaddr (ll_region ck) \<or> vaddr (ll_region ck) + length (bursts ck) * 24 + 16 \<le> a"
  shows "memx m w (dw_edma_v0_core_write_chunk chip ck w') a = memx m w w' a"
proof -
  let ?w = "snd (v0_write_bursts chip ck (bursts ck) (sint (bursts_alloc ck)) 0
                   (if ck_cb ck \<noteq> 0 then DW_EDMA_V0_CB else 0) w')"
  have io: "io_only w ?w"
    using assms(1) by simp
  have "memx m w (dw_edma_v0_core_write_chunk chip ck w') a = memx m w ?w a"
    using assms(2) unfolding v0_write_chunk_eq memx_write_ll_link [OF io] by auto
  also have "\<dots> = memx m w w' a"
    using assms by (intro v0_write_bursts_frame) auto
  finally show ?thesis .
qed

text \<open>The chunk is written inside its own region.\<close>

lemma writes_in_write_ll_data:
  "writes_in (in_ll ck) w w' \<Longrightarrow> i < length (bursts ck) \<Longrightarrow>
   writes_in (in_ll ck) w (dw_edma_v0_write_ll_data chip ck i c s sa da w')"
  by (auto simp: dw_edma_v0_write_ll_data_def Let_def layout_simps in_ll_def
      intro!: writes_in_store writes_in_wmb writes_in_writel writes_in_writeq)

lemma writes_in_write_ll_link:
  "writes_in (in_ll ck) w w' \<Longrightarrow>
   writes_in (in_ll ck) w (dw_edma_v0_write_ll_link chip ck (length (bursts ck)) c p w')"
  by (auto simp: dw_edma_v0_write_ll_link_def Let_def layout_simps in_ll_def
      intro!: writes_in_store writes_in_wmb writes_in_writel writes_in_writeq)

lemma writes_in_v0_write_bursts:
  assumes "writes_in (in_ll ck) w w'" "i + length bs \<le> length (bursts ck)"
  shows "writes_in (in_ll ck) w (snd (v0_write_bursts chip ck bs j i c w'))"
  using assms
  by (induction chip ck bs j i c w' rule: v0_write_bursts.induct)
    (auto simp: Let_def writes_in_write_ll_data)

lemma writes_in_v0_write_chunk: "writes_in (in_ll ck) w (dw_edma_v0_core_write_chunk chip ck w)"
  unfolding v0_write_chunk_eq
  by (intro writes_in_write_ll_link writes_in_v0_write_bursts) auto

subsection \<open>Lemmas: the start sequence\<close>

definition v0_bell :: "dw_edma_chip \<Rightarrow> dw_edma_chan \<Rightarrow> iomem" where
  "v0_bell chip chan = reg_base chip + (if ch_dir chan = EDMA_DIR_WRITE then 0x10 else 0x30)"

definition v0_bell_val :: "dw_edma_chan \<Rightarrow> u32" where
  "v0_bell_val chan = FIELD_PREP EDMA_V0_DOORBELL_CH_MASK (of_nat (ch_id chan))"

text \<open>Window addresses other than a channel's doorbell.\<close>

definition v0_not_bell :: "dw_edma_chip \<Rightarrow> dw_edma_chan \<Rightarrow> iomem \<Rightarrow> bool" where
  "v0_not_bell chip chan a \<longleftrightarrow> in_regs chip a \<and> a \<noteq> v0_bell chip chan"

lemmas v0_reg_defs = SET_RW_32_def SET_32_def GET_RW_32_def GET_32_def SET_CH_32_def GET_CH_32_def
  SET_RW_COMPAT_def SET_BOTH_32_def

lemma nat_less_8: "(i::nat) < 8 \<longleftrightarrow> i \<in> {0,1,2,3,4,5,6,7}"
  by auto

lemma pwr_en_wr_offsets:
  "offsetof dw_edma_v0_unroll ''wr_ch0_pwr_en'' = 0x2c" "offsetof dw_edma_v0_unroll ''wr_ch1_pwr_en'' = 0x30"
  "offsetof dw_edma_v0_unroll ''wr_ch2_pwr_en'' = 0x34" "offsetof dw_edma_v0_unroll ''wr_ch3_pwr_en'' = 0x38"
  "offsetof dw_edma_v0_unroll ''wr_ch4_pwr_en'' = 0x3c" "offsetof dw_edma_v0_unroll ''wr_ch5_pwr_en'' = 0x40"
  "offsetof dw_edma_v0_unroll ''wr_ch6_pwr_en'' = 0x44" "offsetof dw_edma_v0_unroll ''wr_ch7_pwr_en'' = 0x48"
  by (simp_all add: dw_edma_v0_unroll_def)

lemma pwr_en_rd_offsets:
  "offsetof dw_edma_v0_unroll ''rd_ch0_pwr_en'' = 0x6c" "offsetof dw_edma_v0_unroll ''rd_ch1_pwr_en'' = 0x70"
  "offsetof dw_edma_v0_unroll ''rd_ch2_pwr_en'' = 0x74" "offsetof dw_edma_v0_unroll ''rd_ch3_pwr_en'' = 0x78"
  "offsetof dw_edma_v0_unroll ''rd_ch4_pwr_en'' = 0x7c" "offsetof dw_edma_v0_unroll ''rd_ch5_pwr_en'' = 0x80"
  "offsetof dw_edma_v0_unroll ''rd_ch6_pwr_en'' = 0x84" "offsetof dw_edma_v0_unroll ''rd_ch7_pwr_en'' = 0x88"
  by (simp_all add: dw_edma_v0_unroll_def)

lemma pwr_en_names:
  "rw_name EDMA_DIR_WRITE (pwr_en_name i) =
     [''wr_ch0_pwr_en'', ''wr_ch1_pwr_en'', ''wr_ch2_pwr_en'', ''wr_ch3_pwr_en'',
      ''wr_ch4_pwr_en'', ''wr_ch5_pwr_en'', ''wr_ch6_pwr_en'', ''wr_ch7_pwr_en''] ! i"
  "rw_name EDMA_DIR_READ (pwr_en_name i) =
     [''rd_ch0_pwr_en'', ''rd_ch1_pwr_en'', ''rd_ch2_pwr_en'', ''rd_ch3_pwr_en'',
      ''rd_ch4_pwr_en'', ''rd_ch5_pwr_en'', ''rd_ch6_pwr_en'', ''rd_ch7_pwr_en''] ! i"
  if "i < 8"
  using that unfolding nat_less_8 by (elim insertE; simp add: rw_name_def pwr_en_name_def)+

lemma pwr_en_offset [layout_simps]:
  assumes "i < 8"
  shows "offsetof dw_edma_v0_unroll (rw_name dir (pwr_en_name i)) =
     (if dir = EDMA_DIR_WRITE then 0x2c + 4 * i else 0x6c + 4 * i)"
proof (cases dir)
  case EDMA_DIR_WRITE
  show ?thesis
    unfolding EDMA_DIR_WRITE pwr_en_names(1) [OF assms] using assms unfolding nat_less_8
    by (elim insertE; simp add: pwr_en_wr_offsets del: offsetof.simps)
next
  case EDMA_DIR_READ
  show ?thesis
    unfolding EDMA_DIR_READ pwr_en_names(2) [OF assms] using assms unfolding nat_less_8
    by (elim insertE; simp add: pwr_en_rd_offsets del: offsetof.simps)
qed

lemma writes_in_SET_RW:
  assumes "writes_in P w w'" "P (reg_base chip + offsetof dw_edma_v0_regs (rw_name dir n))"
  shows "writes_in P w (SET_RW_32 chip dir n v w')"
  using assms by (simp add: v0_reg_defs)

lemma writes_in_GET_RW: "writes_in P w w' \<Longrightarrow> writes_in P w (snd (GET_RW_32 chip dir n w'))"
  by (simp add: v0_reg_defs)

lemma writes_in_SET_CH:
  assumes "writes_in P w w'" "P (viewport_addr chip)"
    "P (dw_ch_regs chip dir ch + offsetof dw_edma_v0_ch_regs n)"
  shows "writes_in P w (SET_CH_32 chip dir ch n v w')"
  using assms by (simp add: SET_CH_32_def writel_ch_def)

lemma writes_in_SET_COMPAT:
  assumes "writes_in P w w'" "P (reg_base chip + (0xfc + offsetof dw_edma_v0_unroll (rw_name dir n)))"
  shows "writes_in P w (SET_RW_COMPAT chip dir n v w')"
  using assms by (simp add: SET_RW_COMPAT_def layout_simps add.assoc)

lemma v0_not_bell_offset:
  "v0_not_bell chip chan (reg_base chip + k) \<longleftrightarrow>
     k < 0x1200 \<and> k \<noteq> (if ch_dir chan = EDMA_DIR_WRITE then 0x10 else 0x30)"
  by (auto simp: v0_not_bell_def in_regs_def v0_bell_def)

lemma v0_not_bell_viewport: "v0_not_bell chip chan (viewport_addr chip)"
  by (simp add: viewport_addr_def layout_simps v0_not_bell_offset add.assoc)

lemma v0_not_bell_ch:
  "k < 0x100 \<Longrightarrow> i < 8 \<Longrightarrow> v0_not_bell chip chan (dw_ch_regs chip dir i + k)"
  by (auto simp: dw_ch_regs_def Let_def layout_simps v0_not_bell_offset add.assoc)

lemmas v0_not_bell_ch0 = v0_not_bell_ch [of 0, simplified]

lemma writes_in_v0_start_first:
  assumes "ch_id chan < 8" "writes_in (v0_not_bell chip chan) w w'"
  shows "writes_in (v0_not_bell chip chan) w (v0_start_first chip chan ck w')"
  unfolding v0_start_first_def Let_def case_prod_beta
  using assms
  by (cases "ch_dir chan")
    (auto simp: layout_simps v0_not_bell_viewport v0_not_bell_ch v0_not_bell_ch0 v0_not_bell_offset
      intro!: writes_in_SET_CH writes_in_SET_RW writes_in_GET_RW writes_in_SET_COMPAT)

text \<open>The world in which the doorbell is rung.\<close>

definition v0_start_prefix ::
  "dw_edma_chip \<Rightarrow> dw_edma_chan \<Rightarrow> dw_edma_chunk \<Rightarrow> bool \<Rightarrow> world \<Rightarrow> world" where
  "v0_start_prefix chip chan ck first w =
     (let w = dw_edma_v0_core_write_chunk chip ck w;
          w = (if first then v0_start_first chip chan ck w else w)
      in if \<not> chip_local chip then snd (readl (vaddr (ll_region ck)) w) else w)"

lemma v0_start_eq:
  "dw_edma_v0_core_start chip chan ck first w =
     writel (v0_bell_val chan) (v0_bell chip chan) (v0_start_prefix chip chan ck first w)"
  by (cases "ch_dir chan")
    (simp_all add: dw_edma_v0_core_start_def v0_start_prefix_def Let_def v0_bell_def v0_bell_val_def
      v0_reg_defs layout_simps)

lemma v0_start_prefix_writes:
  assumes "ch_id chan < 8"
  shows "writes_in (v0_not_bell chip chan) (dw_edma_v0_core_write_chunk chip ck w)
           (v0_start_prefix chip chan ck first w)"
  using assms by (auto simp: v0_start_prefix_def Let_def intro!: writes_in_v0_start_first)

lemma io_only_v0_start_first [simp, intro]:
  "io_only w w' \<Longrightarrow> io_only w (v0_start_first chip chan ck w')"
  by (auto simp: v0_start_first_def Let_def case_prod_beta v0_reg_defs writel_ch_def)

lemma io_only_v0_start_prefix [simp, intro]:
  "io_only w w' \<Longrightarrow> io_only w (v0_start_prefix chip chan ck first w')"
  by (auto simp: v0_start_prefix_def Let_def)

text \<open>Up to the doorbell the list is in memory and the doorbell untouched.\<close>

lemma v0_start_prefix_no_bell:
  assumes "ll_clear chip ck" "ch_id chan < 8"
  shows "writes_in (\<lambda>a. a \<noteq> v0_bell chip chan) w (v0_start_prefix chip chan ck first w)"
proof (rule writes_in_trans)
  have "\<not> in_ll ck (v0_bell chip chan)"
    using assms by (auto simp: ll_clear_def in_ll_def v0_bell_def)
  then show "writes_in (\<lambda>a. a \<noteq> v0_bell chip chan) w (dw_edma_v0_core_write_chunk chip ck w)"
    by (intro writes_in_mono [OF writes_in_v0_write_chunk]) auto
  show "writes_in (\<lambda>a. a \<noteq> v0_bell chip chan) (dw_edma_v0_core_write_chunk chip ck w)
          (v0_start_prefix chip chan ck first w)"
    by (rule writes_in_mono [OF v0_start_prefix_writes [OF assms(2)]]) (simp add: v0_not_bell_def)
qed

lemma v0_start_prefix_holds:
  assumes "burst_count_ok ck" "ll_clear chip ck" "ch_id chan < 8"
  shows "ll_holds chip ck (memx m w (v0_start_prefix chip chan ck first w))"
  using assms
  by (intro ll_holds_writes [OF _ _ v0_start_prefix_writes [OF assms(3)]])
    (auto intro: v0_write_chunk_holds dest: ll_clear_disjoint simp: v0_not_bell_def)

interpretation v0: dma_engine dw_edma_v0_core_start v0_bell v0_bell_val
proof
  fix w chip chan ck first m
  show "io_only w (dw_edma_v0_core_start chip chan ck first w)"
    by (simp add: v0_start_eq)
  assume ok: "burst_count_ok ck" "ll_clear chip ck" "ch_id chan < 8"
  let ?p = "v0_start_prefix chip chan ck first w"
  have "new_evs w (dw_edma_v0_core_start chip chan ck first w) =
      new_evs w ?p @ [Writel (v0_bell chip chan) (v0_bell_val chan)]"
    by (simp add: v0_start_eq new_evs_writel)
  moreover have "\<forall>v. Writel (v0_bell chip chan) v \<notin> set (new_evs w ?p)"
    using writes_in_no_bell [OF v0_start_prefix_no_bell [OF ok(2,3)]] by blast
  moreover have "ll_holds chip ck (fold store_ev (new_evs w ?p) m)"
    using v0_start_prefix_holds [OF ok] by (simp add: memx_def)
  ultimately show "\<exists>es. new_evs w (dw_edma_v0_core_start chip chan ck first w) =
        es @ [Writel (v0_bell chip chan) (v0_bell_val chan)] \<and>
      (\<forall>v. Writel (v0_bell chip chan) v \<notin> set es) \<and> ll_holds chip ck (fold store_ev es m)"
    by blast
qed

subsection \<open>Lemmas: the viewport\<close>

fun ev_reads :: "ev \<Rightarrow> iomem set" where
  "ev_reads (Readl a) = {a}"
| "ev_reads _ = {}"

definition in_ctx :: "dw_edma_chip \<Rightarrow> iomem \<Rightarrow> bool" where
  "in_ctx chip a \<longleftrightarrow> reg_base chip + 0x100 \<le> a \<and> a < reg_base chip + 0x124"

definition touches_ctx :: "dw_edma_chip \<Rightarrow> ev \<Rightarrow> bool" where
  "touches_ctx chip e \<longleftrightarrow> (\<exists>a \<in> ev_writes e \<union> ev_reads e. in_ctx chip a)"

fun ctx_guarded :: "dw_edma_chip \<Rightarrow> u32 \<Rightarrow> ev option \<Rightarrow> ev list \<Rightarrow> bool" where
  "ctx_guarded chip v prev [] \<longleftrightarrow> True"
| "ctx_guarded chip v prev (e # es) \<longleftrightarrow>
     (touches_ctx chip e \<longrightarrow> prev = Some (Writel (viewport_addr chip) v)) \<and>
     ctx_guarded chip v (Some e) es"

definition guarded :: "dw_edma_chip \<Rightarrow> u32 \<Rightarrow> world \<Rightarrow> world \<Rightarrow> bool" where
  "guarded chip v w w' \<longleftrightarrow> io_only w w' \<and> (\<forall>p. ctx_guarded chip v p (new_evs w w'))"

lemma ctx_guarded_snoc:
  "ctx_guarded chip v p (es @ [e]) \<longleftrightarrow> ctx_guarded chip v p es \<and>
     (touches_ctx chip e \<longrightarrow> (if es = [] then p else Some (last es)) = Some (Writel (viewport_addr chip) v))"
  by (induction es arbitrary: p) auto

lemma ctx_guarded_append:
  "ctx_guarded chip v p (xs @ ys) \<longleftrightarrow> ctx_guarded chip v p xs \<and>
     ctx_guarded chip v (if xs = [] then p else Some (last xs)) ys"
  by (induction xs arbitrary: p) auto

lemma ctx_guarded_quiet: "(\<And>e. e \<in> set es \<Longrightarrow> \<not> touches_ctx chip e) \<Longrightarrow> ctx_guarded chip v p es"
  by (induction es arbitrary: p) auto

lemma guarded_refl [simp]: "guarded chip v w w"
  by (simp add: guarded_def)

lemma guarded_trans_quiet:
  "guarded chip v w w' \<Longrightarrow> \<not> touches_ctx chip e \<Longrightarrow> guarded chip v w (emit e w')"
  by (auto simp: guarded_def new_evs_emit ctx_guarded_snoc io_only_emitI)

lemma guarded_writel:
  "guarded chip v w w' \<Longrightarrow> \<not> in_ctx chip a \<Longrightarrow> guarded chip v w (writel x a w')"
  by (simp add: writel_def guarded_trans_quiet touches_ctx_def)

lemma guarded_readl:
  "guarded chip v w w' \<Longrightarrow> \<not> in_ctx chip a \<Longrightarrow> guarded chip v w (snd (readl a w'))"
  by (simp add: readl_def guarded_trans_quiet touches_ctx_def)

lemma in_ctx_offset: "in_ctx chip (reg_base chip + k) \<longleftrightarrow> 0x100 \<le> k \<and> k < 0x124"
  by (auto simp: in_ctx_def)

lemma guarded_writeq:
  "guarded chip v w w' \<Longrightarrow> \<not> in_ctx chip a \<Longrightarrow> \<not> in_ctx chip (a + 4) \<Longrightarrow> guarded chip v w (writeq x a w')"
  by (auto simp: writeq_def writel_def touches_ctx_def intro!: guarded_trans_quiet)

lemma guarded_store:
  "guarded chip v w w' \<Longrightarrow> \<not> in_ctx chip a \<Longrightarrow> guarded chip v w (store32 x a w')"
  "guarded chip v w w' \<Longrightarrow> \<not> in_ctx chip a \<Longrightarrow> \<not> in_ctx chip (a + 4) \<Longrightarrow> guarded chip v w (store64 y a w')"
  "guarded chip v w w' \<Longrightarrow> guarded chip v w (emit DmaWmb w')"
  by (auto simp: store32_def store64_def touches_ctx_def intro!: guarded_trans_quiet)

lemma guarded_viewport_access:
  assumes "guarded chip v w w'" "e = Writel a x \<or> e = Readl a"
  shows "guarded chip v w (emit e (writel v (viewport_addr chip) w'))"
  using assms
  by (auto simp: guarded_def writel_def new_evs_emit io_only_emitI ctx_guarded_append touches_ctx_def
      viewport_addr_def layout_simps in_ctx_offset)

lemma guarded_SET_CH:
  "chip_mf chip = EDMA_MF_EDMA_LEGACY \<Longrightarrow> guarded chip (viewport_val dir ch) w w' \<Longrightarrow>
   guarded chip (viewport_val dir ch) w (SET_CH_32 chip dir ch n x w')"
  using guarded_viewport_access by (simp add: SET_CH_32_def writel_ch_def writel_def)

lemma guarded_GET_CH:
  "chip_mf chip = EDMA_MF_EDMA_LEGACY \<Longrightarrow> guarded chip (viewport_val dir ch) w w' \<Longrightarrow>
   guarded chip (viewport_val dir ch) w (snd (GET_CH_32 chip dir ch n w'))"
  using guarded_viewport_access by (simp add: GET_CH_32_def readl_ch_def writel_def readl_def)

lemma guarded_SET_RW:
  assumes "guarded chip v w w'" "\<not> in_ctx chip (reg_base chip + offsetof dw_edma_v0_regs (rw_name dir n))"
  shows "guarded chip v w (SET_RW_32 chip dir n x w')"
  using assms by (simp add: v0_reg_defs guarded_writel)

lemma guarded_GET_RW:
  assumes "guarded chip v w w'" "\<not> in_ctx chip (reg_base chip + offsetof dw_edma_v0_regs (rw_name dir n))"
  shows "guarded chip v w (snd (GET_RW_32 chip dir n w'))"
  using assms by (simp add: v0_reg_defs guarded_readl)

lemma guarded_v0_start_first:
  assumes "chip_mf chip = EDMA_MF_EDMA_LEGACY" "guarded chip (viewport_val (ch_dir chan) (ch_id chan)) w w'"
  shows "guarded chip (viewport_val (ch_dir chan) (ch_id chan)) w (v0_start_first chip chan ck w')"
  unfolding v0_start_first_def Let_def case_prod_beta
  using assms
  by (cases "ch_dir chan")
    (auto simp: layout_simps in_ctx_offset intro!: guarded_SET_CH guarded_SET_RW guarded_GET_RW)

lemma in_ll_not_ctx: "ll_clear chip ck \<Longrightarrow> in_ll ck a \<Longrightarrow> \<not> in_ctx chip a"
  by (auto simp: ll_clear_def in_ll_def in_ctx_def)

lemma guarded_write_ll_data:
  assumes "ll_clear chip ck" "guarded chip v w w'" "i < length (bursts ck)"
  shows "guarded chip v w (dw_edma_v0_write_ll_data chip ck i c s sa da w')"
proof -
  have "\<not> in_ctx chip (vaddr (ll_region ck) + i * 24 + k)" if "k < 24" for k
    using that assms(3) by (intro in_ll_not_ctx [OF assms(1)]) (simp add: in_ll_def)
  from this [of 0] this [of 4] this [of 8] this [of 12] this [of 16] this [of 20] show ?thesis
    using assms(2)
    by (auto simp: dw_edma_v0_write_ll_data_def Let_def layout_simps add.assoc
        intro!: guarded_store guarded_writel guarded_writeq)
qed

lemma guarded_write_ll_link:
  assumes "ll_clear chip ck" "guarded chip v w w'"
  shows "guarded chip v w (dw_edma_v0_write_ll_link chip ck (length (bursts ck)) c p w')"
proof -
  have "\<not> in_ctx chip (vaddr (ll_region ck) + length (bursts ck) * 24 + k)" if "k < 16" for k
    using that by (intro in_ll_not_ctx [OF assms(1)]) (simp add: in_ll_def)
  from this [of 0] this [of 8] this [of 12] show ?thesis
    using assms(2)
    by (auto simp: dw_edma_v0_write_ll_link_def Let_def layout_simps add.assoc
        intro!: guarded_store guarded_writel guarded_writeq)
qed

lemma guarded_write_bursts:
  assumes "ll_clear chip ck" "guarded chip v w w'" "i + length bs \<le> length (bursts ck)"
  shows "guarded chip v w (snd (v0_write_bursts chip ck bs j i c w'))"
  using assms
  by (induction chip ck bs j i c w' rule: v0_write_bursts.induct)
    (auto simp: Let_def guarded_write_ll_data)

lemma guarded_v0_start:
  assumes "chip_mf chip = EDMA_MF_EDMA_LEGACY" "ll_clear chip ck"
  shows "guarded chip (viewport_val (ch_dir chan) (ch_id chan)) w (dw_edma_v0_core_start chip chan ck first w)"
proof -
  have "\<not> in_ctx chip (vaddr (ll_region ck))"
    by (intro in_ll_not_ctx [OF assms(2)]) (simp add: in_ll_def)
  moreover have "\<not> in_ctx chip (v0_bell chip chan)"
    by (simp add: v0_bell_def in_ctx_offset)
  ultimately show ?thesis
    using assms unfolding v0_start_eq v0_start_prefix_def Let_def v0_write_chunk_eq
    by (auto intro!: guarded_writel guarded_readl guarded_v0_start_first guarded_write_ll_link
        guarded_write_bursts)
qed

lemma bit_FIELD_PREP: "bit (FIELD_PREP m v) k \<longleftrightarrow> bf_shf m \<le> k \<and> k < 32 \<and> bit v (k - bf_shf m) \<and> bit m k"
  by (auto simp: FIELD_PREP_def bit_simps)

lemma mask_shifts:
  "bf_shf EDMA_V0_VIEWPORT_MASK = 0" "bf_shf EDMA_V0_DONE_INT_MASK = 0" "bf_shf EDMA_V0_ABORT_INT_MASK = 16"
  "bf_shf EDMA_V0_LINKED_LIST_ERR_MASK = 0" "bf_shf EDMA_V0_CH_ODD_MSI_DATA_MASK = 16"
  "bf_shf EDMA_V0_CH_EVEN_MSI_DATA_MASK = 0" "bf_shf EDMA_V0_DOORBELL_CH_MASK = 0"
  by (simp_all add: layout_simps)

lemma mask_bits:
  "bit EDMA_V0_VIEWPORT_MASK k \<longleftrightarrow> k \<le> 2" "bit EDMA_V0_DOORBELL_CH_MASK k \<longleftrightarrow> k \<le> 2"
  "bit EDMA_V0_DONE_INT_MASK k \<longleftrightarrow> k \<le> 7" "bit EDMA_V0_LINKED_LIST_ERR_MASK k \<longleftrightarrow> k \<le> 7"
  "bit EDMA_V0_ABORT_INT_MASK k \<longleftrightarrow> 16 \<le> k \<and> k \<le> 23"
  "bit EDMA_V0_CH_ODD_MSI_DATA_MASK k \<longleftrightarrow> 16 \<le> k \<and> k \<le> 31"
  "bit EDMA_V0_CH_EVEN_MSI_DATA_MASK k \<longleftrightarrow> k \<le> 15"
  by (auto simp: bit_GENMASK EDMA_V0_VIEWPORT_MASK_def EDMA_V0_DOORBELL_CH_MASK_def
      EDMA_V0_DONE_INT_MASK_def EDMA_V0_LINKED_LIST_ERR_MASK_def EDMA_V0_ABORT_INT_MASK_def
      EDMA_V0_CH_ODD_MSI_DATA_MASK_def EDMA_V0_CH_EVEN_MSI_DATA_MASK_def)

lemmas field_bits = bit_FIELD_PREP mask_shifts mask_bits bit_BIT bit_and_iff bit_or_iff bit_not_iff

lemma viewport_val_inj:
  assumes "i < 8" "j < 8" "viewport_val d i = viewport_val d' j"
  shows "d = d' \<and> i = j"
proof -
  have eq: "bit (viewport_val d i) k = bit (viewport_val d' j) k" for k
    using assms(3) by simp
  have sel: "bit (viewport_val d i) k \<longleftrightarrow> (if k < 3 then bit i k else d = EDMA_DIR_READ \<and> k = 31)" for d and i k :: nat
    by (cases d) (auto simp: viewport_val_def field_bits bit_of_nat_iff)
  have "d = d'"
    using eq [of 31] by (cases d; cases d') (auto simp: sel)
  moreover have "bit i k = bit j k" for k
  proof (cases "k < 3")
    case True
    then show ?thesis using eq [of k] by (simp add: sel)
  next
    case False
    then have "8 \<le> (2::nat) ^ k"
      using power_increasing [of 3 k "2::nat"] by simp
    then show ?thesis
      using assms(1,2) by (simp add: bit_nat_def)
  qed
  ultimately show ?thesis
    by (auto intro: bit_eqI)
qed


subsection \<open>Lemmas: interrupt handling\<close>

lemma set_set_bits_below: "set (set_bits_below v n) = {i. i < n \<and> bit v i}"
  by (auto simp: set_bits_below_def)

lemma distinct_set_bits_below [simp]: "distinct (set_bits_below v n)"
  by (simp add: set_bits_below_def)

lemma v0_irq_loop_length:
  "v0_irq_loop clear h off ps chans w = Some (chans', w') \<Longrightarrow> length chans' = length chans"
  by (induction clear h off ps chans w rule: v0_irq_loop.induct) (auto split: option.splits)

lemma v0_irq_loop_other:
  "v0_irq_loop clear h off ps chans w = Some (chans', w') \<Longrightarrow> \<forall>p \<in> set ps. q \<noteq> p + off \<Longrightarrow>
   chans' ! q = chans ! q"
  by (induction clear h off ps chans w rule: v0_irq_loop.induct)
    (auto split: option.splits)

lemma v0_irq_loop_served:
  assumes "v0_irq_loop clear h off ps chans w = Some (chans', w')" "distinct ps"
    "\<forall>p \<in> set ps. p + off < length chans"
  shows "\<exists>ws. length ws = Suc (length ps) \<and> ws ! 0 = w \<and> ws ! length ps = w' \<and>
    (\<forall>k < length ps. h (chans ! (ps ! k + off)) (clear (chans ! (ps ! k + off)) (ws ! k)) =
       Some (chans' ! (ps ! k + off), ws ! Suc k))"
  using assms
proof (induction clear h off ps chans w rule: v0_irq_loop.induct)
  case (1 clear h off chans w)
  then show ?case by (intro exI [of _ "[w]"]) auto
next
  case (2 clear h off pos ps chans w)
  obtain c w1 where h: "h (chans ! (pos + off)) (clear (chans ! (pos + off)) w) = Some (c, w1)"
    and rest: "v0_irq_loop clear h off ps (chans[pos + off := c]) w1 = Some (chans', w')"
    using 2(2) by (auto split: option.splits)
  obtain ws where ws: "length ws = Suc (length ps)" "ws ! 0 = w1" "ws ! length ps = w'"
    "\<forall>k < length ps. h (chans[pos + off := c] ! (ps ! k + off))
        (clear (chans[pos + off := c] ! (ps ! k + off)) (ws ! k)) = Some (chans' ! (ps ! k + off), ws ! Suc k)"
    using 2(1) [OF h refl rest] 2(3,4) by auto
  have c: "chans' ! (pos + off) = c"
    using v0_irq_loop_other [OF rest, of "pos + off"] 2(3,4) by auto
  have "chans[pos + off := c] ! (ps ! k + off) = chans ! (ps ! k + off)" if "k < length ps" for k
    using 2(3) nth_mem [OF that] by (intro nth_list_update_neq) auto
  with ws h c show ?case
    by (intro exI [of _ "w # ws"]) (auto simp: nth_Cons split: nat.splits)
qed


lemma v0_irq_loop_keeps:
  assumes "keeps I h" "\<forall>c \<in> set chans. I c" "\<forall>p \<in> set ps. p + off < length chans"
  shows "\<exists>chans' w'. v0_irq_loop clear h off ps chans w = Some (chans', w') \<and> (\<forall>c \<in> set chans'. I c)"
  using assms
proof (induction clear h off ps chans w rule: v0_irq_loop.induct)
  case (1 clear h off chans w)
  then show ?case by simp
next
  case (2 clear h off pos ps chans w)
  have "I (chans ! (pos + off))"
    using 2(3,4) by auto
  then obtain c w1 where h: "h (chans ! (pos + off)) (clear (chans ! (pos + off)) w) = Some (c, w1)" "I c"
    using 2(2) unfolding keeps_def by blast
  moreover have "\<forall>c' \<in> set (chans[pos + off := c]). I c'"
    using 2(3) h(2) set_update_subset_insert [of chans "pos + off" c] by blast
  ultimately show ?case
    using 2(1) [OF h(1) refl 2(2)] 2(4) by simp
qed

lemma set_bits_below_conj: "i \<in> set (set_bits_below (v AND m) n) \<Longrightarrow> i < n \<and> bit m i"
  by (simp add: set_set_bits_below bit_and_iff)

lemma irq_serves_position:
  assumes "i \<in> set (set_bits_below (v AND m) n)"
    "(n, off, m) = (if dir = EDMA_DIR_WRITE then (unat (wr_ch_cnt dw), 0, wr_mask irq)
       else (unat (rd_ch_cnt dw), unat (wr_ch_cnt dw), rd_mask irq))"
  shows "irq_serves dw irq dir (i + off)" "dw_wf dw \<Longrightarrow> i + off < length (dw_chan dw)"
  using assms set_bits_below_conj [OF assms(1)]
  by (auto simp: irq_serves_def dw_wf_def split: if_splits)

text \<open>The handler, cut into its two loops.\<close>

lemma v0_handle_int_eq:
  assumes "(n, off, m) = (if dir = EDMA_DIR_WRITE then (unat (wr_ch_cnt dw), 0, wr_mask irq)
       else (unat (rd_ch_cnt dw), unat (wr_ch_cnt dw), rd_mask irq))"
    "dw_edma_v0_core_status_done_int (dw_chip dw) dir w = (v1, w1)"
  shows "dw_edma_v0_core_handle_int dw irq dir d a w =
    (case v0_irq_loop (dw_edma_v0_core_clear_done_int (dw_chip dw)) d off (set_bits_below (v1 AND m) n)
            (dw_chan dw) w1 of
       None \<Rightarrow> None
     | Some (chans, w2) \<Rightarrow>
         (let (v2, w3) = dw_edma_v0_core_status_abort_int (dw_chip dw) dir w2 in
          case v0_irq_loop (dw_edma_v0_core_clear_abort_int (dw_chip dw)) a off
                 (set_bits_below (v2 AND m) n) chans w3 of
            None \<Rightarrow> None
          | Some (chans, w) \<Rightarrow>
              Some (set_bits_below (v1 AND m) n \<noteq> [] \<or> set_bits_below (v2 AND m) n \<noteq> [],
                    dw\<lparr>dw_chan := chans\<rparr>, w)))"
  unfolding dw_edma_v0_core_handle_int_def assms(1) [symmetric] Let_def assms(2) prod.case ..

lemma v0_handle_int_cases:
  assumes H: "dw_edma_v0_core_handle_int dw irq dir d a w = Some (ret, dw', w')"
    and nom: "(n, off, m) = (if dir = EDMA_DIR_WRITE then (unat (wr_ch_cnt dw), 0, wr_mask irq)
       else (unat (rd_ch_cnt dw), unat (wr_ch_cnt dw), rd_mask irq))"
  obtains v1 w1 chans w2 v2 w3 where
    "v0_irq_loop (dw_edma_v0_core_clear_done_int (dw_chip dw)) d off (set_bits_below (v1 AND m) n)
       (dw_chan dw) w1 = Some (chans, w2)"
    "v0_irq_loop (dw_edma_v0_core_clear_abort_int (dw_chip dw)) a off (set_bits_below (v2 AND m) n)
       chans w3 = Some (dw_chan dw', w')"
    "dw' = dw\<lparr>dw_chan := dw_chan dw'\<rparr>"
proof -
  obtain v1 w1 where s1: "dw_edma_v0_core_status_done_int (dw_chip dw) dir w = (v1, w1)"
    by fastforce
  note H' = H [unfolded v0_handle_int_eq [OF nom s1]]
  obtain chans w2 where 1: "v0_irq_loop (dw_edma_v0_core_clear_done_int (dw_chip dw)) d off
      (set_bits_below (v1 AND m) n) (dw_chan dw) w1 = Some (chans, w2)"
    using H' by (auto split: option.splits)
  obtain v2 w3 where s2: "dw_edma_v0_core_status_abort_int (dw_chip dw) dir w2 = (v2, w3)"
    by fastforce
  obtain chans' w4 where 2: "v0_irq_loop (dw_edma_v0_core_clear_abort_int (dw_chip dw)) a off
      (set_bits_below (v2 AND m) n) chans w3 = Some (chans', w4)"
    using H' by (auto simp: 1 s2 split: option.splits)
  have "dw' = dw\<lparr>dw_chan := chans'\<rparr>" "w' = w4"
    using H' by (simp_all add: 1 2 s2)
  with 1 2 show ?thesis
    by (intro that) auto
qed

interpretation v0_irq: dma_irq dw_edma_v0_core_handle_int "\<lambda>_. True"
proof
  fix dw :: dw_edma and irq :: dw_edma_irq and dir d a w ret dw' w' q
  obtain n off m where nom: "(n, off, m) =
      (if dir = EDMA_DIR_WRITE then (unat (wr_ch_cnt dw), 0, wr_mask irq)
       else (unat (rd_ch_cnt dw), unat (wr_ch_cnt dw), rd_mask irq))"
    by (cases "dir = EDMA_DIR_WRITE") auto
  {
    assume H: "dw_edma_v0_core_handle_int dw irq dir d a w = Some (ret, dw', w')"
    from v0_handle_int_cases [OF H nom] show
      "dw' = dw\<lparr>dw_chan := dw_chan dw'\<rparr> \<and> length (dw_chan dw') = length (dw_chan dw)"
      by (metis v0_irq_loop_length)
    assume "\<not> irq_serves dw irq dir q"
    then have "\<forall>p \<in> set (set_bits_below (v AND m) n). q \<noteq> p + off" for v
      using irq_serves_position(1) [OF _ nom] by blast
    with v0_handle_int_cases [OF H nom] show "dw_chan dw' ! q = dw_chan dw ! q"
      by (metis v0_irq_loop_other)
  }
  fix I :: "dw_edma_chan \<Rightarrow> bool"
  assume I: "dw_wf dw" "\<forall>c \<in> set (dw_chan dw). I c" "keeps I d" "keeps I a"
  have pos: "\<forall>p \<in> set (set_bits_below (v AND m) n). p + off < length (dw_chan dw)" for v
    using irq_serves_position(2) [OF _ nom I(1)] by blast
  obtain v1 w1 where s1: "dw_edma_v0_core_status_done_int (dw_chip dw) dir w = (v1, w1)"
    by fastforce
  obtain chans w2 where 1: "v0_irq_loop (dw_edma_v0_core_clear_done_int (dw_chip dw)) d off
      (set_bits_below (v1 AND m) n) (dw_chan dw) w1 = Some (chans, w2)" "\<forall>c \<in> set chans. I c"
    using v0_irq_loop_keeps [OF I(3,2) pos] by blast
  obtain v2 w3 where s2: "dw_edma_v0_core_status_abort_int (dw_chip dw) dir w2 = (v2, w3)"
    by fastforce
  have "\<forall>p \<in> set (set_bits_below (v2 AND m) n). p + off < length chans"
    using pos v0_irq_loop_length [OF 1(1)] by simp
  then obtain chans' w4 where 2: "v0_irq_loop (dw_edma_v0_core_clear_abort_int (dw_chip dw)) a off
      (set_bits_below (v2 AND m) n) chans w3 = Some (chans', w4)" "\<forall>c \<in> set chans'. I c"
    using v0_irq_loop_keeps [OF I(4) 1(2)] by blast
  show "\<exists>ret dw' w'. dw_edma_v0_core_handle_int dw irq dir d a w = Some (ret, dw', w') \<and>
      (\<forall>c \<in> set (dw_chan dw'). I c)"
    using 1 2 by (simp add: v0_handle_int_eq [OF nom s1] s2)
qed simp

subsection \<open>Properties\<close>

lemma GET_RW_32_eq:
  "GET_RW_32 chip dir n w = (dev w (trace w) (reg_base chip + offsetof dw_edma_v0_regs (rw_name dir n)),
     emit (Readl (reg_base chip + offsetof dw_edma_v0_regs (rw_name dir n))) w)"
  by (simp add: v0_reg_defs readl_def)

text \<open>The first start of a channel unmasks its own done and abort interrupts and nobody
  else's: the value written back to the interrupt mask is the one just read with exactly the two
  bits of the channel cleared, whatever the device returned.\<close>

theorem v0_start_unmasks_own:
  fixes chip chan
  defines "a \<equiv> reg_base chip + offsetof dw_edma_v0_regs (rw_name (ch_dir chan) ''int_mask'')"
  assumes id: "ch_id chan < 8"
  shows "\<exists>es v es'. new_evs w (v0_start_first chip chan ck w) = es @ [Readl a, Writel a v] @ es' \<and>
    (\<forall>k. bit v k \<longleftrightarrow> bit (dev w (trace w @ es) a) k \<and> k \<noteq> ch_id chan \<and> k \<noteq> 16 + ch_id chan)"
proof -
  let ?dir = "ch_dir chan"
  let ?w0 = "SET_RW_32 chip ?dir ''engine_en'' (BIT 0) w"
  let ?w1 = "if chip_mf chip = EDMA_MF_HDMA_COMPAT \<and> ch_id chan < 8
             then SET_RW_COMPAT chip ?dir (pwr_en_name (ch_id chan)) (BIT 0) ?w0 else ?w0"
  have io: "io_only w ?w1"
    by (simp add: v0_reg_defs)
  let ?old = "dev w (trace w @ new_evs w ?w1) a"
  let ?v = "(?old AND NOT (FIELD_PREP EDMA_V0_DONE_INT_MASK (BIT (ch_id chan)))) AND
              NOT (FIELD_PREP EDMA_V0_ABORT_INT_MASK (BIT (ch_id chan)))"
  let ?w2 = "writel ?v a (emit (Readl a) ?w1)"
  have rd: "GET_RW_32 chip ?dir ''int_mask'' ?w1 = (?old, emit (Readl a) ?w1)"
    using io_only_frame(2,8) [OF io] by (simp only: GET_RW_32_eq a_def)
  have "new_evs w (v0_start_first chip chan ck w) =
     new_evs w ?w2 @ new_evs ?w2 (v0_start_first chip chan ck w)"
  proof (rule new_evs_trans)
    show "io_only w ?w2" using io by (simp add: io_only_emitI)
    show "io_only ?w2 (v0_start_first chip chan ck w)"
      by (simp only: v0_start_first_def Let_def rd prod.case)
        (simp add: case_prod_beta v0_reg_defs writel_ch_def a_def)
  qed
  moreover have "new_evs w ?w2 = new_evs w ?w1 @ [Readl a, Writel a ?v]"
    using io by (simp add: new_evs_writel new_evs_emit io_only_emitI)
  ultimately have evs: "new_evs w (v0_start_first chip chan ck w) =
      new_evs w ?w1 @ [Readl a, Writel a ?v] @ new_evs ?w2 (v0_start_first chip chan ck w)"
    by (simp only: append_assoc)
  have "bit ?v k \<longleftrightarrow> bit ?old k \<and> k \<noteq> ch_id chan \<and> k \<noteq> 16 + ch_id chan" for k
    using id by (cases "k < 32") (auto simp: field_bits dest: bit_imp_le_length)
  with evs show ?thesis
    by (intro exI conjI allI)
qed


text \<open>Two channels share one interrupt-data register, and configuring a channel rewrites its own
  half of it and leaves the half of the other channel as the device returned it; the four address
  registers get the message address.\<close>

theorem v0_ch_config_half:
  fixes chip chan
  defines "r \<equiv> \<lambda>n. reg_base chip + offsetof dw_edma_v0_regs (rw_name (ch_dir chan) n)"
    and "own \<equiv> if odd (ch_id chan) then 16 else 0" and "other \<equiv> if odd (ch_id chan) then 0 else 16"
  assumes id: "ch_id chan < 8"
  shows "\<exists>es old v. new_evs w (dw_edma_v0_core_ch_config chip chan w) =
      es @ [Readl (r (imwr_name (ch_id chan))), Writel (r (imwr_name (ch_id chan))) v] \<and>
    es = [Writel (r ''done_imwr.lsb'') (address_lo (ch_msi chan)),
          Writel (r ''done_imwr.msb'') (address_hi (ch_msi chan)),
          Writel (r ''abort_imwr.lsb'') (address_lo (ch_msi chan)),
          Writel (r ''abort_imwr.msb'') (address_hi (ch_msi chan))] \<and>
    old = dev w (trace w @ es) (r (imwr_name (ch_id chan))) \<and>
    (\<forall>k < 16. bit v (own + k) = bit (msi_data (ch_msi chan)) k \<and> bit v (other + k) = bit old (other + k))"
proof -
  let ?es = "[Writel (r ''done_imwr.lsb'') (address_lo (ch_msi chan)),
          Writel (r ''done_imwr.msb'') (address_hi (ch_msi chan)),
          Writel (r ''abort_imwr.lsb'') (address_lo (ch_msi chan)),
          Writel (r ''abort_imwr.msb'') (address_hi (ch_msi chan))]"
  let ?a = "r (imwr_name (ch_id chan))"
  let ?old = "dev w (trace w @ ?es) ?a"
  let ?v = "if odd (ch_id chan)
            then ?old AND EDMA_V0_CH_EVEN_MSI_DATA_MASK OR
                 FIELD_PREP EDMA_V0_CH_ODD_MSI_DATA_MASK (msi_data (ch_msi chan))
            else ?old AND EDMA_V0_CH_ODD_MSI_DATA_MASK OR
                 FIELD_PREP EDMA_V0_CH_EVEN_MSI_DATA_MASK (msi_data (ch_msi chan))"
  have "trace (dw_edma_v0_core_ch_config chip chan w) = trace w @ ?es @ [Readl ?a, Writel ?a ?v]"
    using id by (simp add: dw_edma_v0_core_ch_config_def Let_def GET_RW_32_eq split_beta
        SET_RW_32_def SET_32_def writel_def r_def)
  then have "new_evs w (dw_edma_v0_core_ch_config chip chan w) = ?es @ [Readl ?a, Writel ?a ?v]"
    by (simp add: new_evs_def)
  moreover have "\<forall>k < 16. bit ?v (own + k) = bit (msi_data (ch_msi chan)) k \<and>
      bit ?v (other + k) = bit ?old (other + k)"
    by (simp add: own_def other_def field_bits)
  ultimately show ?thesis
    by blast
qed

text \<open>C34: Through the legacy viewport every access to a channel's context registers directly follows
  the write that selects this very channel, whatever channel was selected before, and no other
  direction and number has the same selector: a start and a status read never reach the registers
  of another channel.\<close>

theorem v0_viewport_discipline:
  assumes "chip_mf chip = EDMA_MF_EDMA_LEGACY" "ll_clear chip ck" "ch_id chan < 8"
  defines "v \<equiv> viewport_val (ch_dir chan) (ch_id chan)"
  shows "ctx_guarded chip v prev (new_evs w (dw_edma_v0_core_start chip chan ck first w)) \<and>
    ctx_guarded chip v prev (new_evs w (snd (dw_edma_v0_core_ch_status chip chan w))) \<and>
    (\<forall>dir i. i < 8 \<longrightarrow> viewport_val dir i = v \<longrightarrow> dir = ch_dir chan \<and> i = ch_id chan)"
proof (intro conjI allI impI)
  show "ctx_guarded chip v prev (new_evs w (dw_edma_v0_core_start chip chan ck first w))"
    using guarded_v0_start [OF assms(1,2)] by (simp add: guarded_def v_def)
  have "guarded chip v w (snd (GET_CH_32 chip (ch_dir chan) (ch_id chan) ''ch_control1'' w))"
    unfolding v_def by (rule guarded_GET_CH [OF assms(1)]) simp
  then show "ctx_guarded chip v prev (new_evs w (snd (dw_edma_v0_core_ch_status chip chan w)))"
    by (simp add: dw_edma_v0_core_ch_status_def split_beta Let_def guarded_def)
  fix dir i assume "i < 8" "viewport_val dir i = v"
  with assms(3) show "dir = ch_dir chan" "i = ch_id chan"
    using viewport_val_inj by (auto simp: v_def)
qed

text \<open>One interrupt loop acknowledges and handles each flagged channel exactly once, in channel
  order: there is a chain of worlds from the first to the last, and between two neighbours the handler
  ran on the channel as it was before the loop, after the acknowledgement of that channel.\<close>

theorem v0_irq_loop_serves_each:
  assumes "v0_irq_loop (dw_edma_v0_core_clear_done_int chip) h off (set_bits_below val n) chans w = Some (chans', w')"
    "n + off \<le> length chans"
  shows "\<exists>ws. length ws = Suc (length (set_bits_below val n)) \<and> ws ! 0 = w \<and>
    ws ! length (set_bits_below val n) = w' \<and>
    (\<forall>k < length (set_bits_below val n).
       let p = set_bits_below val n ! k + off in
       h (chans ! p) (dw_edma_v0_core_clear_done_int chip (chans ! p) (ws ! k)) =
         Some (chans' ! p, ws ! Suc k))"
  using v0_irq_loop_served [OF assms(1)] assms(2) unfolding Let_def
  by (simp add: set_set_bits_below)

subsection \<open>The properties on the sample device\<close>

theorem v0_start_unmasks_own_witness:
  "\<exists>es v es'. new_evs ex_world (v0_start_first ex_chip (ex_chan EDMA_DIR_READ 1) (ex_chunk 1) ex_world) =
      es @ [Readl 0x10a18, Writel 0x10a18 v] @ es' \<and>
    (\<forall>k. bit v k \<longleftrightarrow> bit (dev ex_world (trace ex_world @ es) 0x10a18) k \<and> k \<noteq> 1 \<and> k \<noteq> 17)"
  using v0_start_unmasks_own [of "ex_chan EDMA_DIR_READ 1" ex_world ex_chip "ex_chunk 1"]
  by (simp add: layout_simps)

theorem v0_ch_config_half_witness:
  "\<exists>v. new_evs ex_world (dw_edma_v0_core_ch_config ex_chip (ex_chan EDMA_DIR_WRITE 1) ex_world) =
      [Writel 0x109d0 0xfee00000, Writel 0x109d4 0, Writel 0x109d8 0xfee00000, Writel 0x109dc 0,
       Readl 0x109e0, Writel 0x109e0 v] \<and>
    (\<forall>k < 16. bit v (16 + k) = bit (0x4021 :: u32) k \<and> \<not> bit v k)"
proof -
  have "imwr_name 1 = ''ch01_imwr_data''"
    by (simp add: imwr_name_def)
  moreover have "ch_msi (ex_chan EDMA_DIR_WRITE 1) = \<lparr>address_lo = 0xfee00000, address_hi = 0, msi_data = 0x4021\<rparr>"
    by (simp add: ex_chan_def)
  moreover have "dev ex_world tr a = 0" for tr a
    by (simp add: ex_world_def)
  ultimately show ?thesis
    using v0_ch_config_half [of "ex_chan EDMA_DIR_WRITE 1" ex_world ex_chip]
    by (simp add: layout_simps)
qed

theorem v0_viewport_discipline_witness:
  "ctx_guarded ex_chip (viewport_val EDMA_DIR_READ 1) None
     (new_evs ex_world (dw_edma_v0_core_start ex_chip (ex_chan EDMA_DIR_READ 1) (ex_chunk 1) True ex_world))"
  using v0_viewport_discipline [of ex_chip "ex_chunk 1" "ex_chan EDMA_DIR_READ 1" None ex_world True]
  by simp

theorem v0_irq_loop_serves_each_witness:
  "\<exists>ws. length ws = 2 \<and> ws ! 0 = ex_world \<and>
     dw_edma_v0_core_clear_done_int ex_chip (ex_chan EDMA_DIR_WRITE 1) (ws ! 0) = ws ! 1"
proof -
  have ps: "set_bits_below 2 2 = [1]"
    by (simp add: set_bits_below_def upt_rec)
  have run: "v0_irq_loop (dw_edma_v0_core_clear_done_int ex_chip) (\<lambda>c w. Some (c, w)) 0 (set_bits_below 2 2)
      [ex_chan EDMA_DIR_WRITE 0, ex_chan EDMA_DIR_WRITE 1] ex_world =
    Some ([ex_chan EDMA_DIR_WRITE 0, ex_chan EDMA_DIR_WRITE 1],
      dw_edma_v0_core_clear_done_int ex_chip (ex_chan EDMA_DIR_WRITE 1) ex_world)"
    by (simp add: ps)
  obtain ws where "length ws = Suc (Suc 0)" "ws ! 0 = ex_world"
    "ws ! 1 = dw_edma_v0_core_clear_done_int ex_chip (ex_chan EDMA_DIR_WRITE 1) ex_world"
    using v0_irq_loop_serves_each [OF run] unfolding ps by auto
  then show ?thesis
    by (intro exI [of _ ws]) simp
qed

end
