(* ===== verification/Hdma_Core.thy ===== *)
theory Hdma_Core
  imports V0_Core
begin

section \<open>The HDMA v0 engine (dw-hdma-v0-core.c)\<close>

text \<open>
  The register accesses of \<open>akida-dw-edma/dw-hdma-v0-core.c\<close>. A direction parameter is a C
  enumerator, so the channel register address takes its number: \<open>dw_hdma_v0_core_ch_status\<close>
  passes the channel number where the direction is expected and the direction where the channel
  number is expected, and C accepts it.
\<close>

definition DW_HDMA_V0_CB :: u32 where "DW_HDMA_V0_CB = BIT 0"

definition DW_HDMA_V0_TCB :: u32 where "DW_HDMA_V0_TCB = BIT 1"

definition DW_HDMA_V0_LLP :: u32 where "DW_HDMA_V0_LLP = BIT 2"

definition DW_HDMA_V0_LIE :: u32 where "DW_HDMA_V0_LIE = BIT 3"

definition DW_HDMA_V0_RIE :: u32 where "DW_HDMA_V0_RIE = BIT 4"

subsection \<open>Channel registers\<close>

definition hdma_ch_regs :: "dw_edma_chip \<Rightarrow> nat \<Rightarrow> nat \<Rightarrow> iomem" where
  "hdma_ch_regs chip dir ch =
     (let base = reg_base chip + offsetof dw_hdma_v0_regs ''ch'' + ch * sizeof dw_hdma_v0_ch in
      if dir = dir_val EDMA_DIR_WRITE then base + offsetof dw_hdma_v0_ch ''wr''
      else base + offsetof dw_hdma_v0_ch ''rd'')"

definition HSET_CH_32 :: "dw_edma_chip \<Rightarrow> nat \<Rightarrow> nat \<Rightarrow> string \<Rightarrow> u32 \<Rightarrow> world \<Rightarrow> world" where
  "HSET_CH_32 chip dir ch name v w =
     writel v (hdma_ch_regs chip dir ch + offsetof dw_hdma_v0_ch_regs name) w"

definition HGET_CH_32 :: "dw_edma_chip \<Rightarrow> nat \<Rightarrow> nat \<Rightarrow> string \<Rightarrow> world \<Rightarrow> u32 \<times> world" where
  "HGET_CH_32 chip dir ch name w =
     readl (hdma_ch_regs chip dir ch + offsetof dw_hdma_v0_ch_regs name) w"

definition HSET_BOTH_CH_32 :: "dw_edma_chip \<Rightarrow> nat \<Rightarrow> string \<Rightarrow> u32 \<Rightarrow> world \<Rightarrow> world" where
  "HSET_BOTH_CH_32 chip ch name v w =
     HSET_CH_32 chip (dir_val EDMA_DIR_READ) ch name v
       (HSET_CH_32 chip (dir_val EDMA_DIR_WRITE) ch name v w)"

subsection \<open>Management callbacks\<close>

definition hdma_off_ch :: "dw_edma_chip \<Rightarrow> nat \<Rightarrow> world \<Rightarrow> world" where
  "hdma_off_ch chip i w =
     (let w = HSET_BOTH_CH_32 chip i ''int_setup'' (HDMA_V0_STOP_INT_MASK OR HDMA_V0_ABORT_INT_MASK) w;
          w = HSET_BOTH_CH_32 chip i ''int_clear'' (HDMA_V0_STOP_INT_MASK OR HDMA_V0_ABORT_INT_MASK) w
      in HSET_BOTH_CH_32 chip i ''ch_en'' 0 w)"

definition dw_hdma_v0_core_off :: "dw_edma_chip \<Rightarrow> world \<Rightarrow> world" where
  "dw_hdma_v0_core_off chip w = fold (hdma_off_ch chip) [0..<HDMA_V0_MAX_NR_CH] w"

definition dw_hdma_v0_core_ch_count :: "dw_edma_chip \<Rightarrow> dw_edma_dir \<Rightarrow> world \<Rightarrow> u16 \<times> world" where
  "dw_hdma_v0_core_ch_count chip dir w = (of_nat HDMA_V0_MAX_NR_CH, w)"

definition dw_hdma_v0_core_ch_status ::
  "dw_edma_chip \<Rightarrow> dw_edma_chan \<Rightarrow> world \<Rightarrow> dma_status \<times> world" where
  "dw_hdma_v0_core_ch_status chip chan w =
     (let (v, w) = HGET_CH_32 chip (ch_id chan) (dir_val (ch_dir chan)) ''ch_stat'' w;
          tmp = FIELD_GET HDMA_V0_CH_STATUS_MASK v
      in (if tmp = 1 then DMA_IN_PROGRESS else if tmp = 3 then DMA_COMPLETE else DMA_ERROR, w))"

definition dw_hdma_v0_core_clear_done_int :: "dw_edma_chip \<Rightarrow> dw_edma_chan \<Rightarrow> world \<Rightarrow> world" where
  "dw_hdma_v0_core_clear_done_int chip chan w =
     HSET_CH_32 chip (dir_val (ch_dir chan)) (ch_id chan) ''int_clear'' HDMA_V0_STOP_INT_MASK w"

definition dw_hdma_v0_core_clear_abort_int :: "dw_edma_chip \<Rightarrow> dw_edma_chan \<Rightarrow> world \<Rightarrow> world" where
  "dw_hdma_v0_core_clear_abort_int chip chan w =
     HSET_CH_32 chip (dir_val (ch_dir chan)) (ch_id chan) ''int_clear'' HDMA_V0_ABORT_INT_MASK w"

definition dw_hdma_v0_core_status_int :: "dw_edma_chip \<Rightarrow> dw_edma_chan \<Rightarrow> world \<Rightarrow> u32 \<times> world" where
  "dw_hdma_v0_core_status_int chip chan w =
     HGET_CH_32 chip (dir_val (ch_dir chan)) (ch_id chan) ''int_stat'' w"

text \<open>The loop over the channels of the interrupt's mask: one status read per channel.\<close>

fun hdma_irq_loop ::
  "dw_edma_chip \<Rightarrow> dw_edma_handler \<Rightarrow> dw_edma_handler \<Rightarrow> nat \<Rightarrow> nat list \<Rightarrow> bool \<Rightarrow>
   dw_edma_chan list \<Rightarrow> world \<Rightarrow> (bool \<times> dw_edma_chan list \<times> world) option" where
  "hdma_irq_loop chip done_h abort_h off [] ret chans w = Some (ret, chans, w)"
| "hdma_irq_loop chip done_h abort_h off (pos # ps) ret chans w =
     (let chan = chans ! (pos + off);
          (val, w) = dw_hdma_v0_core_status_int chip chan w
      in case (if FIELD_GET HDMA_V0_STOP_INT_MASK val \<noteq> 0
               then done_h chan (dw_hdma_v0_core_clear_done_int chip chan w)
               else Some (chan, w)) of
           None \<Rightarrow> None
         | Some (chan, w) \<Rightarrow>
             (case (if FIELD_GET HDMA_V0_ABORT_INT_MASK val \<noteq> 0
                    then abort_h chan (dw_hdma_v0_core_clear_abort_int chip chan w)
                    else Some (chan, w)) of
                None \<Rightarrow> None
              | Some (chan, w) \<Rightarrow>
                  hdma_irq_loop chip done_h abort_h off ps
                    (ret \<or> FIELD_GET HDMA_V0_STOP_INT_MASK val \<noteq> 0
                         \<or> FIELD_GET HDMA_V0_ABORT_INT_MASK val \<noteq> 0)
                    (chans[pos + off := chan]) w))"

definition dw_hdma_v0_core_handle_int ::
  "dw_edma \<Rightarrow> dw_edma_irq \<Rightarrow> dw_edma_dir \<Rightarrow> dw_edma_handler \<Rightarrow> dw_edma_handler \<Rightarrow> world \<Rightarrow>
   (bool \<times> dw_edma \<times> world) option" where
  "dw_hdma_v0_core_handle_int dw dw_irq dir done_h abort_h w =
     (let (tot, off, mask) =
            (if dir = EDMA_DIR_WRITE then (unat (wr_ch_cnt dw), 0, wr_mask dw_irq)
             else (unat (rd_ch_cnt dw), unat (wr_ch_cnt dw), rd_mask dw_irq))
      in case hdma_irq_loop (dw_chip dw) done_h abort_h off (set_bits_below mask tot) False
                (dw_chan dw) w of
           None \<Rightarrow> None
         | Some (ret, chans, w) \<Rightarrow> Some (ret, dw\<lparr>dw_chan := chans\<rparr>, w))"

subsection \<open>Linked list of a chunk\<close>

definition dw_hdma_v0_write_ll_data ::
  "dw_edma_chip \<Rightarrow> dw_edma_chunk \<Rightarrow> nat \<Rightarrow> u32 \<Rightarrow> u32 \<Rightarrow> u64 \<Rightarrow> u64 \<Rightarrow> world \<Rightarrow> world" where
  "dw_hdma_v0_write_ll_data chip chunk i control sz sar dar w =
     (let lli = vaddr (ll_region chunk) + i * sizeof dw_hdma_v0_lli in
      if chip_local chip then
        let w = store32 sz (lli + offsetof dw_hdma_v0_lli ''transfer_size'') w;
            w = store64 sar (lli + offsetof dw_hdma_v0_lli ''sar.reg'') w;
            w = store64 dar (lli + offsetof dw_hdma_v0_lli ''dar.reg'') w;
            w = emit DmaWmb w
        in store32 control (lli + offsetof dw_hdma_v0_lli ''control'') w
      else
        let w = writel sz (lli + offsetof dw_hdma_v0_lli ''transfer_size'') w;
            w = writeq sar (lli + offsetof dw_hdma_v0_lli ''sar.reg'') w;
            w = writeq dar (lli + offsetof dw_hdma_v0_lli ''dar.reg'') w
        in writel control (lli + offsetof dw_hdma_v0_lli ''control'') w)"

definition dw_hdma_v0_write_ll_link ::
  "dw_edma_chip \<Rightarrow> dw_edma_chunk \<Rightarrow> nat \<Rightarrow> u32 \<Rightarrow> u64 \<Rightarrow> world \<Rightarrow> world" where
  "dw_hdma_v0_write_ll_link chip chunk i control pointer w =
     (let llp = vaddr (ll_region chunk) + i * sizeof dw_hdma_v0_lli in
      if chip_local chip then
        let w = store64 pointer (llp + offsetof dw_hdma_v0_llp ''llp.reg'') w;
            w = emit DmaWmb w
        in store32 control (llp + offsetof dw_hdma_v0_llp ''control'') w
      else
        let w = writeq pointer (llp + offsetof dw_hdma_v0_llp ''llp.reg'') w
        in writel control (llp + offsetof dw_hdma_v0_llp ''control'') w)"

fun hdma_write_bursts ::
  "dw_edma_chip \<Rightarrow> dw_edma_chunk \<Rightarrow> dw_edma_burst list \<Rightarrow> int \<Rightarrow> nat \<Rightarrow> u32 \<Rightarrow> world \<Rightarrow> nat \<times> world" where
  "hdma_write_bursts chip chunk [] j i control w = (i, w)"
| "hdma_write_bursts chip chunk (child # bs) j i control w =
     (let j = j - 1;
          control = (if j = 0
                     then control OR DW_HDMA_V0_LIE OR (if chip_local chip then 0 else DW_HDMA_V0_RIE)
                     else control);
          w = dw_hdma_v0_write_ll_data chip chunk i control (b_sz child) (b_sar child) (b_dar child) w
      in hdma_write_bursts chip chunk bs j (Suc i) control w)"

definition dw_hdma_v0_core_write_chunk :: "dw_edma_chip \<Rightarrow> dw_edma_chunk \<Rightarrow> world \<Rightarrow> world" where
  "dw_hdma_v0_core_write_chunk chip chunk w =
     (let control = (if ck_cb chunk \<noteq> 0 then DW_HDMA_V0_CB else 0);
          (i, w) = hdma_write_bursts chip chunk (bursts chunk) (sint (bursts_alloc chunk)) 0 control w;
          control = DW_HDMA_V0_LLP OR DW_HDMA_V0_TCB;
          control = (if ck_cb chunk = 0 then control OR DW_HDMA_V0_CB else control)
      in dw_hdma_v0_write_ll_link chip chunk i control (paddr (ll_region chunk)) w)"

subsection \<open>Starting a chunk\<close>

text \<open>The value of \<open>int_setup\<close> the start sequence writes, from the one it read.\<close>

definition hdma_int_setup_val :: "dw_edma_chip \<Rightarrow> u32 \<Rightarrow> u32" where
  "hdma_int_setup_val chip v =
     (let tmp = v OR HDMA_V0_STOP_INT_MASK OR HDMA_V0_ABORT_INT_MASK OR
                HDMA_V0_LOCAL_STOP_INT_EN OR HDMA_V0_LOCAL_ABORT_INT_EN
      in if \<not> chip_local chip
         then tmp OR (HDMA_V0_REMOTE_STOP_INT_EN OR HDMA_V0_REMOTE_ABORT_INT_EN) else tmp)"

definition hdma_start_first :: "dw_edma_chip \<Rightarrow> dw_edma_chan \<Rightarrow> dw_edma_chunk \<Rightarrow> world \<Rightarrow> world" where
  "hdma_start_first chip chan chunk w =
     (let dir = dir_val (ch_dir chan); i = ch_id chan;
          w = HSET_CH_32 chip dir i ''ch_en'' (BIT 0) w;
          (tmp, w) = HGET_CH_32 chip dir i ''int_setup'' w;
          w = HSET_CH_32 chip dir i ''int_setup'' (hdma_int_setup_val chip tmp) w;
          w = HSET_CH_32 chip dir i ''control1'' HDMA_V0_LINKLIST_EN w;
          w = HSET_CH_32 chip dir i ''llp.lsb'' (lower_32_bits (paddr (ll_region chunk))) w
      in HSET_CH_32 chip dir i ''llp.msb'' (upper_32_bits (paddr (ll_region chunk))) w)"

definition dw_hdma_v0_core_start ::
  "dw_edma_chip \<Rightarrow> dw_edma_chan \<Rightarrow> dw_edma_chunk \<Rightarrow> bool \<Rightarrow> world \<Rightarrow> world" where
  "dw_hdma_v0_core_start chip chan chunk first w =
     (let dir = dir_val (ch_dir chan); i = ch_id chan;
          w = dw_hdma_v0_core_write_chunk chip chunk w;
          w = (if first then hdma_start_first chip chan chunk w else w);
          w = HSET_CH_32 chip dir i ''cycle_sync''
                (HDMA_V0_CONSUMER_CYCLE_STAT OR HDMA_V0_CONSUMER_CYCLE_BIT) w;
          w = (if \<not> chip_local chip then snd (readl (vaddr (ll_region chunk)) w) else w)
      in HSET_CH_32 chip dir i ''doorbell'' HDMA_V0_DOORBELL_START w)"

subsection \<open>MSI configuration\<close>

definition dw_hdma_v0_core_ch_config :: "dw_edma_chip \<Rightarrow> dw_edma_chan \<Rightarrow> world \<Rightarrow> world" where
  "dw_hdma_v0_core_ch_config chip chan w =
     (let dir = dir_val (ch_dir chan); i = ch_id chan;
          w = HSET_CH_32 chip dir i ''msi_stop.lsb'' (address_lo (ch_msi chan)) w;
          w = HSET_CH_32 chip dir i ''msi_stop.msb'' (address_hi (ch_msi chan)) w;
          w = HSET_CH_32 chip dir i ''msi_abort.lsb'' (address_lo (ch_msi chan)) w;
          w = HSET_CH_32 chip dir i ''msi_abort.msb'' (address_hi (ch_msi chan)) w
      in HSET_CH_32 chip dir i ''msi_msgdata'' (msi_data (ch_msi chan)) w)"

definition dw_hdma_v0_core_register :: "dw_edma \<Rightarrow> dw_edma" where
  "dw_hdma_v0_core_register dw = dw\<lparr>dw_core := CORE_HDMA\<rparr>"

subsection \<open>Lemmas: the linked list\<close>

text \<open>The two engines write a chunk alike, so the lemmas on the eDMA list carry over.\<close>

lemma hdma_write_ll_data_eq: "dw_hdma_v0_write_ll_data = dw_edma_v0_write_ll_data"
  by (intro ext) (simp add: dw_hdma_v0_write_ll_data_def dw_edma_v0_write_ll_data_def Let_def layout_simps)

lemma hdma_write_ll_link_eq: "dw_hdma_v0_write_ll_link = dw_edma_v0_write_ll_link"
  by (intro ext) (simp add: dw_hdma_v0_write_ll_link_def dw_edma_v0_write_ll_link_def Let_def layout_simps)

lemma hdma_control_eqs:
  "DW_HDMA_V0_CB = DW_EDMA_V0_CB" "DW_HDMA_V0_TCB = DW_EDMA_V0_TCB" "DW_HDMA_V0_LLP = DW_EDMA_V0_LLP"
  "DW_HDMA_V0_LIE = DW_EDMA_V0_LIE" "DW_HDMA_V0_RIE = DW_EDMA_V0_RIE"
  by (simp_all add: DW_HDMA_V0_CB_def DW_HDMA_V0_TCB_def DW_HDMA_V0_LLP_def
      DW_HDMA_V0_LIE_def DW_HDMA_V0_RIE_def v0_control_defs)

lemma hdma_write_bursts_eq: "hdma_write_bursts chip ck bs j i c w = v0_write_bursts chip ck bs j i c w"
  by (induction bs arbitrary: j i c w) (simp_all add: Let_def hdma_write_ll_data_eq hdma_control_eqs)

lemma hdma_write_chunk_eq: "dw_hdma_v0_core_write_chunk = dw_edma_v0_core_write_chunk"
  by (intro ext) (simp add: dw_hdma_v0_core_write_chunk_def dw_edma_v0_core_write_chunk_def
      hdma_write_bursts_eq hdma_write_ll_link_eq hdma_control_eqs)

subsection \<open>Lemmas: the start sequence\<close>

definition hdma_bell :: "dw_edma_chip \<Rightarrow> dw_edma_chan \<Rightarrow> iomem" where
  "hdma_bell chip chan = hdma_ch_regs chip (dir_val (ch_dir chan)) (ch_id chan) + 4"

definition hdma_bell_val :: "dw_edma_chan \<Rightarrow> u32" where
  "hdma_bell_val chan = HDMA_V0_DOORBELL_START"

text \<open>Registers of a channel other than its doorbell.\<close>

definition hdma_not_bell :: "dw_edma_chip \<Rightarrow> dw_edma_chan \<Rightarrow> iomem \<Rightarrow> bool" where
  "hdma_not_bell chip chan a \<longleftrightarrow> in_regs chip a \<and> a \<noteq> hdma_bell chip chan"

lemma hdma_not_bell_reg:
  "k < 0x100 \<Longrightarrow> k \<noteq> 4 \<Longrightarrow> ch_id chan < 8 \<Longrightarrow>
   hdma_not_bell chip chan (hdma_ch_regs chip (dir_val (ch_dir chan)) (ch_id chan) + k)"
  by (auto simp: hdma_not_bell_def hdma_bell_def in_regs_def hdma_ch_regs_def Let_def layout_simps)

lemmas hdma_not_bell_reg0 = hdma_not_bell_reg [of 0, simplified]

lemma writes_in_HSET:
  "writes_in P w w' \<Longrightarrow> P (hdma_ch_regs chip dir ch + offsetof dw_hdma_v0_ch_regs n) \<Longrightarrow>
   writes_in P w (HSET_CH_32 chip dir ch n v w')"
  by (simp add: HSET_CH_32_def)

lemma writes_in_HGET: "writes_in P w w' \<Longrightarrow> writes_in P w (snd (HGET_CH_32 chip dir ch n w'))"
  by (simp add: HGET_CH_32_def)

lemma writes_in_hdma_start_first:
  assumes "ch_id chan < 8" "writes_in (hdma_not_bell chip chan) w w'"
  shows "writes_in (hdma_not_bell chip chan) w (hdma_start_first chip chan ck w')"
  unfolding hdma_start_first_def Let_def case_prod_beta
  using assms
  by (auto simp: layout_simps hdma_not_bell_reg hdma_not_bell_reg0 intro!: writes_in_HSET writes_in_HGET)

definition hdma_start_prefix ::
  "dw_edma_chip \<Rightarrow> dw_edma_chan \<Rightarrow> dw_edma_chunk \<Rightarrow> bool \<Rightarrow> world \<Rightarrow> world" where
  "hdma_start_prefix chip chan ck first w =
     (let w = dw_hdma_v0_core_write_chunk chip ck w;
          w = (if first then hdma_start_first chip chan ck w else w);
          w = HSET_CH_32 chip (dir_val (ch_dir chan)) (ch_id chan) ''cycle_sync''
                (HDMA_V0_CONSUMER_CYCLE_STAT OR HDMA_V0_CONSUMER_CYCLE_BIT) w
      in if \<not> chip_local chip then snd (readl (vaddr (ll_region ck)) w) else w)"

lemma hdma_start_eq:
  "dw_hdma_v0_core_start chip chan ck first w =
     writel (hdma_bell_val chan) (hdma_bell chip chan) (hdma_start_prefix chip chan ck first w)"
  by (simp add: dw_hdma_v0_core_start_def hdma_start_prefix_def Let_def hdma_bell_def hdma_bell_val_def
      HSET_CH_32_def layout_simps)

lemma io_only_hdma_start_prefix [simp, intro]:
  "io_only w w' \<Longrightarrow> io_only w (hdma_start_prefix chip chan ck first w')"
  by (auto simp: hdma_start_prefix_def hdma_start_first_def Let_def case_prod_beta HSET_CH_32_def
      HGET_CH_32_def hdma_write_chunk_eq)

lemma hdma_start_prefix_writes:
  assumes "ch_id chan < 8"
  shows "writes_in (hdma_not_bell chip chan) (dw_hdma_v0_core_write_chunk chip ck w)
           (hdma_start_prefix chip chan ck first w)"
  using assms
  by (auto simp: hdma_start_prefix_def Let_def layout_simps hdma_not_bell_reg
      intro!: writes_in_hdma_start_first writes_in_HSET)

lemma hdma_bell_in_regs: "ch_id chan < 8 \<Longrightarrow> in_regs chip (hdma_bell chip chan)"
  by (auto simp: hdma_bell_def in_regs_def hdma_ch_regs_def Let_def layout_simps)

lemma hdma_start_prefix_no_bell:
  assumes "ll_clear chip ck" "ch_id chan < 8"
  shows "writes_in (\<lambda>a. a \<noteq> hdma_bell chip chan) w (hdma_start_prefix chip chan ck first w)"
proof (rule writes_in_trans)
  show "writes_in (\<lambda>a. a \<noteq> hdma_bell chip chan) w (dw_hdma_v0_core_write_chunk chip ck w)"
    unfolding hdma_write_chunk_eq
    using ll_clear_disjoint [OF assms(1) hdma_bell_in_regs [OF assms(2)]]
    by (intro writes_in_mono [OF writes_in_v0_write_chunk]) auto
  show "writes_in (\<lambda>a. a \<noteq> hdma_bell chip chan) (dw_hdma_v0_core_write_chunk chip ck w)
          (hdma_start_prefix chip chan ck first w)"
    by (rule writes_in_mono [OF hdma_start_prefix_writes [OF assms(2)]]) (simp add: hdma_not_bell_def)
qed

lemma hdma_start_prefix_holds:
  assumes "burst_count_ok ck" "ll_clear chip ck" "ch_id chan < 8"
  shows "ll_holds chip ck (memx m w (hdma_start_prefix chip chan ck first w))"
  using assms
  by (intro ll_holds_writes [OF _ _ hdma_start_prefix_writes [OF assms(3)]])
    (auto intro: v0_write_chunk_holds dest: ll_clear_disjoint simp: hdma_not_bell_def hdma_write_chunk_eq)

interpretation hdma: dma_engine dw_hdma_v0_core_start hdma_bell hdma_bell_val
proof
  fix w chip chan ck first m
  show "io_only w (dw_hdma_v0_core_start chip chan ck first w)"
    by (simp add: hdma_start_eq)
  assume ok: "burst_count_ok ck" "ll_clear chip ck" "ch_id chan < 8"
  let ?p = "hdma_start_prefix chip chan ck first w"
  have "new_evs w (dw_hdma_v0_core_start chip chan ck first w) =
      new_evs w ?p @ [Writel (hdma_bell chip chan) (hdma_bell_val chan)]"
    by (simp add: hdma_start_eq new_evs_writel)
  moreover have "\<forall>v. Writel (hdma_bell chip chan) v \<notin> set (new_evs w ?p)"
    using writes_in_no_bell [OF hdma_start_prefix_no_bell [OF ok(2,3)]] by blast
  moreover have "ll_holds chip ck (fold store_ev (new_evs w ?p) m)"
    using hdma_start_prefix_holds [OF ok] by (simp add: memx_def)
  ultimately show "\<exists>es. new_evs w (dw_hdma_v0_core_start chip chan ck first w) =
        es @ [Writel (hdma_bell chip chan) (hdma_bell_val chan)] \<and>
      (\<forall>v. Writel (hdma_bell chip chan) v \<notin> set es) \<and> ll_holds chip ck (fold store_ev es m)"
    by blast
qed

subsection \<open>Lemmas: interrupt handling\<close>

text \<open>One round of the loop on one channel: the done handler, then the abort handler.\<close>

definition hdma_irq_round ::
  "dw_edma_chip \<Rightarrow> dw_edma_handler \<Rightarrow> dw_edma_handler \<Rightarrow> u32 \<Rightarrow> dw_edma_chan \<Rightarrow> world \<Rightarrow>
   (dw_edma_chan \<times> world) option" where
  "hdma_irq_round chip done_h abort_h val chan w =
     (case (if FIELD_GET HDMA_V0_STOP_INT_MASK val \<noteq> 0
            then done_h chan (dw_hdma_v0_core_clear_done_int chip chan w) else Some (chan, w)) of
        None \<Rightarrow> None
      | Some (chan, w) \<Rightarrow>
          (if FIELD_GET HDMA_V0_ABORT_INT_MASK val \<noteq> 0
           then abort_h chan (dw_hdma_v0_core_clear_abort_int chip chan w) else Some (chan, w)))"

lemma hdma_irq_loop_Cons:
  assumes "dw_hdma_v0_core_status_int chip (chans ! (pos + off)) w = (val, w1)"
  shows "hdma_irq_loop chip d a off (pos # ps) ret chans w =
    (case hdma_irq_round chip d a val (chans ! (pos + off)) w1 of
       None \<Rightarrow> None
     | Some (chan, w) \<Rightarrow>
         hdma_irq_loop chip d a off ps
           (ret \<or> FIELD_GET HDMA_V0_STOP_INT_MASK val \<noteq> 0 \<or> FIELD_GET HDMA_V0_ABORT_INT_MASK val \<noteq> 0)
           (chans[pos + off := chan]) w)"
  by (simp add: assms hdma_irq_round_def split: option.splits)

lemma hdma_irq_round_keeps:
  assumes "keeps I d" "keeps I a" "I c"
  shows "\<exists>c' w'. hdma_irq_round chip d a val c w = Some (c', w') \<and> I c'"
proof -
  obtain c1 w1 where 1: "(if FIELD_GET HDMA_V0_STOP_INT_MASK val \<noteq> 0
      then d c (dw_hdma_v0_core_clear_done_int chip c w) else Some (c, w)) = Some (c1, w1)" "I c1"
    using keepsD [OF assms(1,3), of "dw_hdma_v0_core_clear_done_int chip c w"] assms(3)
    by (cases "FIELD_GET HDMA_V0_STOP_INT_MASK val = 0") auto
  show ?thesis
    unfolding hdma_irq_round_def 1(1) using keepsD [OF assms(2) 1(2)] 1(2) by auto
qed

lemma hdma_irq_loop_step:
  assumes "hdma_irq_loop chip d a off (pos # ps) ret chans w = Some (ret', chans', w')"
  obtains r c w2 where
    "hdma_irq_loop chip d a off ps r (chans[pos + off := c]) w2 = Some (ret', chans', w')"
proof -
  obtain val w1 where s: "dw_hdma_v0_core_status_int chip (chans ! (pos + off)) w = (val, w1)"
    by fastforce
  show ?thesis
    using assms that unfolding hdma_irq_loop_Cons [OF s] by (auto split: option.splits)
qed

lemma hdma_irq_loop_length:
  "hdma_irq_loop chip d a off ps ret chans w = Some (ret', chans', w') \<Longrightarrow> length chans' = length chans"
  by (induction ps arbitrary: ret chans w) (simp, metis hdma_irq_loop_step length_list_update)

lemma hdma_irq_loop_other:
  "hdma_irq_loop chip d a off ps ret chans w = Some (ret', chans', w') \<Longrightarrow>
   \<forall>p \<in> set ps. q \<noteq> p + off \<Longrightarrow> chans' ! q = chans ! q"
proof (induction ps arbitrary: ret chans w)
  case (Cons pos ps)
  obtain r c w2 where "hdma_irq_loop chip d a off ps r (chans[pos + off := c]) w2 = Some (ret', chans', w')"
    by (rule hdma_irq_loop_step [OF Cons.prems(1)])
  then show ?case
    using Cons.IH [of r "chans[pos + off := c]" w2] Cons.prems(2) by auto
qed simp

lemma hdma_irq_loop_keeps:
  assumes "keeps I d" "keeps I a" "\<forall>c \<in> set chans. I c" "\<forall>p \<in> set ps. p + off < length chans"
  shows "\<exists>ret' chans' w'. hdma_irq_loop chip d a off ps ret chans w = Some (ret', chans', w') \<and>
    (\<forall>c \<in> set chans'. I c)"
  using assms(3,4)
proof (induction ps arbitrary: ret chans w)
  case (Cons pos ps)
  obtain val w1 where s: "dw_hdma_v0_core_status_int chip (chans ! (pos + off)) w = (val, w1)"
    by fastforce
  have "I (chans ! (pos + off))"
    using Cons.prems by auto
  then obtain c w2 where c: "hdma_irq_round chip d a val (chans ! (pos + off)) w1 = Some (c, w2)" "I c"
    using hdma_irq_round_keeps [OF assms(1,2)] by blast
  have "\<forall>c' \<in> set (chans[pos + off := c]). I c'"
    using Cons.prems(1) c(2) set_update_subset_insert [of chans "pos + off" c] by blast
  then show ?case
    unfolding hdma_irq_loop_Cons [OF s] c(1) using Cons.IH Cons.prems(2) by simp
qed simp

lemma set_bits_below_position:
  assumes "i \<in> set (set_bits_below m n)"
    "(n, off, m) = (if dir = EDMA_DIR_WRITE then (unat (wr_ch_cnt dw), 0, wr_mask irq)
       else (unat (rd_ch_cnt dw), unat (wr_ch_cnt dw), rd_mask irq))"
  shows "irq_serves dw irq dir (i + off)" "dw_wf dw \<Longrightarrow> i + off < length (dw_chan dw)"
  using assms by (auto simp: irq_serves_def dw_wf_def set_set_bits_below split: if_splits)

interpretation hdma_irq: dma_irq dw_hdma_v0_core_handle_int "\<lambda>_. True"
proof
  fix dw :: dw_edma and irq :: dw_edma_irq and dir d a w ret dw' w' q
  obtain n off m where nom: "(n, off, m) =
      (if dir = EDMA_DIR_WRITE then (unat (wr_ch_cnt dw), 0, wr_mask irq)
       else (unat (rd_ch_cnt dw), unat (wr_ch_cnt dw), rd_mask irq))"
    by (cases "dir = EDMA_DIR_WRITE") auto
  have eq: "dw_hdma_v0_core_handle_int dw irq dir d a w =
     (case hdma_irq_loop (dw_chip dw) d a off (set_bits_below m n) False (dw_chan dw) w of
        None \<Rightarrow> None | Some (ret, chans, w) \<Rightarrow> Some (ret, dw\<lparr>dw_chan := chans\<rparr>, w))"
    unfolding dw_hdma_v0_core_handle_int_def nom [symmetric] by simp
  {
    assume H: "dw_hdma_v0_core_handle_int dw irq dir d a w = Some (ret, dw', w')"
    obtain r chans w0 where 0: "hdma_irq_loop (dw_chip dw) d a off (set_bits_below m n) False (dw_chan dw) w =
        Some (r, chans, w0)"
      using H unfolding eq
      by (cases "hdma_irq_loop (dw_chip dw) d a off (set_bits_below m n) False (dw_chan dw) w") auto
    have dw': "dw' = dw\<lparr>dw_chan := chans\<rparr>" and "ret = r" "w' = w0"
      using H unfolding eq 0 by simp_all
    then have 1: "hdma_irq_loop (dw_chip dw) d a off (set_bits_below m n) False (dw_chan dw) w =
        Some (ret, chans, w')"
      using 0 by simp
    show "dw' = dw\<lparr>dw_chan := dw_chan dw'\<rparr> \<and> length (dw_chan dw') = length (dw_chan dw)"
      using hdma_irq_loop_length [OF 1] by (simp add: dw')
    assume "\<not> irq_serves dw irq dir q"
    then have "\<forall>p \<in> set (set_bits_below m n). q \<noteq> p + off"
      using set_bits_below_position(1) [OF _ nom] by blast
    then show "dw_chan dw' ! q = dw_chan dw ! q"
      using hdma_irq_loop_other [OF 1] by (simp add: dw')
  }
  fix I :: "dw_edma_chan \<Rightarrow> bool"
  assume I: "dw_wf dw" "\<forall>c \<in> set (dw_chan dw). I c" "keeps I d" "keeps I a"
  have "\<forall>p \<in> set (set_bits_below m n). p + off < length (dw_chan dw)"
    using set_bits_below_position(2) [OF _ nom I(1)] by blast
  then obtain ret chans w' where 1: "hdma_irq_loop (dw_chip dw) d a off (set_bits_below m n) False
      (dw_chan dw) w = Some (ret, chans, w')" "\<forall>c \<in> set chans. I c"
    using hdma_irq_loop_keeps [OF I(3,4,2)] by blast
  then show "\<exists>ret dw' w'. dw_hdma_v0_core_handle_int dw irq dir d a w = Some (ret, dw', w') \<and>
      (\<forall>c \<in> set (dw_chan dw'). I c)"
    by (simp add: eq)
qed simp

subsection \<open>Properties\<close>

text \<open>Turning the engine off reaches every channel context of both directions: the events are, for
  each of the eight channels in order, the interrupt mask, the interrupt clear and the disable of
  the write and of the read context, and nothing else.\<close>

theorem hdma_off_covers_all:
  "new_evs w (dw_hdma_v0_core_off chip w) =
     concat (map (\<lambda>i. concat (map (\<lambda>(r, v). [Writel (hdma_ch_regs chip 0 i + r) v, Writel (hdma_ch_regs chip 1 i + r) v])
       [(0x88, 5), (0x8c, 5), (0, 0)])) [0, 1, 2, 3, 4, 5, 6, 7])"
proof -
  have ch: "trace (hdma_off_ch chip i w) = trace w @
      concat (map (\<lambda>(r, v). [Writel (hdma_ch_regs chip 0 i + r) v, Writel (hdma_ch_regs chip 1 i + r) v])
        [(0x88, 5), (0x8c, 5), (0, 0)])" (is "_ = _ @ ?es i") for i and w :: world
    by (simp add: hdma_off_ch_def HSET_BOTH_CH_32_def HSET_CH_32_def Let_def writel_def layout_simps)
  have "trace (fold (hdma_off_ch chip) is w) = trace w @ concat (map ?es is)" for "is" and w :: world
    by (induction "is" arbitrary: w) (simp_all only: fold_simps ch append_assoc list.map concat.simps append_Nil2)
  moreover have "[0..<HDMA_V0_MAX_NR_CH] = [0, 1, 2, 3, 4, 5, 6, 7]"
    by (simp add: HDMA_V0_MAX_NR_CH_def upt_rec)
  ultimately show ?thesis
    unfolding dw_hdma_v0_core_off_def by (intro new_evsI) (simp only:)
qed

text \<open>C35: The status read of the HDMA engine makes one access. For a write channel it reads the status of
  channel 0, for a read channel that of channel 1, and of the two contexts of that channel the write
  context when the own number is 0 and the read context otherwise. So only write channel 0 and read
  channel 1 read their own status, and what is reported is that register: 1 is in progress, 3 complete,
  all else an error.\<close>

theorem hdma_ch_status_register:
  "\<exists>a. a = reg_base chip + 0x200 * (if ch_dir chan = EDMA_DIR_WRITE then 0 else 1) +
      (if ch_id chan = 0 then 0 else 0x100) + 0x80 \<and>
    new_evs w (snd (dw_hdma_v0_core_ch_status chip chan w)) = [Readl a] \<and>
    fst (dw_hdma_v0_core_ch_status chip chan w) =
      (let v = dev w (trace w) a in
       if v AND 3 = 1 then DMA_IN_PROGRESS else if v AND 3 = 3 then DMA_COMPLETE else DMA_ERROR) \<and>
    (a = hdma_ch_regs chip (dir_val (ch_dir chan)) (ch_id chan) + offsetof dw_hdma_v0_ch_regs ''ch_stat'' \<longleftrightarrow>
     ch_dir chan = EDMA_DIR_WRITE \<and> ch_id chan = 0 \<or> ch_dir chan = EDMA_DIR_READ \<and> ch_id chan = 1)"
proof -
  define a where "a = reg_base chip + 0x200 * (if ch_dir chan = EDMA_DIR_WRITE then 0 else 1) +
      (if ch_id chan = 0 then 0 else 0x100) + 0x80"
  have eq: "hdma_ch_regs chip (ch_id chan) (dir_val (ch_dir chan)) + 0x80 = a"
    by (cases "ch_dir chan") (simp_all add: a_def hdma_ch_regs_def Let_def layout_simps)
  have run: "dw_hdma_v0_core_ch_status chip chan w =
      (let v = dev w (trace w) a AND 3 in
       if v = 1 then DMA_IN_PROGRESS else if v = 3 then DMA_COMPLETE else DMA_ERROR, emit (Readl a) w)"
    by (simp add: dw_hdma_v0_core_ch_status_def HGET_CH_32_def readl_def FIELD_GET_def Let_def layout_simps eq)
  have "new_evs w (emit (Readl a) w) = [Readl a]"
    by (rule new_evsI) (simp add: trace_simps)
  moreover have "a = hdma_ch_regs chip (dir_val (ch_dir chan)) (ch_id chan) + offsetof dw_hdma_v0_ch_regs ''ch_stat'' \<longleftrightarrow>
     ch_dir chan = EDMA_DIR_WRITE \<and> ch_id chan = 0 \<or> ch_dir chan = EDMA_DIR_READ \<and> ch_id chan = 1"
    by (cases "ch_dir chan") (auto simp: a_def hdma_ch_regs_def Let_def layout_simps)
  ultimately show ?thesis
    by (intro exI [of _ a]) (simp add: run Let_def a_def)
qed

text \<open>The first start of an HDMA channel keeps both its stop and abort interrupts masked, exactly
  as turning the engine off left them, and enables the local interrupts and, on a remote engine, the
  remote ones; every bit set before stays set.\<close>

theorem hdma_start_int_setup:
  fixes chip chan
  defines "r \<equiv> hdma_ch_regs chip (dir_val (ch_dir chan)) (ch_id chan)"
  shows "\<exists>v es. new_evs w (hdma_start_first chip chan ck w) =
      [Writel r 1, Readl (r + 0x88), Writel (r + 0x88) v] @ es \<and>
    (\<forall>k. bit v k \<longleftrightarrow> k \<in> {0, 2, 4, 6} \<or> \<not> chip_local chip \<and> k \<in> {3, 5} \<or>
       bit (dev w (trace w @ [Writel r 1]) (r + 0x88)) k)"
proof -
  let ?old = "dev w (trace w @ [Writel r 1]) (r + 0x88)"
  let ?v = "hdma_int_setup_val chip ?old"
  let ?es = "[Writel (r + 0x34) HDMA_V0_LINKLIST_EN,
        Writel (r + 0x10) (lower_32_bits (paddr (ll_region ck))),
        Writel (r + 0x14) (upper_32_bits (paddr (ll_region ck)))]"
  have "new_evs w (hdma_start_first chip chan ck w) =
      [Writel r 1, Readl (r + 0x88), Writel (r + 0x88) ?v] @ ?es"
    by (rule new_evsI) (simp add: hdma_start_first_def Let_def HSET_CH_32_def HGET_CH_32_def split_beta
        readl_def writel_def layout_simps BIT_def r_def)
  moreover have "bit ?v k \<longleftrightarrow> k \<in> {0, 2, 4, 6} \<or> \<not> chip_local chip \<and> k \<in> {3, 5} \<or> bit ?old k" for k
    by (auto simp: hdma_int_setup_val_def Let_def bit_or_iff bit_BIT HDMA_V0_STOP_INT_MASK_def
        HDMA_V0_ABORT_INT_MASK_def HDMA_V0_LOCAL_STOP_INT_EN_def HDMA_V0_LOCAL_ABORT_INT_EN_def
        HDMA_V0_REMOTE_STOP_INT_EN_def HDMA_V0_REMOTE_ABORT_INT_EN_def)
  ultimately show ?thesis
    by (intro exI conjI allI)
qed

subsection \<open>The properties on the sample device\<close>

theorem hdma_ch_status_register_witness:
  "new_evs ex_world (snd (dw_hdma_v0_core_ch_status ex_chip (ex_chan EDMA_DIR_WRITE 1) ex_world)) =
     [Readl (reg_base ex_chip + 0x180)]"
  using hdma_ch_status_register [of ex_chip "ex_chan EDMA_DIR_WRITE 1" ex_world] by simp

end
