(* ===== verification/Edma_Desc.thy ===== *)
theory Edma_Desc
  imports Hdma_Core "HOL-Library.Multiset"
begin

section \<open>Descriptors, chunks and bursts (dw-edma-core.c)\<close>

text \<open>
  Allocation and release of the three-level descriptor and \<open>dw_edma_device_transfer\<close>, which cuts
  a scatter-gather, cyclic or interleaved request into bursts and the bursts into chunks that fit
  the channel's linked-list memory. The pointer \<open>chunk\<close> of the code always points to the last
  chunk of the descriptor, the pointer \<open>burst\<close> to the last burst of that chunk.

  \<open>kapi\<close> holds the two inline helpers of \<open>linux/dmaengine.h\<close> the code calls. \<open>int i\<close> is a
  \<open>nat\<close>: it counts up to \<open>cnt\<close>, and overflows only past \<open>2 ^ 31\<close> bursts. The array
  \<open>il->sgl\<close> has at least \<open>frame_size\<close> elements, as the DMA engine requires of its clients.
\<close>

record kapi =
  dmaengine_get_src_icg :: "dma_interleaved_template \<Rightarrow> data_chunk \<Rightarrow> u64"
  dmaengine_get_dst_icg :: "dma_interleaved_template \<Rightarrow> data_chunk \<Rightarrow> u64"

definition dw_edma_get_pci_address :: "dw_edma_chip \<Rightarrow> u64 \<Rightarrow> u64" where
  "dw_edma_get_pci_address chip cpu_addr =
     (case ops_pci_address chip of Some f \<Rightarrow> f cpu_addr | None \<Rightarrow> cpu_addr)"

subsection \<open>Allocation\<close>

definition dw_edma_alloc_burst :: "dw_edma_chunk \<Rightarrow> world \<Rightarrow> bool \<times> dw_edma_chunk \<times> world" where
  "dw_edma_alloc_burst chunk w =
     (case kzalloc w of
        (None, w) \<Rightarrow> (False, chunk, w)
      | (Some a, w) \<Rightarrow>
          (let burst = \<lparr>b_addr = a, b_sar = 0, b_dar = 0, b_sz = 0\<rparr> in
           case ck_burst chunk of
             Some (head, bs) \<Rightarrow>
               (True, chunk\<lparr>bursts_alloc := bursts_alloc chunk + 1, ck_burst := Some (head, bs @ [burst])\<rparr>, w)
           | None \<Rightarrow> (True, chunk\<lparr>bursts_alloc := 0, ck_burst := Some (burst, [])\<rparr>, w)))"

definition dw_edma_alloc_chunk ::
  "dw_edma_chip \<Rightarrow> dw_edma_chan \<Rightarrow> dw_edma_desc \<Rightarrow> world \<Rightarrow> bool \<times> dw_edma_desc \<times> world" where
  "dw_edma_alloc_chunk chip chan desc w =
     (case kzalloc w of
        (None, w) \<Rightarrow> (False, desc, w)
      | (Some a, w) \<Rightarrow>
          (let rg = ll_region_of chip (ch_dir chan) (ch_id chan);
               chunk = \<lparr>ck_addr = a, ck_burst = None, bursts_alloc = 0,
                        ck_cb = (if chunks_alloc desc mod 2 = 0 then 1 else 0),
                        ll_region = \<lparr>paddr = paddr rg, vaddr = vaddr rg, rg_sz = 0\<rparr>\<rparr>
           in case d_chunk desc of
                Some (head, cks) \<Rightarrow>
                  (case dw_edma_alloc_burst chunk w of
                     (False, _, w) \<Rightarrow> (False, desc, kfree a w)
                   | (True, chunk, w) \<Rightarrow>
                       (True, desc\<lparr>chunks_alloc := chunks_alloc desc + 1,
                                  d_chunk := Some (head, cks @ [chunk])\<rparr>, w))
              | None \<Rightarrow> (True, desc\<lparr>chunks_alloc := 0, d_chunk := Some (chunk, [])\<rparr>, w)))"

definition dw_edma_alloc_desc ::
  "dw_edma_chip \<Rightarrow> dw_edma_chan \<Rightarrow> world \<Rightarrow> dw_edma_desc option \<times> world" where
  "dw_edma_alloc_desc chip chan w =
     (case kzalloc w of
        (None, w) \<Rightarrow> (None, w)
      | (Some a, w) \<Rightarrow>
          (let desc = \<lparr>vd_addr = a, vd_cookie = 0, vd_flags = 0, vd_reuse = False, vd_residue = 0,
                       d_chunk = None, chunks_alloc = 0, alloc_sz = 0, xfer_sz = 0\<rparr>
           in case dw_edma_alloc_chunk chip chan desc w of
                (False, desc, w) \<Rightarrow> (None, kfree (vd_addr desc) w)
              | (True, desc, w) \<Rightarrow> (Some desc, w)))"

subsection \<open>Release\<close>

text \<open>The list is walked with the next element saved, each element freed, then the head.\<close>

fun free_burst_list :: "dw_edma_burst list \<Rightarrow> dw_edma_chunk \<Rightarrow> world \<Rightarrow> dw_edma_chunk \<times> world" where
  "free_burst_list [] chunk w = (chunk, w)"
| "free_burst_list (child # bs) chunk w =
     free_burst_list bs (chunk\<lparr>bursts_alloc := bursts_alloc chunk - 1\<rparr>) (kfree (b_addr child) w)"

definition dw_edma_free_burst :: "dw_edma_chunk \<Rightarrow> world \<Rightarrow> dw_edma_chunk \<times> world" where
  "dw_edma_free_burst chunk w =
     (case ck_burst chunk of
        None \<Rightarrow> (chunk, w\<lparr>mem_fault := True\<rparr>)
      | Some (head, bs) \<Rightarrow>
          (let (chunk, w) = free_burst_list bs chunk w
           in (chunk\<lparr>ck_burst := None\<rparr>, kfree (b_addr head) w)))"

fun free_chunk_list :: "dw_edma_chunk list \<Rightarrow> dw_edma_desc \<Rightarrow> world \<Rightarrow> dw_edma_desc \<times> world" where
  "free_chunk_list [] desc w = (desc, w)"
| "free_chunk_list (child # cks) desc w =
     (let (_, w) = dw_edma_free_burst child w
      in free_chunk_list cks (desc\<lparr>chunks_alloc := chunks_alloc desc - 1\<rparr>) (kfree (ck_addr child) w))"

definition dw_edma_free_chunk :: "dw_edma_desc \<Rightarrow> world \<Rightarrow> dw_edma_desc \<times> world" where
  "dw_edma_free_chunk desc w =
     (case d_chunk desc of
        None \<Rightarrow> (desc, w)
      | Some (head, cks) \<Rightarrow>
          (let (desc, w) = free_chunk_list cks desc w
           in (desc\<lparr>d_chunk := None\<rparr>, kfree (ck_addr head) w)))"

definition dw_edma_free_desc :: "dw_edma_desc \<Rightarrow> world \<Rightarrow> world" where
  "dw_edma_free_desc desc w =
     (let (desc, w) = dw_edma_free_chunk desc w in kfree (vd_addr desc) w)"

text \<open>The \<open>desc_free\<close> callback of a virtual channel.\<close>

definition vchan_free_desc :: "dw_edma_desc \<Rightarrow> world \<Rightarrow> world" where
  "vchan_free_desc vdesc w = dw_edma_free_desc vdesc w"

subsection \<open>Cutting a request into bursts\<close>

definition xfer_burst_sz :: "dw_edma_xfer \<Rightarrow> nat \<Rightarrow> scatterlist \<Rightarrow> u32" where
  "xfer_burst_sz x i sg =
     (case x of
        XFER_CYCLIC _ len _ \<Rightarrow> ucast len
      | XFER_SG _ _ \<Rightarrow> snd (hd sg)
      | XFER_INTERLEAVED il \<Rightarrow> ucast (dc_size (il_sgl il ! (i mod unat (il_frame_size il)))))"

text \<open>Source and destination of the burst, and the two running addresses after it.\<close>

definition xfer_burst_addrs ::
  "dw_edma_xfer \<Rightarrow> dma_transfer_direction \<Rightarrow> scatterlist \<Rightarrow> u64 \<Rightarrow> u64 \<Rightarrow> u64 \<times> u64 \<times> u64 \<times> u64" where
  "xfer_burst_addrs x dir sg src_addr dst_addr =
     (if dir = DMA_DEV_TO_MEM then
        (case x of
           XFER_CYCLIC p _ _ \<Rightarrow> (src_addr, p, src_addr, dst_addr)
         | XFER_SG _ _ \<Rightarrow> (src_addr, fst (hd sg), src_addr + ucast (snd (hd sg)), dst_addr)
         | XFER_INTERLEAVED _ \<Rightarrow> (src_addr, dst_addr, src_addr, dst_addr))
      else
        (case x of
           XFER_CYCLIC p _ _ \<Rightarrow> (p, dst_addr, src_addr, dst_addr)
         | XFER_SG _ _ \<Rightarrow> (fst (hd sg), dst_addr, src_addr, dst_addr + ucast (snd (hd sg)))
         | XFER_INTERLEAVED _ \<Rightarrow> (src_addr, dst_addr, src_addr, dst_addr)))"

definition xfer_advance ::
  "kapi \<Rightarrow> dw_edma_xfer \<Rightarrow> nat \<Rightarrow> u32 \<Rightarrow> scatterlist \<Rightarrow> u64 \<Rightarrow> u64 \<Rightarrow> scatterlist \<times> u64 \<times> u64" where
  "xfer_advance k x i bsz sg src_addr dst_addr =
     (case x of
        XFER_SG _ _ \<Rightarrow> (tl sg, src_addr, dst_addr)
      | XFER_CYCLIC _ _ _ \<Rightarrow> (sg, src_addr, dst_addr)
      | XFER_INTERLEAVED il \<Rightarrow>
          (let dc = il_sgl il ! (i mod unat (il_frame_size il));
               src_addr = src_addr + ucast bsz;
               src_addr = (if il_src_sgl il then src_addr + dmaengine_get_src_icg k il dc else src_addr);
               dst_addr = dst_addr + ucast bsz;
               dst_addr = (if il_dst_sgl il then dst_addr + dmaengine_get_dst_icg k il dc else dst_addr)
           in (sg, src_addr, dst_addr)))"

text \<open>The current chunk, and what the stores through \<open>chunk\<close>, \<open>burst\<close> and \<open>desc\<close> do.\<close>

definition cur_chunk :: "dw_edma_desc \<Rightarrow> dw_edma_chunk" where
  "cur_chunk desc = last (chunks desc)"

definition set_cur_chunk :: "dw_edma_chunk \<Rightarrow> dw_edma_desc \<Rightarrow> dw_edma_desc" where
  "set_cur_chunk chunk desc =
     desc\<lparr>d_chunk := map_option (\<lambda>(head, cks). (head, upd_last (\<lambda>_. chunk) cks)) (d_chunk desc)\<rparr>"

definition fill_burst :: "u32 \<Rightarrow> u64 \<Rightarrow> u64 \<Rightarrow> dw_edma_chunk \<Rightarrow> dw_edma_chunk" where
  "fill_burst bsz sar dar chunk =
     chunk\<lparr>ck_burst := map_option (\<lambda>(head, bs). (head, upd_last
             (\<lambda>b. b\<lparr>b_sz := bsz, b_sar := sar, b_dar := dar\<rparr>) bs)) (ck_burst chunk),
           ll_region := (ll_region chunk)\<lparr>rg_sz := rg_sz (ll_region chunk) + ucast bsz\<rparr>\<rparr>"

text \<open>The \<open>for\<close> loop: \<open>n\<close> iterations left, the first of them number \<open>i\<close>.\<close>

fun transfer_loop ::
  "kapi \<Rightarrow> dw_edma_chip \<Rightarrow> dw_edma_chan \<Rightarrow> dw_edma_xfer \<Rightarrow> dma_transfer_direction \<Rightarrow>
   nat \<Rightarrow> nat \<Rightarrow> scatterlist \<Rightarrow> u64 \<Rightarrow> u64 \<Rightarrow> dw_edma_desc \<Rightarrow> world \<Rightarrow> bool \<times> dw_edma_desc \<times> world" where
  "transfer_loop k chip chan x dir 0 i sg src_addr dst_addr desc w = (True, desc, w)"
| "transfer_loop k chip chan x dir (Suc n) i sg src_addr dst_addr desc w =
     (if (case x of XFER_SG _ _ \<Rightarrow> sg = [] | _ \<Rightarrow> False) then (True, desc, w)
      else
        case (if bursts_alloc (cur_chunk desc) = ll_max chan
              then dw_edma_alloc_chunk chip chan desc w else (True, desc, w)) of
          (False, desc, w) \<Rightarrow> (False, desc, w)
        | (True, desc, w) \<Rightarrow>
            (case dw_edma_alloc_burst (cur_chunk desc) w of
               (False, chunk, w) \<Rightarrow> (False, desc, w)
             | (True, chunk, w) \<Rightarrow>
                 (let bsz = xfer_burst_sz x i sg;
                      (sar, dar, src_addr, dst_addr) = xfer_burst_addrs x dir sg src_addr dst_addr;
                      chunk = fill_burst bsz sar dar chunk;
                      desc = (set_cur_chunk chunk desc)\<lparr>alloc_sz := alloc_sz desc + bsz\<rparr>;
                      (sg, src_addr, dst_addr) = xfer_advance k x i bsz sg src_addr dst_addr
                  in transfer_loop k chip chan x dir n (Suc i) sg src_addr dst_addr desc w)))"

text \<open>The checks before anything is allocated.\<close>

definition transfer_dir_ok :: "dw_edma_chip \<Rightarrow> dw_edma_chan \<Rightarrow> dma_transfer_direction \<Rightarrow> bool" where
  "transfer_dir_ok chip chan dir =
     (if chip_local chip
      then \<not> (ch_dir chan = EDMA_DIR_READ \<and> dir \<noteq> DMA_DEV_TO_MEM \<or>
              ch_dir chan = EDMA_DIR_WRITE \<and> dir \<noteq> DMA_MEM_TO_DEV)
      else \<not> (ch_dir chan = EDMA_DIR_WRITE \<and> dir \<noteq> DMA_DEV_TO_MEM \<or>
              ch_dir chan = EDMA_DIR_READ \<and> dir \<noteq> DMA_MEM_TO_DEV))"

definition transfer_xfer_ok :: "dw_edma_xfer \<Rightarrow> bool" where
  "transfer_xfer_ok x =
     (case x of
        XFER_CYCLIC _ len cnt \<Rightarrow> \<not> (len = 0 \<or> cnt = 0)
      | XFER_SG _ len \<Rightarrow> \<not> len < 1
      | XFER_INTERLEAVED il \<Rightarrow>
          \<not> (il_numf il = 0 \<or> il_frame_size il < 1) \<and> \<not> (\<not> il_src_inc il \<or> \<not> il_dst_inc il))"

definition transfer_cnt :: "dw_edma_xfer \<Rightarrow> u32" where
  "transfer_cnt x =
     (case x of
        XFER_CYCLIC _ _ cnt \<Rightarrow> ucast cnt
      | XFER_SG _ len \<Rightarrow> len
      | XFER_INTERLEAVED il \<Rightarrow> ucast (il_numf il * il_frame_size il))"

definition transfer_sg :: "dw_edma_xfer \<Rightarrow> scatterlist" where
  "transfer_sg x = (case x of XFER_SG sgl _ \<Rightarrow> sgl | _ \<Rightarrow> [])"

text \<open>The start addresses, with the device side translated to a PCI bus address.\<close>

definition transfer_addrs ::
  "dw_edma_chip \<Rightarrow> dw_edma_chan \<Rightarrow> dw_edma_xfer \<Rightarrow> dma_transfer_direction \<Rightarrow> u64 \<times> u64" where
  "transfer_addrs chip chan x dir =
     (let (src_addr, dst_addr) =
            (case x of
               XFER_INTERLEAVED il \<Rightarrow> (il_src_start il, il_dst_start il)
             | _ \<Rightarrow> (cfg_src_addr (ch_config chan), cfg_dst_addr (ch_config chan)))
      in if dir = DMA_DEV_TO_MEM then (dw_edma_get_pci_address chip src_addr, dst_addr)
         else (src_addr, dw_edma_get_pci_address chip dst_addr))"

text \<open>The result is the address of the prepared descriptor, queued on the channel.\<close>

definition dw_edma_device_transfer ::
  "kapi \<Rightarrow> dw_edma_chip \<Rightarrow> dw_edma_chan \<Rightarrow> dw_edma_transfer \<Rightarrow> world \<Rightarrow>
   nat option \<times> dw_edma_chan \<times> world" where
  "dw_edma_device_transfer k chip chan xfer w =
     (let dir = x_direction xfer; x = x_xfer xfer in
      if \<not> configured chan then (None, chan, w)
      else if \<not> transfer_dir_ok chip chan dir then (None, chan, w)
      else if \<not> transfer_xfer_ok x then (None, chan, w)
      else
        case dw_edma_alloc_desc chip chan w of
          (None, w) \<Rightarrow> (None, chan, w)
        | (Some desc, w) \<Rightarrow>
            (case dw_edma_alloc_chunk chip chan desc w of
               (False, desc, w) \<Rightarrow> (None, chan, dw_edma_free_desc desc w)
             | (True, desc, w) \<Rightarrow>
                 (let (src_addr, dst_addr) = transfer_addrs chip chan x dir in
                  case transfer_loop k chip chan x dir (unat (transfer_cnt x)) 0 (transfer_sg x)
                         src_addr dst_addr desc w of
                    (False, desc, w) \<Rightarrow> (None, chan, dw_edma_free_desc desc w)
                  | (True, desc, w) \<Rightarrow>
                      (Some (vd_addr desc), chan\<lparr>chan_vc := vchan_tx_prep (chan_vc chan) desc (x_flags xfer)\<rparr>, w))))"

definition dw_edma_device_prep_slave_sg ::
  "kapi \<Rightarrow> dw_edma_chip \<Rightarrow> dw_edma_chan \<Rightarrow> scatterlist \<Rightarrow> u32 \<Rightarrow> dma_transfer_direction \<Rightarrow> u64 \<Rightarrow> world \<Rightarrow>
   nat option \<times> dw_edma_chan \<times> world" where
  "dw_edma_device_prep_slave_sg k chip chan sgl len direction flags w =
     dw_edma_device_transfer k chip chan
       \<lparr>x_direction = direction, x_flags = flags, x_xfer = XFER_SG sgl len\<rparr> w"

definition dw_edma_device_prep_dma_cyclic ::
  "kapi \<Rightarrow> dw_edma_chip \<Rightarrow> dw_edma_chan \<Rightarrow> u64 \<Rightarrow> u64 \<Rightarrow> u64 \<Rightarrow> dma_transfer_direction \<Rightarrow> u64 \<Rightarrow> world \<Rightarrow>
   nat option \<times> dw_edma_chan \<times> world" where
  "dw_edma_device_prep_dma_cyclic k chip chan p len cnt direction flags w =
     dw_edma_device_transfer k chip chan
       \<lparr>x_direction = direction, x_flags = flags, x_xfer = XFER_CYCLIC p len cnt\<rparr> w"

definition dw_edma_device_prep_interleaved_dma ::
  "kapi \<Rightarrow> dw_edma_chip \<Rightarrow> dw_edma_chan \<Rightarrow> dma_interleaved_template \<Rightarrow> u64 \<Rightarrow> world \<Rightarrow>
   nat option \<times> dw_edma_chan \<times> world" where
  "dw_edma_device_prep_interleaved_dma k chip chan ilt flags w =
     dw_edma_device_transfer k chip chan
       \<lparr>x_direction = il_dir ilt, x_flags = flags, x_xfer = XFER_INTERLEAVED ilt\<rparr> w"

subsection \<open>Lemmas: the allocator\<close>

text \<open>
  \<open>own w0 xs w\<close>: what is live now is what was live in \<open>w0\<close> and the distinct fresh addresses \<open>xs\<close>,
  and no bad \<open>kfree\<close> happened in between.
\<close>

definition heap_ok :: "world \<Rightarrow> bool" where
  "heap_ok w \<longleftrightarrow> (\<forall>a \<in> set (live w). a \<le> brk w)"

definition own :: "world \<Rightarrow> nat list \<Rightarrow> world \<Rightarrow> bool" where
  "own w0 xs w \<longleftrightarrow> distinct xs \<and> set xs \<subseteq> set (live w) \<and> set xs \<inter> set (live w0) = {} \<and>
     filter (\<lambda>a. a \<notin> set xs) (live w) = live w0 \<and> heap_ok w \<and> mem_fault w = mem_fault w0"

text \<open>The part of the world the allocator never touches.\<close>

definition outside :: "world \<Rightarrow> bool \<times> (ev list \<Rightarrow> iomem \<Rightarrow> u32) \<times> (ev list \<Rightarrow> kcall \<Rightarrow> int) \<times> ev list \<times> (nat \<Rightarrow> bool)" where
  "outside w = (force32 w, dev w, kret w, trace w, kz_ok w)"

lemma outside_kfree [simp]: "outside (kfree a w) = outside w"
  by (simp add: outside_def kfree_def)

lemma outside_kzalloc: "kzalloc w = (r, w') \<Longrightarrow> outside w' = outside w"
  by (auto simp: outside_def kzalloc_def split: if_splits)

lemma own_refl: "heap_ok w \<Longrightarrow> own w [] w"
  by (simp add: own_def)

lemma own_Nil: "own w0 [] w \<Longrightarrow> live w = live w0 \<and> mem_fault w = mem_fault w0"
  by (simp add: own_def)

lemma own_perm: "own w0 xs w \<Longrightarrow> mset ys = mset xs \<Longrightarrow> own w0 ys w"
  unfolding own_def by (metis mset_eq_imp_distinct_iff set_mset_mset)

lemma own_kzalloc:
  assumes "own w0 xs w" "kzalloc w = (Some a, w')"
  shows "own w0 (a # xs) w'"
proof -
  have w': "w' = w\<lparr>brk := Suc (brk w), live := a # live w\<rparr>" and a: "a = Suc (brk w)"
    using assms(2) by (auto simp: kzalloc_def split: if_splits)
  have fresh: "a \<notin> set (live w)"
    using assms(1) a by (auto simp: own_def heap_ok_def)
  have live: "filter (\<lambda>b. b \<notin> set xs) (live w) = live w0"
    using assms(1) by (simp add: own_def)
  have "filter (\<lambda>b. b \<noteq> a \<and> b \<notin> set xs) (live w) = filter (\<lambda>b. b \<notin> set xs) (live w)"
    using fresh by (intro filter_cong) auto
  moreover have "a \<notin> set (live w0)"
    using fresh live by (metis filter_is_subset subsetD)
  ultimately show ?thesis
    using assms(1) fresh a unfolding own_def heap_ok_def by (auto simp: w' le_Suc_eq)
qed

lemma own_kzalloc_fail: "own w0 xs w \<Longrightarrow> kzalloc w = (None, w') \<Longrightarrow> own w0 xs w'"
  by (auto simp: own_def heap_ok_def kzalloc_def le_Suc_eq split: if_splits)

lemma own_kfree:
  assumes "own w0 (a # xs) w"
  shows "own w0 xs (kfree a w)"
  using assms unfolding own_def kfree_def heap_ok_def
  by (auto simp: filter_filter conj_commute)


lemma outside_free_burst_list [simp]: "outside (snd (free_burst_list bs ck w)) = outside w"
  by (induction bs ck w rule: free_burst_list.induct) auto

lemma own_free_burst_list:
  "own w0 (map b_addr bs @ xs) w \<Longrightarrow> own w0 xs (snd (free_burst_list bs ck w))"
  by (induction bs ck w rule: free_burst_list.induct) (auto intro: own_kfree)

text \<open>The addresses a chunk and a descriptor hold.\<close>

definition burst_addrs :: "dw_edma_chunk \<Rightarrow> nat list" where
  "burst_addrs ck = (case ck_burst ck of None \<Rightarrow> [] | Some (h, bs) \<Rightarrow> b_addr h # map b_addr bs)"

definition chunk_addrs :: "dw_edma_chunk \<Rightarrow> nat list" where
  "chunk_addrs ck = ck_addr ck # burst_addrs ck"

definition desc_addrs :: "dw_edma_desc \<Rightarrow> nat list" where
  "desc_addrs d = vd_addr d #
     (case d_chunk d of None \<Rightarrow> [] | Some (h, cks) \<Rightarrow> ck_addr h # concat (map chunk_addrs cks))"

lemma own_free_burst:
  assumes "own w0 (burst_addrs ck @ xs) w" "ck_burst ck \<noteq> None"
  shows "own w0 xs (snd (dw_edma_free_burst ck w))"
proof -
  obtain h bs where hb: "ck_burst ck = Some (h, bs)"
    using assms(2) by auto
  have "own w0 (map b_addr bs @ (b_addr h # xs)) w"
    using assms(1) by (rule own_perm) (simp add: burst_addrs_def hb)
  then have "own w0 (b_addr h # xs) (snd (free_burst_list bs ck w))"
    by (rule own_free_burst_list)
  then show ?thesis
    by (simp add: dw_edma_free_burst_def hb split_beta own_kfree)
qed

lemma outside_free_burst [simp]:
  "ck_burst ck \<noteq> None \<Longrightarrow> outside (snd (dw_edma_free_burst ck w)) = outside w"
  by (auto simp: dw_edma_free_burst_def split_beta)

lemma own_free_chunk_list:
  assumes "own w0 (concat (map chunk_addrs cks) @ xs) w" "\<forall>ck \<in> set cks. ck_burst ck \<noteq> None"
  shows "own w0 xs (snd (free_chunk_list cks d w)) \<and> vd_addr (fst (free_chunk_list cks d w)) = vd_addr d \<and>
    outside (snd (free_chunk_list cks d w)) = outside w"
  using assms
proof (induction cks arbitrary: d w)
  case (Cons child cks)
  let ?rest = "concat (map chunk_addrs cks) @ xs"
  have "own w0 (burst_addrs child @ (ck_addr child # ?rest)) w"
    using Cons.prems(1) by (rule own_perm) (simp add: chunk_addrs_def [of child])
  then have "own w0 (ck_addr child # ?rest) (snd (dw_edma_free_burst child w))"
    using Cons.prems(2) by (intro own_free_burst) auto
  then have "own w0 ?rest (kfree (ck_addr child) (snd (dw_edma_free_burst child w)))"
    by (rule own_kfree)
  moreover have "outside (snd (dw_edma_free_burst child w)) = outside w"
    using Cons.prems(2) by simp
  ultimately show ?case
    using Cons.IH Cons.prems(2) by (simp add: split_beta)
qed simp

lemma own_free_desc:
  assumes "own w0 (desc_addrs d @ xs) w"
    "\<And>h cks. d_chunk d = Some (h, cks) \<Longrightarrow> \<forall>ck \<in> set cks. ck_burst ck \<noteq> None"
  shows "own w0 xs (dw_edma_free_desc d w) \<and> outside (dw_edma_free_desc d w) = outside w"
proof (cases "d_chunk d")
  case None
  then show ?thesis
    using assms(1) by (simp add: desc_addrs_def dw_edma_free_desc_def dw_edma_free_chunk_def own_kfree)
next
  case (Some p)
  then obtain h cks where d: "d_chunk d = Some (h, cks)"
    by (cases p) simp
  have "own w0 (concat (map chunk_addrs cks) @ (ck_addr h # vd_addr d # xs)) w"
    using assms(1) by (rule own_perm) (simp add: desc_addrs_def d)
  from own_free_chunk_list [OF this assms(2) [OF d], of d] show ?thesis
    by (auto simp: dw_edma_free_desc_def dw_edma_free_chunk_def d split_beta Let_def intro!: own_kfree)
qed

subsection \<open>Lemmas: building a descriptor\<close>

text \<open>The steps of the loop, as functions on the descriptor.\<close>

definition new_chunk :: "dw_edma_chip \<Rightarrow> dw_edma_chan \<Rightarrow> dw_edma_desc \<Rightarrow> nat \<Rightarrow> nat \<Rightarrow> dw_edma_chunk" where
  "new_chunk chip chan d a b =
     \<lparr>ck_addr = a, ck_burst = Some (\<lparr>b_addr = b, b_sar = 0, b_dar = 0, b_sz = 0\<rparr>, []), bursts_alloc = 0,
      ck_cb = (if even (chunks_alloc d) then 1 else 0),
      ll_region = (ll_region_of chip (ch_dir chan) (ch_id chan))\<lparr>rg_sz := 0\<rparr>\<rparr>"

definition push_chunk :: "dw_edma_chunk \<Rightarrow> dw_edma_desc \<Rightarrow> dw_edma_desc" where
  "push_chunk ck d = d\<lparr>chunks_alloc := chunks_alloc d + 1,
     d_chunk := map_option (\<lambda>(h, cks). (h, cks @ [ck])) (d_chunk d)\<rparr>"

definition push_burst :: "nat \<Rightarrow> u64 \<Rightarrow> u64 \<Rightarrow> u32 \<Rightarrow> dw_edma_chunk \<Rightarrow> dw_edma_chunk" where
  "push_burst a sar dar bsz ck = ck\<lparr>bursts_alloc := bursts_alloc ck + 1,
     ck_burst := map_option (\<lambda>(h, bs). (h, bs @ [\<lparr>b_addr = a, b_sar = sar, b_dar = dar, b_sz = bsz\<rparr>])) (ck_burst ck),
     ll_region := (ll_region ck)\<lparr>rg_sz := rg_sz (ll_region ck) + ucast bsz\<rparr>\<rparr>"

lemma alloc_chunk_cases:
  assumes d: "d_chunk d = Some (h, cks)" and own: "own w0 xs w"
    and r: "dw_edma_alloc_chunk chip chan d w = (ok, d', w')"
  shows "outside w' = outside w \<and>
    (if ok then \<exists>a b. d' = push_chunk (new_chunk chip chan d a b) d \<and> own w0 (a # b # xs) w'
     else d' = d \<and> own w0 xs w')"
proof (cases "kzalloc w")
  case (Pair r1 w1)
  show ?thesis
  proof (cases r1)
    case None
    then show ?thesis
      using r Pair own own_kzalloc_fail [OF own] outside_kzalloc [of w]
      by (auto simp: dw_edma_alloc_chunk_def)
  next
    case (Some a)
    have own1: "own w0 (a # xs) w1" and o1: "outside w1 = outside w"
      using Pair Some own own_kzalloc outside_kzalloc by auto
    obtain r2 w2 where k2: "kzalloc w1 = (r2, w2)"
      by fastforce
    have o2: "outside w2 = outside w"
      using outside_kzalloc [OF k2] o1 by simp
    show ?thesis
    proof (cases r2)
      case None
      then have "own w0 xs (kfree a w2)"
        using own_kfree own_kzalloc_fail [OF own1] k2 by simp
      then show ?thesis
        using r Pair Some None k2 o2
        by (auto simp: dw_edma_alloc_chunk_def dw_edma_alloc_burst_def d Let_def)
    next
      case (Some b)
      have "own w0 (b # a # xs) w2"
        using own_kzalloc [OF own1] k2 Some by simp
      then have "own w0 (a # b # xs) w2"
        by (rule own_perm) simp
      moreover have "dw_edma_alloc_chunk chip chan d w = (True, push_chunk (new_chunk chip chan d a b) d, w2)"
        using Pair \<open>r1 = Some a\<close> Some k2
        by (simp add: dw_edma_alloc_chunk_def dw_edma_alloc_burst_def d Let_def push_chunk_def
            new_chunk_def even_iff_mod_2_eq_zero)
      ultimately show ?thesis
        using r o2 by auto
    qed
  qed
qed

text \<open>
  A descriptor under construction: every chunk counts its bursts, fits the linked-list memory, lies
  in the channel's region and adds up its size; all but the last are full; the cycle bits alternate
  from one; the descriptor adds up all sizes.
\<close>

definition desc_bursts :: "dw_edma_desc \<Rightarrow> dw_edma_burst list" where
  "desc_bursts d = concat (map bursts (chunks d))"

definition chunk_wf :: "dw_edma_region \<Rightarrow> u32 \<Rightarrow> dw_edma_chunk \<Rightarrow> bool" where
  "chunk_wf rg lm ck \<longleftrightarrow> ck_burst ck \<noteq> None \<and> bursts_alloc ck = of_nat (length (bursts ck)) \<and>
     length (bursts ck) \<le> unat lm \<and>
     ll_region ck = rg\<lparr>rg_sz := sum_list (map (\<lambda>b. ucast (b_sz b)) (bursts ck))\<rparr>"

definition cb_seq :: "nat \<Rightarrow> u8 list" where
  "cb_seq n = map (\<lambda>i. if even i then 1 else 0) [0..<n]"

definition desc_wf :: "dw_edma_region \<Rightarrow> u32 \<Rightarrow> dw_edma_desc \<Rightarrow> bool" where
  "desc_wf rg lm d \<longleftrightarrow> (\<exists>h. d_chunk d = Some (h, chunks d) \<and> ck_burst h = None) \<and>
     chunks_alloc d = of_nat (length (chunks d)) \<and> (\<forall>ck \<in> set (chunks d). chunk_wf rg lm ck) \<and>
     map ck_cb (chunks d) = cb_seq (length (chunks d)) \<and>
     (\<forall>ck \<in> set (butlast (chunks d)). length (bursts ck) = unat lm) \<and>
     alloc_sz d = sum_list (map b_sz (desc_bursts d)) \<and>
     xfer_sz d = 0 \<and> vd_cookie d = 0 \<and> \<not> vd_reuse d"

lemma cb_seq_Suc: "cb_seq (Suc n) = cb_seq n @ [if even n then 1 else 0]"
  by (simp add: cb_seq_def)

lemma chunks_eq: "d_chunk d = Some (h, cks) \<Longrightarrow> chunks d = cks"
  by (simp add: chunks_def)

lemma even_of_nat_u32: "even (of_nat n :: u32) \<longleftrightarrow> even n"
  by simp

lemma desc_wf_push_chunk:
  fixes a b :: nat
  assumes wf: "desc_wf rg lm d" and rg: "rg\<lparr>rg_sz := 0\<rparr> = (ll_region_of chip (ch_dir chan) (ch_id chan))\<lparr>rg_sz := 0\<rparr>"
    and full: "chunks d \<noteq> [] \<Longrightarrow> length (bursts (last (chunks d))) = unat lm"
  defines "d' \<equiv> push_chunk (new_chunk chip chan d a b) d"
  shows "desc_wf rg lm d'" "chunks d' = chunks d @ [new_chunk chip chan d a b]"
    "desc_bursts d' = desc_bursts d" "desc_addrs d' = desc_addrs d @ [a, b]"
proof -
  obtain h where h: "d_chunk d = Some (h, chunks d)" "ck_burst h = None"
    using wf by (auto simp: desc_wf_def)
  have d': "d_chunk d' = Some (h, chunks d @ [new_chunk chip chan d a b])"
    by (simp add: d'_def push_chunk_def h(1))
  then show ch: "chunks d' = chunks d @ [new_chunk chip chan d a b]"
    by (rule chunks_eq)
  have new: "bursts (new_chunk chip chan d a b) = []" "ck_burst (new_chunk chip chan d a b) \<noteq> None"
    by (simp_all add: new_chunk_def bursts_def)
  show db: "desc_bursts d' = desc_bursts d"
    by (simp add: desc_bursts_def ch new)
  show "desc_addrs d' = desc_addrs d @ [a, b]"
    unfolding desc_addrs_def d' h(1)
    by (simp add: d'_def push_chunk_def chunk_addrs_def burst_addrs_def new_chunk_def)
  have wfnew: "chunk_wf rg lm (new_chunk chip chan d a b)"
    unfolding chunk_wf_def new(1) using new(2) rg by (simp add: new_chunk_def)
  have "\<forall>ck \<in> set (chunks d). length (bursts ck) = unat lm"
  proof (cases "chunks d = []")
    case False
    then have "chunks d = butlast (chunks d) @ [last (chunks d)]"
      by simp
    then show ?thesis
      using wf full [OF False] unfolding desc_wf_def by (metis in_set_butlast_appendI Un_iff set_append set_ConsD empty_iff empty_set)
  qed simp
  moreover have "ck_cb (new_chunk chip chan d a b) = (if even (length (chunks d)) then 1 else 0)"
    using wf by (simp add: new_chunk_def desc_wf_def)
  ultimately show "desc_wf rg lm d'"
    using wf wfnew unfolding desc_wf_def db ch
    by (simp add: cb_seq_Suc d' h(2)) (simp add: d'_def push_chunk_def)
qed

definition add_burst :: "nat \<Rightarrow> u64 \<Rightarrow> u64 \<Rightarrow> u32 \<Rightarrow> dw_edma_desc \<Rightarrow> dw_edma_desc" where
  "add_burst a sar dar bsz d =
     (set_cur_chunk (push_burst a sar dar bsz (cur_chunk d)) d)\<lparr>alloc_sz := alloc_sz d + bsz\<rparr>"

lemma bursts_push_burst:
  "ck_burst ck \<noteq> None \<Longrightarrow> bursts (push_burst a sar dar bsz ck) =
     bursts ck @ [\<lparr>b_addr = a, b_sar = sar, b_dar = dar, b_sz = bsz\<rparr>]"
  by (auto simp: bursts_def push_burst_def)

lemma chunk_addrs_push_burst:
  "ck_burst ck \<noteq> None \<Longrightarrow> chunk_addrs (push_burst a sar dar bsz ck) = chunk_addrs ck @ [a]"
  by (auto simp: chunk_addrs_def burst_addrs_def push_burst_def)

lemma chunk_wf_push_burst:
  assumes "chunk_wf rg lm ck" "length (bursts ck) < unat lm"
  shows "chunk_wf rg lm (push_burst a sar dar bsz ck)"
  using assms unfolding chunk_wf_def
  by (auto simp: bursts_push_burst) (auto simp: push_burst_def)

lemma desc_wf_add_burst:
  fixes a :: nat and sar dar :: u64 and bsz :: u32
  assumes wf: "desc_wf rg lm d" and ne: "chunks d \<noteq> []" and room: "length (bursts (last (chunks d))) < unat lm"
  defines "d' \<equiv> add_burst a sar dar bsz d"
  shows "desc_wf rg lm d'" "chunks d' \<noteq> []"
    "desc_bursts d' = desc_bursts d @ [\<lparr>b_addr = a, b_sar = sar, b_dar = dar, b_sz = bsz\<rparr>]"
    "desc_addrs d' = desc_addrs d @ [a]" "vd_addr d' = vd_addr d"
proof -
  obtain h where h: "d_chunk d = Some (h, chunks d)" "ck_burst h = None"
    using wf by (auto simp: desc_wf_def)
  obtain cks ck where ck: "chunks d = cks @ [ck]"
    using ne by (metis append_butlast_last_id)
  have d': "d_chunk d' = Some (h, cks @ [push_burst a sar dar bsz ck])"
    by (simp add: d'_def add_burst_def set_cur_chunk_def cur_chunk_def h(1) ck)
  then have ch: "chunks d' = cks @ [push_burst a sar dar bsz ck]"
    by (rule chunks_eq)
  then show "chunks d' \<noteq> []"
    by simp
  have wfck: "chunk_wf rg lm ck" "\<forall>c \<in> set cks. chunk_wf rg lm c" and len: "length (bursts ck) < unat lm"
    using wf room unfolding desc_wf_def ck by auto
  then have b: "ck_burst ck \<noteq> None"
    by (simp add: chunk_wf_def)
  show db: "desc_bursts d' = desc_bursts d @ [\<lparr>b_addr = a, b_sar = sar, b_dar = dar, b_sz = bsz\<rparr>]"
    by (simp add: desc_bursts_def ch ck bursts_push_burst [OF b])
  show addrs: "desc_addrs d' = desc_addrs d @ [a]"
    unfolding desc_addrs_def d' h(1) ck
    by (simp add: chunk_addrs_push_burst [OF b]) (simp add: d'_def add_burst_def set_cur_chunk_def)
  show "vd_addr d' = vd_addr d"
    by (simp add: d'_def add_burst_def set_cur_chunk_def)
  have same: "chunks_alloc d' = chunks_alloc d" "alloc_sz d' = alloc_sz d + bsz" "xfer_sz d' = xfer_sz d"
    "vd_cookie d' = vd_cookie d" "vd_reuse d' = vd_reuse d"
    by (simp_all add: d'_def add_burst_def set_cur_chunk_def)
  have "ck_cb (push_burst a sar dar bsz ck) = ck_cb ck"
    by (simp add: push_burst_def)
  then show "desc_wf rg lm d'"
    using wf wfck chunk_wf_push_burst [OF wfck(1) len] unfolding desc_wf_def db ch d' same ck
    by (simp add: h(2))
qed

lemma bursts_alloc_full:
  assumes "chunk_wf rg lm ck"
  shows "bursts_alloc ck = lm \<longleftrightarrow> length (bursts ck) = unat lm"
proof -
  have "length (bursts ck) < 2 ^ 32"
    using assms unsigned_less [of lm, where 'a = nat] by (simp add: chunk_wf_def)
  then have "unat (of_nat (length (bursts ck)) :: u32) = length (bursts ck)"
    by (simp add: unat_of_nat)
  then show ?thesis
    using assms by (auto simp: chunk_wf_def)
qed

text \<open>The plan: the bursts of a request, computed without the descriptor.\<close>

fun burst_plan ::
  "kapi \<Rightarrow> dw_edma_xfer \<Rightarrow> dma_transfer_direction \<Rightarrow> nat \<Rightarrow> nat \<Rightarrow> scatterlist \<Rightarrow> u64 \<Rightarrow> u64 \<Rightarrow>
   (u64 \<times> u64 \<times> u32) list" where
  "burst_plan k x dir 0 i sg s d = []"
| "burst_plan k x dir (Suc n) i sg s d =
     (if (case x of XFER_SG _ _ \<Rightarrow> sg = [] | _ \<Rightarrow> False) then []
      else let bsz = xfer_burst_sz x i sg;
               (sar, dar, s, d) = xfer_burst_addrs x dir sg s d;
               (sg, s, d) = xfer_advance k x i bsz sg s d
           in (sar, dar, bsz) # burst_plan k x dir n (Suc i) sg s d)"

definition burst_xfer :: "dw_edma_burst \<Rightarrow> u64 \<times> u64 \<times> u32" where
  "burst_xfer b = (b_sar b, b_dar b, b_sz b)"

lemma alloc_burst_fill:
  assumes "ck_burst ck \<noteq> None"
  shows "dw_edma_alloc_burst ck w =
     (case kzalloc w of
        (None, w) \<Rightarrow> (False, ck, w)
      | (Some a, w) \<Rightarrow> (True, push_burst a 0 0 0 ck, w))"
    and "fill_burst bsz sar dar (push_burst a 0 0 0 ck) = push_burst a sar dar bsz ck"
  using assms by (auto simp: dw_edma_alloc_burst_def push_burst_def fill_burst_def split: option.splits prod.splits)

text \<open>One round of the loop.\<close>

lemma transfer_loop_round:
  assumes go: "\<not> (case x of XFER_SG _ _ \<Rightarrow> sg = [] | _ \<Rightarrow> False)"
    and chunk: "(if bursts_alloc (cur_chunk desc) = ll_max chan then dw_edma_alloc_chunk chip chan desc w
                 else (True, desc, w)) = (True, d1, w1)" and b: "ck_burst (cur_chunk d1) \<noteq> None"
    and k: "kzalloc w1 = (Some a, w2)"
    and bsz: "bsz = xfer_burst_sz x i sg" and addrs: "xfer_burst_addrs x dir sg s d = (sar, dar, s1, e1)"
    and adv: "xfer_advance k x i bsz sg s1 e1 = (sg2, s2, e2)"
  shows "transfer_loop k chip chan x dir (Suc n) i sg s d desc w =
    transfer_loop k chip chan x dir n (Suc i) sg2 s2 e2 (add_burst a sar dar bsz d1) w2"
    "burst_plan k x dir (Suc n) i sg s d = (sar, dar, bsz) # burst_plan k x dir n (Suc i) sg2 s2 e2"
proof -
  have burst: "dw_edma_alloc_burst (cur_chunk d1) w1 = (True, push_burst a 0 0 0 (cur_chunk d1), w2)"
    by (simp add: alloc_burst_fill(1) [OF b] k)
  show "transfer_loop k chip chan x dir (Suc n) i sg s d desc w =
      transfer_loop k chip chan x dir n (Suc i) sg2 s2 e2 (add_burst a sar dar bsz d1) w2"
    using go unfolding transfer_loop.simps(2) chunk
    by (simp add: burst bsz [symmetric] addrs adv alloc_burst_fill(2) [OF b] add_burst_def)
  show "burst_plan k x dir (Suc n) i sg s d = (sar, dar, bsz) # burst_plan k x dir n (Suc i) sg2 s2 e2"
    using go by (simp add: bsz [symmetric] addrs adv)
qed

lemma transfer_loop_chunk_fail:
  assumes go: "\<not> (case x of XFER_SG _ _ \<Rightarrow> sg = [] | _ \<Rightarrow> False)"
    and chunk: "(if bursts_alloc (cur_chunk desc) = ll_max chan then dw_edma_alloc_chunk chip chan desc w
                 else (True, desc, w)) = (False, d1, w1)"
  shows "transfer_loop k chip chan x dir (Suc n) i sg s d desc w = (False, d1, w1)"
  using go unfolding transfer_loop.simps(2) chunk by simp

lemma transfer_loop_burst_fail:
  assumes go: "\<not> (case x of XFER_SG _ _ \<Rightarrow> sg = [] | _ \<Rightarrow> False)"
    and chunk: "(if bursts_alloc (cur_chunk desc) = ll_max chan then dw_edma_alloc_chunk chip chan desc w
                 else (True, desc, w)) = (True, d1, w1)" and b: "ck_burst (cur_chunk d1) \<noteq> None"
    and k: "kzalloc w1 = (None, w2)"
  shows "transfer_loop k chip chan x dir (Suc n) i sg s d desc w = (False, d1, w2)"
  using go unfolding transfer_loop.simps(2) chunk by (simp add: alloc_burst_fill(1) [OF b] k)

text \<open>The optional new chunk at the head of a round leaves room for one more burst.\<close>

lemma transfer_loop_chunk_step:
  assumes wf: "desc_wf rg (ll_max chan) desc" "chunks desc \<noteq> []" and lm: "0 < ll_max chan"
    and rg: "rg\<lparr>rg_sz := 0\<rparr> = (ll_region_of chip (ch_dir chan) (ch_id chan))\<lparr>rg_sz := 0\<rparr>"
    and own: "own w0 (desc_addrs desc) w"
    and r: "(if bursts_alloc (cur_chunk desc) = ll_max chan then dw_edma_alloc_chunk chip chan desc w
             else (True, desc, w)) = (ok, d1, w1)"
  shows "outside w1 = outside w \<and> desc_wf rg (ll_max chan) d1 \<and> chunks d1 \<noteq> [] \<and>
    own w0 (desc_addrs d1) w1 \<and> desc_bursts d1 = desc_bursts desc \<and> vd_addr d1 = vd_addr desc \<and>
    (ok \<longrightarrow> length (bursts (last (chunks d1))) < unat (ll_max chan)) \<and>
    ((\<forall>a. kz_ok w a) \<longrightarrow> ok)"
proof -
  have last: "chunk_wf rg (ll_max chan) (last (chunks desc))"
    using wf by (simp add: desc_wf_def)
  show ?thesis
  proof (cases "bursts_alloc (cur_chunk desc) = ll_max chan")
    case False
    then have "length (bursts (last (chunks desc))) \<noteq> unat (ll_max chan)"
      using bursts_alloc_full [OF last] by (simp add: cur_chunk_def)
    then have "length (bursts (last (chunks desc))) < unat (ll_max chan)"
      using last by (simp add: chunk_wf_def)
    then show ?thesis
      using r False wf own by auto
  next
    case True
    then have full: "length (bursts (last (chunks desc))) = unat (ll_max chan)"
      using bursts_alloc_full [OF last] by (simp add: cur_chunk_def)
    have r': "dw_edma_alloc_chunk chip chan desc w = (ok, d1, w1)"
      using r True by simp
    obtain h where h: "d_chunk desc = Some (h, chunks desc)"
      using wf(1) by (auto simp: desc_wf_def)
    note cases = alloc_chunk_cases [OF h own r']
    have total: "ok" if "\<forall>a. kz_ok w a"
      using that r' h by (auto simp: dw_edma_alloc_chunk_def dw_edma_alloc_burst_def kzalloc_def Let_def)
    show ?thesis
    proof (cases ok)
      case False
      then show ?thesis
        using cases wf own total by auto
    next
      case True
      then obtain a b where d1: "d1 = push_chunk (new_chunk chip chan desc a b) desc"
        and own1: "own w0 (a # b # desc_addrs desc) w1"
        using cases by auto
      note p = desc_wf_push_chunk [OF wf(1) rg full, of a b, folded d1]
      have "own w0 (desc_addrs d1) w1"
        using own1 by (rule own_perm) (simp add: p(4))
      moreover have "length (bursts (last (chunks d1))) < unat (ll_max chan)"
        using lm by (simp add: p(2) new_chunk_def bursts_def unat_gt_0 word_gt_0)
      moreover have "vd_addr d1 = vd_addr desc"
        by (simp add: d1 push_chunk_def)
      ultimately show ?thesis
        using p True cases by simp
    qed
  qed
qed

text \<open>A round that has room for its burst either stops for want of memory or goes on with one
  burst more, planned for this round.\<close>

lemma transfer_loop_burst_step:
  assumes go: "\<not> (case x of XFER_SG _ _ \<Rightarrow> sg = [] | _ \<Rightarrow> False)"
    and c: "(if bursts_alloc (cur_chunk desc) = ll_max chan then dw_edma_alloc_chunk chip chan desc w
             else (True, desc, w)) = (True, d1, w1)"
    and wf: "desc_wf rg (ll_max chan) d1" "chunks d1 \<noteq> []"
      "length (bursts (last (chunks d1))) < unat (ll_max chan)"
    and own: "own w0 (desc_addrs d1) w1"
  shows "(\<exists>w2. transfer_loop k chip chan x dir (Suc n) i sg s d desc w = (False, d1, w2) \<and>
      outside w2 = outside w1 \<and> own w0 (desc_addrs d1) w2 \<and> \<not> (\<forall>a. kz_ok w1 a)) \<or>
    (\<exists>b sg2 s2 e2 d2 w2.
      transfer_loop k chip chan x dir (Suc n) i sg s d desc w =
        transfer_loop k chip chan x dir n (Suc i) sg2 s2 e2 d2 w2 \<and>
      burst_plan k x dir (Suc n) i sg s d = b # burst_plan k x dir n (Suc i) sg2 s2 e2 \<and>
      map burst_xfer (desc_bursts d2) = map burst_xfer (desc_bursts d1) @ [b] \<and>
      outside w2 = outside w1 \<and> desc_wf rg (ll_max chan) d2 \<and> chunks d2 \<noteq> [] \<and>
      own w0 (desc_addrs d2) w2 \<and> vd_addr d2 = vd_addr d1)"
proof -
  have b: "ck_burst (cur_chunk d1) \<noteq> None"
    using wf(1,2) unfolding cur_chunk_def desc_wf_def chunk_wf_def by (metis last_in_set)
  obtain r w2 where k: "kzalloc w1 = (r, w2)"
    by fastforce
  note out = outside_kzalloc [OF k]
  show ?thesis
  proof (cases r)
    case None
    have "\<not> (\<forall>a. kz_ok w1 a)"
      using k None by (auto simp: kzalloc_def split: if_splits)
    then show ?thesis
      using transfer_loop_burst_fail [OF go c b k [unfolded None]] out
        own_kzalloc_fail [OF own k [unfolded None]] by blast
  next
    case (Some a)
    obtain sar dar s1 e1 where addrs: "xfer_burst_addrs x dir sg s d = (sar, dar, s1, e1)"
      by (metis prod_cases4)
    obtain sg2 s2 e2 where adv: "xfer_advance k x i (xfer_burst_sz x i sg) sg s1 e1 = (sg2, s2, e2)"
      by (metis prod_cases3)
    note round = transfer_loop_round [OF go c b k [unfolded Some] refl addrs adv]
    note add = desc_wf_add_burst [OF wf, of a sar dar "xfer_burst_sz x i sg"]
    have own2: "own w0 (desc_addrs (add_burst a sar dar (xfer_burst_sz x i sg) d1)) w2"
      using own_kzalloc [OF own k [unfolded Some]] by (rule own_perm) (simp add: add(4))
    have "map burst_xfer (desc_bursts (add_burst a sar dar (xfer_burst_sz x i sg) d1)) =
        map burst_xfer (desc_bursts d1) @ [(sar, dar, xfer_burst_sz x i sg)]"
      by (simp add: add(3) burst_xfer_def)
    with round own2 add(1,2,5) out show ?thesis
      by blast
  qed
qed

lemma transfer_loop_inv:
  assumes lm: "0 < ll_max chan"
    and rg: "rg\<lparr>rg_sz := 0\<rparr> = (ll_region_of chip (ch_dir chan) (ch_id chan))\<lparr>rg_sz := 0\<rparr>"
    and wf: "desc_wf rg (ll_max chan) desc" "chunks desc \<noteq> []" "own w0 (desc_addrs desc) w"
    and r: "transfer_loop k chip chan x dir n i sg s d desc w = (ok, desc', w')"
  shows "outside w' = outside w \<and> desc_wf rg (ll_max chan) desc' \<and> chunks desc' \<noteq> [] \<and>
    own w0 (desc_addrs desc') w' \<and> vd_addr desc' = vd_addr desc \<and>
    (ok \<longrightarrow> map burst_xfer (desc_bursts desc') =
        map burst_xfer (desc_bursts desc) @ burst_plan k x dir n i sg s d) \<and>
    ((\<forall>a. kz_ok w a) \<longrightarrow> ok)"
  using wf r
proof (induction n arbitrary: i sg s d desc w)
  case 0
  then show ?case by auto
next
  case (Suc n)
  show ?case
  proof (cases "case x of XFER_SG _ _ \<Rightarrow> sg = [] | _ \<Rightarrow> False")
    case True
    then show ?thesis
      using Suc.prems by auto
  next
    case go: False
    obtain ok1 d1 w1 where c: "(if bursts_alloc (cur_chunk desc) = ll_max chan
        then dw_edma_alloc_chunk chip chan desc w else (True, desc, w)) = (ok1, d1, w1)"
      by (metis prod_cases3)
    note step = transfer_loop_chunk_step [OF Suc.prems(1,2) lm rg Suc.prems(3) c]
    show ?thesis
    proof (cases ok1)
      case False
      then have "transfer_loop k chip chan x dir (Suc n) i sg s d desc w = (False, d1, w1)"
        using c by (intro transfer_loop_chunk_fail [OF go]) simp
      then show ?thesis
        using False step Suc.prems(4) by auto
    next
      case True
      then have wf1: "desc_wf rg (ll_max chan) d1" "chunks d1 \<noteq> []"
          "length (bursts (last (chunks d1))) < unat (ll_max chan)" "own w0 (desc_addrs d1) w1"
        and c1: "(if bursts_alloc (cur_chunk desc) = ll_max chan
          then dw_edma_alloc_chunk chip chan desc w else (True, desc, w)) = (True, d1, w1)"
        and kz: "kz_ok w1 = kz_ok w"
        using step c by (auto simp: outside_def)
      from transfer_loop_burst_step [OF go c1 wf1, of k dir n i s d]
      show ?thesis
      proof (elim disjE exE conjE)
        fix b sg2 s2 e2 d2 w2
        assume round: "transfer_loop k chip chan x dir (Suc n) i sg s d desc w =
            transfer_loop k chip chan x dir n (Suc i) sg2 s2 e2 d2 w2"
          and inv: "desc_wf rg (ll_max chan) d2" "chunks d2 \<noteq> []" "own w0 (desc_addrs d2) w2"
          and rest: "burst_plan k x dir (Suc n) i sg s d = b # burst_plan k x dir n (Suc i) sg2 s2 e2"
            "map burst_xfer (desc_bursts d2) = map burst_xfer (desc_bursts d1) @ [b]"
            "outside w2 = outside w1" "vd_addr d2 = vd_addr d1"
        have "kz_ok w2 = kz_ok w"
          using rest(3) kz by (simp add: outside_def)
        with Suc.IH [OF inv Suc.prems(4) [unfolded round]] rest step show ?thesis
          by (simp del: burst_plan.simps)
      qed (use Suc.prems(4) step kz in auto)
    qed
  qed
qed

lemma alloc_desc_cases:
  assumes ok: "heap_ok w" and r: "dw_edma_alloc_desc chip chan w = (r, w')"
  shows "outside w' = outside w \<and>
    (case r of None \<Rightarrow> own w [] w'
     | Some d \<Rightarrow> desc_wf rg lm d \<and> chunks d = [] \<and> own w (desc_addrs d) w') \<and>
    ((\<forall>a. kz_ok w a) \<longrightarrow> r \<noteq> None)"
proof (cases "kzalloc w")
  case (Pair r1 w1)
  show ?thesis
  proof (cases r1)
    case None
    then show ?thesis
      using r Pair own_kzalloc_fail [OF own_refl [OF ok]] outside_kzalloc [OF Pair]
      by (auto simp: dw_edma_alloc_desc_def kzalloc_def split: if_splits)
  next
    case (Some a)
    have own1: "own w [a] w1" and o1: "outside w1 = outside w"
      using Pair Some own_kzalloc [OF own_refl [OF ok]] outside_kzalloc [OF Pair] by auto
    obtain r2 w2 where k2: "kzalloc w1 = (r2, w2)"
      by fastforce
    have o2: "outside w2 = outside w"
      using outside_kzalloc [OF k2] o1 by simp
    show ?thesis
    proof (cases r2)
      case None
      have "own w [] (kfree a w2)"
        using own_kfree own_kzalloc_fail [OF own1] k2 None by simp
      moreover have "\<not> (\<forall>a. kz_ok w a)"
        using k2 None o1 by (auto simp: kzalloc_def outside_def split: if_splits)
      ultimately show ?thesis
        using r Pair Some None k2 o2
        by (auto simp: dw_edma_alloc_desc_def dw_edma_alloc_chunk_def Let_def)
    next
      case (Some b)
      have "own w (b # a # []) w2"
        using own_kzalloc [OF own1] k2 Some by simp
      then have "own w [a, b] w2"
        by (rule own_perm) simp
      then show ?thesis
        using r Pair \<open>r1 = Some a\<close> Some k2 o2
        by (auto simp: dw_edma_alloc_desc_def dw_edma_alloc_chunk_def Let_def desc_wf_def chunks_def
            desc_addrs_def desc_bursts_def cb_seq_def)
    qed
  qed
qed

lemma desc_wf_bursts: "desc_wf rg lm d \<Longrightarrow> d_chunk d = Some (h, cks) \<Longrightarrow> \<forall>ck \<in> set cks. ck_burst ck \<noteq> None"
  unfolding desc_wf_def chunk_wf_def by (metis chunks_eq)

text \<open>The first chunk of a new descriptor, and the loop that fills it: a failure is undone by
  \<^verbatim>\<open>dw_edma_free_desc\<close>, which leaves nothing allocated.\<close>

lemma first_chunk_cases:
  assumes d1: "desc_wf rg lm d1" "chunks d1 = []" "own w0 (desc_addrs d1) w1"
    and rg: "rg\<lparr>rg_sz := 0\<rparr> = (ll_region_of chip (ch_dir chan) (ch_id chan))\<lparr>rg_sz := 0\<rparr>"
    and c: "dw_edma_alloc_chunk chip chan d1 w1 = (ok, d2, w2)"
  shows "outside w2 = outside w1 \<and> ((\<forall>a. kz_ok w1 a) \<longrightarrow> ok)"
    "\<not> ok \<Longrightarrow> own w0 [] (dw_edma_free_desc d2 w2) \<and> outside (dw_edma_free_desc d2 w2) = outside w2"
    "ok \<Longrightarrow> desc_wf rg lm d2 \<and> chunks d2 \<noteq> [] \<and> desc_bursts d2 = [] \<and> own w0 (desc_addrs d2) w2"
proof -
  obtain h where h: "d_chunk d1 = Some (h, [])"
    using d1(1,2) by (auto simp: desc_wf_def)
  note step = alloc_chunk_cases [OF h d1(3) c]
  have "(\<forall>a. kz_ok w1 a) \<longrightarrow> ok"
    using c h by (auto simp: dw_edma_alloc_chunk_def dw_edma_alloc_burst_def kzalloc_def Let_def split: if_splits)
  with step show "outside w2 = outside w1 \<and> ((\<forall>a. kz_ok w1 a) \<longrightarrow> ok)"
    by simp
  show "own w0 [] (dw_edma_free_desc d2 w2) \<and> outside (dw_edma_free_desc d2 w2) = outside w2" if "\<not> ok"
    using step that h by (intro own_free_desc) auto
  show "desc_wf rg lm d2 \<and> chunks d2 \<noteq> [] \<and> desc_bursts d2 = [] \<and> own w0 (desc_addrs d2) w2" if ok
  proof -
    obtain a b where d2: "d2 = push_chunk (new_chunk chip chan d1 a b) d1"
      and own2: "own w0 (a # b # desc_addrs d1) w2"
      using step \<open>ok\<close> by auto
    note p = desc_wf_push_chunk [OF d1(1) rg, of a b, folded d2]
    have "own w0 (desc_addrs d2) w2"
      using own2 by (rule own_perm) (use p(4) d1(2) in simp)
    with p d1(2) show ?thesis
      by (auto simp: desc_bursts_def)
  qed
qed

lemma transfer_loop_undone:
  assumes "desc_wf rg lm d" "own w0 (desc_addrs d) w"
  shows "own w0 [] (dw_edma_free_desc d w) \<and> outside (dw_edma_free_desc d w) = outside w"
  using assms desc_wf_bursts [of rg lm d] by (intro own_free_desc) auto

text \<open>The whole preparation: either nothing is left behind, or a well-formed descriptor is queued.\<close>

lemma device_transfer_cases:
  assumes ok: "heap_ok w" and lm: "0 < ll_max chan"
    and r: "dw_edma_device_transfer k chip chan xfer w = (r, chan', w')"
  defines "dir \<equiv> x_direction xfer" and "x \<equiv> x_xfer xfer"
    and "rg \<equiv> ll_region_of chip (ch_dir chan) (ch_id chan)"
  shows "outside w' = outside w \<and>
    (case r of
       None \<Rightarrow> chan' = chan \<and> own w [] w'
     | Some a \<Rightarrow>
         \<exists>d. vd_addr d = a \<and> desc_wf rg (ll_max chan) d \<and> chunks d \<noteq> [] \<and> own w (desc_addrs d) w' \<and>
           map burst_xfer (desc_bursts d) =
             burst_plan k x dir (unat (transfer_cnt x)) 0 (transfer_sg x)
               (fst (transfer_addrs chip chan x dir)) (snd (transfer_addrs chip chan x dir)) \<and>
           chan' = chan\<lparr>chan_vc := vchan_tx_prep (chan_vc chan) d (x_flags xfer)\<rparr>) \<and>
    (r \<noteq> None \<longrightarrow> configured chan \<and> transfer_dir_ok chip chan dir \<and> transfer_xfer_ok x) \<and>
    (configured chan \<and> transfer_dir_ok chip chan dir \<and> transfer_xfer_ok x \<and> (\<forall>a. kz_ok w a) \<longrightarrow> r \<noteq> None)"
proof (cases "configured chan \<and> transfer_dir_ok chip chan dir \<and> transfer_xfer_ok x")
  case False
  then have "dw_edma_device_transfer k chip chan xfer w = (None, chan, w)"
    by (auto simp: dw_edma_device_transfer_def Let_def dir_def x_def)
  then show ?thesis
    using r own_refl [OF ok] False by auto
next
  case valid: True
  obtain r1 w1 where a: "dw_edma_alloc_desc chip chan w = (r1, w1)"
    by fastforce
  note step1 = alloc_desc_cases [OF ok a, of rg "ll_max chan"]
  show ?thesis
  proof (cases r1)
    case None
    then show ?thesis
      using r valid a step1 by (auto simp: dw_edma_device_transfer_def Let_def dir_def x_def)
  next
    case (Some d1)
    then have d1: "desc_wf rg (ll_max chan) d1" "chunks d1 = []" "own w (desc_addrs d1) w1"
      and o1: "outside w1 = outside w"
      using step1 by auto
    have rg0: "rg\<lparr>rg_sz := 0\<rparr> = (ll_region_of chip (ch_dir chan) (ch_id chan))\<lparr>rg_sz := 0\<rparr>"
      by (simp add: rg_def)
    obtain ok2 d2 w2 where c: "dw_edma_alloc_chunk chip chan d1 w1 = (ok2, d2, w2)"
      by (metis prod_cases3)
    note step2 = first_chunk_cases [OF d1 rg0 c]
    have kz: "kz_ok w1 = kz_ok w" "kz_ok w2 = kz_ok w"
      using o1 step2(1) by (simp_all add: outside_def)
    obtain s e where se: "transfer_addrs chip chan x dir = (s, e)"
      by fastforce
    obtain ok3 d3 w3 where l: "transfer_loop k chip chan x dir (unat (transfer_cnt x)) 0 (transfer_sg x)
        s e d2 w2 = (ok3, d3, w3)"
      by (metis prod_cases3)
    note result = r [unfolded dw_edma_device_transfer_def] valid a Some c se l
    show ?thesis
    proof (cases ok2)
      case False
      then show ?thesis
        using result step2(1,2) o1 kz by (auto simp: Let_def dir_def x_def)
    next
      case ok2: True
      then have wf2: "desc_wf rg (ll_max chan) d2" "chunks d2 \<noteq> []" "own w (desc_addrs d2) w2"
        and empty: "desc_bursts d2 = []"
        using step2(3) by auto
      note inv = transfer_loop_inv [OF lm rg0 wf2 l]
      show ?thesis
      proof (cases ok3)
        case False
        then show ?thesis
          using result ok2 inv transfer_loop_undone [of rg "ll_max chan" d3 w w3] o1 step2(1) kz
          by (auto simp: Let_def dir_def x_def)
      next
        case True
        then have "r = Some (vd_addr d3)" "chan' = chan\<lparr>chan_vc := vchan_tx_prep (chan_vc chan) d3 (x_flags xfer)\<rparr>"
          "w' = w3"
          using result ok2 by (auto simp: Let_def dir_def x_def)
        then show ?thesis
          using inv True empty se o1 step2(1) valid by auto
      qed
    qed
  qed
qed

subsection \<open>Closed forms of the plan\<close>

text \<open>Scatter-gather: the device address advances by the lengths before the entry.\<close>

definition sg_bursts :: "dma_transfer_direction \<Rightarrow> u64 \<Rightarrow> scatterlist \<Rightarrow> (u64 \<times> u64 \<times> u32) list" where
  "sg_bursts dir base sgl =
     map (\<lambda>m. let dev = base + sum_list (map (\<lambda>(a, l). ucast l) (take m sgl)) in
              if dir = DMA_DEV_TO_MEM then (dev, fst (sgl ! m), snd (sgl ! m))
              else (fst (sgl ! m), dev, snd (sgl ! m)))
       [0..<length sgl]"

text \<open>Interleaved: after every burst both addresses advance by its size and the two gaps.\<close>

definition il_chunk :: "dma_interleaved_template \<Rightarrow> nat \<Rightarrow> data_chunk" where
  "il_chunk il i = il_sgl il ! (i mod unat (il_frame_size il))"

definition il_step :: "bool \<Rightarrow> (dma_interleaved_template \<Rightarrow> data_chunk \<Rightarrow> u64) \<Rightarrow> dma_interleaved_template \<Rightarrow> nat \<Rightarrow> u64" where
  "il_step gaps icg il i =
     ucast (ucast (dc_size (il_chunk il i)) :: u32) + (if gaps then icg il (il_chunk il i) else 0)"

definition il_bursts :: "kapi \<Rightarrow> dma_interleaved_template \<Rightarrow> nat \<Rightarrow> nat \<Rightarrow> u64 \<Rightarrow> u64 \<Rightarrow> (u64 \<times> u64 \<times> u32) list" where
  "il_bursts k il n i s d =
     map (\<lambda>m. (s + sum_list (map (il_step (il_src_sgl il) (dmaengine_get_src_icg k) il) [i..<i + m]),
               d + sum_list (map (il_step (il_dst_sgl il) (dmaengine_get_dst_icg k) il) [i..<i + m]),
               ucast (dc_size (il_chunk il (i + m)))))
       [0..<n]"

lemma sg_bursts_Nil [simp]: "sg_bursts dir base [] = []"
  by (simp add: sg_bursts_def)

lemma sg_bursts_Cons:
  "sg_bursts dir base ((a, l) # sgl) =
     (if dir = DMA_DEV_TO_MEM then (base, a, l) else (a, base, l)) # sg_bursts dir (base + ucast l) sgl"
  unfolding sg_bursts_def length_Cons map_upt_Suc by (simp add: Let_def add.assoc cong: if_cong)

lemma burst_plan_sg:
  "burst_plan k (XFER_SG g len) dir n i sg s d =
     sg_bursts dir (if dir = DMA_DEV_TO_MEM then s else d) (take n sg)"
proof (induction n arbitrary: i sg s d)
  case (Suc n)
  show ?case
  proof (cases sg)
    case (Cons e sg')
    then show ?thesis
      by (cases e) (simp add: sg_bursts_Cons Suc xfer_burst_sz_def xfer_burst_addrs_def xfer_advance_def Let_def)
  qed simp
qed simp

lemma burst_plan_cyclic:
  "burst_plan k (XFER_CYCLIC p len c) dir n i sg s d =
     replicate n (if dir = DMA_DEV_TO_MEM then (s, p, ucast len) else (p, d, ucast len))"
  by (induction n arbitrary: i sg s d)
    (auto simp: xfer_burst_sz_def xfer_burst_addrs_def xfer_advance_def Let_def)

lemma burst_plan_interleaved:
  "burst_plan k (XFER_INTERLEAVED il) dir n i sg s d = il_bursts k il n i s d"
proof (induction n arbitrary: i sg s d)
  case 0
  then show ?case by (simp add: il_bursts_def)
next
  case (Suc n)
  have upt: "[i..<Suc (i + m)] = i # [Suc i..<Suc (i + m)]" for m
    by (rule upt_conv_Cons) simp
  have "il_bursts k il (Suc n) i s d = (s, d, ucast (dc_size (il_chunk il i))) #
      il_bursts k il n (Suc i) (s + il_step (il_src_sgl il) (dmaengine_get_src_icg k) il i)
        (d + il_step (il_dst_sgl il) (dmaengine_get_dst_icg k) il i)"
    unfolding il_bursts_def map_upt_Suc by (simp add: upt add.assoc del: upt_Suc)
  then show ?case
    by (simp add: Suc xfer_burst_sz_def xfer_burst_addrs_def xfer_advance_def Let_def il_chunk_def
        il_step_def add.assoc)
qed

lemma sum_sizes: "map burst_xfer bs = ts \<Longrightarrow> map b_sz bs = map (\<lambda>(s, d, l). l) ts"
  by (auto simp: burst_xfer_def)

lemma sg_bursts_sizes: "map (\<lambda>(s, d, l). l) (sg_bursts dir base sgl) = map snd sgl"
  by (induction sgl arbitrary: base) (auto simp: sg_bursts_Cons)

lemma tx_prep_allocated [simp]:
  "desc_allocated (chan_vc (chan\<lparr>chan_vc := vchan_tx_prep (chan_vc chan) d f\<rparr>)) =
     desc_allocated (chan_vc chan) @ [d\<lparr>vd_flags := f, vd_residue := 0\<rparr>]"
  by (simp add: vchan_tx_prep_def)

lemma flags_only [simp]:
  "desc_bursts (d\<lparr>vd_flags := f, vd_residue := v\<rparr>) = desc_bursts d"
  "chunks (d\<lparr>vd_flags := f, vd_residue := v\<rparr>) = chunks d"
  "desc_addrs (d\<lparr>vd_flags := f, vd_residue := v\<rparr>) = desc_addrs d"
  "desc_wf rg lm (d\<lparr>vd_flags := f, vd_residue := v\<rparr>) = desc_wf rg lm d"
  by (simp_all add: desc_bursts_def chunks_def desc_addrs_def desc_wf_def)

subsection \<open>Properties\<close>

lemma device_transfer_Some:
  assumes "heap_ok w" "0 < ll_max chan" "dw_edma_device_transfer k chip chan xfer w = (Some a, chan', w')"
  shows "\<exists>d. desc_allocated (chan_vc chan') = desc_allocated (chan_vc chan) @ [d] \<and> vd_addr d = a \<and>
    desc_wf (ll_region_of chip (ch_dir chan) (ch_id chan)) (ll_max chan) d \<and> chunks d \<noteq> [] \<and>
    own w (desc_addrs d) w' \<and> vd_flags d = x_flags xfer \<and>
    map burst_xfer (desc_bursts d) =
       burst_plan k (x_xfer xfer) (x_direction xfer) (unat (transfer_cnt (x_xfer xfer))) 0 (transfer_sg (x_xfer xfer))
         (fst (transfer_addrs chip chan (x_xfer xfer) (x_direction xfer)))
         (snd (transfer_addrs chip chan (x_xfer xfer) (x_direction xfer)))"
proof -
  obtain d where "vd_addr d = a" "desc_wf (ll_region_of chip (ch_dir chan) (ch_id chan)) (ll_max chan) d"
    "chunks d \<noteq> []" "own w (desc_addrs d) w'"
    "map burst_xfer (desc_bursts d) =
       burst_plan k (x_xfer xfer) (x_direction xfer) (unat (transfer_cnt (x_xfer xfer))) 0 (transfer_sg (x_xfer xfer))
         (fst (transfer_addrs chip chan (x_xfer xfer) (x_direction xfer)))
         (snd (transfer_addrs chip chan (x_xfer xfer) (x_direction xfer)))"
    "chan' = chan\<lparr>chan_vc := vchan_tx_prep (chan_vc chan) d (x_flags xfer)\<rparr>"
    using device_transfer_cases [OF assms] by auto
  then show ?thesis
    by (intro exI [of _ "d\<lparr>vd_flags := x_flags xfer, vd_residue := 0\<rparr>"]) (simp add: vchan_tx_prep_def)
qed

lemma device_transfer_None:
  assumes "heap_ok w" "0 < ll_max chan" "dw_edma_device_transfer k chip chan xfer w = (None, chan', w')"
  shows "chan' = chan \<and> own w [] w' \<and> outside w' = outside w"
  using device_transfer_cases [OF assms] by simp

text \<open>C24: A scatter-gather request that is accepted queues one descriptor whose bursts are exactly the
  entries of the list, in order, up to the requested count: each with its own memory address and
  length, and with the device address of the channel's configuration plus the lengths of the entries
  before it; the total size is the sum of the lengths. A request that is refused leaves the channel
  unchanged.\<close>

theorem prep_slave_sg_bursts:
  assumes "heap_ok w" "0 < ll_max chan"
  shows "case dw_edma_device_prep_slave_sg k chip chan sgl len dir flags w of
      (None, chan', w') \<Rightarrow> chan' = chan
    | (Some a, chan', w') \<Rightarrow>
        \<exists>d. desc_allocated (chan_vc chan') = desc_allocated (chan_vc chan) @ [d] \<and> vd_addr d = a \<and>
          map burst_xfer (desc_bursts d) =
            sg_bursts dir (dw_edma_get_pci_address chip
                (if dir = DMA_DEV_TO_MEM then cfg_src_addr (ch_config chan) else cfg_dst_addr (ch_config chan)))
              (take (unat len) sgl) \<and>
          alloc_sz d = sum_list (map snd (take (unat len) sgl))"
proof -
  obtain r chan' w' where r: "dw_edma_device_prep_slave_sg k chip chan sgl len dir flags w = (r, chan', w')"
    by (metis prod_cases3)
  note r' = r [unfolded dw_edma_device_prep_slave_sg_def]
  show ?thesis
  proof (cases r)
    case None
    then show ?thesis
      using device_transfer_None [OF assms r' [unfolded None]] r by simp
  next
    case (Some a)
    let ?base = "dw_edma_get_pci_address chip
      (if dir = DMA_DEV_TO_MEM then cfg_src_addr (ch_config chan) else cfg_dst_addr (ch_config chan))"
    obtain d where d: "desc_allocated (chan_vc chan') = desc_allocated (chan_vc chan) @ [d]" "vd_addr d = a"
      "desc_wf (ll_region_of chip (ch_dir chan) (ch_id chan)) (ll_max chan) d"
      "map burst_xfer (desc_bursts d) = burst_plan k (XFER_SG sgl len) dir (unat len) 0 sgl
         (fst (transfer_addrs chip chan (XFER_SG sgl len) dir)) (snd (transfer_addrs chip chan (XFER_SG sgl len) dir))"
      using device_transfer_Some [OF assms r' [unfolded Some]]
      by (auto simp: transfer_cnt_def transfer_sg_def)
    have b: "map burst_xfer (desc_bursts d) = sg_bursts dir ?base (take (unat len) sgl)"
      unfolding d(4) burst_plan_sg by (simp add: transfer_addrs_def)
    have "alloc_sz d = sum_list (map snd (take (unat len) sgl))"
      using d(3) sum_sizes [OF b] by (simp add: desc_wf_def sg_bursts_sizes)
    with d b show ?thesis
      using r Some by auto
  qed
qed

text \<open>C25: An accepted cyclic request queues as many identical bursts as it has periods, from the
  device address to the buffer or back; a refused one leaves the channel unchanged.\<close>

theorem prep_dma_cyclic_bursts:
  assumes "heap_ok w" "0 < ll_max chan"
  shows "case dw_edma_device_prep_dma_cyclic k chip chan p len cnt dir flags w of
      (None, chan', w') \<Rightarrow> chan' = chan
    | (Some a, chan', w') \<Rightarrow>
        \<exists>d. desc_allocated (chan_vc chan') = desc_allocated (chan_vc chan) @ [d] \<and> vd_addr d = a \<and>
          map burst_xfer (desc_bursts d) = replicate (unat (ucast cnt :: u32))
            (if dir = DMA_DEV_TO_MEM
             then (dw_edma_get_pci_address chip (cfg_src_addr (ch_config chan)), p, ucast len)
             else (p, dw_edma_get_pci_address chip (cfg_dst_addr (ch_config chan)), ucast len))"
proof -
  obtain r chan' w' where r: "dw_edma_device_prep_dma_cyclic k chip chan p len cnt dir flags w = (r, chan', w')"
    by (metis prod_cases3)
  note r' = r [unfolded dw_edma_device_prep_dma_cyclic_def]
  show ?thesis
  proof (cases r)
    case None
    then show ?thesis
      using device_transfer_None [OF assms r' [unfolded None]] r by simp
  next
    case (Some a)
    from device_transfer_Some [OF assms r' [unfolded Some]] show ?thesis
      unfolding r Some by (auto simp: burst_plan_cyclic transfer_cnt_def transfer_addrs_def)
  qed
qed

text \<open>C26: An accepted interleaved request queues one burst per element of the template's frames, whose
  two addresses are the start addresses plus the sizes and gaps of the elements before it; a refused
  one leaves the channel unchanged.\<close>

theorem prep_interleaved_bursts:
  assumes "heap_ok w" "0 < ll_max chan"
  shows "case dw_edma_device_prep_interleaved_dma k chip chan il flags w of
      (None, chan', w') \<Rightarrow> chan' = chan
    | (Some a, chan', w') \<Rightarrow>
        \<exists>d. desc_allocated (chan_vc chan') = desc_allocated (chan_vc chan) @ [d] \<and> vd_addr d = a \<and>
          map burst_xfer (desc_bursts d) = il_bursts k il (unat (ucast (il_numf il * il_frame_size il) :: u32)) 0
            (if il_dir il = DMA_DEV_TO_MEM then dw_edma_get_pci_address chip (il_src_start il) else il_src_start il)
            (if il_dir il = DMA_DEV_TO_MEM then il_dst_start il else dw_edma_get_pci_address chip (il_dst_start il))"
proof -
  obtain r chan' w' where r: "dw_edma_device_prep_interleaved_dma k chip chan il flags w = (r, chan', w')"
    by (metis prod_cases3)
  note r' = r [unfolded dw_edma_device_prep_interleaved_dma_def]
  show ?thesis
  proof (cases r)
    case None
    then show ?thesis
      using device_transfer_None [OF assms r' [unfolded None]] r by simp
  next
    case (Some a)
    from device_transfer_Some [OF assms r' [unfolded Some]] show ?thesis
      unfolding r Some by (auto simp: burst_plan_interleaved transfer_cnt_def transfer_addrs_def)
  qed
qed

text \<open>C27: Every chunk of a prepared descriptor fits the linked-list memory of its channel: its elements
  and the link that closes them lie inside the region, its burst count is exact, all chunks but the
  last are filled to the limit, the cycle bit alternates from chunk to chunk starting with one, and
  each chunk knows the sum of its burst sizes.\<close>

theorem prepared_chunks_fit:
  fixes chip chan
  defines "rg \<equiv> ll_region_of chip (ch_dir chan) (ch_id chan)"
  assumes ok: "heap_ok w" and sz: "48 \<le> unat (rg_sz rg)" "unat (rg_sz rg) < 24 * 2 ^ 31"
    and lm: "ll_max chan = ucast (rg_sz rg div EDMA_LL_SZ) - 1"
  shows "case dw_edma_device_transfer k chip chan xfer w of
      (None, chan', w') \<Rightarrow> chan' = chan
    | (Some a, chan', w') \<Rightarrow>
        \<exists>d. desc_allocated (chan_vc chan') = desc_allocated (chan_vc chan) @ [d] \<and>
          map ck_cb (chunks d) = map (\<lambda>i. if even i then 1 else 0) [0..<length (chunks d)] \<and>
          (\<forall>ck \<in> set (butlast (chunks d)). length (bursts ck) = unat (ll_max chan)) \<and>
          (\<forall>ck \<in> set (chunks d).
             burst_count_ok ck \<and> vaddr (ll_region ck) = vaddr rg \<and> paddr (ll_region ck) = paddr rg \<and>
             length (bursts ck) * 24 + 16 \<le> unat (rg_sz rg) \<and>
             rg_sz (ll_region ck) = sum_list (map (\<lambda>b. ucast (b_sz b)) (bursts ck)))"
proof -
  let ?n = "unat (rg_sz rg) div 24"
  have n: "2 \<le> ?n" "?n < 2 ^ 31"
    using sz by auto
  have "unat (ucast (rg_sz rg div EDMA_LL_SZ) :: u32) = ?n"
    using n(2) by (simp add: unsigned_ucast_eq unat_div EDMA_LL_SZ_def take_bit_nat_eq_self)
  moreover have "1 \<le> (ucast (rg_sz rg div EDMA_LL_SZ) :: u32)"
    using calculation n(1) by (simp add: word_le_nat_alt)
  ultimately have unat_lm: "unat (ll_max chan) = ?n - 1"
    by (simp add: lm unat_sub)
  have pos: "0 < ll_max chan"
    using unat_lm n(1) by (metis One_nat_def diff_is_0_eq not_less_eq_eq numeral_2_eq_2 unat_0 word_neq_0_conv)
  have fits: "burst_count_ok ck \<and> length (bursts ck) * 24 + 16 \<le> unat (rg_sz rg)"
    if "chunk_wf rg (ll_max chan) ck" for ck
  proof -
    have len: "length (bursts ck) \<le> ?n - 1"
      using that unat_lm by (simp add: chunk_wf_def)
    then have "length (bursts ck) < 2 ^ 31"
      using n(2) by linarith
    then have "burst_count_ok ck"
      using that by (simp add: burst_count_ok_def chunk_wf_def signed_of_nat signed_take_bit_int_eq_self)
    moreover have "length (bursts ck) * 24 + 16 \<le> unat (rg_sz rg)"
      using len n(1) div_times_less_eq_dividend [of "unat (rg_sz rg)" 24] by linarith
    ultimately show ?thesis by simp
  qed
  obtain r chan' w' where r: "dw_edma_device_transfer k chip chan xfer w = (r, chan', w')"
    by (metis prod_cases3)
  show ?thesis
  proof (cases r)
    case None
    then show ?thesis
      using device_transfer_None [OF ok pos r [unfolded None]] r by simp
  next
    case (Some a)
    obtain d where d: "desc_allocated (chan_vc chan') = desc_allocated (chan_vc chan) @ [d]"
      "desc_wf rg (ll_max chan) d"
      using device_transfer_Some [OF ok pos r [unfolded Some]] unfolding rg_def by blast
    have "map ck_cb (chunks d) = map (\<lambda>i. if even i then 1 else 0) [0..<length (chunks d)]"
      "\<forall>ck \<in> set (butlast (chunks d)). length (bursts ck) = unat (ll_max chan)"
      "\<forall>ck \<in> set (chunks d). chunk_wf rg (ll_max chan) ck"
      using d(2) unfolding desc_wf_def cb_seq_def by auto
    then show ?thesis
      unfolding r Some using d(1) fits by (auto simp: chunk_wf_def)
  qed
qed

text \<open>C28: Whatever allocation fails during the preparation, nothing is leaked and nothing is freed
  twice: a refused request ends with exactly the allocations that were live before and no register was
  touched; and the allocations of an accepted request are exactly those that freeing its descriptor
  gives back.\<close>

theorem transfer_no_leak:
  assumes "heap_ok w" "0 < ll_max chan"
  shows "case dw_edma_device_transfer k chip chan xfer w of
      (None, chan', w') \<Rightarrow> chan' = chan \<and> live w' = live w \<and> mem_fault w' = mem_fault w \<and> trace w' = trace w
    | (Some a, chan', w') \<Rightarrow>
        \<exists>d. desc_allocated (chan_vc chan') = desc_allocated (chan_vc chan) @ [d] \<and> trace w' = trace w \<and>
          live (vchan_free_desc d w') = live w \<and> mem_fault (vchan_free_desc d w') = mem_fault w"
proof -
  obtain r chan' w' where r: "dw_edma_device_transfer k chip chan xfer w = (r, chan', w')"
    by (metis prod_cases3)
  show ?thesis
  proof (cases r)
    case None
    have "chan' = chan" "own w [] w'" "outside w' = outside w"
      using device_transfer_None [OF assms r [unfolded None]] by auto
    then show ?thesis
      unfolding r None using own_Nil [of w w'] by (simp add: outside_def)
  next
    case (Some a)
    obtain d where d: "desc_allocated (chan_vc chan') = desc_allocated (chan_vc chan) @ [d]"
      "desc_wf (ll_region_of chip (ch_dir chan) (ch_id chan)) (ll_max chan) d" "own w (desc_addrs d) w'"
      using device_transfer_Some [OF assms r [unfolded Some]] by blast
    have "own w [] (dw_edma_free_desc d w')"
      using own_free_desc [of w d "[]" w'] d(3) desc_wf_bursts [OF d(2)] by simp
    moreover have "trace w' = trace w"
      using device_transfer_cases [OF assms r] by (simp add: outside_def)
    ultimately show ?thesis
      unfolding r Some using d(1) own_Nil [of w "dw_edma_free_desc d w'"] by (auto simp: vchan_free_desc_def)
  qed
qed

text \<open>When no allocation fails, a request is accepted exactly if the channel is configured, the
  direction matches the channel and the side the engine is on, and the request is not empty.\<close>

theorem transfer_accepted_iff:
  assumes "heap_ok w" "0 < ll_max chan" "\<forall>a. kz_ok w a"
  shows "fst (dw_edma_device_transfer k chip chan xfer w) \<noteq> None \<longleftrightarrow>
    configured chan \<and> transfer_dir_ok chip chan (x_direction xfer) \<and> transfer_xfer_ok (x_xfer xfer)"
proof -
  obtain r chan' w' where r: "dw_edma_device_transfer k chip chan xfer w = (r, chan', w')"
    by (metis prod_cases3)
  have "r \<noteq> None \<longleftrightarrow>
    configured chan \<and> transfer_dir_ok chip chan (x_direction xfer) \<and> transfer_xfer_ok (x_xfer xfer)"
    using device_transfer_cases [OF assms(1,2) r] assms(3) by blast
  then show ?thesis
    by (simp add: r)
qed

subsection \<open>The properties on the sample device\<close>

lemma ex_heap_ok [simp]: "heap_ok ex_world" "ll_max (ex_chan dir i) = 1" "kz_ok ex_world a"
  by (simp_all add: heap_ok_def ex_world_def ex_chan_def)

definition ex_il :: dma_interleaved_template where
  "ex_il = \<lparr>il_src_start = 0x1000, il_dst_start = 0x80000000, il_dir = DMA_DEV_TO_MEM, il_src_inc = True,
     il_dst_inc = True, il_src_sgl = True, il_dst_sgl = False, il_numf = 2, il_frame_size = 1,
     il_sgl = [\<lparr>dc_size = 0x40, dc_icg = 0x10, dc_src_icg = 0, dc_dst_icg = 0\<rparr>]\<rparr>"

definition ex_kapi :: kapi where
  "ex_kapi = \<lparr>dmaengine_get_src_icg = (\<lambda>_ dc. dc_icg dc), dmaengine_get_dst_icg = (\<lambda>_ dc. dc_icg dc)\<rparr>"

definition ex_xfer :: dw_edma_transfer where
  "ex_xfer = \<lparr>x_direction = DMA_DEV_TO_MEM, x_flags = 0, x_xfer = XFER_CYCLIC 0x80000000 0x100 3\<rparr>"

lemma ex_allocated [simp]: "desc_allocated (ex_vc :: dw_edma_desc virt_dma_chan) = []"
  by (simp add: ex_vc_def)

lemma ex_pci [simp]: "dw_edma_get_pci_address ex_chip a = a"
  by (simp add: dw_edma_get_pci_address_def ex_chip_def)

lemma ex_src [simp]: "cfg_src_addr (ch_config (ex_chan dir i)) = 0x1000"
  by (simp add: ex_chan_def)

theorem prep_slave_sg_bursts_witness:
  "case dw_edma_device_prep_slave_sg ex_kapi ex_chip (ex_chan EDMA_DIR_WRITE 0)
       [(0x80000000, 0x400), (0x90000000, 0x100)] 2 DMA_DEV_TO_MEM 0 ex_world of
     (None, chan', w') \<Rightarrow> chan' = ex_chan EDMA_DIR_WRITE 0
   | (Some a, chan', w') \<Rightarrow> \<exists>d. desc_allocated (chan_vc chan') = [d] \<and> vd_addr d = a \<and>
       map burst_xfer (desc_bursts d) = [(0x1000, 0x80000000, 0x400), (0x1400, 0x90000000, 0x100)] \<and> alloc_sz d = 0x500"
  using prep_slave_sg_bursts [where w = ex_world and chan = "ex_chan EDMA_DIR_WRITE 0" and k = ex_kapi
      and chip = ex_chip and sgl = "[(0x80000000, 0x400), (0x90000000, 0x100)]" and len = 2
      and dir = DMA_DEV_TO_MEM and flags = 0]
  by (cases "dw_edma_device_prep_slave_sg ex_kapi ex_chip (ex_chan EDMA_DIR_WRITE 0)
        [(0x80000000, 0x400), (0x90000000, 0x100)] 2 DMA_DEV_TO_MEM 0 ex_world")
    (simp add: sg_bursts_Cons split: option.splits)

theorem prep_dma_cyclic_bursts_witness:
  "case dw_edma_device_prep_dma_cyclic ex_kapi ex_chip (ex_chan EDMA_DIR_WRITE 0) 0x80000000 0x100 3
       DMA_DEV_TO_MEM 0 ex_world of
     (None, chan', w') \<Rightarrow> chan' = ex_chan EDMA_DIR_WRITE 0
   | (Some a, chan', w') \<Rightarrow> \<exists>d. desc_allocated (chan_vc chan') = [d] \<and> vd_addr d = a \<and>
       map burst_xfer (desc_bursts d) = replicate 3 (0x1000, 0x80000000, 0x100)"
  using prep_dma_cyclic_bursts [where w = ex_world and chan = "ex_chan EDMA_DIR_WRITE 0" and k = ex_kapi
      and chip = ex_chip and p = "0x80000000" and len = "0x100" and cnt = 3 and dir = DMA_DEV_TO_MEM and flags = 0]
  by (cases "dw_edma_device_prep_dma_cyclic ex_kapi ex_chip (ex_chan EDMA_DIR_WRITE 0) 0x80000000 0x100 3
        DMA_DEV_TO_MEM 0 ex_world") (simp split: option.splits)

theorem prep_interleaved_bursts_witness:
  "case dw_edma_device_prep_interleaved_dma ex_kapi ex_chip (ex_chan EDMA_DIR_WRITE 0) ex_il 0 ex_world of
     (None, chan', w') \<Rightarrow> chan' = ex_chan EDMA_DIR_WRITE 0
   | (Some a, chan', w') \<Rightarrow> \<exists>d. desc_allocated (chan_vc chan') = [d] \<and> vd_addr d = a \<and>
       map burst_xfer (desc_bursts d) = [(0x1000, 0x80000000, 0x40), (0x1050, 0x80000040, 0x40)]"
proof -
  have il: "il_dir ex_il = DMA_DEV_TO_MEM" "il_src_start ex_il = 0x1000" "il_dst_start ex_il = 0x80000000"
    by (simp_all add: ex_il_def)
  have "il_bursts ex_kapi ex_il (unat (ucast (il_numf ex_il * il_frame_size ex_il) :: u32)) 0 0x1000 0x80000000 =
      [(0x1000, 0x80000000, 0x40), (0x1050, 0x80000040, 0x40)]"
    by (simp add: ex_il_def ex_kapi_def il_bursts_def upt_rec il_step_def il_chunk_def)
  then show ?thesis
    using prep_interleaved_bursts [where w = ex_world and chan = "ex_chan EDMA_DIR_WRITE 0" and k = ex_kapi
        and chip = ex_chip and il = ex_il and flags = 0]
    by (cases "dw_edma_device_prep_interleaved_dma ex_kapi ex_chip (ex_chan EDMA_DIR_WRITE 0) ex_il 0 ex_world")
      (simp add: il split: option.splits)
qed

theorem prepared_chunks_fit_witness:
  "case dw_edma_device_transfer ex_kapi ex_chip (ex_chan EDMA_DIR_WRITE 1) ex_xfer ex_world of
     (None, chan', w') \<Rightarrow> chan' = ex_chan EDMA_DIR_WRITE 1
   | (Some a, chan', w') \<Rightarrow> \<exists>d. desc_allocated (chan_vc chan') = [d] \<and>
       (\<forall>ck \<in> set (chunks d). length (bursts ck) * 24 + 16 \<le> 64)"
proof -
  have rg: "rg_sz (ll_region_of ex_chip (ch_dir (ex_chan EDMA_DIR_WRITE 1)) (ch_id (ex_chan EDMA_DIR_WRITE 1))) = 64"
    by (simp add: ll_region_of_def ex_chip_def ex_region_def)
  obtain r c v where r: "dw_edma_device_transfer ex_kapi ex_chip (ex_chan EDMA_DIR_WRITE 1) ex_xfer ex_world = (r, c, v)"
    by (metis prod_cases3)
  show ?thesis
    using prepared_chunks_fit [where w = ex_world and chip = ex_chip and chan = "ex_chan EDMA_DIR_WRITE 1"
        and k = ex_kapi and xfer = ex_xfer]
    unfolding rg r by (cases r) (auto simp: EDMA_LL_SZ_def)
qed

theorem transfer_no_leak_witness:
  "case dw_edma_device_transfer ex_kapi ex_chip (ex_chan EDMA_DIR_WRITE 1) ex_xfer ex_world of
     (None, chan', w') \<Rightarrow> live w' = []
   | (Some a, chan', w') \<Rightarrow> \<exists>d. desc_allocated (chan_vc chan') = [d] \<and> live (vchan_free_desc d w') = []"
proof -
  have "live ex_world = []"
    by (simp add: ex_world_def)
  then show ?thesis
    using transfer_no_leak [where w = ex_world and chan = "ex_chan EDMA_DIR_WRITE 1" and k = ex_kapi
        and chip = ex_chip and xfer = ex_xfer]
    by (cases "dw_edma_device_transfer ex_kapi ex_chip (ex_chan EDMA_DIR_WRITE 1) ex_xfer ex_world")
      (auto split: option.splits)
qed

theorem transfer_accepted_iff_witness:
  "fst (dw_edma_device_transfer ex_kapi ex_chip (ex_chan EDMA_DIR_WRITE 1) ex_xfer ex_world) \<noteq> None"
proof -
  have "transfer_dir_ok ex_chip (ex_chan EDMA_DIR_WRITE 1) (x_direction ex_xfer)" "transfer_xfer_ok (x_xfer ex_xfer)"
    by (simp_all add: transfer_dir_ok_def transfer_xfer_ok_def chip_local_def ex_chip_def ex_xfer_def)
  then show ?thesis
    using transfer_accepted_iff [where w = ex_world and chan = "ex_chan EDMA_DIR_WRITE 1" and k = ex_kapi
        and chip = ex_chip and xfer = ex_xfer]
    by simp
qed

end
