(* ===== verification/Edma_Chan.thy ===== *)
theory Edma_Chan
  imports Edma_Desc
begin

section \<open>Channel operations and interrupts (dw-edma-core.c)\<close>

text \<open>
  The dispatch to the two engines, the start of the next chunk, the dmaengine callbacks of a
  channel and the two interrupt handlers. A channel is a \<open>dw_edma_chan\<close>; \<open>dw\<close> is only read for
  the chip and the engine. \<open>None\<close> is the kernel \<open>BUG\<close> of completing a descriptor twice.
\<close>

subsection \<open>Dispatch\<close>

definition dw_edma_core_off :: "dw_edma \<Rightarrow> world \<Rightarrow> world" where
  "dw_edma_core_off dw w =
     (case dw_core dw of
        CORE_V0 \<Rightarrow> dw_edma_v0_core_off (dw_chip dw) w
      | CORE_HDMA \<Rightarrow> dw_hdma_v0_core_off (dw_chip dw) w
      | CORE_NONE \<Rightarrow> w\<lparr>mem_fault := True\<rparr>)"

definition dw_edma_core_ch_count :: "dw_edma \<Rightarrow> dw_edma_dir \<Rightarrow> world \<Rightarrow> u16 \<times> world" where
  "dw_edma_core_ch_count dw dir w =
     (case dw_core dw of
        CORE_V0 \<Rightarrow> dw_edma_v0_core_ch_count (dw_chip dw) dir w
      | CORE_HDMA \<Rightarrow> dw_hdma_v0_core_ch_count (dw_chip dw) dir w
      | CORE_NONE \<Rightarrow> (0, w\<lparr>mem_fault := True\<rparr>))"

definition dw_edma_core_ch_status :: "dw_edma \<Rightarrow> dw_edma_chan \<Rightarrow> world \<Rightarrow> dma_status \<times> world" where
  "dw_edma_core_ch_status dw chan w =
     (case dw_core dw of
        CORE_V0 \<Rightarrow> dw_edma_v0_core_ch_status (dw_chip dw) chan w
      | CORE_HDMA \<Rightarrow> dw_hdma_v0_core_ch_status (dw_chip dw) chan w
      | CORE_NONE \<Rightarrow> (DMA_ERROR, w\<lparr>mem_fault := True\<rparr>))"

definition dw_edma_core_handle_int ::
  "dw_edma \<Rightarrow> dw_edma_irq \<Rightarrow> dw_edma_dir \<Rightarrow> dw_edma_handler \<Rightarrow> dw_edma_handler \<Rightarrow> world \<Rightarrow>
   (bool \<times> dw_edma \<times> world) option" where
  "dw_edma_core_handle_int dw dw_irq dir done_h abort_h w =
     (case dw_core dw of
        CORE_V0 \<Rightarrow> dw_edma_v0_core_handle_int dw dw_irq dir done_h abort_h w
      | CORE_HDMA \<Rightarrow> dw_hdma_v0_core_handle_int dw dw_irq dir done_h abort_h w
      | CORE_NONE \<Rightarrow> None)"

definition dw_edma_core_start ::
  "dw_edma \<Rightarrow> dw_edma_chan \<Rightarrow> dw_edma_chunk \<Rightarrow> bool \<Rightarrow> world \<Rightarrow> world" where
  "dw_edma_core_start dw chan chunk first w =
     (case dw_core dw of
        CORE_V0 \<Rightarrow> dw_edma_v0_core_start (dw_chip dw) chan chunk first w
      | CORE_HDMA \<Rightarrow> dw_hdma_v0_core_start (dw_chip dw) chan chunk first w
      | CORE_NONE \<Rightarrow> w\<lparr>mem_fault := True\<rparr>)"

definition dw_edma_core_ch_config :: "dw_edma \<Rightarrow> dw_edma_chan \<Rightarrow> world \<Rightarrow> world" where
  "dw_edma_core_ch_config dw chan w =
     (case dw_core dw of
        CORE_V0 \<Rightarrow> dw_edma_v0_core_ch_config (dw_chip dw) chan w
      | CORE_HDMA \<Rightarrow> dw_hdma_v0_core_ch_config (dw_chip dw) chan w
      | CORE_NONE \<Rightarrow> w\<lparr>mem_fault := True\<rparr>)"

subsection \<open>Starting the next chunk\<close>

definition set_issued :: "dw_edma_desc list \<Rightarrow> dw_edma_chan \<Rightarrow> dw_edma_chan" where
  "set_issued ds chan = chan\<lparr>chan_vc := (chan_vc chan)\<lparr>desc_issued := ds\<rparr>\<rparr>"

definition dw_edma_start_transfer ::
  "dw_edma \<Rightarrow> dw_edma_chan \<Rightarrow> world \<Rightarrow> bool \<times> dw_edma_chan \<times> world" where
  "dw_edma_start_transfer dw chan w =
     (case vchan_next_desc (chan_vc chan) of
        None \<Rightarrow> (False, chan, w)
      | Some desc \<Rightarrow>
          (case d_chunk desc of
             None \<Rightarrow> (False, chan, w\<lparr>mem_fault := True\<rparr>)
           | Some (head, []) \<Rightarrow> (False, chan, w)
           | Some (head, child # cks) \<Rightarrow>
               (let w = dw_edma_core_start dw chan child (xfer_sz desc = 0) w;
                    desc = desc\<lparr>xfer_sz := xfer_sz desc + ucast (rg_sz (ll_region child))\<rparr>;
                    (child, w) = dw_edma_free_burst child w;
                    desc = desc\<lparr>d_chunk := Some (head, cks)\<rparr>;
                    w = kfree (ck_addr child) w;
                    desc = desc\<lparr>chunks_alloc := chunks_alloc desc - 1\<rparr>
                in (True, set_issued (desc # tl (desc_issued (chan_vc chan))) chan, w))))"

subsection \<open>dmaengine callbacks\<close>

fun xfer_dir_val :: "dma_transfer_direction \<Rightarrow> nat" where
  "xfer_dir_val DMA_MEM_TO_MEM = 0"
| "xfer_dir_val DMA_MEM_TO_DEV = 1"
| "xfer_dir_val DMA_DEV_TO_MEM = 2"

definition dw_edma_device_caps :: "dw_edma_chip \<Rightarrow> dw_edma_chan \<Rightarrow> u32" where
  "dw_edma_device_caps chip chan =
     (if chip_local chip then
        (if ch_dir chan = EDMA_DIR_READ then BIT (xfer_dir_val DMA_DEV_TO_MEM)
         else BIT (xfer_dir_val DMA_MEM_TO_DEV))
      else
        (if ch_dir chan = EDMA_DIR_WRITE then BIT (xfer_dir_val DMA_DEV_TO_MEM)
         else BIT (xfer_dir_val DMA_MEM_TO_DEV)))"

definition dw_edma_device_config :: "dma_slave_config \<Rightarrow> dw_edma_chan \<Rightarrow> int \<times> dw_edma_chan" where
  "dw_edma_device_config config chan = (0, chan\<lparr>ch_config := config, configured := True\<rparr>)"

definition dw_edma_device_pause :: "dw_edma_chan \<Rightarrow> int \<times> dw_edma_chan" where
  "dw_edma_device_pause chan =
     (if \<not> configured chan then (- EPERM, chan)
      else if ch_st chan \<noteq> EDMA_ST_BUSY then (- EPERM, chan)
      else if ch_request chan \<noteq> EDMA_REQ_NONE then (- EPERM, chan)
      else (0, chan\<lparr>ch_request := EDMA_REQ_PAUSE\<rparr>))"

definition dw_edma_device_resume ::
  "dw_edma \<Rightarrow> dw_edma_chan \<Rightarrow> world \<Rightarrow> int \<times> dw_edma_chan \<times> world" where
  "dw_edma_device_resume dw chan w =
     (if \<not> configured chan then (- EPERM, chan, w)
      else if ch_st chan \<noteq> EDMA_ST_PAUSE then (- EPERM, chan, w)
      else if ch_request chan \<noteq> EDMA_REQ_NONE then (- EPERM, chan, w)
      else (let (_, chan, w) = dw_edma_start_transfer dw (chan\<lparr>ch_st := EDMA_ST_BUSY\<rparr>) w
            in (0, chan, w)))"

definition dw_edma_device_terminate_all ::
  "dw_edma \<Rightarrow> dw_edma_chan \<Rightarrow> world \<Rightarrow> int \<times> dw_edma_chan \<times> world" where
  "dw_edma_device_terminate_all dw chan w =
     (if \<not> configured chan then (0, chan, w)
      else if ch_st chan = EDMA_ST_PAUSE
      then (0, chan\<lparr>ch_st := EDMA_ST_IDLE, configured := False\<rparr>, w)
      else if ch_st chan = EDMA_ST_IDLE then (0, chan\<lparr>configured := False\<rparr>, w)
      else (let (st, w) = dw_edma_core_ch_status dw chan w in
            if st = DMA_COMPLETE
            then (0, chan\<lparr>ch_st := EDMA_ST_IDLE, configured := False\<rparr>, w)
            else if ch_request chan > EDMA_REQ_PAUSE
            then (- EPERM, chan, w)
            else (0, chan\<lparr>ch_request := EDMA_REQ_STOP\<rparr>, w)))"

definition dw_edma_device_issue_pending ::
  "dw_edma \<Rightarrow> dw_edma_chan \<Rightarrow> world \<Rightarrow> dw_edma_chan \<times> world" where
  "dw_edma_device_issue_pending dw chan w =
     (if \<not> configured chan then (chan, w)
      else
        (let (pending, vc) = vchan_issue_pending (chan_vc chan);
             chan = chan\<lparr>chan_vc := vc\<rparr>
         in if pending \<and> ch_request chan = EDMA_REQ_NONE \<and> ch_st chan = EDMA_ST_IDLE
            then (let (_, chan, w) = dw_edma_start_transfer dw (chan\<lparr>ch_st := EDMA_ST_BUSY\<rparr>) w
                  in (chan, w))
            else (chan, w)))"

definition dw_edma_device_tx_status ::
  "(s32 \<Rightarrow> s32 \<Rightarrow> s32 \<Rightarrow> dma_status) \<Rightarrow> (dw_edma_desc virt_dma_chan \<Rightarrow> s32 \<Rightarrow> dw_edma_desc option) \<Rightarrow>
   dw_edma_chan \<Rightarrow> s32 \<Rightarrow> dma_tx_state option \<Rightarrow> dma_status \<times> dma_tx_state option" where
  "dw_edma_device_tx_status dma_async_is_complete vchan_find_desc chan cookie txstate =
     (let (ret, txstate) = dma_cookie_status dma_async_is_complete (chan_vc chan) cookie txstate in
      if ret = DMA_COMPLETE then (ret, txstate)
      else
        (let ret = (if ret = DMA_IN_PROGRESS \<and> ch_st chan = EDMA_ST_PAUSE then DMA_PAUSED else ret);
             residue = (if txstate = None then 0
                        else case vchan_find_desc (chan_vc chan) cookie of
                               None \<Rightarrow> 0
                             | Some desc \<Rightarrow> alloc_sz desc - xfer_sz desc)
         in (ret, dma_set_residue txstate residue)))"

definition dw_edma_alloc_chan_resources :: "dw_edma_chan \<Rightarrow> int" where
  "dw_edma_alloc_chan_resources chan = (if ch_st chan \<noteq> EDMA_ST_IDLE then - EBUSY else 0)"

text \<open>
  The wait loop: each pair is what the two clock tests of one iteration say (\<open>time_before\<close> at the
  head, \<open>time_after_eq\<close> in the body). \<open>None\<close>: still looping when the readings are used up.
\<close>

fun dw_edma_free_chan_resources ::
  "dw_edma \<Rightarrow> (bool \<times> bool) list \<Rightarrow> dw_edma_chan \<Rightarrow> world \<Rightarrow> (dw_edma_chan \<times> world) option" where
  "dw_edma_free_chan_resources dw [] chan w = None"
| "dw_edma_free_chan_resources dw ((before, after) # clk) chan w =
     (if \<not> before then Some (chan, w)
      else (let (ret, chan, w) = dw_edma_device_terminate_all dw chan w in
            if ret = 0 then Some (chan, w)
            else if after then Some (chan, w)
            else dw_edma_free_chan_resources dw clk chan w))"

subsection \<open>Interrupts\<close>

text \<open>Unlink the first issued descriptor and complete it.\<close>

definition complete_head :: "dw_edma_desc \<Rightarrow> dw_edma_chan \<Rightarrow> dw_edma_chan option" where
  "complete_head vd chan =
     map_option (\<lambda>vc. chan\<lparr>chan_vc := vc\<rparr>)
       (vchan_cookie_complete vd ((chan_vc chan)\<lparr>desc_issued := tl (desc_issued (chan_vc chan))\<rparr>))"

definition dw_edma_done_interrupt :: "dw_edma \<Rightarrow> dw_edma_handler" where
  "dw_edma_done_interrupt dw chan w =
     (case vchan_next_desc (chan_vc chan) of
        None \<Rightarrow> Some (chan, w)
      | Some vd \<Rightarrow>
          (case ch_request chan of
             EDMA_REQ_NONE \<Rightarrow>
               (case (if chunks_alloc vd = 0 then complete_head vd chan else Some chan) of
                  None \<Rightarrow> None
                | Some chan \<Rightarrow>
                    (let (started, chan, w) = dw_edma_start_transfer dw chan w
                     in Some (chan\<lparr>ch_st := (if started then EDMA_ST_BUSY else EDMA_ST_IDLE)\<rparr>, w)))
           | EDMA_REQ_STOP \<Rightarrow>
               (case complete_head vd chan of
                  None \<Rightarrow> None
                | Some chan \<Rightarrow>
                    Some (chan\<lparr>ch_request := EDMA_REQ_NONE, ch_st := EDMA_ST_IDLE\<rparr>, w))
           | EDMA_REQ_PAUSE \<Rightarrow>
               Some (chan\<lparr>ch_request := EDMA_REQ_NONE, ch_st := EDMA_ST_PAUSE\<rparr>, w)))"

definition dw_edma_abort_interrupt :: "dw_edma_handler" where
  "dw_edma_abort_interrupt chan w =
     (case (case vchan_next_desc (chan_vc chan) of
              None \<Rightarrow> Some chan
            | Some vd \<Rightarrow> complete_head vd chan) of
        None \<Rightarrow> None
      | Some chan \<Rightarrow> Some (chan\<lparr>ch_request := EDMA_REQ_NONE, ch_st := EDMA_ST_IDLE\<rparr>, w))"

definition dw_edma_interrupt_write ::
  "dw_edma \<Rightarrow> dw_edma_irq \<Rightarrow> world \<Rightarrow> (bool \<times> dw_edma \<times> world) option" where
  "dw_edma_interrupt_write dw irq w =
     dw_edma_core_handle_int dw irq EDMA_DIR_WRITE (dw_edma_done_interrupt dw) dw_edma_abort_interrupt w"

definition dw_edma_interrupt_read ::
  "dw_edma \<Rightarrow> dw_edma_irq \<Rightarrow> world \<Rightarrow> (bool \<times> dw_edma \<times> world) option" where
  "dw_edma_interrupt_read dw irq w =
     dw_edma_core_handle_int dw irq EDMA_DIR_READ (dw_edma_done_interrupt dw) dw_edma_abort_interrupt w"

definition dw_edma_interrupt_common ::
  "dw_edma \<Rightarrow> dw_edma_irq \<Rightarrow> world \<Rightarrow> (bool \<times> dw_edma \<times> world) option" where
  "dw_edma_interrupt_common dw irq w =
     (case dw_edma_interrupt_write dw irq w of
        None \<Rightarrow> None
      | Some (ret_w, dw, w) \<Rightarrow>
          (case dw_edma_interrupt_read dw irq w of
             None \<Rightarrow> None
           | Some (ret_r, dw, w) \<Rightarrow> Some (ret_w \<or> ret_r, dw, w)))"

subsection \<open>Lemmas: dispatch\<close>

definition core_bell :: "dw_edma \<Rightarrow> dw_edma_chan \<Rightarrow> iomem" where
  "core_bell dw chan = (if dw_core dw = CORE_HDMA then hdma_bell (dw_chip dw) chan else v0_bell (dw_chip dw) chan)"

definition core_bell_val :: "dw_edma \<Rightarrow> dw_edma_chan \<Rightarrow> u32" where
  "core_bell_val dw chan = (if dw_core dw = CORE_HDMA then hdma_bell_val chan else v0_bell_val chan)"

lemma core_start_io:
  "dw_core dw \<noteq> CORE_NONE \<Longrightarrow> io_only w (dw_edma_core_start dw chan ck first w)"
  by (cases "dw_core dw") (simp_all add: dw_edma_core_start_def v0.start_io hdma.start_io)

lemma core_start_bell:
  assumes "dw_core dw \<noteq> CORE_NONE" "burst_count_ok ck" "ll_clear (dw_chip dw) ck" "ch_id chan < 8"
  shows "\<exists>es. new_evs w (dw_edma_core_start dw chan ck first w) =
      es @ [Writel (core_bell dw chan) (core_bell_val dw chan)] \<and>
    (\<forall>v. Writel (core_bell dw chan) v \<notin> set es) \<and> ll_holds (dw_chip dw) ck (fold store_ev es m)"
  using assms(1) v0.start_bell [OF assms(2-4)] hdma.start_bell [OF assms(2-4)]
  by (cases "dw_core dw") (simp_all add: dw_edma_core_start_def core_bell_def core_bell_val_def)

text \<open>A start only looks at the direction and the number of the channel.\<close>

lemma core_start_cong:
  assumes "ch_id c = ch_id c'" "ch_dir c = ch_dir c'"
  shows "dw_edma_core_start dw c = dw_edma_core_start dw c'"
  by (intro ext, unfold dw_edma_core_start_def dw_edma_v0_core_start_def dw_hdma_v0_core_start_def
      v0_start_first_def hdma_start_first_def assms, rule refl)

lemma keeps_dispatch:
  "dw_core dw \<noteq> CORE_NONE \<Longrightarrow> dw_edma_core_handle_int dw =
     (if dw_core dw = CORE_HDMA then dw_hdma_v0_core_handle_int dw else dw_edma_v0_core_handle_int dw)"
  by (cases "dw_core dw") (auto simp: dw_edma_core_handle_int_def fun_eq_iff)

interpretation core_irq: dma_irq dw_edma_core_handle_int "\<lambda>dw. dw_core dw \<noteq> CORE_NONE"
proof
  fix dw :: dw_edma and irq :: dw_edma_irq and dir d a w ret dw' w' q
  {
    assume H: "dw_edma_core_handle_int dw irq dir d a w = Some (ret, dw', w')"
    then show "dw' = dw\<lparr>dw_chan := dw_chan dw'\<rparr> \<and> length (dw_chan dw') = length (dw_chan dw)"
      using v0_irq.handle_only [of dw irq dir d a w ret dw' w']
        hdma_irq.handle_only [of dw irq dir d a w ret dw' w']
      by (cases "dw_core dw") (simp_all add: dw_edma_core_handle_int_def)
    assume "\<not> irq_serves dw irq dir q"
    then show "dw_chan dw' ! q = dw_chan dw ! q"
      using H v0_irq.handle_other [of dw irq dir d a w ret dw' w' q]
        hdma_irq.handle_other [of dw irq dir d a w ret dw' w' q]
      by (cases "dw_core dw") (simp_all add: dw_edma_core_handle_int_def)
  }
  fix I :: "dw_edma_chan \<Rightarrow> bool"
  assume "dw_core dw \<noteq> CORE_NONE" "dw_wf dw" "\<forall>c \<in> set (dw_chan dw). I c" "keeps I d" "keeps I a"
  then show "\<exists>ret dw' w'. dw_edma_core_handle_int dw irq dir d a w = Some (ret, dw', w') \<and>
      (\<forall>c \<in> set (dw_chan dw'). I c)"
    using v0_irq.handle_keeps [of dw I d a irq dir w] hdma_irq.handle_keeps [of dw I d a irq dir w]
    by (cases "dw_core dw") (simp_all add: dw_edma_core_handle_int_def)
qed simp

lemma interrupt_common_eq:
  "dw_edma_interrupt_common dw irq w = core_irq.handle_both dw irq dw_edma_done_interrupt dw_edma_abort_interrupt w"
  unfolding dw_edma_interrupt_common_def dw_edma_interrupt_write_def dw_edma_interrupt_read_def
    core_irq.handle_both_def ..

subsection \<open>Lemmas: the next chunk\<close>

text \<open>What starting one chunk does to the world: ring the engine, then release the chunk.\<close>

definition start_chunk :: "dw_edma \<Rightarrow> dw_edma_chan \<Rightarrow> bool \<Rightarrow> dw_edma_chunk \<Rightarrow> world \<Rightarrow> world" where
  "start_chunk dw chan first ck w =
     kfree (ck_addr ck) (snd (dw_edma_free_burst ck (dw_edma_core_start dw chan ck first w)))"

text \<open>What it does to the descriptor.\<close>

definition pop_chunk :: "dw_edma_desc \<Rightarrow> dw_edma_desc" where
  "pop_chunk d = d\<lparr>d_chunk := map_option (\<lambda>(h, cks). (h, tl cks)) (d_chunk d),
     chunks_alloc := chunks_alloc d - 1,
     xfer_sz := xfer_sz d + ucast (rg_sz (ll_region (hd (chunks d))))\<rparr>"

lemma start_transfer_empty [simp]:
  "desc_issued (chan_vc chan) = [] \<Longrightarrow> dw_edma_start_transfer dw chan w = (False, chan, w)"
  by (simp add: dw_edma_start_transfer_def vchan_next_desc_def)

lemma start_transfer_done:
  "desc_issued (chan_vc chan) = d # ds \<Longrightarrow> d_chunk d \<noteq> None \<Longrightarrow> chunks d = [] \<Longrightarrow>
   dw_edma_start_transfer dw chan w = (False, chan, w)"
  by (auto simp: dw_edma_start_transfer_def vchan_next_desc_def chunks_def)

lemma free_burst_list_addr [simp]: "ck_addr (fst (free_burst_list bs ck w)) = ck_addr ck"
  by (induction bs ck w rule: free_burst_list.induct) simp_all

lemma free_burst_addr [simp]: "ck_addr (fst (dw_edma_free_burst ck w)) = ck_addr ck"
  by (simp add: dw_edma_free_burst_def split_beta split: option.splits)

lemma start_transfer_next:
  assumes "desc_issued (chan_vc chan) = d # ds" "d_chunk d \<noteq> None" "chunks d = ck # cks"
  shows "dw_edma_start_transfer dw chan w =
    (True, set_issued (pop_chunk d # ds) chan, start_chunk dw chan (xfer_sz d = 0) ck w)"
proof -
  obtain h where h: "d_chunk d = Some (h, ck # cks)"
    using assms(2,3) by (auto simp: chunks_def)
  have "pop_chunk d = d\<lparr>xfer_sz := xfer_sz d + ucast (rg_sz (ll_region ck)), d_chunk := Some (h, cks),
      chunks_alloc := chunks_alloc d - 1\<rparr>"
    by (simp add: pop_chunk_def h assms(3))
  then show ?thesis
    using assms(1) by (simp add: dw_edma_start_transfer_def vchan_next_desc_def h Let_def split_beta start_chunk_def)
qed

subsection \<open>Lemmas: the channel invariant\<close>

text \<open>
  A descriptor on a list of the channel: its chunk count is exact, every chunk has its burst list,
  and the bytes started so far and those of the chunks left add up to its size.
\<close>

definition left_sz :: "dw_edma_desc \<Rightarrow> u32" where
  "left_sz d = sum_list (map (\<lambda>ck. ucast (rg_sz (ll_region ck))) (chunks d))"

definition desc_ok :: "dw_edma_desc \<Rightarrow> bool" where
  "desc_ok d \<longleftrightarrow> d_chunk d \<noteq> None \<and> chunks_alloc d = of_nat (length (chunks d)) \<and>
     length (chunks d) < 2 ^ 32 \<and> (\<forall>ck \<in> set (chunks d). ck_burst ck \<noteq> None) \<and>
     alloc_sz d = xfer_sz d + left_sz d"

definition chan_ok :: "dw_edma_chan \<Rightarrow> bool" where
  "chan_ok c \<longleftrightarrow> (\<forall>d \<in> set (vchan_descs (chan_vc c)). desc_ok d) \<and>
     (\<forall>d \<in> set (desc_submitted (chan_vc c)) \<union> set (desc_issued (chan_vc c)). 1 \<le> sint (vd_cookie d))"

text \<open>The memory the channel holds.\<close>

definition chan_addrs :: "dw_edma_chan \<Rightarrow> nat list" where
  "chan_addrs c = concat (map desc_addrs (vchan_descs (chan_vc c)))"

definition chan_inv :: "world \<Rightarrow> dw_edma_chan \<Rightarrow> world \<Rightarrow> bool" where
  "chan_inv w0 c w \<longleftrightarrow> chan_ok c \<and> own w0 (chan_addrs c) w \<and> 0 < ll_max c"

lemma own_io: "own w0 xs w \<Longrightarrow> io_only w w' \<Longrightarrow> own w0 xs w'"
  by (simp add: own_def heap_ok_def io_only_frame)

lemma ownD:
  assumes "own w0 xs w"
  shows "filter (\<lambda>a. a \<notin> set xs) (live w) = live w0" "distinct xs" "set xs \<subseteq> set (live w)"
    "set xs \<inter> set (live w0) = {}" "heap_ok w" "mem_fault w = mem_fault w0"
  using assms by (simp_all add: own_def)

lemma own_trans:
  assumes "own w0 xs w" "own w ys w'"
  shows "own w0 (xs @ ys) w'"
proof -
  note 1 = ownD [OF assms(2)] and 2 = ownD [OF assms(1)]
  have sub: "set (live w) \<subseteq> set (live w')" "set (live w0) \<subseteq> set (live w)"
    using filter_is_subset [of "\<lambda>a. a \<notin> set ys" "live w'"]
      filter_is_subset [of "\<lambda>a. a \<notin> set xs" "live w"] unfolding 1(1) 2(1) .
  have "filter (\<lambda>a. a \<notin> set (xs @ ys)) l =
      filter (\<lambda>a. a \<notin> set xs) (filter (\<lambda>a. a \<notin> set ys) l)" for l :: "nat list"
    by (induction l) simp_all
  then have "filter (\<lambda>a. a \<notin> set (xs @ ys)) (live w') = live w0"
    by (simp only: 1 2)
  moreover have "distinct (xs @ ys)" "set (xs @ ys) \<subseteq> set (live w')" "set (xs @ ys) \<inter> set (live w0) = {}"
    using 1(2-4) 2(2-4) sub unfolding distinct_append set_append by blast+
  ultimately show ?thesis
    using 1(5,6) 2(6) unfolding own_def by simp
qed

lemma chunks_alloc_zero: "desc_ok d \<Longrightarrow> chunks_alloc d = 0 \<longleftrightarrow> chunks d = []"
proof -
  assume d: "desc_ok d"
  then have "unat (of_nat (length (chunks d)) :: u32) = length (chunks d)"
    by (simp add: desc_ok_def unat_of_nat)
  moreover have "chunks_alloc d = of_nat (length (chunks d))"
    using d by (simp add: desc_ok_def)
  ultimately show ?thesis
    by (cases "chunks d = []") auto
qed

lemma desc_ok_pop: "desc_ok d \<Longrightarrow> chunks d = ck # cks \<Longrightarrow> desc_ok (pop_chunk d) \<and> chunks (pop_chunk d) = cks"
  by (auto simp: desc_ok_def pop_chunk_def chunks_def left_sz_def algebra_simps)

lemma desc_addrs_pop:
  assumes "desc_ok d" "chunks d = ck # cks"
  shows "mset (desc_addrs d) = mset (chunk_addrs ck @ desc_addrs (pop_chunk d))"
  using assms by (auto simp: desc_ok_def desc_addrs_def pop_chunk_def chunks_def)

lemma own_start_chunk:
  assumes "dw_core dw \<noteq> CORE_NONE" "own w0 (chunk_addrs ck @ xs) w" "ck_burst ck \<noteq> None"
  shows "own w0 xs (start_chunk dw chan first ck w)"
proof -
  have "own w0 (chunk_addrs ck @ xs) (dw_edma_core_start dw chan ck first w)"
    using own_io [OF assms(2) core_start_io [OF assms(1)]] .
  then have "own w0 (burst_addrs ck @ (ck_addr ck # xs)) (dw_edma_core_start dw chan ck first w)"
    by (rule own_perm) (simp add: chunk_addrs_def)
  then show ?thesis
    unfolding start_chunk_def by (intro own_kfree own_free_burst assms(3))
qed

lemma desc_issued_set_issued [simp]: "desc_issued (chan_vc (set_issued ds c)) = ds"
  by (simp add: set_issued_def)

lemma set_issued_frame [simp]:
  "ch_id (set_issued ds c) = ch_id c" "ch_dir (set_issued ds c) = ch_dir c" "ll_max (set_issued ds c) = ll_max c"
  "ch_st (set_issued ds c) = ch_st c" "ch_request (set_issued ds c) = ch_request c"
  "configured (set_issued ds c) = configured c"
  "desc_allocated (chan_vc (set_issued ds c)) = desc_allocated (chan_vc c)"
  "desc_submitted (chan_vc (set_issued ds c)) = desc_submitted (chan_vc c)"
  "desc_completed (chan_vc (set_issued ds c)) = desc_completed (chan_vc c)"
  "desc_terminated (chan_vc (set_issued ds c)) = desc_terminated (chan_vc c)"
  by (simp_all add: set_issued_def)

lemma start_transfer_inv:
  assumes "dw_core dw \<noteq> CORE_NONE" "chan_inv w0 c w" "dw_edma_start_transfer dw c w = (r, c', w')"
  shows "chan_inv w0 c' w' \<and> ch_st c' = ch_st c \<and> ch_request c' = ch_request c \<and> configured c' = configured c"
proof (cases "desc_issued (chan_vc c)")
  case Nil
  then show ?thesis using assms by simp
next
  case (Cons d ds)
  have d: "desc_ok d"
    using assms(2) Cons by (simp add: chan_inv_def chan_ok_def vchan_descs_def)
  show ?thesis
  proof (cases "chunks d")
    case Nil
    then show ?thesis
      using assms start_transfer_done [OF Cons] d by (simp add: desc_ok_def)
  next
    case (Cons ck cks)
    note issued = \<open>desc_issued (chan_vc c) = d # ds\<close>
    have c': "c' = set_issued (pop_chunk d # ds) c" and w': "w' = start_chunk dw c (xfer_sz d = 0) ck w"
      using start_transfer_next [OF issued _ Cons] d assms(3) by (simp_all add: desc_ok_def)
    have pop: "desc_ok (pop_chunk d)" "vd_cookie (pop_chunk d) = vd_cookie d"
      using desc_ok_pop [OF d Cons] by (simp_all add: pop_chunk_def)
    have "mset (chunk_addrs ck @ chan_addrs c') = mset (chan_addrs c)"
      using desc_addrs_pop [OF d Cons] by (simp add: chan_addrs_def vchan_descs_def c' issued)
    then have "own w0 (chunk_addrs ck @ chan_addrs c') w"
      using assms(2) own_perm by (metis chan_inv_def)
    then have "own w0 (chan_addrs c') w'"
      unfolding w' using d Cons by (intro own_start_chunk assms(1)) (auto simp: desc_ok_def)
    moreover have "chan_ok c'"
      using assms(2) pop by (auto simp: chan_inv_def chan_ok_def vchan_descs_def c' issued)
    ultimately show ?thesis
      using assms(2) by (simp add: chan_inv_def c')
  qed
qed

text \<open>Completing the first issued descriptor.\<close>

lemma complete_head_ok:
  assumes "desc_issued (chan_vc c) = d # ds" "1 \<le> sint (vd_cookie d)"
  shows "complete_head d c = Some (c\<lparr>chan_vc := (chan_vc c)\<lparr>desc_issued := ds,
     completed_cookie := vd_cookie d, desc_completed := desc_completed (chan_vc c) @ [d\<lparr>vd_cookie := 0\<rparr>],
     vc_tasklet := True\<rparr>\<rparr>)"
  using assms by (simp add: complete_head_def vchan_cookie_complete_def dma_cookie_complete_def)

lemma desc_cookie_only [simp]:
  "desc_ok (d\<lparr>vd_cookie := k\<rparr>) = desc_ok d" "desc_addrs (d\<lparr>vd_cookie := k\<rparr>) = desc_addrs d"
  "chunks (d\<lparr>vd_cookie := k\<rparr>) = chunks d"
  by (simp_all add: desc_ok_def desc_addrs_def left_sz_def chunks_def)

lemma complete_head_inv:
  assumes "chan_ok c" "desc_issued (chan_vc c) = d # ds"
  obtains c' where "complete_head d c = Some c'" "chan_ok c'" "mset (chan_addrs c') = mset (chan_addrs c)"
    "desc_issued (chan_vc c') = ds" "ch_st c' = ch_st c" "ch_request c' = ch_request c"
    "configured c' = configured c" "ll_max c' = ll_max c"
proof -
  have cookie: "1 \<le> sint (vd_cookie d)"
    using assms by (simp add: chan_ok_def)
  show ?thesis
    by (rule that [OF complete_head_ok [OF assms(2) cookie]])
      (use assms in \<open>auto simp: chan_ok_def chan_addrs_def vchan_descs_def\<close>)
qed

text \<open>Status and request do not matter to the invariant.\<close>

lemma chan_frame [simp]:
  "chan_ok (c\<lparr>ch_st := s\<rparr>) = chan_ok c" "chan_addrs (c\<lparr>ch_st := s\<rparr>) = chan_addrs c"
  "chan_ok (c\<lparr>ch_request := r\<rparr>) = chan_ok c" "chan_addrs (c\<lparr>ch_request := r\<rparr>) = chan_addrs c"
  "chan_ok (c\<lparr>configured := b\<rparr>) = chan_ok c" "chan_addrs (c\<lparr>configured := b\<rparr>) = chan_addrs c"
  "chan_ok (c\<lparr>ch_config := g\<rparr>) = chan_ok c" "chan_addrs (c\<lparr>ch_config := g\<rparr>) = chan_addrs c"
  by (simp_all add: chan_ok_def chan_addrs_def)

lemma start_transfer_ok:
  assumes "chan_ok c"
  shows "chan_ok (fst (snd (dw_edma_start_transfer dw c w)))"
proof (cases "desc_issued (chan_vc c)")
  case Nil
  then show ?thesis using assms by simp
next
  case (Cons d ds)
  have d: "desc_ok d"
    using assms Cons by (simp add: chan_ok_def vchan_descs_def)
  show ?thesis
  proof (cases "chunks d")
    case Nil
    then show ?thesis
      using assms start_transfer_done [OF Cons] d by (simp add: desc_ok_def)
  next
    case (Cons ck cks)
    note issued = \<open>desc_issued (chan_vc c) = d # ds\<close>
    have "vd_cookie (pop_chunk d) = vd_cookie d"
      by (simp add: pop_chunk_def)
    then show ?thesis
      using assms desc_ok_pop [OF d Cons] start_transfer_next [OF issued _ Cons] d
      by (auto simp: desc_ok_def [of d] chan_ok_def vchan_descs_def issued)
  qed
qed

lemma start_transfer_split:
  obtains r c' w' where "dw_edma_start_transfer dw c w = (r, c', w')"
  by (metis prod_cases3)

lemma done_interrupt_ok:
  assumes "chan_ok c"
  shows "\<exists>c' w'. dw_edma_done_interrupt dw c w = Some (c', w') \<and> chan_ok c'"
proof (cases "desc_issued (chan_vc c)")
  case Nil
  then show ?thesis using assms by (simp add: dw_edma_done_interrupt_def vchan_next_desc_def)
next
  case (Cons d ds)
  obtain c1 where c1: "complete_head d c = Some c1" "chan_ok c1"
    using complete_head_inv [OF assms Cons] by blast
  have s: "\<exists>c2 w2 r. dw_edma_start_transfer dw c0 w = (r, c2, w2) \<and> chan_ok c2" if "chan_ok c0" for c0
    using start_transfer_ok [OF that, of dw w] by (metis fst_conv prod.collapse snd_conv)
  show ?thesis
  proof (cases "ch_request c")
    case EDMA_REQ_NONE
    obtain c2 where c2: "(if chunks_alloc d = 0 then complete_head d c else Some c) = Some c2" "chan_ok c2"
      using c1 assms by (cases "chunks_alloc d = 0") auto
    obtain r c3 w3 where "dw_edma_start_transfer dw c2 w = (r, c3, w3)" "chan_ok c3"
      using s [OF c2(2)] by blast
    then show ?thesis
      using EDMA_REQ_NONE Cons c2 by (auto simp: dw_edma_done_interrupt_def vchan_next_desc_def)
  next
    case EDMA_REQ_STOP
    then show ?thesis
      using Cons c1 by (simp add: dw_edma_done_interrupt_def vchan_next_desc_def)
  next
    case EDMA_REQ_PAUSE
    then show ?thesis
      using Cons assms by (simp add: dw_edma_done_interrupt_def vchan_next_desc_def)
  qed
qed

lemma abort_interrupt_ok:
  assumes "chan_ok c"
  shows "\<exists>c' w'. dw_edma_abort_interrupt c w = Some (c', w') \<and> chan_ok c'"
proof (cases "desc_issued (chan_vc c)")
  case Nil
  then show ?thesis using assms by (simp add: dw_edma_abort_interrupt_def vchan_next_desc_def)
next
  case (Cons d ds)
  obtain c1 where "complete_head d c = Some c1" "chan_ok c1"
    using complete_head_inv [OF assms Cons] by blast
  then show ?thesis
    using Cons by (simp add: dw_edma_abort_interrupt_def vchan_next_desc_def)
qed

lemma handlers_keep: "keeps chan_ok (dw_edma_done_interrupt dw)" "keeps chan_ok dw_edma_abort_interrupt"
  using done_interrupt_ok abort_interrupt_ok by (auto simp: keeps_def)

subsection \<open>Lemmas: a prepared descriptor joins the channel\<close>

lemma take_bit_32_64_add: "take_bit 32 (take_bit 64 a + take_bit 64 b) = take_bit 32 (a + b)" for a b :: int
proof -
  have "take_bit 32 (take_bit 64 a + take_bit 64 b) =
      take_bit 32 (take_bit 32 (take_bit 64 a) + take_bit 32 (take_bit 64 b))"
    by (simp only: take_bit_add)
  also have "\<dots> = take_bit 32 (a + b)"
    by (simp add: take_bit_add)
  finally show ?thesis .
qed

lemma ucast_down_add: "(ucast (a + b :: u64) :: u32) = ucast a + ucast b"
  by transfer (simp add: take_bit_32_64_add)

lemma ucast_up_down: "(ucast (ucast v :: u64) :: u32) = v"
  by transfer simp

lemma ucast_down_sum:
  "(ucast (sum_list (map (\<lambda>b. ucast (b_sz b)) bs) :: u64) :: u32) = sum_list (map b_sz bs)"
  by (induction bs) (simp_all add: ucast_down_add ucast_up_down)

lemma length_burst_plan: "length (burst_plan k x dir n i sg s d) \<le> n"
  by (induction n arbitrary: i sg s d) (auto simp: Let_def split: prod.splits)

lemma sum_concat_bursts:
  "sum_list (map b_sz (concat (map bursts cks))) = sum_list (map (\<lambda>ck. sum_list (map b_sz (bursts ck))) cks)"
  by (induction cks) simp_all

lemma desc_wf_left_sz: "desc_wf rg lm d \<Longrightarrow> left_sz d = alloc_sz d"
proof -
  assume wf: "desc_wf rg lm d"
  have "ucast (rg_sz (ll_region ck)) = sum_list (map b_sz (bursts ck))" if "ck \<in> set (chunks d)" for ck
    using that wf by (simp add: desc_wf_def chunk_wf_def ucast_down_sum)
  then have "left_sz d = sum_list (map (\<lambda>ck. sum_list (map b_sz (bursts ck))) (chunks d))"
    unfolding left_sz_def by (metis (no_types, lifting) map_eq_conv)
  also have "\<dots> = sum_list (map b_sz (desc_bursts d))"
    unfolding desc_bursts_def sum_concat_bursts ..
  finally show ?thesis
    using wf by (simp add: desc_wf_def)
qed

lemma length_concat_bursts:
  "\<forall>ck \<in> set cks. 1 \<le> length (bursts ck) \<Longrightarrow> length cks \<le> length (concat (map bursts cks))"
  by (induction cks) (simp_all add: add_mono)

lemma desc_wf_length:
  assumes "desc_wf rg lm d" "0 < lm"
  shows "length (chunks d) \<le> Suc (length (desc_bursts d))"
proof -
  have "\<forall>ck \<in> set (butlast (chunks d)). 1 \<le> length (bursts ck)"
  proof -
    have "0 < unat lm"
      using assms(2) by (simp add: unat_gt_0 word_gt_0)
    then show ?thesis
      using assms(1) by (auto simp: desc_wf_def)
  qed
  then have "length (butlast (chunks d)) \<le> length (concat (map bursts (butlast (chunks d))))"
    by (rule length_concat_bursts)
  moreover have "length (concat (map bursts (butlast (chunks d)))) \<le> length (desc_bursts d)"
    unfolding desc_bursts_def by (cases "chunks d" rule: rev_cases) auto
  ultimately show ?thesis
    by simp
qed

lemma desc_wf_ok:
  assumes "desc_wf rg lm d" "0 < lm" "length (desc_bursts d) < 2 ^ 31"
  shows "desc_ok d"
proof -
  have "length (chunks d) < 2 ^ 32"
    using desc_wf_length [OF assms(1,2)] assms(3) by simp
  moreover have "\<forall>ck \<in> set (chunks d). ck_burst ck \<noteq> None" "d_chunk d \<noteq> None"
    "chunks_alloc d = of_nat (length (chunks d))" "xfer_sz d = 0"
    using assms(1) by (auto simp: desc_wf_def chunk_wf_def)
  ultimately show ?thesis
    using desc_wf_left_sz [OF assms(1)] by (simp add: desc_ok_def)
qed

text \<open>A request short enough for the loop's \<open>int\<close> counter keeps the channel invariant.\<close>

lemma transfer_inv:
  assumes inv: "chan_inv w0 c w" and n: "unat (transfer_cnt (x_xfer xfer)) < 2 ^ 31"
    and r: "dw_edma_device_transfer k chip c xfer w = (r, c', w')"
  shows "chan_inv w0 c' w'"
proof -
  have lm: "0 < ll_max c" and own: "own w0 (chan_addrs c) w" and ok: "chan_ok c" and heap: "heap_ok w"
    using inv ownD(5) by (auto simp: chan_inv_def)
  show ?thesis
  proof (cases r)
    case None
    then show ?thesis
      using device_transfer_None [OF heap lm r [unfolded None]] inv own_trans [OF own, of "[]" w']
      by (simp add: chan_inv_def)
  next
    case (Some a)
    obtain d where d: "desc_wf (ll_region_of chip (ch_dir c) (ch_id c)) (ll_max c) d" "own w (desc_addrs d) w'"
      "map burst_xfer (desc_bursts d) =
           burst_plan k (x_xfer xfer) (x_direction xfer) (unat (transfer_cnt (x_xfer xfer))) 0 (transfer_sg (x_xfer xfer))
             (fst (transfer_addrs chip c (x_xfer xfer) (x_direction xfer)))
             (snd (transfer_addrs chip c (x_xfer xfer) (x_direction xfer)))"
      "c' = c\<lparr>chan_vc := vchan_tx_prep (chan_vc c) d (x_flags xfer)\<rparr>"
      using device_transfer_cases [OF heap lm r] Some by auto
    have "length (desc_bursts d) = length (map burst_xfer (desc_bursts d))"
      by simp
    also have "\<dots> \<le> unat (transfer_cnt (x_xfer xfer))"
      unfolding d(3) by (rule length_burst_plan)
    finally have "length (desc_bursts d) < 2 ^ 31"
      using n by (rule order_le_less_trans)
    then have "desc_ok d"
      by (rule desc_wf_ok [OF d(1) lm])
    then have "desc_ok (d\<lparr>vd_flags := x_flags xfer, vd_residue := 0\<rparr>)"
      by (simp add: desc_ok_def left_sz_def)
    then have "chan_ok c'"
      using ok by (auto simp: d(4) chan_ok_def vchan_descs_def vchan_tx_prep_def)
    moreover have "own w0 (chan_addrs c') w'"
      using own_trans [OF own d(2)]
      by (rule own_perm) (simp add: d(4) chan_addrs_def vchan_descs_def vchan_tx_prep_def)
    ultimately show ?thesis
      using lm by (simp add: chan_inv_def d(4))
  qed
qed

end
