(* ===== verification/Chan_Life.thy ===== *)
theory Chan_Life
  imports Edma_Chan
begin

section \<open>The life of a channel\<close>

text \<open>
  The reachable states of a channel under any order of client calls and interrupts, the draining of
  its issued list by done interrupts, and the properties of the channel operations.
\<close>

subsection \<open>Reachable states of a channel\<close>

text \<open>
  The events of a channel's life, in any order: the client's calls, the kernel's \<open>vchan_tx_submit\<close>
  (code outside the repository: an argument, whose documented effect is \<open>submit_ok\<close>), the two
  interrupt handlers, the kernel handing a completed descriptor to \<open>vchan_free_desc\<close>, and register
  accesses by others. The invariant's parameter \<open>dw\<close> only gives the chip and the engine.
\<close>

definition submit_ok :: "(dw_edma_desc \<Rightarrow> dw_edma_desc virt_dma_chan \<Rightarrow> dw_edma_desc virt_dma_chan) \<Rightarrow> bool" where
  "submit_ok submit \<longleftrightarrow>
     (\<forall>d vc. d \<in> set (desc_allocated vc) \<longrightarrow>
        (let (cookie, d', vc') = dma_cookie_assign d vc in
         submit d vc = vc'\<lparr>desc_allocated := remove1 d (desc_allocated vc),
                           desc_submitted := desc_submitted vc @ [d']\<rparr>))"

inductive chan_step ::
  "kapi \<Rightarrow> (dw_edma_desc \<Rightarrow> dw_edma_desc virt_dma_chan \<Rightarrow> dw_edma_desc virt_dma_chan) \<Rightarrow> dw_edma \<Rightarrow>
   dw_edma_chan \<Rightarrow> world \<Rightarrow> dw_edma_chan \<Rightarrow> world \<Rightarrow> bool"
  for k submit dw where
  config: "chan_step k submit dw c w (snd (dw_edma_device_config cfg c)) w"
| prep: "unat (transfer_cnt (x_xfer xfer)) < 2 ^ 31 \<Longrightarrow>
    dw_edma_device_transfer k (dw_chip dw) c xfer w = (r, c', w') \<Longrightarrow> chan_step k submit dw c w c' w'"
| submit: "d \<in> set (desc_allocated (chan_vc c)) \<Longrightarrow>
    chan_step k submit dw c w (c\<lparr>chan_vc := submit d (chan_vc c)\<rparr>) w"
| issue: "dw_edma_device_issue_pending dw c w = (c', w') \<Longrightarrow> chan_step k submit dw c w c' w'"
| pause: "dw_edma_device_pause c = (r, c') \<Longrightarrow> chan_step k submit dw c w c' w"
| resume: "dw_edma_device_resume dw c w = (r, c', w') \<Longrightarrow> chan_step k submit dw c w c' w'"
| terminate: "dw_edma_device_terminate_all dw c w = (r, c', w') \<Longrightarrow> chan_step k submit dw c w c' w'"
| done_irq: "dw_edma_done_interrupt dw c w = Some (c', w') \<Longrightarrow> chan_step k submit dw c w c' w'"
| abort_irq: "dw_edma_abort_interrupt c w = Some (c', w') \<Longrightarrow> chan_step k submit dw c w c' w'"
| release: "desc_completed (chan_vc c) = d # ds \<Longrightarrow>
    chan_step k submit dw c w (c\<lparr>chan_vc := (chan_vc c)\<lparr>desc_completed := ds\<rparr>\<rparr>) (vchan_free_desc d w)"
| others: "io_only w w' \<Longrightarrow> chan_step k submit dw c w c w'"

inductive chan_reach ::
  "kapi \<Rightarrow> (dw_edma_desc \<Rightarrow> dw_edma_desc virt_dma_chan \<Rightarrow> dw_edma_desc virt_dma_chan) \<Rightarrow> dw_edma \<Rightarrow>
   dw_edma_chan \<Rightarrow> world \<Rightarrow> dw_edma_chan \<Rightarrow> world \<Rightarrow> bool"
  for k submit dw c0 w0 where
  init: "chan_reach k submit dw c0 w0 c0 w0"
| step: "chan_reach k submit dw c0 w0 c w \<Longrightarrow> chan_step k submit dw c w c' w' \<Longrightarrow>
    chan_reach k submit dw c0 w0 c' w'"

lemma chan_inv_frame [simp]:
  "chan_inv w0 (c\<lparr>ch_st := s\<rparr>) w = chan_inv w0 c w" "chan_inv w0 (c\<lparr>ch_request := r\<rparr>) w = chan_inv w0 c w"
  "chan_inv w0 (c\<lparr>configured := b\<rparr>) w = chan_inv w0 c w" "chan_inv w0 (c\<lparr>ch_config := g\<rparr>) w = chan_inv w0 c w"
  by (simp_all add: chan_inv_def)

lemma chan_inv_io: "chan_inv w0 c w \<Longrightarrow> io_only w w' \<Longrightarrow> chan_inv w0 c w'"
  using own_io by (auto simp: chan_inv_def)

lemma complete_head_chan_inv:
  assumes "chan_inv w0 c w" "desc_issued (chan_vc c) = d # ds" "complete_head d c = Some c'"
  shows "chan_inv w0 c' w"
proof -
  have "chan_ok c" "own w0 (chan_addrs c) w" "0 < ll_max c"
    using assms(1) by (auto simp: chan_inv_def)
  with complete_head_inv [OF this(1) assms(2)] assms(3) show ?thesis
    unfolding chan_inv_def by (metis option.inject own_perm)
qed

lemma issue_pending_inv:
  assumes core: "dw_core dw \<noteq> CORE_NONE" and inv: "chan_inv w0 c w"
    and r: "dw_edma_device_issue_pending dw c w = (c', w')"
  shows "chan_inv w0 c' w'"
proof -
  let ?vc = "snd (vchan_issue_pending (chan_vc c))"
  have inv1: "chan_inv w0 (c\<lparr>chan_vc := ?vc\<rparr>) w"
  proof -
    have "mset (chan_addrs (c\<lparr>chan_vc := ?vc\<rparr>)) = mset (chan_addrs c)"
      by (simp add: chan_addrs_def vchan_descs_def vchan_issue_pending_def Let_def)
    moreover have "chan_ok (c\<lparr>chan_vc := ?vc\<rparr>)"
      using inv by (auto simp: chan_inv_def chan_ok_def vchan_descs_def vchan_issue_pending_def Let_def)
    ultimately show ?thesis
      using inv own_perm unfolding chan_inv_def by force
  qed
  obtain r2 c2 w2 where s: "dw_edma_start_transfer dw (c\<lparr>chan_vc := ?vc, ch_st := EDMA_ST_BUSY\<rparr>) w = (r2, c2, w2)"
    by (rule start_transfer_split)
  have "chan_inv w0 c2 w2"
    using start_transfer_inv [OF core _ s] inv1 by simp
  then show ?thesis
    using r inv inv1 s
    by (auto simp: dw_edma_device_issue_pending_def split_beta Let_def split: if_splits)
qed

lemma done_interrupt_inv:
  assumes core: "dw_core dw \<noteq> CORE_NONE" and inv: "chan_inv w0 c w"
    and r: "dw_edma_done_interrupt dw c w = Some (c', w')"
  shows "chan_inv w0 c' w'"
proof (cases "desc_issued (chan_vc c)")
  case Nil
  then show ?thesis
    using r inv by (simp add: dw_edma_done_interrupt_def vchan_next_desc_def)
next
  case (Cons d ds)
  note head = complete_head_chan_inv [OF inv Cons]
  show ?thesis
  proof (cases "ch_request c")
    case EDMA_REQ_NONE
    obtain c2 where c2: "(if chunks_alloc d = 0 then complete_head d c else Some c) = Some c2"
      using r EDMA_REQ_NONE Cons
      by (cases "if chunks_alloc d = 0 then complete_head d c else Some c")
        (auto simp: dw_edma_done_interrupt_def vchan_next_desc_def)
    have inv2: "chan_inv w0 c2 w"
      using c2 inv head by (auto split: if_splits)
    obtain b c3 w3 where s: "dw_edma_start_transfer dw c2 w = (b, c3, w3)"
      by (rule start_transfer_split)
    have "c' = c3\<lparr>ch_st := if b then EDMA_ST_BUSY else EDMA_ST_IDLE\<rparr>" "w' = w3"
      using r EDMA_REQ_NONE Cons c2 s by (simp_all add: dw_edma_done_interrupt_def vchan_next_desc_def)
    then show ?thesis
      using start_transfer_inv [OF core inv2 s] by simp
  next
    case EDMA_REQ_STOP
    then show ?thesis
      using r Cons head by (auto simp: dw_edma_done_interrupt_def vchan_next_desc_def split: option.splits)
  next
    case EDMA_REQ_PAUSE
    then show ?thesis
      using r Cons inv by (auto simp: dw_edma_done_interrupt_def vchan_next_desc_def)
  qed
qed

lemma abort_interrupt_inv:
  assumes "chan_inv w0 c w" "dw_edma_abort_interrupt c w = Some (c', w')"
  shows "chan_inv w0 c' w'"
  using assms complete_head_chan_inv [OF assms(1)]
  by (cases "desc_issued (chan_vc c)")
    (auto simp: dw_edma_abort_interrupt_def vchan_next_desc_def split: option.splits)

lemma core_ch_status_io:
  "dw_core dw \<noteq> CORE_NONE \<Longrightarrow> io_only w (snd (dw_edma_core_ch_status dw c w))"
  by (cases "dw_core dw") (simp_all add: dw_edma_core_ch_status_def dw_edma_v0_core_ch_status_def
      dw_hdma_v0_core_ch_status_def split_beta Let_def GET_CH_32_def readl_ch_def HGET_CH_32_def)

lemma terminate_inv:
  assumes "dw_core dw \<noteq> CORE_NONE" "chan_inv w0 c w" "dw_edma_device_terminate_all dw c w = (r, c', w')"
  shows "chan_inv w0 c' w'"
proof -
  have "chan_inv w0 c (snd (dw_edma_core_ch_status dw c w))"
    using chan_inv_io [OF assms(2) core_ch_status_io [OF assms(1)]] .
  then show ?thesis
    using assms(2,3) by (auto simp: dw_edma_device_terminate_all_def split_beta Let_def split: if_splits)
qed

lemma resume_inv:
  assumes "dw_core dw \<noteq> CORE_NONE" "chan_inv w0 c w" "dw_edma_device_resume dw c w = (r, c', w')"
  shows "chan_inv w0 c' w'"
proof -
  obtain r2 c2 w2 where s: "dw_edma_start_transfer dw (c\<lparr>ch_st := EDMA_ST_BUSY\<rparr>) w = (r2, c2, w2)"
    by (rule start_transfer_split)
  have "chan_inv w0 c2 w2"
    using start_transfer_inv [OF assms(1) _ s] assms(2) by simp
  then show ?thesis
    using assms(2,3) s by (auto simp: dw_edma_device_resume_def split: if_splits)
qed

lemma mset_concat_remove1:
  "d \<in> set ds \<Longrightarrow> mset (concat (map f ds)) = mset (f d) + mset (concat (map f (remove1 d ds)))"
  by (induction ds) auto

lemma submit_inv:
  assumes "submit_ok submit" "chan_inv w0 c w" "d \<in> set (desc_allocated (chan_vc c))"
  shows "chan_inv w0 (c\<lparr>chan_vc := submit d (chan_vc c)\<rparr>) w"
proof -
  let ?c' = "c\<lparr>chan_vc := submit d (chan_vc c)\<rparr>"
  obtain cookie d' vc' where a: "dma_cookie_assign d (chan_vc c) = (cookie, d', vc')"
    by (metis prod_cases3)
  have pos: "1 \<le> sint (vd_cookie d')"
    using cookie_assign_positive [OF a] by simp
  have d': "d' = d\<lparr>vd_cookie := cookie\<rparr>" and vc': "vc' = (chan_vc c)\<lparr>vc_cookie := cookie\<rparr>"
    using a by (auto simp: dma_cookie_assign_def Let_def)
  have s: "submit d (chan_vc c) = vc'\<lparr>desc_allocated := remove1 d (desc_allocated (chan_vc c)),
      desc_submitted := desc_submitted (chan_vc c) @ [d']\<rparr>"
    using assms(1) [unfolded submit_ok_def, rule_format, OF assms(3)] by (simp add: a)
  have "mset (concat (map desc_addrs (desc_allocated (chan_vc c)))) =
      mset (desc_addrs d) + mset (concat (map desc_addrs (remove1 d (desc_allocated (chan_vc c)))))"
    using assms(3) by (rule mset_concat_remove1)
  then have "mset (chan_addrs ?c') = mset (chan_addrs c)"
    by (simp add: chan_addrs_def vchan_descs_def s vc' d')
  moreover have "chan_ok ?c'"
    using assms(2,3) pos set_remove1_subset [of d "desc_allocated (chan_vc c)"]
    unfolding chan_inv_def chan_ok_def vchan_descs_def s vc' by (auto simp: d')
  ultimately show ?thesis
    using assms(2) own_perm unfolding chan_inv_def by force
qed

lemma release_inv:
  assumes "chan_inv w0 c w" "desc_completed (chan_vc c) = d # ds"
  shows "chan_inv w0 (c\<lparr>chan_vc := (chan_vc c)\<lparr>desc_completed := ds\<rparr>\<rparr>) (vchan_free_desc d w)"
proof -
  let ?c' = "c\<lparr>chan_vc := (chan_vc c)\<lparr>desc_completed := ds\<rparr>\<rparr>"
  have "desc_ok d" and own: "own w0 (chan_addrs c) w"
    using assms by (auto simp: chan_inv_def chan_ok_def vchan_descs_def)
  then have bursts: "\<And>h cks. d_chunk d = Some (h, cks) \<Longrightarrow> \<forall>ck \<in> set cks. ck_burst ck \<noteq> None"
    by (simp add: desc_ok_def chunks_def)
  have "own w0 (desc_addrs d @ chan_addrs ?c') w"
    using own by (rule own_perm) (simp add: chan_addrs_def vchan_descs_def assms(2))
  then have "own w0 (chan_addrs ?c') (vchan_free_desc d w)"
    using own_free_desc [OF _ bursts] by (simp add: vchan_free_desc_def)
  moreover have "chan_ok ?c'"
    using assms by (auto simp: chan_inv_def chan_ok_def vchan_descs_def)
  ultimately show ?thesis
    using assms(1) by (simp add: chan_inv_def)
qed

lemma chan_step_inv:
  assumes "chan_step k submit dw c w c' w'" "submit_ok submit" "dw_core dw \<noteq> CORE_NONE" "chan_inv w0 c w"
  shows "chan_inv w0 c' w'"
  using assms(1)
proof cases
  case (config cfg)
  then show ?thesis using assms(4) by (simp add: dw_edma_device_config_def)
next
  case (prep xfer r)
  then show ?thesis using transfer_inv [OF assms(4)] by blast
next
  case (submit d)
  then show ?thesis using submit_inv [OF assms(2,4)] by blast
next
  case issue
  then show ?thesis using issue_pending_inv [OF assms(3,4)] by blast
next
  case (pause r)
  then show ?thesis using assms(4) by (auto simp: dw_edma_device_pause_def split: if_splits)
next
  case (resume r)
  then show ?thesis using resume_inv [OF assms(3,4)] by blast
next
  case (terminate r)
  then show ?thesis using terminate_inv [OF assms(3,4)] by blast
next
  case done_irq
  then show ?thesis using done_interrupt_inv [OF assms(3,4)] by blast
next
  case abort_irq
  then show ?thesis using abort_interrupt_inv [OF assms(4)] by blast
next
  case (release d ds)
  then show ?thesis using release_inv [OF assms(4)] by blast
next
  case others
  then show ?thesis using chan_inv_io [OF assms(4)] by blast
qed

lemma chan_reach_inv:
  assumes "chan_reach k submit dw c0 w0 c w" "submit_ok submit" "dw_core dw \<noteq> CORE_NONE"
    "vchan_descs (chan_vc c0) = []" "heap_ok w0" "0 < ll_max c0"
  shows "chan_inv w0 c w"
  using assms(1)
proof induction
  case init
  then show ?case
    using assms(4-6) by (auto simp: chan_inv_def chan_ok_def chan_addrs_def vchan_descs_def intro: own_refl)
next
  case (step c w c' w')
  then show ?case
    using chan_step_inv [OF _ assms(2,3)] by blast
qed

subsection \<open>Lemmas: draining a channel\<close>

fun done_irqs :: "dw_edma \<Rightarrow> nat \<Rightarrow> dw_edma_chan \<Rightarrow> world \<Rightarrow> (dw_edma_chan \<times> world) option" where
  "done_irqs dw 0 c w = Some (c, w)"
| "done_irqs dw (Suc n) c w =
     (case dw_edma_done_interrupt dw c w of None \<Rightarrow> None | Some (c, w) \<Rightarrow> done_irqs dw n c w)"

text \<open>The reference: the chunks of a list of descriptors started one after the other.\<close>

fun run_chunks :: "dw_edma \<Rightarrow> dw_edma_chan \<Rightarrow> u32 \<Rightarrow> dw_edma_chunk list \<Rightarrow> world \<Rightarrow> world" where
  "run_chunks dw c sz [] w = w"
| "run_chunks dw c sz (ck # cks) w =
     run_chunks dw c (sz + ucast (rg_sz (ll_region ck))) cks (start_chunk dw c (sz = 0) ck w)"

fun run_descs :: "dw_edma \<Rightarrow> dw_edma_chan \<Rightarrow> dw_edma_desc list \<Rightarrow> world \<Rightarrow> world" where
  "run_descs dw c [] w = w"
| "run_descs dw c (d # ds) w = run_descs dw c ds (run_chunks dw c (xfer_sz d) (chunks d) w)"

definition finished :: "dw_edma_desc \<Rightarrow> dw_edma_desc" where
  "finished d = d\<lparr>d_chunk := map_option (\<lambda>(h, cks). (h, [])) (d_chunk d), chunks_alloc := 0,
     xfer_sz := xfer_sz d + left_sz d, vd_cookie := 0\<rparr>"

lemma finished_pop: "chunks d = ck # cks \<Longrightarrow> finished (pop_chunk d) = finished d"
  by (auto simp: finished_def pop_chunk_def left_sz_def chunks_def map_option_case add.assoc split: option.splits)

lemma finished_empty:
  "desc_ok d \<Longrightarrow> chunks d = [] \<Longrightarrow> d\<lparr>vd_cookie := 0\<rparr> = finished d"
  by (auto simp: finished_def desc_ok_def left_sz_def chunks_def)

lemma run_pop:
  "chunks d = ck # cks \<Longrightarrow> desc_ok d \<Longrightarrow>
   run_chunks dw c (xfer_sz (pop_chunk d)) (chunks (pop_chunk d)) (start_chunk dw c (xfer_sz d = 0) ck w) =
   run_chunks dw c (xfer_sz d) (chunks d) w"
  using desc_ok_pop [of d ck cks] by (simp add: pop_chunk_def)

lemma start_chunk_cong:
  "ch_id c = ch_id c' \<Longrightarrow> ch_dir c = ch_dir c' \<Longrightarrow> start_chunk dw c = start_chunk dw c'"
  using core_start_cong [of c c' dw] by (intro ext) (simp add: start_chunk_def)

text \<open>One done interrupt in each of the two situations it can find.\<close>

lemma done_next_chunk:
  assumes "desc_issued (chan_vc c) = d # ds" "ch_request c = EDMA_REQ_NONE" "desc_ok d" "chunks d = ck # cks"
  shows "dw_edma_done_interrupt dw c w =
    Some (set_issued (pop_chunk d # ds) c\<lparr>ch_st := EDMA_ST_BUSY\<rparr>, start_chunk dw c (xfer_sz d = 0) ck w)"
proof -
  have "chunks_alloc d \<noteq> 0"
    using chunks_alloc_zero [OF assms(3)] assms(4) by simp
  then show ?thesis
    using assms start_transfer_next [OF assms(1) _ assms(4), of dw w]
    by (simp add: dw_edma_done_interrupt_def vchan_next_desc_def desc_ok_def)
qed

definition completed :: "dw_edma_desc \<Rightarrow> dw_edma_chan \<Rightarrow> dw_edma_chan" where
  "completed d c = c\<lparr>chan_vc := (chan_vc c)\<lparr>desc_issued := tl (desc_issued (chan_vc c)),
     completed_cookie := vd_cookie d, desc_completed := desc_completed (chan_vc c) @ [d\<lparr>vd_cookie := 0\<rparr>],
     vc_tasklet := True\<rparr>\<rparr>"

lemma done_last_chunk:
  assumes "desc_issued (chan_vc c) = d # ds" "ch_request c = EDMA_REQ_NONE" "desc_ok d" "chunks d = []"
    "1 \<le> sint (vd_cookie d)"
  shows "dw_edma_done_interrupt dw c w =
    (let (r, c', w') = dw_edma_start_transfer dw (completed d c) w
     in Some (c'\<lparr>ch_st := if r then EDMA_ST_BUSY else EDMA_ST_IDLE\<rparr>, w'))"
  using assms chunks_alloc_zero [OF assms(3)] complete_head_ok [OF assms(1,5)]
  by (simp add: dw_edma_done_interrupt_def vchan_next_desc_def completed_def)

lemma completed_frame [simp]:
  "ch_id (completed d c) = ch_id c" "ch_dir (completed d c) = ch_dir c" "ch_request (completed d c) = ch_request c"
  "desc_issued (chan_vc (completed d c)) = tl (desc_issued (chan_vc c))"
  "desc_completed (chan_vc (completed d c)) = desc_completed (chan_vc c) @ [d\<lparr>vd_cookie := 0\<rparr>]"
  "completed_cookie (chan_vc (completed d c)) = vd_cookie d"
  by (simp_all add: completed_def)

lemma set_issued_cookie [simp]: "completed_cookie (chan_vc (set_issued ds c)) = completed_cookie (chan_vc c)"
  by (simp add: set_issued_def)

lemma done_irqs_Suc:
  "dw_edma_done_interrupt dw c w = Some (c', w') \<Longrightarrow> done_irqs dw (Suc n) c w = done_irqs dw n c' w'"
  by simp

text \<open>
  What the draining of the issued requests \<open>d # ds\<close> of \<open>c\<close> starts from, and that a step has left it the
  same but for one chunk: the accesses to come, the requests that will be completed and the last cookie.
\<close>

definition draining :: "dw_edma_chan \<Rightarrow> dw_edma_chan \<Rightarrow> dw_edma_desc \<Rightarrow> dw_edma_desc list \<Rightarrow> nat \<Rightarrow> bool" where
  "draining c0 c d ds n \<longleftrightarrow> desc_issued (chan_vc c) = d # ds \<and> ch_request c = EDMA_REQ_NONE \<and> desc_ok d \<and>
     (\<forall>d \<in> set ds. desc_ok d \<and> chunks d \<noteq> []) \<and> (\<forall>d \<in> set (d # ds). 1 \<le> sint (vd_cookie d)) \<and>
     ch_id c = ch_id c0 \<and> ch_dir c = ch_dir c0 \<and> n = length (chunks d) + sum_list (map (length \<circ> chunks) ds)"

definition same_drain ::
  "dw_edma \<Rightarrow> dw_edma_chan \<Rightarrow> dw_edma_chan \<times> dw_edma_desc \<times> dw_edma_desc list \<times> world \<Rightarrow>
   dw_edma_chan \<times> dw_edma_desc \<times> dw_edma_desc list \<times> world \<Rightarrow> bool" where
  "same_drain dw c0 = (\<lambda>(c, d, ds, w) (c', d', ds', w').
     run_descs dw c0 (d' # ds') w' = run_descs dw c0 (d # ds) w \<and>
     desc_completed (chan_vc c') @ map finished (d' # ds') = desc_completed (chan_vc c) @ map finished (d # ds) \<and>
     vd_cookie (last (d' # ds')) = vd_cookie (last (d # ds)))"

lemma drain_within:
  assumes "draining c0 c d ds (Suc n)" "chunks d = ck # cks"
  obtains c' w' where "dw_edma_done_interrupt dw c w = Some (c', w')" "draining c0 c' (pop_chunk d) ds n"
    "same_drain dw c0 (c, d, ds, w) (c', pop_chunk d, ds, w')"
proof -
  let ?c = "set_issued (pop_chunk d # ds) c\<lparr>ch_st := EDMA_ST_BUSY\<rparr>"
  let ?w = "start_chunk dw c (xfer_sz d = 0) ck w"
  note a = assms(1) [unfolded draining_def]
  have ok: "desc_ok d" using a by blast
  have pop: "vd_cookie (pop_chunk d) = vd_cookie d"
    by (simp add: pop_chunk_def)
  have "start_chunk dw c = start_chunk dw c0"
    using start_chunk_cong a by blast
  then have "same_drain dw c0 (c, d, ds, w) (?c, pop_chunk d, ds, ?w)"
    using run_pop [OF assms(2) ok, of dw c0 w] finished_pop [OF assms(2)] pop by (simp add: same_drain_def)
  moreover have "draining c0 ?c (pop_chunk d) ds n"
    using a desc_ok_pop [OF ok assms(2)] pop assms(2) by (simp add: draining_def)
  moreover have "dw_edma_done_interrupt dw c w = Some (?c, ?w)"
    using done_next_chunk [of c d ds] a assms(2) by simp
  ultimately show ?thesis
    using that by blast
qed

lemma drain_next:
  assumes "draining c0 c d ds (Suc n)" "chunks d = []"
  obtains c' d' ds' w' where "dw_edma_done_interrupt dw c w = Some (c', w')" "draining c0 c' d' ds' n"
    "same_drain dw c0 (c, d, ds, w) (c', d', ds', w')"
proof -
  note a = assms(1) [unfolded draining_def]
  obtain d2 ds2 where ds: "ds = d2 # ds2"
    using a assms(2) by (cases ds) auto
  then obtain ck cks where ck: "chunks d2 = ck # cks" and ok2: "desc_ok d2"
    using a by (cases "chunks d2") auto
  let ?c = "set_issued (pop_chunk d2 # ds2) (completed d c)\<lparr>ch_st := EDMA_ST_BUSY\<rparr>"
  let ?w = "start_chunk dw c (xfer_sz d2 = 0) ck w"
  have pop: "vd_cookie (pop_chunk d2) = vd_cookie d2"
    by (simp add: pop_chunk_def)
  have cong: "start_chunk dw (completed d c) = start_chunk dw c" "start_chunk dw c = start_chunk dw c0"
    using start_chunk_cong [of "completed d c" c] start_chunk_cong [of c c0] a by auto
  have st: "dw_edma_start_transfer dw (completed d c) w = (True, set_issued (pop_chunk d2 # ds2) (completed d c), ?w)"
    using start_transfer_next [of "completed d c" d2 ds2 ck cks dw w] ok2 ck cong a ds by (simp add: desc_ok_def)
  have "dw_edma_done_interrupt dw c w = Some (?c, ?w)"
    using done_last_chunk [of c d ds, OF _ _ _ assms(2), of dw w] a st by simp
  moreover have "same_drain dw c0 (c, d, ds, w) (?c, pop_chunk d2, ds2, ?w)"
    using run_pop [OF ck ok2, of dw c0 w] cong(2) ds assms(2) pop finished_pop [OF ck] finished_empty [OF _ assms(2)] a
    by (simp add: same_drain_def)
  moreover have "draining c0 ?c (pop_chunk d2) ds2 n"
    using a desc_ok_pop [OF ok2 ck] pop ck ds assms(2) by (auto simp: draining_def)
  ultimately show ?thesis
    using that by blast
qed

lemma drain:
  assumes "draining c0 c d ds n"
  shows "\<exists>c'. done_irqs dw (Suc n) c w = Some (c', run_descs dw c0 (d # ds) w) \<and> ch_st c' = EDMA_ST_IDLE \<and>
    desc_issued (chan_vc c') = [] \<and>
    desc_completed (chan_vc c') = desc_completed (chan_vc c) @ map finished (d # ds) \<and>
    completed_cookie (chan_vc c') = vd_cookie (last (d # ds))"
  using assms
proof (induction n arbitrary: c d ds w)
  case 0
  note a = 0 [unfolded draining_def]
  have e: "chunks d = []" "ds = []"
    using a by (cases ds; auto)+
  show ?case
    using a e done_last_chunk [of c d ds, OF _ _ _ e(1)] finished_empty [OF _ e(1)] by simp
next
  case (Suc n)
  obtain c1 d1 ds1 w1 where 1: "dw_edma_done_interrupt dw c w = Some (c1, w1)" "draining c0 c1 d1 ds1 n"
    "same_drain dw c0 (c, d, ds, w) (c1, d1, ds1, w1)"
  proof (cases "chunks d")
    case Nil
    show ?thesis
      by (rule drain_next [OF Suc.prems Nil, of dw w]) (rule that)
  next
    case (Cons ck cks)
    show ?thesis
      by (rule drain_within [OF Suc.prems Cons, of dw w]) (rule that)
  qed
  show ?case
    unfolding done_irqs_Suc [OF 1(1)] using Suc.IH [OF 1(2), of w1] 1(3) unfolding same_drain_def by simp
qed

subsection \<open>Properties: starts and interrupts\<close>

text \<open>C1: Whichever engine the probe selected, starting a chunk writes the channel's doorbell exactly
  once and as the very last access, and at that moment the linked list in memory holds every burst of
  the chunk with its control bits, and the link element that closes it.\<close>

theorem core_start_handover:
  assumes "dw_core dw \<noteq> CORE_NONE" "burst_count_ok ck" "ll_clear (dw_chip dw) ck" "ch_id chan < 8"
  shows "\<exists>es. new_evs w (dw_edma_core_start dw chan ck first w) =
      es @ [Writel (core_bell dw chan) (core_bell_val dw chan)] \<and>
    (\<forall>v. Writel (core_bell dw chan) v \<notin> set es) \<and> ll_holds (dw_chip dw) ck (fold store_ev es m)"
  by (rule core_start_bell [OF assms])

text \<open>C29: An interrupt line serves only the channels in its two masks: every other channel of the
  device is untouched by the handler, and of the device only the channel array changes.\<close>

theorem interrupt_isolation:
  assumes "dw_edma_interrupt_common dw irq w = Some (ret, dw', w')"
    "\<not> irq_serves dw irq EDMA_DIR_WRITE q" "\<not> irq_serves dw irq EDMA_DIR_READ q"
  shows "dw_chan dw' ! q = dw_chan dw ! q"
  using core_irq.handle_both_other assms unfolding interrupt_common_eq .

text \<open>On a device whose channels are in order, no interrupt hits a kernel bug, whatever the
  device reports, and the channels stay in order.\<close>

theorem interrupt_never_bugs:
  assumes "dw_core dw \<noteq> CORE_NONE" "dw_wf dw" "\<forall>c \<in> set (dw_chan dw). chan_ok c"
  shows "\<exists>ret dw' w'. dw_edma_interrupt_common dw irq w = Some (ret, dw', w') \<and>
    (\<forall>c \<in> set (dw_chan dw'). chan_ok c)"
  using core_irq.handle_both_keeps [OF assms handlers_keep] unfolding interrupt_common_eq .

subsection \<open>Properties: every reachable state\<close>

text \<open>Under any order of client calls, interrupts and completions the driver never frees twice,
  never touches a freed list and never leaks: the live allocations are those that were there before
  and, each exactly once, those of the descriptors on the channel's lists.\<close>

theorem channel_memory_safe:
  assumes "chan_reach k submit dw c0 w0 c w" "submit_ok submit" "dw_core dw \<noteq> CORE_NONE"
    "vchan_descs (chan_vc c0) = []" "heap_ok w0" "0 < ll_max c0"
  shows "mem_fault w = mem_fault w0 \<and> distinct (chan_addrs c) \<and> set (chan_addrs c) \<subseteq> set (live w) \<and>
    filter (\<lambda>a. a \<notin> set (chan_addrs c)) (live w) = live w0"
  using ownD [of w0 "chan_addrs c" w] chan_reach_inv [OF assms] by (simp add: chan_inv_def)

text \<open>In every reachable state both interrupt handlers return: no descriptor is completed twice
  or before it was submitted.\<close>

theorem reachable_handlers_return:
  assumes "chan_reach k submit dw c0 w0 c w" "submit_ok submit" "dw_core dw \<noteq> CORE_NONE"
    "vchan_descs (chan_vc c0) = []" "heap_ok w0" "0 < ll_max c0"
  shows "dw_edma_done_interrupt dw c v \<noteq> None \<and> dw_edma_abort_interrupt c v \<noteq> None"
  using done_interrupt_ok [of c dw v] abort_interrupt_ok [of c v] chan_reach_inv [OF assms]
  by (auto simp: chan_inv_def)

text \<open>C20: In every reachable state the residue reported for an unfinished request is exactly the
  bytes of its chunks that were not started, and a paused channel reports its running request as
  paused.\<close>

theorem tx_status_residue:
  fixes complete cookie c
  defines "s \<equiv> complete cookie (completed_cookie (chan_vc c)) (vc_cookie (chan_vc c))"
  assumes "chan_reach k submit dw c0 w0 c w" "submit_ok submit" "dw_core dw \<noteq> CORE_NONE"
    "vchan_descs (chan_vc c0) = []" "heap_ok w0" "0 < ll_max c0"
    and find_desc: "\<forall>vc i d. find_desc vc i = Some d \<longrightarrow> d \<in> set (desc_issued vc) \<and> vd_cookie d = i"
  shows "case dw_edma_device_tx_status complete find_desc c cookie (Some st) of (ret, st') \<Rightarrow>
    ret = (if s = DMA_IN_PROGRESS \<and> ch_st c = EDMA_ST_PAUSE then DMA_PAUSED else s) \<and>
    map_option tx_residue st' = Some (if s = DMA_COMPLETE then 0 else
      case find_desc (chan_vc c) cookie of None \<Rightarrow> 0 | Some d \<Rightarrow> left_sz d)"
proof -
  have "alloc_sz d - xfer_sz d = left_sz d" if "find_desc (chan_vc c) cookie = Some d" for d
  proof -
    have "d \<in> set (vchan_descs (chan_vc c))"
      using find_desc that unfolding vchan_descs_def by fastforce
    then show ?thesis
      using chan_reach_inv [OF assms(2-7)] by (auto simp: chan_inv_def chan_ok_def desc_ok_def)
  qed
  then show ?thesis
    by (auto simp: dw_edma_device_tx_status_def dma_cookie_status_def dma_set_residue_def Let_def s_def
        split: option.split)
qed

subsection \<open>Properties: the client's view\<close>

text \<open>C19: Issuing the submitted requests of an idle channel starts the first chunk, and with one done
  interrupt per chunk every request is run chunk by chunk in the order of submission, each is
  completed with all its bytes counted, and the channel is idle again with nothing left.\<close>

theorem issue_then_drain:
  assumes "configured c" "ch_st c = EDMA_ST_IDLE" "ch_request c = EDMA_REQ_NONE"
    "desc_issued (chan_vc c) = []" "desc_submitted (chan_vc c) = d # ds" "chan_ok c"
    "\<forall>d \<in> set (desc_submitted (chan_vc c)). chunks d \<noteq> []"
  shows "\<exists>c'. (case dw_edma_device_issue_pending dw c w of (c1, w1) \<Rightarrow>
        done_irqs dw (sum_list (map (length \<circ> chunks) (d # ds))) c1 w1) = Some (c', run_descs dw c (d # ds) w) \<and>
    ch_st c' = EDMA_ST_IDLE \<and> desc_issued (chan_vc c') = [] \<and>
    desc_completed (chan_vc c') = desc_completed (chan_vc c) @ map finished (d # ds) \<and>
    completed_cookie (chan_vc c') = vd_cookie (last (d # ds))"
proof -
  have ok: "\<forall>d' \<in> set (d # ds). desc_ok d' \<and> chunks d' \<noteq> [] \<and> 1 \<le> sint (vd_cookie d')"
    using assms(5-7) by (auto simp: chan_ok_def vchan_descs_def)
  obtain ck cks where ck: "chunks d = ck # cks"
    using ok by (cases "chunks d") auto
  let ?c0 = "c\<lparr>chan_vc := (chan_vc c)\<lparr>desc_issued := d # ds, desc_submitted := []\<rparr>, ch_st := EDMA_ST_BUSY\<rparr>"
  let ?c1 = "set_issued (pop_chunk d # ds) ?c0"
  let ?w1 = "start_chunk dw c (xfer_sz d = 0) ck w"
  have d: "desc_ok d" and pop: "desc_ok (pop_chunk d)" "chunks (pop_chunk d) = cks"
    using ok desc_ok_pop [OF _ ck] by auto
  have cookie: "vd_cookie (pop_chunk d) = vd_cookie d"
    by (simp add: pop_chunk_def)
  have "start_chunk dw ?c0 = start_chunk dw c"
    by (rule start_chunk_cong) simp_all
  then have issue: "dw_edma_device_issue_pending dw c w = (?c1, ?w1)"
    using assms(1-5) start_transfer_next [of ?c0 d ds ck cks dw w] d ck
    by (simp add: dw_edma_device_issue_pending_def vchan_issue_pending_def Let_def desc_ok_def)
  have "\<exists>c'. done_irqs dw (Suc (length (chunks (pop_chunk d)) + sum_list (map (length \<circ> chunks) ds))) ?c1 ?w1 =
        Some (c', run_descs dw c (pop_chunk d # ds) ?w1) \<and> ch_st c' = EDMA_ST_IDLE \<and>
      desc_issued (chan_vc c') = [] \<and>
      desc_completed (chan_vc c') = desc_completed (chan_vc ?c1) @ map finished (pop_chunk d # ds) \<and>
      completed_cookie (chan_vc c') = vd_cookie (last (pop_chunk d # ds))"
    by (rule drain) (use assms(3) pop ok cookie in \<open>auto simp: draining_def\<close>)
  moreover have "run_descs dw c (pop_chunk d # ds) ?w1 = run_descs dw c (d # ds) w"
    using run_pop [OF ck d, of dw c w] by simp
  moreover have "Suc (length (chunks (pop_chunk d)) + sum_list (map (length \<circ> chunks) ds)) =
      sum_list (map (length \<circ> chunks) (d # ds))"
    by (simp add: pop ck)
  moreover have "desc_completed (chan_vc ?c1) @ map finished (pop_chunk d # ds) =
      desc_completed (chan_vc c) @ map finished (d # ds)" "vd_cookie (last (pop_chunk d # ds)) = vd_cookie (last (d # ds))"
    using finished_pop [OF ck] cookie by simp_all
  ultimately show ?thesis
    unfolding issue prod.case by metis
qed

text \<open>C31: Pausing a running channel, taking the done interrupt and resuming ends in exactly the state,
  and in exactly the register accesses, of the done interrupt without the pause, as long as a chunk
  of the running request is left.\<close>

theorem pause_resume_transparent:
  assumes "configured c" "ch_st c = EDMA_ST_BUSY" "ch_request c = EDMA_REQ_NONE"
    "desc_issued (chan_vc c) = d # ds" "desc_ok d" "chunks d \<noteq> []"
  shows "case dw_edma_device_pause c of (r, c1) \<Rightarrow> r = 0 \<and>
    (case dw_edma_done_interrupt dw c1 w of None \<Rightarrow> False | Some (c2, w2) \<Rightarrow>
       ch_st c2 = EDMA_ST_PAUSE \<and> w2 = w \<and>
       (case dw_edma_device_resume dw c2 w2 of (r, c3, w3) \<Rightarrow>
          r = 0 \<and> dw_edma_done_interrupt dw c w = Some (c3, w3)))"
proof -
  obtain ck cks where ck: "chunks d = ck # cks"
    using assms(6) by (cases "chunks d") auto
  let ?b = "c\<lparr>ch_request := EDMA_REQ_NONE, ch_st := EDMA_ST_BUSY\<rparr>"
  have "start_chunk dw ?b = start_chunk dw c"
    by (rule start_chunk_cong) simp_all
  then have "dw_edma_start_transfer dw ?b w =
      (True, set_issued (pop_chunk d # ds) ?b, start_chunk dw c (xfer_sz d = 0) ck w)"
    using start_transfer_next [of ?b d ds ck cks dw w] assms(4,5) ck by (simp add: desc_ok_def)
  moreover have "set_issued (pop_chunk d # ds) ?b = set_issued (pop_chunk d # ds) c\<lparr>ch_st := EDMA_ST_BUSY\<rparr>"
    using assms(2,3) by (simp add: set_issued_def)
  ultimately show ?thesis
    using assms done_next_chunk [OF assms(4,3,5) ck, of dw w]
    by (simp add: dw_edma_device_pause_def dw_edma_device_resume_def dw_edma_done_interrupt_def)
qed


text \<open>C32: Terminating a channel never reports an error, and so releasing a channel never waits: its
  loop ends after the first pass (its five-second budget and the busy error are dead code).\<close>

theorem terminate_never_fails:
  "case dw_edma_device_terminate_all dw c w of (r, c', w') \<Rightarrow>
     r = 0 \<and> dw_edma_free_chan_resources dw ((True, late) # clk) c w = Some (c', w')"
proof -
  have "\<not> ch_request c > EDMA_REQ_PAUSE"
    by (simp add: not_less)
  then show ?thesis
    by (auto simp: dw_edma_device_terminate_all_def split_beta Let_def split: if_splits)
qed

text \<open>Terminating a channel whose engine still runs lets the running chunk end: the next done
  interrupt completes the running request even when chunks of it are left, starts nothing, and leaves
  the requests behind it issued and untouched on an idle channel.\<close>

theorem stop_completes_head_only:
  assumes "configured c" "ch_st c = EDMA_ST_BUSY" "fst (dw_edma_core_ch_status dw c w) \<noteq> DMA_COMPLETE"
    "desc_issued (chan_vc c) = d # ds" "1 \<le> sint (vd_cookie d)"
  shows "case dw_edma_device_terminate_all dw c w of (r, c1, w1) \<Rightarrow>
    ch_st c1 = EDMA_ST_BUSY \<and>
    (case dw_edma_done_interrupt dw c1 v of None \<Rightarrow> False | Some (c2, v2) \<Rightarrow>
       v2 = v \<and> ch_st c2 = EDMA_ST_IDLE \<and> ch_request c2 = EDMA_REQ_NONE \<and>
       desc_issued (chan_vc c2) = ds \<and>
       desc_completed (chan_vc c2) = desc_completed (chan_vc c) @ [d\<lparr>vd_cookie := 0\<rparr>] \<and>
       completed_cookie (chan_vc c2) = vd_cookie d)"
proof -
  have "\<not> ch_request c > EDMA_REQ_PAUSE"
    by (simp add: not_less)
  then have "dw_edma_device_terminate_all dw c w =
      (0, c\<lparr>ch_request := EDMA_REQ_STOP\<rparr>, snd (dw_edma_core_ch_status dw c w))"
    using assms(1-3) by (simp add: dw_edma_device_terminate_all_def split_beta Let_def)
  then show ?thesis
    using assms complete_head_ok [of "c\<lparr>ch_request := EDMA_REQ_STOP\<rparr>" d ds]
    by (simp add: dw_edma_done_interrupt_def)
qed

text \<open>An abort completes the running request whatever is left of it, drops any pending pause or
  stop, and starts nothing: the requests behind it wait on an idle channel.\<close>

theorem abort_completes_head:
  assumes "desc_issued (chan_vc c) = d # ds" "1 \<le> sint (vd_cookie d)"
  shows "case dw_edma_abort_interrupt c w of None \<Rightarrow> False | Some (c', w') \<Rightarrow>
    w' = w \<and> ch_st c' = EDMA_ST_IDLE \<and> ch_request c' = EDMA_REQ_NONE \<and>
    desc_issued (chan_vc c') = ds \<and>
    desc_completed (chan_vc c') = desc_completed (chan_vc c) @ [d\<lparr>vd_cookie := 0\<rparr>] \<and>
    completed_cookie (chan_vc c') = vd_cookie d"
  using complete_head_ok [OF assms] assms(1) by (simp add: dw_edma_abort_interrupt_def)

subsection \<open>Properties: where the channel gets stuck\<close>

text \<open>A channel that is terminated after its interrupt was lost goes idle but keeps a pending pause
  or stop request: issuing further requests then starts nothing, however it is configured again, as long
  as no interrupt clears that request.\<close>

theorem terminate_keeps_request:
  assumes "configured c" "ch_st c = EDMA_ST_BUSY" "fst (dw_edma_core_ch_status dw c w) = DMA_COMPLETE"
    "ch_request c \<noteq> EDMA_REQ_NONE"
  shows "case dw_edma_device_terminate_all dw c w of (r, c1, w1) \<Rightarrow>
    r = 0 \<and> ch_st c1 = EDMA_ST_IDLE \<and> ch_request c1 = ch_request c \<and>
    (\<forall>cfg vc. snd (dw_edma_device_issue_pending dw
       (snd (dw_edma_device_config cfg (c1\<lparr>chan_vc := vc\<rparr>))) v) = v)"
  using assms
  by (simp add: dw_edma_device_terminate_all_def dw_edma_device_config_def
      dw_edma_device_issue_pending_def split_beta)

text \<open>Terminating between the end of a chunk and its interrupt: the engine already reports the channel as
  complete, so the channel goes idle and loses its configuration, and then the interrupt starts the next
  chunk of the terminated request.\<close>

theorem late_done_restarts:
  assumes "configured c" "ch_st c = EDMA_ST_BUSY" "ch_request c = EDMA_REQ_NONE"
    "fst (dw_edma_core_ch_status dw c w) = DMA_COMPLETE"
    "desc_issued (chan_vc c) = d # ds" "desc_ok d" "chunks d = ck # cks"
  shows "case dw_edma_device_terminate_all dw c w of (r, c1, w1) \<Rightarrow>
    r = 0 \<and> ch_st c1 = EDMA_ST_IDLE \<and> \<not> configured c1 \<and>
    (case dw_edma_done_interrupt dw c1 w1 of None \<Rightarrow> False | Some (c2, w2) \<Rightarrow>
       ch_st c2 = EDMA_ST_BUSY \<and> \<not> configured c2 \<and> desc_issued (chan_vc c2) = pop_chunk d # ds)"
proof -
  obtain w1 where 1: "dw_edma_device_terminate_all dw c w = (0, c\<lparr>ch_st := EDMA_ST_IDLE, configured := False\<rparr>, w1)"
    using assms(1,2,4) by (simp add: dw_edma_device_terminate_all_def split_beta Let_def)
  let ?c = "c\<lparr>ch_st := EDMA_ST_IDLE, configured := False\<rparr>"
  have "d_chunk d \<noteq> None" "chunks_alloc d \<noteq> 0"
    using assms(6,7) chunks_alloc_zero [of d] by (simp_all add: desc_ok_def)
  then have "dw_edma_done_interrupt dw ?c w1 =
      Some ((set_issued (pop_chunk d # ds) ?c)\<lparr>ch_st := EDMA_ST_BUSY\<rparr>, start_chunk dw ?c (xfer_sz d = 0) ck w1)"
    using start_transfer_next [of ?c d ds ck cks dw w1] assms(3,5,7)
    by (simp add: dw_edma_done_interrupt_def vchan_next_desc_def)
  then show ?thesis
    by (simp add: 1 set_issued_def)
qed

subsection \<open>The properties on the sample device\<close>

definition ex_irq :: dw_edma_irq where
  "ex_irq = \<lparr>irq_msi = \<lparr>address_lo = 0xfee00000, address_hi = 0, msi_data = 0x4021\<rparr>, wr_mask = 1, rd_mask = 3\<rparr>"

definition ex_dw :: dw_edma where
  "ex_dw = \<lparr>dw_chip = ex_chip, wr_ch_cnt = 2, rd_ch_cnt = 2, dw_irqs = [ex_irq], dw_nr_irqs = 1,
     dw_chan = [ex_chan EDMA_DIR_WRITE 0, ex_chan EDMA_DIR_WRITE 1, ex_chan EDMA_DIR_READ 0,
       ex_chan EDMA_DIR_READ 1], dw_core = CORE_V0\<rparr>"

definition ex_submit :: "dw_edma_desc \<Rightarrow> dw_edma_desc virt_dma_chan \<Rightarrow> dw_edma_desc virt_dma_chan" where
  "ex_submit d vc = (case dma_cookie_assign d vc of (cookie, d', vc') \<Rightarrow>
     vc'\<lparr>desc_allocated := remove1 d (desc_allocated vc), desc_submitted := desc_submitted vc @ [d']\<rparr>)"

definition ex_with :: "dw_edma_status \<Rightarrow> dw_edma_desc list \<Rightarrow> dw_edma_chan" where
  "ex_with st ds = set_issued ds ((ex_chan EDMA_DIR_WRITE 0)\<lparr>ch_st := st\<rparr>)"

lemma ex_submit_ok [simp]: "submit_ok ex_submit"
  by (simp add: submit_ok_def ex_submit_def split_beta Let_def)

lemma ex_dw_simps [simp]:
  "dw_core ex_dw = CORE_V0" "dw_chip ex_dw = ex_chip" "dw_wf ex_dw"
  by (simp_all add: ex_dw_def dw_wf_def)

lemma ex_vc_simps [simp]:
  "vchan_descs (ex_vc :: dw_edma_desc virt_dma_chan) = []" "desc_completed (ex_vc :: dw_edma_desc virt_dma_chan) = []"
  by (simp_all add: vchan_descs_def ex_vc_def)

lemma ex_chan_ok [simp]: "chan_ok (ex_chan dir i)"
  by (simp add: chan_ok_def) (simp add: ex_vc_def)

lemma ex_dw_chans: "\<forall>c \<in> set (dw_chan ex_dw). chan_ok c"
  by (simp add: ex_dw_def)

lemma ex_desc_simps [simp]:
  "chunks ex_desc = [ex_chunk 4, ex_chunk 7]" "desc_ok ex_desc" "vd_cookie ex_desc = 2" "d_chunk ex_desc \<noteq> None"
  by (simp_all add: desc_ok_def left_sz_def chunks_def ex_desc_def ex_chunk_def ex_region_def)

lemma ex_with_simps [simp]:
  "configured (ex_with st ds)" "ch_st (ex_with st ds) = st" "ch_request (ex_with st ds) = EDMA_REQ_NONE"
  "desc_issued (chan_vc (ex_with st ds)) = ds" "desc_completed (chan_vc (ex_with st ds)) = []"
  by (simp_all add: ex_with_def)

text \<open>A state reached by preparing one request.\<close>

definition ex_prep :: "nat option \<times> dw_edma_chan \<times> world" where
  "ex_prep = dw_edma_device_transfer ex_kapi ex_chip (ex_chan EDMA_DIR_WRITE 1) ex_xfer ex_world"

lemma ex_reach:
  "chan_reach ex_kapi ex_submit ex_dw (ex_chan EDMA_DIR_WRITE 1) ex_world (fst (snd ex_prep)) (snd (snd ex_prep))"
proof (rule chan_reach.step [OF chan_reach.init], rule chan_step.prep)
  show "unat (transfer_cnt (x_xfer ex_xfer)) < 2 ^ 31"
    by (simp add: ex_xfer_def transfer_cnt_def)
  show "dw_edma_device_transfer ex_kapi (dw_chip ex_dw) (ex_chan EDMA_DIR_WRITE 1) ex_xfer ex_world =
      (fst ex_prep, fst (snd ex_prep), snd (snd ex_prep))"
    by (simp add: ex_prep_def)
qed

theorem core_start_handover_witness:
  "\<exists>es. new_evs ex_world (dw_edma_core_start ex_dw (ex_chan EDMA_DIR_READ 1) (ex_chunk 1) True ex_world) =
     es @ [Writel (core_bell ex_dw (ex_chan EDMA_DIR_READ 1)) (core_bell_val ex_dw (ex_chan EDMA_DIR_READ 1))] \<and>
     ll_holds ex_chip (ex_chunk 1) (fold store_ev es Map.empty)"
  using core_start_handover [of ex_dw "ex_chunk 1" "ex_chan EDMA_DIR_READ 1" ex_world True Map.empty]
  by auto

theorem interrupt_isolation_witness:
  "\<exists>ret dw' w'. dw_edma_interrupt_common ex_dw ex_irq ex_world = Some (ret, dw', w') \<and>
     dw_chan dw' ! 1 = ex_chan EDMA_DIR_WRITE 1"
proof -
  obtain ret dw' w' where r: "dw_edma_interrupt_common ex_dw ex_irq ex_world = Some (ret, dw', w')"
    using core_irq.handle_both_keeps [of ex_dw chan_ok dw_edma_done_interrupt dw_edma_abort_interrupt ex_irq ex_world]
      ex_dw_chans handlers_keep unfolding interrupt_common_eq by auto
  have "\<not> irq_serves ex_dw ex_irq EDMA_DIR_WRITE 1" "\<not> irq_serves ex_dw ex_irq EDMA_DIR_READ 1"
    by (simp_all add: irq_serves_def ex_dw_def ex_irq_def)
  from interrupt_isolation [OF r this] r show ?thesis
    by (simp add: ex_dw_def)
qed

theorem interrupt_never_bugs_witness:
  "\<exists>ret dw' w'. dw_edma_interrupt_common ex_dw ex_irq ex_world = Some (ret, dw', w')"
  using interrupt_never_bugs [of ex_dw ex_irq ex_world] ex_dw_chans by auto

theorem channel_memory_safe_witness:
  "mem_fault (snd (snd ex_prep)) = False \<and> distinct (chan_addrs (fst (snd ex_prep))) \<and>
   filter (\<lambda>a. a \<notin> set (chan_addrs (fst (snd ex_prep)))) (live (snd (snd ex_prep))) = []"
proof -
  have "mem_fault ex_world = False" "live ex_world = []"
    by (simp_all add: ex_world_def)
  then show ?thesis
    using channel_memory_safe [OF ex_reach] by simp
qed

theorem reachable_handlers_return_witness:
  "dw_edma_done_interrupt ex_dw (fst (snd ex_prep)) ex_world \<noteq> None \<and>
   dw_edma_abort_interrupt (fst (snd ex_prep)) ex_world \<noteq> None"
  using reachable_handlers_return [OF ex_reach, of ex_world] by simp

lemma find_issued:
  "\<forall>vc i d. List.find (\<lambda>d. vd_cookie d = i) (desc_issued vc) = Some d \<longrightarrow>
     d \<in> set (desc_issued vc) \<and> vd_cookie d = i"
  by (auto simp: find_Some_iff)

lemma start_cookies:
  "dw_edma_start_transfer dw c w = (r, c', w') \<Longrightarrow> map vd_cookie (desc_issued (chan_vc c')) = map vd_cookie (desc_issued (chan_vc c))"
  by (auto simp: dw_edma_start_transfer_def vchan_next_desc_def set_issued_def Let_def
      split: option.splits list.splits prod.splits)

text \<open>The cyclic request is prepared, submitted and issued: its first chunk is started.\<close>

lemma ex_issued:
  obtains c w d where "chan_reach ex_kapi ex_submit ex_dw (ex_chan EDMA_DIR_WRITE 1) ex_world c w"
    "desc_issued (chan_vc c) = [d]" "vd_cookie d = 2"
proof -
  let ?c = "ex_chan EDMA_DIR_WRITE 1"
  obtain r c1 w1 where p: "ex_prep = (r, c1, w1)"
    by (metis prod_cases3)
  have "transfer_dir_ok ex_chip ?c (x_direction ex_xfer)" "transfer_xfer_ok (x_xfer ex_xfer)" "\<forall>a. kz_ok ex_world a"
    by (simp_all add: transfer_dir_ok_def transfer_xfer_ok_def chip_local_def ex_chip_def ex_xfer_def ex_world_def)
  then obtain d where c1: "c1 = ?c\<lparr>chan_vc := vchan_tx_prep (chan_vc ?c) d (x_flags ex_xfer)\<rparr>"
    using device_transfer_cases [OF ex_heap_ok(1) _ p [unfolded ex_prep_def]] by (auto split: option.splits)
  define e where "e = d\<lparr>vd_flags := x_flags ex_xfer, vd_residue := 0\<rparr>"
  define c2 where "c2 = c1\<lparr>chan_vc := ex_submit e (chan_vc c1)\<rparr>"
  have e: "desc_allocated (chan_vc c1) = [e]"
    by (simp add: c1 e_def vchan_tx_prep_def)
  have r1: "chan_reach ex_kapi ex_submit ex_dw ?c ex_world c1 w1"
    using ex_reach by (simp add: p)
  have r2: "chan_reach ex_kapi ex_submit ex_dw ?c ex_world c2 w1"
    unfolding c2_def by (rule chan_reach.step [OF r1 chan_step.submit]) (simp add: e)
  have c2: "desc_submitted (chan_vc c2) = [e\<lparr>vd_cookie := 2\<rparr>]" "desc_issued (chan_vc c2) = []"
    by (simp_all add: c2_def ex_submit_def dma_cookie_assign_def DMA_MIN_COOKIE_def Let_def c1 vchan_tx_prep_def ex_vc_def)
  obtain c3 w3 where 3: "dw_edma_device_issue_pending ex_dw c2 w1 = (c3, w3)"
    by fastforce
  have "map vd_cookie (desc_issued (chan_vc c3)) = [2]"
    using 3 c2 by (auto simp: dw_edma_device_issue_pending_def vchan_issue_pending_def Let_def c2_def c1
        split: prod.splits if_splits dest!: start_cookies)
  then show thesis
    using that [OF chan_reach.step [OF r2 chan_step.issue [OF 3]]] by (cases "desc_issued (chan_vc c3)") auto
qed

theorem tx_status_residue_witness:
  "\<exists>c w d st. chan_reach ex_kapi ex_submit ex_dw (ex_chan EDMA_DIR_WRITE 1) ex_world c w \<and> desc_issued (chan_vc c) = [d] \<and>
     dw_edma_device_tx_status (\<lambda>_ _ _. DMA_IN_PROGRESS) (\<lambda>vc i. List.find (\<lambda>d. vd_cookie d = i) (desc_issued vc)) c 2
       (Some \<lparr>tx_last = 0, tx_used = 0, tx_residue = 0, tx_in_flight_bytes = 0\<rparr>) = st \<and>
     map_option tx_residue (snd st) = Some (left_sz d)"
proof -
  obtain c w d where r: "chan_reach ex_kapi ex_submit ex_dw (ex_chan EDMA_DIR_WRITE 1) ex_world c w"
    and d: "desc_issued (chan_vc c) = [d]" "vd_cookie d = 2"
    by (rule ex_issued)
  have ok: "submit_ok ex_submit" "dw_core ex_dw \<noteq> CORE_NONE"
    "vchan_descs (chan_vc (ex_chan EDMA_DIR_WRITE 1)) = []" "heap_ok ex_world" "0 < ll_max (ex_chan EDMA_DIR_WRITE 1)"
    by simp_all
  have "map_option tx_residue (snd (dw_edma_device_tx_status (\<lambda>_ _ _. DMA_IN_PROGRESS)
      (\<lambda>vc i. List.find (\<lambda>d. vd_cookie d = i) (desc_issued vc)) c 2
      (Some \<lparr>tx_last = 0, tx_used = 0, tx_residue = 0, tx_in_flight_bytes = 0\<rparr>))) = Some (left_sz d)"
    using tx_status_residue [OF r ok find_issued, of "\<lambda>_ _ _. DMA_IN_PROGRESS" 2
        "\<lparr>tx_last = 0, tx_used = 0, tx_residue = 0, tx_in_flight_bytes = 0\<rparr>"] d
    unfolding split_beta by simp
  then show ?thesis
    using r d(1) by blast
qed

theorem issue_then_drain_witness:
  "\<exists>c' w'. (case dw_edma_device_issue_pending ex_dw
        ((ex_chan EDMA_DIR_WRITE 0)\<lparr>chan_vc := ex_vc\<lparr>desc_submitted := [ex_desc]\<rparr>\<rparr>) ex_world of
      (c1, w1) \<Rightarrow> done_irqs ex_dw 2 c1 w1) = Some (c', w') \<and>
    ch_st c' = EDMA_ST_IDLE \<and> desc_completed (chan_vc c') = [finished ex_desc]"
proof -
  let ?c = "(ex_chan EDMA_DIR_WRITE 0)\<lparr>chan_vc := ex_vc\<lparr>desc_submitted := [ex_desc]\<rparr>\<rparr>"
  have n: "sum_list (map (length \<circ> chunks) [ex_desc]) = 2"
    by simp
  have c: "configured ?c" "ch_st ?c = EDMA_ST_IDLE" "ch_request ?c = EDMA_REQ_NONE"
    "desc_issued (chan_vc ?c) = []" "desc_submitted (chan_vc ?c) = [ex_desc]" "chan_ok ?c"
    "\<forall>d \<in> set (desc_submitted (chan_vc ?c)). chunks d \<noteq> []"
    by (simp_all add: chan_ok_def) (simp_all add: ex_vc_def vchan_descs_def)
  have e: "desc_completed (chan_vc ?c) @ map finished [ex_desc] = [finished ex_desc]"
    by simp
  show ?thesis
    using issue_then_drain [OF c, of ex_dw ex_world] unfolding n e by blast
qed

theorem pause_resume_transparent_witness:
  "case dw_edma_device_pause (ex_with EDMA_ST_BUSY [ex_desc]) of (r, c1) \<Rightarrow>
    (case dw_edma_done_interrupt ex_dw c1 ex_world of None \<Rightarrow> False | Some (c2, w2) \<Rightarrow>
       ch_st c2 = EDMA_ST_PAUSE \<and> fst (dw_edma_device_resume ex_dw c2 w2) = 0)"
  using pause_resume_transparent [where c = "ex_with EDMA_ST_BUSY [ex_desc]" and d = ex_desc and ds = "[]" and dw = ex_dw
      and w = ex_world]
  by (simp add: split_beta split: option.splits) auto

lemma ex_ch_status: "fst (dw_edma_core_ch_status ex_dw c ex_world) \<noteq> DMA_COMPLETE"
  by (simp add: dw_edma_core_ch_status_def dw_edma_v0_core_ch_status_def split_beta Let_def
      GET_CH_32_def readl_ch_def readl_def writel_def FIELD_GET_def field_masks field_shifts)
    (simp add: ex_world_def)

theorem stop_completes_head_only_witness:
  "case dw_edma_device_terminate_all ex_dw (ex_with EDMA_ST_BUSY [ex_desc, ex_desc]) ex_world of
     (r, c1, w1) \<Rightarrow>
       (case dw_edma_done_interrupt ex_dw c1 ex_world of None \<Rightarrow> False
        | Some (c2, w2) \<Rightarrow> desc_issued (chan_vc c2) = [ex_desc])"
  using stop_completes_head_only [where c = "ex_with EDMA_ST_BUSY [ex_desc, ex_desc]" and dw = ex_dw and w = ex_world
      and d = ex_desc and ds = "[ex_desc]" and v = ex_world] ex_ch_status
  by (simp add: split_beta split: option.splits) auto

theorem abort_completes_head_witness:
  "case dw_edma_abort_interrupt (ex_with EDMA_ST_BUSY [ex_desc, ex_desc]) ex_world of None \<Rightarrow> False
   | Some (c', w') \<Rightarrow> ch_st c' = EDMA_ST_IDLE \<and> desc_issued (chan_vc c') = [ex_desc]"
  using abort_completes_head [of "ex_with EDMA_ST_BUSY [ex_desc, ex_desc]" ex_desc "[ex_desc]" ex_world]
  by (auto split: option.splits)

text \<open>A device whose channel status registers read as stopped.\<close>

definition ex_stopped :: world where
  "ex_stopped = ex_world\<lparr>dev := (\<lambda>_ _. 0x60)\<rparr>"

lemma ex_stopped_status: "fst (dw_edma_core_ch_status ex_dw c ex_stopped) = DMA_COMPLETE"
  by (simp add: dw_edma_core_ch_status_def dw_edma_v0_core_ch_status_def split_beta Let_def
      GET_CH_32_def readl_ch_def readl_def writel_def ex_stopped_def FIELD_GET_def field_masks field_shifts)

theorem late_done_restarts_witness:
  "case dw_edma_device_terminate_all ex_dw (ex_with EDMA_ST_BUSY [ex_desc]) ex_stopped of (r, c1, w1) \<Rightarrow>
     ch_st c1 = EDMA_ST_IDLE \<and>
     (case dw_edma_done_interrupt ex_dw c1 w1 of None \<Rightarrow> False | Some (c2, w2) \<Rightarrow> ch_st c2 = EDMA_ST_BUSY)"
proof -
  obtain ck cks where "chunks ex_desc = ck # cks"
    by (simp add: chunks_def ex_desc_def)
  then show ?thesis
    using late_done_restarts [of "ex_with EDMA_ST_BUSY [ex_desc]" ex_dw ex_stopped ex_desc "[]"] ex_stopped_status
    by (simp add: split_beta split: option.splits) auto
qed

theorem terminate_keeps_request_witness:
  "case dw_edma_device_terminate_all ex_dw ((ex_with EDMA_ST_BUSY [ex_desc])\<lparr>ch_request := EDMA_REQ_PAUSE\<rparr>) ex_stopped of
     (r, c1, w1) \<Rightarrow> ch_st c1 = EDMA_ST_IDLE \<and> ch_request c1 = EDMA_REQ_PAUSE"
  using terminate_keeps_request [of "(ex_with EDMA_ST_BUSY [ex_desc])\<lparr>ch_request := EDMA_REQ_PAUSE\<rparr>" ex_dw ex_stopped]
    ex_stopped_status
  by (auto simp: split_beta)

end
