(* ===== verification/Ledger.thy ===== *)
theory Ledger
  imports World "HOL-Library.Multiset"
begin

section \<open>The resources a run of the driver holds\<close>

text \<open>
  What a trace of kernel calls acquired and did not give back. Device-managed (\<open>devm_\<close>, \<open>pcim_\<close>)
  resources are released by the kernel and are not counted. Giving back what is not held is \<open>None\<close>.
  A module reference that was put early is a debt, settled by taking it again; a negative address of
  \<open>dma_map_single\<close> is one that \<open>dma_mapping_error\<close> refuses.
\<close>

datatype resource =
    R_irq int nat
  | R_dma_device
  | R_irq_vectors
  | R_dma_chan int
  | R_devno int
  | R_miscdev
  | R_module_debt
  | R_buf int
  | R_mapping u64 u64 dma_data_direction

datatype act = Acquire resource | Release resource | Neutral

fun res_act :: "ev \<Rightarrow> act" where
  "res_act (Kcall c r) =
     (case c of
        K_request_irq irq h i \<Rightarrow> if r = 0 then Acquire (R_irq irq i) else Neutral
      | K_free_irq irq i \<Rightarrow> Release (R_irq irq i)
      | K_dma_async_device_register \<Rightarrow> if r = 0 then Acquire R_dma_device else Neutral
      | K_dma_async_device_unregister \<Rightarrow> Release R_dma_device
      | K_pci_alloc_irq_vectors \<Rightarrow> if r < 1 then Neutral else Acquire R_irq_vectors
      | K_pci_free_irq_vectors \<Rightarrow> Release R_irq_vectors
      | K_dma_request_channel dirs \<Rightarrow> if r = 0 then Neutral else Acquire (R_dma_chan r)
      | K_dma_release_channel ch \<Rightarrow> Release (R_dma_chan ch)
      | K_ida_alloc \<Rightarrow> if r < 0 then Neutral else Acquire (R_devno r)
      | K_ida_free d \<Rightarrow> Release (R_devno d)
      | K_misc_register \<Rightarrow> if r = 0 then Acquire R_miscdev else Neutral
      | K_misc_deregister \<Rightarrow> Release R_miscdev
      | K_module_put \<Rightarrow> Acquire R_module_debt
      | K_module_get \<Rightarrow> Release R_module_debt
      | K_kmalloc n \<Rightarrow> if r = 0 then Neutral else Acquire (R_buf r)
      | K_kfree p \<Rightarrow> Release (R_buf p)
      | K_dma_map_single p len dir \<Rightarrow> if r < 0 then Neutral else Acquire (R_mapping (of_int r) len dir)
      | K_dma_unmap_single a len dir \<Rightarrow> Release (R_mapping a len dir)
      | _ \<Rightarrow> Neutral)"
| "res_act _ = Neutral"

fun ledger :: "resource multiset \<Rightarrow> ev list \<Rightarrow> resource multiset option" where
  "ledger R [] = Some R"
| "ledger R (e # es) =
     (case res_act e of
        Acquire r \<Rightarrow> ledger (add_mset r R) es
      | Release r \<Rightarrow> if r \<in># R then ledger (R - {#r#}) es else None
      | Neutral \<Rightarrow> ledger R es)"

text \<open>A step from one world to another that turns the holdings \<open>R\<close> into \<open>R'\<close>.\<close>

definition moves :: "resource multiset \<Rightarrow> world \<Rightarrow> resource multiset \<Rightarrow> world \<Rightarrow> bool" where
  "moves R w R' w' \<longleftrightarrow> io_only w w' \<and> ledger R (new_evs w w') = Some R'"

text \<open>Register accesses only.\<close>

definition mmio :: "world \<Rightarrow> world \<Rightarrow> bool" where
  "mmio w w' \<longleftrightarrow> io_only w w' \<and> (\<forall>e \<in> set (new_evs w w'). res_act e = Neutral)"

subsection \<open>Lemmas\<close>

lemma ledger_append:
  "ledger R (xs @ ys) = (case ledger R xs of None \<Rightarrow> None | Some R' \<Rightarrow> ledger R' ys)"
  by (induction xs arbitrary: R) (auto split: act.splits)

lemma moves_refl [simp, intro]: "moves R w R w"
  by (simp add: moves_def)

lemma moves_trans [trans]: "moves R a R' b \<Longrightarrow> moves R' b R'' c \<Longrightarrow> moves R a R'' c"
  unfolding moves_def using new_evs_trans [of a b c] io_only_trans [of a b c] by (simp add: ledger_append)

lemma moves_io: "moves R w R' w' \<Longrightarrow> io_only w w'"
  by (simp add: moves_def)

lemma ledger_neutral: "(\<forall>e \<in> set es. res_act e = Neutral) \<Longrightarrow> ledger R es = Some R"
  by (induction es) simp_all

lemma mmio_moves: "mmio w w' \<Longrightarrow> moves R w R w'"
  by (simp add: mmio_def moves_def ledger_neutral)

lemma mmio_refl [simp, intro]: "mmio w w"
  by (simp add: mmio_def)

lemma mmio_trans [trans]: "mmio a b \<Longrightarrow> mmio b c \<Longrightarrow> mmio a c"
  unfolding mmio_def using new_evs_trans [of a b c] io_only_trans [of a b c] by auto

lemma mmio_emit: "mmio w w' \<Longrightarrow> res_act e = Neutral \<Longrightarrow> mmio w (emit e w')"
  by (auto simp: mmio_def new_evs_emit io_only_emitI)

lemma mmio_writel [simp, intro]: "mmio w w' \<Longrightarrow> mmio w (writel v a w')"
  by (simp add: writel_def mmio_emit)

lemma mmio_readl [simp, intro]: "mmio w w' \<Longrightarrow> mmio w (snd (readl a w'))"
  by (simp add: readl_def mmio_emit)

text \<open>One kernel call.\<close>

lemma moves_kcall:
  "kcall c w = (r, w') \<Longrightarrow> ledger R [Kcall c r] = Some R' \<Longrightarrow> moves R w R' w'"
  by (auto simp: kcall_def Let_def moves_def new_evs_emit simp del: ledger.simps)

lemma moves_emit:
  "ledger R [e] = Some R' \<Longrightarrow> moves R w R' (emit e w)"
  by (simp add: moves_def new_evs_emit del: ledger.simps)

lemma kcall_kret: "kcall c w = (r, w') \<Longrightarrow> r = kret w (trace w) c \<and> kret w' = kret w"
  by (auto simp: kcall_def Let_def)

lemma moves_kret: "moves R w R' w' \<Longrightarrow> kret w' = kret w"
  by (simp add: moves_def io_only_frame)

end
