(* ===== verification/Chan_Trace.thy ===== *)
theory Chan_Trace
  imports Chan_Life Ledger
begin

section \<open>What the channel operations add to the trace\<close>

text \<open>
  The channel operations access registers, memory and the allocator, but take and release nothing the
  ledger counts. \<open>plain\<close> says so of one step, \<open>goes\<close> is the ledger's view of a step that may also
  use the allocator.
\<close>

definition plain :: "world \<Rightarrow> world \<Rightarrow> bool" where
  "plain w w' \<longleftrightarrow> kret w' = kret w \<and> (\<exists>es. trace w' = trace w @ es \<and> (\<forall>e \<in> set es. res_act e = Neutral))"

definition goes :: "resource multiset \<Rightarrow> world \<Rightarrow> resource multiset \<Rightarrow> world \<Rightarrow> bool" where
  "goes R w R' w' \<longleftrightarrow> kret w' = kret w \<and> (\<exists>es. trace w' = trace w @ es \<and> ledger R es = Some R')"

subsection \<open>Lemmas: the two relations\<close>

lemma plain_refl [simp, intro]: "plain w w"
  by (simp add: plain_def)

lemma plain_trans [trans]:
  assumes "plain a b" "plain b c"
  shows "plain a c"
proof -
  obtain es where 1: "trace b = trace a @ es" "\<forall>e \<in> set es. res_act e = Neutral" "kret b = kret a"
    using assms(1) unfolding plain_def by blast
  obtain fs where 2: "trace c = trace b @ fs" "\<forall>e \<in> set fs. res_act e = Neutral" "kret c = kret b"
    using assms(2) unfolding plain_def by blast
  have "trace c = trace a @ (es @ fs)" "\<forall>e \<in> set (es @ fs). res_act e = Neutral" "kret c = kret a"
    using 1(2) 2(2) by (simp_all only: 1 2 append_assoc set_append ball_Un simp_thms)
  then show ?thesis
    unfolding plain_def by blast
qed

lemma mmio_plain: "mmio w w' \<Longrightarrow> plain w w'"
  unfolding mmio_def plain_def using io_only_frame(3,8) [of w w'] by meson

lemma plain_same: "trace w' = trace w \<Longrightarrow> kret w' = kret w \<Longrightarrow> plain w w'"
  by (simp add: plain_def)

lemma goes_refl [simp, intro]: "goes R w R w"
  by (simp add: goes_def)

lemma goes_trans [trans]:
  assumes "goes R a R' b" "goes R' b R'' c"
  shows "goes R a R'' c"
proof -
  obtain es where 1: "trace b = trace a @ es" "ledger R es = Some R'" "kret b = kret a"
    using assms(1) unfolding goes_def by blast
  obtain fs where 2: "trace c = trace b @ fs" "ledger R' fs = Some R''" "kret c = kret b"
    using assms(2) unfolding goes_def by blast
  have "trace c = trace a @ (es @ fs)" "ledger R (es @ fs) = Some R''" "kret c = kret a"
    by (simp_all only: 1 2 append_assoc ledger_append option.case)
  then show ?thesis
    unfolding goes_def by blast
qed

lemma plain_goes: "plain w w' \<Longrightarrow> goes R w R w'"
  unfolding plain_def goes_def using ledger_neutral by blast

lemma moves_goes: "moves R w R' w' \<Longrightarrow> goes R w R' w'"
  unfolding moves_def goes_def using io_only_frame(3,8) [of w w'] by meson

lemma goes_kcall: "kcall c w = (r, w') \<Longrightarrow> ledger R [Kcall c r] = Some R' \<Longrightarrow> goes R w R' w'"
  using moves_goes moves_kcall by blast

lemma goes_kret: "goes R w R' w' \<Longrightarrow> kret w' = kret w"
  by (simp add: goes_def)

lemma goes_new_evs: "goes R w R' w' \<Longrightarrow> ledger R (new_evs w w') = Some R'"
  by (auto simp: goes_def new_evs_def)

text \<open>A call that the ledger counts changes nothing else.\<close>

lemma kcall_frame:
  assumes "kcall c w = (r, w')"
  shows "live w' = live w" "brk w' = brk w" "mem_fault w' = mem_fault w" "heap_ok w' = heap_ok w" "io_only w w'"
  using assms by (auto simp: kcall_def Let_def heap_ok_def)

subsection \<open>Lemmas: register accesses\<close>

lemma mmio_more [simp, intro]:
  "mmio w w' \<Longrightarrow> mmio w (writeq x a w')" "mmio w w' \<Longrightarrow> mmio w (store32 v a w')"
  "mmio w w' \<Longrightarrow> mmio w (store64 x a w')" "mmio w w' \<Longrightarrow> mmio w (emit DmaWmb w')"
  by (simp_all add: writeq_def store32_def store64_def mmio_emit)

lemma mmio_ch [simp, intro]:
  "mmio w w' \<Longrightarrow> mmio w (writel_ch chip dir ch v a w')" "mmio w w' \<Longrightarrow> mmio w (snd (readl_ch chip dir ch a w'))"
  by (simp_all add: writel_ch_def readl_ch_def)

lemma mmio_v0_ll [simp, intro]:
  "mmio w w' \<Longrightarrow> mmio w (dw_edma_v0_write_ll_data chip ck i c s sa da w')"
  "mmio w w' \<Longrightarrow> mmio w (dw_edma_v0_write_ll_link chip ck i c p w')"
  by (simp_all add: dw_edma_v0_write_ll_data_def dw_edma_v0_write_ll_link_def Let_def)

lemma mmio_v0_bursts [simp, intro]:
  "mmio w w' \<Longrightarrow> mmio w (snd (v0_write_bursts chip ck bs j i c w'))"
  by (induction chip ck bs j i c w' rule: v0_write_bursts.induct) (auto simp: Let_def)

lemma mmio_v0_chunk [simp, intro]: "mmio w w' \<Longrightarrow> mmio w (dw_edma_v0_core_write_chunk chip ck w')"
  by (simp add: dw_edma_v0_core_write_chunk_def Let_def split_beta)

lemma mmio_v0_first [simp, intro]: "mmio w w' \<Longrightarrow> mmio w (v0_start_first chip chan ck w')"
  by (simp add: v0_start_first_def v0_reg_defs Let_def split_beta)

lemma mmio_v0_start: "mmio w (dw_edma_v0_core_start chip chan ck first w)"
  by (simp add: dw_edma_v0_core_start_def SET_RW_32_def SET_32_def Let_def)

lemma mmio_hdma_ll [simp, intro]:
  "mmio w w' \<Longrightarrow> mmio w (dw_hdma_v0_write_ll_data chip ck i c s sa da w')"
  "mmio w w' \<Longrightarrow> mmio w (dw_hdma_v0_write_ll_link chip ck i c p w')"
  by (simp_all add: dw_hdma_v0_write_ll_data_def dw_hdma_v0_write_ll_link_def Let_def)

lemma mmio_hdma_bursts [simp, intro]:
  "mmio w w' \<Longrightarrow> mmio w (snd (hdma_write_bursts chip ck bs j i c w'))"
  by (induction chip ck bs j i c w' rule: hdma_write_bursts.induct) (auto simp: Let_def)

lemma mmio_hdma_chunk [simp, intro]: "mmio w w' \<Longrightarrow> mmio w (dw_hdma_v0_core_write_chunk chip ck w')"
  by (simp add: dw_hdma_v0_core_write_chunk_def Let_def split_beta)

lemma mmio_hdma_first [simp, intro]: "mmio w w' \<Longrightarrow> mmio w (hdma_start_first chip chan ck w')"
  by (simp add: hdma_start_first_def HSET_CH_32_def HGET_CH_32_def Let_def split_beta)

lemma mmio_hdma_start: "mmio w (dw_hdma_v0_core_start chip chan ck first w)"
  by (simp add: dw_hdma_v0_core_start_def HSET_CH_32_def Let_def)

lemma mmio_core_start: "dw_core dw \<noteq> CORE_NONE \<Longrightarrow> mmio w (dw_edma_core_start dw chan ck first w)"
  by (cases "dw_core dw") (simp_all add: dw_edma_core_start_def mmio_v0_start mmio_hdma_start)

lemma mmio_core_status: "dw_core dw \<noteq> CORE_NONE \<Longrightarrow> mmio w (snd (dw_edma_core_ch_status dw chan w))"
  by (cases "dw_core dw") (simp_all add: dw_edma_core_ch_status_def dw_edma_v0_core_ch_status_def
      dw_hdma_v0_core_ch_status_def GET_CH_32_def HGET_CH_32_def Let_def split_beta)

subsection \<open>Lemmas: the channel operations\<close>

lemma plain_kfree [simp, intro]: "plain w w' \<Longrightarrow> plain w (kfree a w')"
  by (simp add: plain_def kfree_def)

lemma outside_plain: "outside w' = outside w \<Longrightarrow> plain w w'"
  by (simp add: outside_def plain_same)

lemma plain_fault [simp, intro]: "plain w w' \<Longrightarrow> plain w (w'\<lparr>mem_fault := b\<rparr>)"
  by (simp add: plain_def)

lemma plain_free_burst_list [simp, intro]: "plain w w' \<Longrightarrow> plain w (snd (free_burst_list bs ck w'))"
  by (induction bs ck w' rule: free_burst_list.induct) simp_all

lemma plain_free_burst [simp, intro]: "plain w w' \<Longrightarrow> plain w (snd (dw_edma_free_burst ck w'))"
  by (simp add: dw_edma_free_burst_def split_beta Let_def split: option.splits)

lemma plain_start_chunk: "dw_core dw \<noteq> CORE_NONE \<Longrightarrow> plain w (start_chunk dw chan first ck w)"
  unfolding start_chunk_def by (intro plain_kfree plain_free_burst mmio_plain mmio_core_start)

lemma plain_start_transfer:
  assumes "dw_core dw \<noteq> CORE_NONE" "dw_edma_start_transfer dw chan w = (r, chan', w')"
  shows "plain w w'"
proof -
  show ?thesis
    using assms mmio_plain [OF mmio_core_start [OF assms(1)]]
    by (auto simp: dw_edma_start_transfer_def Let_def split_beta split: option.splits list.splits prod.splits)
qed

lemma plain_free_chunk_list [simp, intro]: "plain w w' \<Longrightarrow> plain w (snd (free_chunk_list cks d w'))"
  by (induction cks arbitrary: d w') (simp_all add: Let_def split_beta)

lemma plain_free_desc: "plain w (vchan_free_desc d w)"
  by (simp add: vchan_free_desc_def dw_edma_free_desc_def dw_edma_free_chunk_def Let_def split_beta
      split: option.splits)

lemma plain_transfer:
  assumes "heap_ok w" "0 < ll_max chan" "dw_edma_device_transfer k chip chan xfer w = (r, chan', w')"
  shows "plain w w'"
  using device_transfer_cases [OF assms] by (auto intro: outside_plain)

lemma plain_issue:
  assumes "dw_core dw \<noteq> CORE_NONE" "dw_edma_device_issue_pending dw chan w = (chan', w')"
  shows "plain w w'"
  using assms plain_start_transfer [OF assms(1)]
  by (auto simp: dw_edma_device_issue_pending_def Let_def split: if_splits prod.splits)

lemma plain_done:
  assumes "dw_core dw \<noteq> CORE_NONE" "dw_edma_done_interrupt dw chan w = Some (chan', w')"
  shows "plain w w'"
  using assms(2) plain_start_transfer [OF assms(1)]
  by (auto simp: dw_edma_done_interrupt_def Let_def split: option.splits dw_edma_request.splits prod.splits if_splits)

lemma plain_abort: "dw_edma_abort_interrupt chan w = Some (chan', w') \<Longrightarrow> plain w w'"
  by (auto simp: dw_edma_abort_interrupt_def split: option.splits)

lemma plain_terminate:
  assumes "dw_core dw \<noteq> CORE_NONE" "dw_edma_device_terminate_all dw chan w = (r, chan', w')"
  shows "plain w w'"
  using assms(2) mmio_plain [OF mmio_core_status [OF assms(1), of w chan]]
  by (auto simp: dw_edma_device_terminate_all_def Let_def split_beta split: if_splits)

end
