(* ===== verification/Akida_Xfer.thy ===== *)
theory Akida_Xfer
  imports Chan_Trace
begin

section \<open>DMA transfers of the Akida driver (akida-pcie-core.c)\<close>

text \<open>
  The transfer of one buffer through a channel of the engine: map, configure, prepare, submit, issue,
  wait, unmap. The channel operations are the engine's own, from the theories before this one.

  While the caller waits, interrupts and the tasklet run: \<open>wait_ev\<close> lists what happens, in order, and
  \<open>Ev_timeout\<close> or the end of the list is the expiry of the two seconds. The tasklet is kernel code;
  what it does with a completed descriptor, as documented, is to call its callback and to hand it to
  \<open>desc_free\<close>. \<open>None\<close> is a kernel bug in an interrupt handler. Log messages are left out.
\<close>

definition AKIDA_DMA_RAM_PHY_ADDR :: u64 where "AKIDA_DMA_RAM_PHY_ADDR = 0x20000000"

definition AKIDA_DMA_RAM_PHY_OFFSET :: u64 where "AKIDA_DMA_RAM_PHY_OFFSET = 0"

definition AKIDA_DMA_RAM_PHY_SIZE :: u64 where "AKIDA_DMA_RAM_PHY_SIZE = 0x100"

definition AKIDA_DMA_XFER_MAX_SIZE :: u64 where "AKIDA_DMA_XFER_MAX_SIZE = 1024"

lemmas akida_ram_defs = AKIDA_DMA_RAM_PHY_ADDR_def AKIDA_DMA_RAM_PHY_OFFSET_def AKIDA_DMA_RAM_PHY_SIZE_def

text \<open>\<open>dc_chan\<close> is the channel's pointer, zero for null; \<open>dma_complete\<close> the counter of the completion.\<close>

record akida_dma_chan =
  dc_chan :: int
  dma_complete :: nat
  dma_xfer_dir :: dma_transfer_direction
  dma_data_dir :: dma_data_direction
  dma_buf :: u64
  dma_len :: u64
  is_used :: bool

text \<open>A client channel, the engine channel it points to, and the descriptors whose callback is set.\<close>

record akida_xfer =
  ax_dc :: akida_dma_chan
  ax_chan :: dw_edma_chan
  ax_cbs :: "nat list"
  ax_w :: world

text \<open>What the transfer calls that is not in the repository, and the device the channel belongs to.\<close>

record akida_env =
  env_k :: kapi
  env_submit :: "dw_edma_desc \<Rightarrow> dw_edma_desc virt_dma_chan \<Rightarrow> s32 \<times> dw_edma_desc virt_dma_chan"
  env_dw :: dw_edma

text \<open>The documented effect of \<open>dmaengine_submit\<close> on a prepared descriptor: a new cookie, never an error.\<close>

definition env_ok :: "akida_env \<Rightarrow> bool" where
  "env_ok env \<longleftrightarrow> dw_core (env_dw env) \<noteq> CORE_NONE \<and> submit_ok (\<lambda>d vc. snd (env_submit env d vc)) \<and>
     (\<forall>d vc. d \<in> set (desc_allocated vc) \<longrightarrow> fst (env_submit env d vc) = fst (dma_cookie_assign d vc))"

subsection \<open>Completion\<close>

definition akida_dma_callback :: "akida_dma_chan \<Rightarrow> world \<Rightarrow> akida_dma_chan \<times> world" where
  "akida_dma_callback dc w =
     (let (_, w) = kcall (K_dma_unmap_single (dma_buf dc) (dma_len dc) (dma_data_dir dc)) w
      in (dc\<lparr>dma_complete := Suc (dma_complete dc)\<rparr>, w))"

datatype wait_ev = Ev_done | Ev_abort | Ev_tasklet | Ev_mmio iomem u32 | Ev_timeout

fun xfer_event :: "dw_edma \<Rightarrow> wait_ev \<Rightarrow> akida_xfer \<Rightarrow> akida_xfer option" where
  "xfer_event dw Ev_done st =
     map_option (\<lambda>(chan, w). st\<lparr>ax_chan := chan, ax_w := w\<rparr>) (dw_edma_done_interrupt dw (ax_chan st) (ax_w st))"
| "xfer_event dw Ev_abort st =
     map_option (\<lambda>(chan, w). st\<lparr>ax_chan := chan, ax_w := w\<rparr>) (dw_edma_abort_interrupt (ax_chan st) (ax_w st))"
| "xfer_event dw Ev_tasklet st =
     (case desc_completed (chan_vc (ax_chan st)) of
        [] \<Rightarrow> Some st
      | d # ds \<Rightarrow>
          (let (dc, w) = (if vd_addr d \<in> set (ax_cbs st) then akida_dma_callback (ax_dc st) (ax_w st)
                          else (ax_dc st, ax_w st))
           in Some (st\<lparr>ax_chan := (ax_chan st)\<lparr>chan_vc := (chan_vc (ax_chan st))\<lparr>desc_completed := ds\<rparr>\<rparr>,
                       ax_dc := dc, ax_w := vchan_free_desc d w\<rparr>)))"
| "xfer_event dw (Ev_mmio a v) st = Some (st\<lparr>ax_w := writel v a (ax_w st)\<rparr>)"
| "xfer_event dw Ev_timeout st = Some st"

text \<open>Waiting: completed or timed out, and the events left.\<close>

fun wait_completion :: "dw_edma \<Rightarrow> wait_ev list \<Rightarrow> akida_xfer \<Rightarrow> (bool \<times> wait_ev list \<times> akida_xfer) option" where
  "wait_completion dw evs st =
     (if dma_complete (ax_dc st) \<noteq> 0
      then Some (True, evs, st\<lparr>ax_dc := (ax_dc st)\<lparr>dma_complete := dma_complete (ax_dc st) - 1\<rparr>\<rparr>)
      else
        (case evs of
           [] \<Rightarrow> Some (False, [], st)
         | e # evs \<Rightarrow>
             if e = Ev_timeout then Some (False, evs, st)
             else (case xfer_event dw e st of None \<Rightarrow> None | Some st \<Rightarrow> wait_completion dw evs st)))"

declare wait_completion.simps [simp del]

subsection \<open>The transfer\<close>

definition DMA_PREP_INTERRUPT :: u64 where
  "DMA_PREP_INTERRUPT = 1"

text \<open>The configuration before the buffer is mapped; \<open>None\<close> for a direction that is not supported.\<close>

definition xfer_sconfig :: "dma_transfer_direction \<Rightarrow> u64 \<Rightarrow> dma_slave_config option" where
  "xfer_sconfig dir dev_addr =
     (let c = \<lparr>cfg_direction = DMA_MEM_TO_MEM, cfg_src_addr = 0, cfg_dst_addr = 0, cfg_src_addr_width = 0,
               cfg_dst_addr_width = 0\<rparr>
      in case dir of
           DMA_MEM_TO_DEV \<Rightarrow> Some (c\<lparr>cfg_dst_addr := dev_addr, cfg_dst_addr_width := 4\<rparr>)
         | DMA_DEV_TO_MEM \<Rightarrow> Some (c\<lparr>cfg_src_addr := dev_addr, cfg_src_addr_width := 4\<rparr>)
         | _ \<Rightarrow> None)"

text \<open>The label \<open>err\<close>.\<close>

definition xfer_err :: "int \<Rightarrow> wait_ev list \<Rightarrow> akida_xfer \<Rightarrow> (int \<times> wait_ev list \<times> akida_xfer) option" where
  "xfer_err ret evs st =
     (let dc = ax_dc st; (_, w) = kcall (K_dma_unmap_single (dma_buf dc) (dma_len dc) (dma_data_dir dc)) (ax_w st)
      in Some (ret, evs, st\<lparr>ax_w := w\<rparr>))"

text \<open>From the preparation on, with the buffer mapped and the channel configured: prepare, submit, issue, wait.\<close>

definition xfer_rest ::
  "akida_env \<Rightarrow> wait_ev list \<Rightarrow> dma_transfer_direction \<Rightarrow> akida_xfer \<Rightarrow> (int \<times> wait_ev list \<times> akida_xfer) option" where
  "xfer_rest env evs dir st =
     (let dw = env_dw env;
          (tx, chan, w) = dw_edma_device_prep_slave_sg (env_k env) (dw_chip dw) (ax_chan st)
             [(dma_buf (ax_dc st), ucast (dma_len (ax_dc st)))] 1 dir DMA_PREP_INTERRUPT (ax_w st);
          st = st\<lparr>ax_chan := chan, ax_w := w\<rparr>
      in case tx of
           None \<Rightarrow> xfer_err (- EINVAL) evs st
         | Some txdesc \<Rightarrow>
             (let st = st\<lparr>ax_dc := (ax_dc st)\<lparr>dma_complete := 0\<rparr>, ax_cbs := txdesc # ax_cbs st\<rparr>
              in case filter (\<lambda>d. vd_addr d = txdesc) (desc_allocated (chan_vc (ax_chan st))) of
                   [] \<Rightarrow> None
                 | d # _ \<Rightarrow>
                     (let (cookie, vc) = env_submit env d (chan_vc (ax_chan st));
                          st = st\<lparr>ax_chan := (ax_chan st)\<lparr>chan_vc := vc\<rparr>\<rparr>;
                          ret = (if sint cookie < 0 then sint cookie else 0)
                      in if ret < 0 then xfer_err ret evs st
                         else
                           (let (chan, w) = dw_edma_device_issue_pending dw (ax_chan st) (ax_w st)
                            in case wait_completion dw evs (st\<lparr>ax_chan := chan, ax_w := w\<rparr>) of
                                 None \<Rightarrow> None
                               | Some (ok, evs, st) \<Rightarrow>
                                   if ok then Some (0, evs, st)
                                   else
                                     (let (_, chan, w) = dw_edma_device_terminate_all dw (ax_chan st) (ax_w st)
                                      in xfer_err (- ETIMEDOUT) evs (st\<lparr>ax_chan := chan, ax_w := w\<rparr>))))))"

definition akida_dma_transfer ::
  "akida_env \<Rightarrow> wait_ev list \<Rightarrow> u64 \<Rightarrow> u64 \<Rightarrow> int \<Rightarrow> akida_xfer \<Rightarrow> (int \<times> wait_ev list \<times> akida_xfer) option" where
  "akida_dma_transfer env evs dev_addr len buf st =
     (let dir = dma_xfer_dir (ax_dc st) in
      case xfer_sconfig dir dev_addr of
        None \<Rightarrow> Some (- EINVAL, evs, st)
      | Some sconfig \<Rightarrow>
          (let (a, w) = kcall (K_dma_map_single buf len (dma_data_dir (ax_dc st))) (ax_w st);
               st = st\<lparr>ax_dc := (ax_dc st)\<lparr>dma_len := len, dma_buf := of_int a\<rparr>, ax_w := w\<rparr>
           in if a < 0 then Some (- EINVAL, evs, st)
              else
                (let sconfig = (if dir = DMA_MEM_TO_DEV then sconfig\<lparr>cfg_src_addr := dma_buf (ax_dc st)\<rparr>
                                else sconfig\<lparr>cfg_dst_addr := dma_buf (ax_dc st)\<rparr>);
                     (ret, chan) = dw_edma_device_config sconfig (ax_chan st);
                     st = st\<lparr>ax_chan := chan\<rparr>
                 in if ret < 0 then xfer_err ret evs st else xfer_rest env evs dir st)))"

subsection \<open>Lemmas: waiting\<close>

text \<open>A channel with nothing queued and nothing running.\<close>

definition quiet :: "world \<Rightarrow> dw_edma_chan \<Rightarrow> world \<Rightarrow> bool" where
  "quiet w0 c w \<longleftrightarrow> chan_inv w0 c w \<and> vchan_descs (chan_vc c) = [] \<and> ch_request c = EDMA_REQ_NONE \<and>
     ch_st c = EDMA_ST_IDLE"

text \<open>
  The channel while the descriptor at address \<open>a\<close> is on its way: issued, completed, or released after
  its callback ran.
\<close>

definition waiting :: "world \<Rightarrow> nat \<Rightarrow> akida_xfer \<Rightarrow> bool" where
  "waiting w0 a st \<longleftrightarrow>
     (let c = ax_chan st; vc = chan_vc c in
      chan_inv w0 c (ax_w st) \<and> ch_request c = EDMA_REQ_NONE \<and> a \<in> set (ax_cbs st) \<and>
      desc_allocated vc = [] \<and> desc_submitted vc = [] \<and> desc_terminated vc = [] \<and>
      (if dma_complete (ax_dc st) = 0
       then (\<exists>d. vd_addr d = a \<and>
               (desc_issued vc = [d] \<and> desc_completed vc = [] \<and> ch_st c = EDMA_ST_BUSY \<or>
                desc_issued vc = [] \<and> desc_completed vc = [d] \<and> ch_st c = EDMA_ST_IDLE))
       else dma_complete (ax_dc st) = 1 \<and> desc_issued vc = [] \<and> desc_completed vc = [] \<and>
            ch_st c = EDMA_ST_IDLE))"

text \<open>The mapping that is held while waiting, and the fields an event leaves alone.\<close>

definition mapping :: "akida_dma_chan \<Rightarrow> resource" where
  "mapping dc = R_mapping (dma_buf dc) (dma_len dc) (dma_data_dir dc)"

definition held :: "akida_dma_chan \<Rightarrow> resource multiset" where
  "held dc = (if dma_complete dc = 0 then {#mapping dc#} else {#})"

definition same_client :: "akida_xfer \<Rightarrow> akida_xfer \<Rightarrow> bool" where
  "same_client st st' \<longleftrightarrow> (\<exists>n. ax_dc st' = (ax_dc st)\<lparr>dma_complete := n\<rparr>) \<and> ax_cbs st' = ax_cbs st"

lemma same_client_refl [simp]: "same_client st st"
  unfolding same_client_def by (rule conjI, rule exI [of _ "dma_complete (ax_dc st)"]) simp_all

lemma same_client_chan [simp]: "same_client st (st\<lparr>ax_chan := c', ax_w := w'\<rparr>)"
  unfolding same_client_def by (rule conjI, rule exI [of _ "dma_complete (ax_dc st)"]) simp_all

lemma same_client_trans: "same_client a b \<Longrightarrow> same_client b c \<Longrightarrow> same_client a c"
  by (auto simp: same_client_def)

lemma done_single:
  assumes "chan_inv w0 c w" "desc_issued (chan_vc c) = [d]" "ch_request c = EDMA_REQ_NONE"
  obtains c' w' d' where "dw_edma_done_interrupt dw c w = Some (c', w')" "vd_addr d' = vd_addr d"
    "desc_issued (chan_vc c') = [d'] \<and> desc_completed (chan_vc c') = desc_completed (chan_vc c) \<and> ch_st c' = EDMA_ST_BUSY \<or>
     desc_issued (chan_vc c') = [] \<and> desc_completed (chan_vc c') = desc_completed (chan_vc c) @ [d'] \<and> ch_st c' = EDMA_ST_IDLE"
    "ch_request c' = EDMA_REQ_NONE" "desc_allocated (chan_vc c') = desc_allocated (chan_vc c)"
    "desc_submitted (chan_vc c') = desc_submitted (chan_vc c)" "desc_terminated (chan_vc c') = desc_terminated (chan_vc c)"
proof -
  have ok: "desc_ok d" "1 \<le> sint (vd_cookie d)"
    using assms(1,2) by (auto simp: chan_inv_def chan_ok_def vchan_descs_def)
  show ?thesis
  proof (cases "chunks d")
    case Nil
    have "dw_edma_start_transfer dw (completed d c) w = (False, completed d c, w)"
      using assms(2) by simp
    then have "dw_edma_done_interrupt dw c w = Some (completed d c\<lparr>ch_st := EDMA_ST_IDLE\<rparr>, w)"
      using done_last_chunk [OF assms(2,3) ok(1) Nil ok(2)] by simp
    then show ?thesis
      by (rule that [where d' = "d\<lparr>vd_cookie := 0\<rparr>"]) (use assms(2,3) in \<open>simp_all add: completed_def\<close>)
  next
    case (Cons ck cks)
    show ?thesis
      by (rule that [OF done_next_chunk [OF assms(2,3) ok(1) Cons], where d' = "pop_chunk d"])
        (use assms(3) in \<open>simp_all add: pop_chunk_def set_issued_def\<close>)
  qed
qed

lemma abort_single:
  assumes "chan_inv w0 c w" "desc_issued (chan_vc c) = [d]"
  obtains c' d' where "dw_edma_abort_interrupt c w = Some (c', w)" "vd_addr d' = vd_addr d"
    "desc_issued (chan_vc c') = []" "desc_completed (chan_vc c') = desc_completed (chan_vc c) @ [d']"
    "ch_st c' = EDMA_ST_IDLE" "ch_request c' = EDMA_REQ_NONE" "desc_allocated (chan_vc c') = desc_allocated (chan_vc c)"
    "desc_submitted (chan_vc c') = desc_submitted (chan_vc c)" "desc_terminated (chan_vc c') = desc_terminated (chan_vc c)"
proof -
  have "1 \<le> sint (vd_cookie d)"
    using assms(1,2) by (auto simp: chan_inv_def chan_ok_def)
  then have "dw_edma_abort_interrupt c w =
      Some (completed d c\<lparr>ch_request := EDMA_REQ_NONE, ch_st := EDMA_ST_IDLE\<rparr>, w)"
    using complete_head_ok [OF assms(2)] assms(2) by (simp add: dw_edma_abort_interrupt_def completed_def)
  then show ?thesis
    by (rule that [where d' = "d\<lparr>vd_cookie := 0\<rparr>"]) (use assms(2) in \<open>simp_all add: completed_def\<close>)
qed

lemma chan_inv_kcall: "chan_inv w0 c w \<Longrightarrow> kcall k w = (r, w') \<Longrightarrow> chan_inv w0 c w'"
  using chan_inv_io kcall_frame(5) by blast

text \<open>The callback: the mapping is given back and the caller woken.\<close>

lemma callback_goes:
  assumes "akida_dma_callback dc w = (dc', w')" "mapping dc \<in># R"
  shows "goes R w (R - {#mapping dc#}) w' \<and> dc' = dc\<lparr>dma_complete := Suc (dma_complete dc)\<rparr> \<and> io_only w w'"
proof -
  obtain r w1 where 1: "kcall (K_dma_unmap_single (dma_buf dc) (dma_len dc) (dma_data_dir dc)) w = (r, w1)"
    by fastforce
  have "goes R w (R - {#mapping dc#}) w1"
    by (rule goes_kcall [OF 1]) (use assms(2) in \<open>simp add: mapping_def\<close>)
  then show ?thesis
    using assms(1) kcall_frame(5) [OF 1] by (simp add: akida_dma_callback_def 1)
qed

text \<open>The one descriptor of a caller that waits, and what a step on the channel has to leave.\<close>

lemma waiting_desc:
  assumes "waiting w0 a st" "dma_complete (ax_dc st) = 0"
  obtains d where "chan_inv w0 (ax_chan st) (ax_w st)" "ch_request (ax_chan st) = EDMA_REQ_NONE" "a \<in> set (ax_cbs st)"
    "vd_addr d = a" "desc_issued (chan_vc (ax_chan st)) = [d] \<and> desc_completed (chan_vc (ax_chan st)) = [] \<and> ch_st (ax_chan st) = EDMA_ST_BUSY \<or>
      desc_issued (chan_vc (ax_chan st)) = [] \<and> desc_completed (chan_vc (ax_chan st)) = [d] \<and> ch_st (ax_chan st) = EDMA_ST_IDLE"
  using assms by (auto simp: waiting_def Let_def)

lemma waiting_step:
  assumes "waiting w0 a st" "dma_complete (ax_dc st) = 0" "chan_inv w0 c w" "ch_request c = EDMA_REQ_NONE" "vd_addr d = a"
    "desc_issued (chan_vc c) = [d] \<and> desc_completed (chan_vc c) = [] \<and> ch_st c = EDMA_ST_BUSY \<or>
     desc_issued (chan_vc c) = [] \<and> desc_completed (chan_vc c) = [d] \<and> ch_st c = EDMA_ST_IDLE"
    "desc_allocated (chan_vc c) = desc_allocated (chan_vc (ax_chan st))"
    "desc_submitted (chan_vc c) = desc_submitted (chan_vc (ax_chan st))"
    "desc_terminated (chan_vc c) = desc_terminated (chan_vc (ax_chan st))"
  shows "waiting w0 a (st\<lparr>ax_chan := c, ax_w := w\<rparr>)"
  using assms by (auto simp: waiting_def Let_def)

definition event_ok :: "world \<Rightarrow> nat \<Rightarrow> resource multiset \<Rightarrow> akida_xfer \<Rightarrow> akida_xfer option \<Rightarrow> bool" where
  "event_ok w0 a R st r \<longleftrightarrow> (\<exists>st'. r = Some st' \<and> waiting w0 a st' \<and> same_client st st' \<and>
     goes (held (ax_dc st) + R) (ax_w st) (held (ax_dc st') + R) (ax_w st'))"

lemma event_ok_chan:
  assumes "r = Some (st\<lparr>ax_chan := c, ax_w := w\<rparr>)" "waiting w0 a (st\<lparr>ax_chan := c, ax_w := w\<rparr>)" "plain (ax_w st) w"
  shows "event_ok w0 a R st r"
  using assms(1,2) same_client_chan plain_goes [OF assms(3)] by (simp add: event_ok_def)

lemma event_ok_same: "waiting w0 a st \<Longrightarrow> event_ok w0 a R st (Some st)"
  by (simp add: event_ok_def goes_refl)

lemma done_event:
  assumes "waiting w0 a st" "dw_core dw \<noteq> CORE_NONE" "dma_complete (ax_dc st) = 0"
  shows "event_ok w0 a R st (xfer_event dw Ev_done st)"
proof -
  obtain d where c: "chan_inv w0 (ax_chan st) (ax_w st)" "ch_request (ax_chan st) = EDMA_REQ_NONE" "a \<in> set (ax_cbs st)"
    "vd_addr d = a" "desc_issued (chan_vc (ax_chan st)) = [d] \<and> desc_completed (chan_vc (ax_chan st)) = [] \<and> ch_st (ax_chan st) = EDMA_ST_BUSY \<or>
      desc_issued (chan_vc (ax_chan st)) = [] \<and> desc_completed (chan_vc (ax_chan st)) = [d] \<and> ch_st (ax_chan st) = EDMA_ST_IDLE"
    using waiting_desc [OF assms(1,3)] .
  show ?thesis
  proof (cases "desc_issued (chan_vc (ax_chan st))")
    case Nil
    then have "xfer_event dw Ev_done st = Some st"
      by (simp add: dw_edma_done_interrupt_def vchan_next_desc_def)
    then show ?thesis
      by (simp only: event_ok_same [OF assms(1)])
  next
    case (Cons x xs)
    then have i: "desc_issued (chan_vc (ax_chan st)) = [d]" "desc_completed (chan_vc (ax_chan st)) = []"
      using c(5) by auto
    obtain c' w' d' where r: "dw_edma_done_interrupt dw (ax_chan st) (ax_w st) = Some (c', w')" "vd_addr d' = vd_addr d"
      "desc_issued (chan_vc c') = [d'] \<and> desc_completed (chan_vc c') = desc_completed (chan_vc (ax_chan st)) \<and> ch_st c' = EDMA_ST_BUSY \<or>
       desc_issued (chan_vc c') = [] \<and> desc_completed (chan_vc c') = desc_completed (chan_vc (ax_chan st)) @ [d'] \<and> ch_st c' = EDMA_ST_IDLE"
      "ch_request c' = EDMA_REQ_NONE" "desc_allocated (chan_vc c') = desc_allocated (chan_vc (ax_chan st))"
      "desc_submitted (chan_vc c') = desc_submitted (chan_vc (ax_chan st))" "desc_terminated (chan_vc c') = desc_terminated (chan_vc (ax_chan st))"
      using done_single [OF c(1) i(1) c(2)] .
    have "waiting w0 a (st\<lparr>ax_chan := c', ax_w := w'\<rparr>)"
      by (rule waiting_step [OF assms(1,3) done_interrupt_inv [OF assms(2) c(1) r(1)] r(4), of d'])
        (use r c(4) i in simp_all)
    from event_ok_chan [OF _ this plain_done [OF assms(2) r(1)]] r(1) show ?thesis
      by simp
  qed
qed

lemma abort_event:
  assumes "waiting w0 a st" "dma_complete (ax_dc st) = 0"
  shows "event_ok w0 a R st (xfer_event dw Ev_abort st)"
proof -
  let ?c = "ax_chan st"
  obtain d where c: "chan_inv w0 ?c (ax_w st)" "ch_request ?c = EDMA_REQ_NONE" "a \<in> set (ax_cbs st)"
    "vd_addr d = a" "desc_issued (chan_vc ?c) = [d] \<and> desc_completed (chan_vc ?c) = [] \<and> ch_st ?c = EDMA_ST_BUSY \<or>
      desc_issued (chan_vc ?c) = [] \<and> desc_completed (chan_vc ?c) = [d] \<and> ch_st ?c = EDMA_ST_IDLE"
    using waiting_desc [OF assms] .
  obtain c' d' where r: "dw_edma_abort_interrupt ?c (ax_w st) = Some (c', ax_w st)" "vd_addr d' = a"
    "desc_issued (chan_vc c') = []" "desc_completed (chan_vc c') = [d']" "ch_st c' = EDMA_ST_IDLE" "ch_request c' = EDMA_REQ_NONE"
    "desc_allocated (chan_vc c') = desc_allocated (chan_vc ?c)" "desc_submitted (chan_vc c') = desc_submitted (chan_vc ?c)"
    "desc_terminated (chan_vc c') = desc_terminated (chan_vc ?c)"
  proof (cases "desc_issued (chan_vc ?c)")
    case Nil
    then show ?thesis
      using c(4,5) by (intro that [of "?c\<lparr>ch_request := EDMA_REQ_NONE, ch_st := EDMA_ST_IDLE\<rparr>" d])
        (simp_all add: dw_edma_abort_interrupt_def vchan_next_desc_def)
  next
    case (Cons x xs)
    then have i: "desc_issued (chan_vc ?c) = [d]" "desc_completed (chan_vc ?c) = []"
      using c(5) by auto
    obtain c' d' where "dw_edma_abort_interrupt ?c (ax_w st) = Some (c', ax_w st)" "vd_addr d' = vd_addr d"
      "desc_issued (chan_vc c') = []" "desc_completed (chan_vc c') = desc_completed (chan_vc ?c) @ [d']"
      "ch_st c' = EDMA_ST_IDLE" "ch_request c' = EDMA_REQ_NONE" "desc_allocated (chan_vc c') = desc_allocated (chan_vc ?c)"
      "desc_submitted (chan_vc c') = desc_submitted (chan_vc ?c)" "desc_terminated (chan_vc c') = desc_terminated (chan_vc ?c)"
      using abort_single [OF c(1) i(1)] .
    then show ?thesis
      by (intro that [of c' d']) (simp_all add: i c(4))
  qed
  have "waiting w0 a (st\<lparr>ax_chan := c', ax_w := ax_w st\<rparr>)"
    by (rule waiting_step [OF assms abort_interrupt_inv [OF c(1) r(1)] r(6,2)]) (simp_all add: r)
  from event_ok_chan [OF _ this plain_refl] r(1) show ?thesis
    by simp
qed

lemma tasklet_event:
  assumes "waiting w0 a st" "dma_complete (ax_dc st) = 0"
  shows "event_ok w0 a R st (xfer_event dw Ev_tasklet st)"
proof -
  let ?c = "ax_chan st"
  obtain d where c: "chan_inv w0 ?c (ax_w st)" "ch_request ?c = EDMA_REQ_NONE" "a \<in> set (ax_cbs st)"
    "vd_addr d = a" "desc_issued (chan_vc ?c) = [d] \<and> desc_completed (chan_vc ?c) = [] \<and> ch_st ?c = EDMA_ST_BUSY \<or>
      desc_issued (chan_vc ?c) = [] \<and> desc_completed (chan_vc ?c) = [d] \<and> ch_st ?c = EDMA_ST_IDLE"
    using waiting_desc [OF assms] .
  show ?thesis
  proof (cases "desc_completed (chan_vc ?c)")
    case Nil
    then show ?thesis
      using event_ok_same [OF assms(1)] by simp
  next
    case (Cons x xs)
    then have d: "desc_completed (chan_vc ?c) = [d]" "desc_issued (chan_vc ?c) = []" "ch_st ?c = EDMA_ST_IDLE"
      using c(5) by auto
    obtain dc w1 where cb: "akida_dma_callback (ax_dc st) (ax_w st) = (dc, w1)" by fastforce
    have g: "goes (held (ax_dc st) + R) (ax_w st) R w1" "dc = (ax_dc st)\<lparr>dma_complete := 1\<rparr>" "io_only (ax_w st) w1"
      using callback_goes [OF cb, of "held (ax_dc st) + R"] assms(2) by (auto simp: held_def)
    define st' where "st' = st\<lparr>ax_chan := ?c\<lparr>chan_vc := (chan_vc ?c)\<lparr>desc_completed := []\<rparr>\<rparr>, ax_dc := dc, ax_w := vchan_free_desc d w1\<rparr>"
    have "xfer_event dw Ev_tasklet st = Some st'"
      using d c(3,4) by (simp add: cb st'_def)
    moreover have "waiting w0 a st'"
      using assms(1) release_inv [OF chan_inv_io [OF c(1) g(3)] d(1)] c(3) d g(2) by (auto simp: waiting_def st'_def Let_def)
    moreover have "goes (held (ax_dc st) + R) (ax_w st) (held (ax_dc st') + R) (ax_w st')"
      using goes_trans [OF g(1) plain_goes [OF plain_free_desc]] by (simp add: st'_def held_def g(2))
    moreover have "same_client st st'"
      by (auto simp: same_client_def st'_def g(2))
    ultimately show ?thesis
      unfolding event_ok_def by blast
  qed
qed

lemma mmio_event:
  assumes "waiting w0 a st" "dma_complete (ax_dc st) = 0"
  shows "event_ok w0 a R st (xfer_event dw (Ev_mmio p v) st)"
proof -
  have "plain (ax_w st) (writel v p (ax_w st))"
    by (rule mmio_plain) simp
  moreover have "chan_inv w0 (ax_chan st) (writel v p (ax_w st))"
    by (rule waiting_desc [OF assms], rule chan_inv_io, assumption) simp
  then have "waiting w0 a (st\<lparr>ax_chan := ax_chan st, ax_w := writel v p (ax_w st)\<rparr>)"
    using assms by (simp add: waiting_def Let_def)
  ultimately show ?thesis
    by (intro event_ok_chan [where c = "ax_chan st"]) simp_all
qed

lemma xfer_event_waiting:
  assumes "waiting w0 a st" "dw_core dw \<noteq> CORE_NONE" "dma_complete (ax_dc st) = 0"
  obtains st' where "xfer_event dw e st = Some st'" "waiting w0 a st'" "same_client st st'"
    "goes (held (ax_dc st) + R) (ax_w st) (held (ax_dc st') + R) (ax_w st')"
proof -
  have "event_ok w0 a R st (xfer_event dw e st)"
    using done_event [OF assms] abort_event [OF assms(1,3)] tasklet_event [OF assms(1,3)] mmio_event [OF assms(1,3)]
      event_ok_same [OF assms(1)] by (cases e) simp_all
  then show ?thesis
    unfolding event_ok_def by (elim exE conjE) (rule that)
qed

lemma waiting_over:
  assumes "waiting w0 a st" "dma_complete (ax_dc st) \<noteq> 0"
  obtains st' where "wait_completion dw evs st = Some (True, evs, st')" "same_client st st'"
    "quiet w0 (ax_chan st') (ax_w st')" "goes (held (ax_dc st) + R) (ax_w st) R (ax_w st')"
proof -
  define st' where "st' = st\<lparr>ax_dc := (ax_dc st)\<lparr>dma_complete := dma_complete (ax_dc st) - 1\<rparr>\<rparr>"
  have "wait_completion dw evs st = Some (True, evs, st')"
    using assms(2) by (subst wait_completion.simps) (simp add: st'_def)
  moreover have "same_client st st'"
    by (auto simp: same_client_def st'_def)
  moreover have "quiet w0 (ax_chan st') (ax_w st')"
    using assms by (simp add: waiting_def Let_def quiet_def vchan_descs_def st'_def)
  moreover have "goes (held (ax_dc st) + R) (ax_w st) R (ax_w st')"
    using assms(2) by (simp add: held_def st'_def)
  ultimately show ?thesis
    using that by blast
qed

lemma waiting_timeout:
  assumes "dma_complete (ax_dc st) = 0" "evs = [] \<or> evs = Ev_timeout # evs'"
  shows "wait_completion dw evs st = Some (False, tl evs, st)"
  using assms by (subst wait_completion.simps) auto

text \<open>Waiting ends with the channel quiet and the mapping given back, or with a timeout that changed neither.\<close>

lemma wait_cases:
  assumes "waiting w0 a st" "dw_core dw \<noteq> CORE_NONE"
  shows "\<exists>ok evs' st'. wait_completion dw evs st = Some (ok, evs', st') \<and> same_client st st' \<and>
    (if ok then quiet w0 (ax_chan st') (ax_w st') \<and> goes (held (ax_dc st) + R) (ax_w st) R (ax_w st')
     else waiting w0 a st' \<and> dma_complete (ax_dc st') = 0 \<and> goes (held (ax_dc st) + R) (ax_w st) (held (ax_dc st') + R) (ax_w st'))"
  using assms(1)
proof (induction evs arbitrary: st)
  case Nil
  show ?case
  proof (cases "dma_complete (ax_dc st) = 0")
    case True
    then show ?thesis
      using Nil waiting_timeout [OF True, of "[]"] by auto
  next
    case False
    then show ?thesis
      using waiting_over [OF Nil False, of dw "[]" R] by (metis (full_types))
  qed
next
  case (Cons e evs)
  show ?case
  proof (cases "dma_complete (ax_dc st) = 0")
    case False
    then show ?thesis
      using waiting_over [OF Cons.prems False, of dw "e # evs" R] by (metis (full_types))
  next
    case True
    show ?thesis
    proof (cases "e = Ev_timeout")
      case to: True
      then show ?thesis
        using Cons.prems True waiting_timeout [OF True, of "e # evs"] by auto
    next
      case False
      obtain st1 where 1: "xfer_event dw e st = Some st1" "waiting w0 a st1" "same_client st st1"
        "goes (held (ax_dc st) + R) (ax_w st) (held (ax_dc st1) + R) (ax_w st1)"
        using xfer_event_waiting [OF Cons.prems assms(2) True] .
      have "wait_completion dw (e # evs) st = wait_completion dw evs st1"
        using True False 1(1) by (subst wait_completion.simps) simp
      then show ?thesis
        using Cons.IH [OF 1(2)] same_client_trans [OF 1(3)] goes_trans [OF 1(4)] by (metis (full_types))
    qed
  qed
qed

end
