(* ===== verification/Xfer_Run.thy ===== *)
theory Xfer_Run
  imports Akida_Xfer
begin

section \<open>What a DMA transfer does\<close>

text \<open>
  The run of \<open>akida_dma_transfer\<close> on a quiet channel, on every branch: what it programs, what it returns,
  what it leaves mapped, and the state of the channel afterwards.
\<close>

subsection \<open>Lemmas: preparing one buffer\<close>

text \<open>A chunk whose list is the one burst \<open>x\<close>.\<close>

definition single_chunk :: "dw_edma_chip \<Rightarrow> dw_edma_chan \<Rightarrow> u64 \<times> u64 \<times> u32 \<Rightarrow> dw_edma_chunk \<Rightarrow> bool" where
  "single_chunk chip c x ck \<longleftrightarrow>
     map burst_xfer (bursts ck) = [x] \<and> ck_cb ck = 1 \<and>
     chunk_wf (ll_region_of chip (ch_dir c) (ch_id c)) (ll_max c) ck"

lemma add_burst_chunks:
  assumes "d_chunk d = Some (h, [ck])"
  shows "\<exists>ck'. chunks (add_burst a sar dar bsz d) = [ck']"
  using assms by (simp add: add_burst_def set_cur_chunk_def chunks_def upd_last_def)

lemma single_sg_chunks:
  assumes "heap_ok w" "0 < ll_max c" "desc_allocated (chan_vc c) = []"
    "dw_edma_device_transfer k chip c \<lparr>x_direction = dir, x_flags = fl, x_xfer = XFER_SG [(a, l)] 1\<rparr> w = (Some p, c1, w1)"
    "desc_allocated (chan_vc c1) = [d]"
  shows "\<exists>ck. chunks d = [ck]"
proof -
  let ?x = "XFER_SG [(a, l)] 1"
  have ok: "configured c" "transfer_dir_ok chip c dir" "transfer_xfer_ok ?x"
    using device_transfer_cases [OF assms(1,2,4)] by simp_all
  obtain r2 w2 where 2: "dw_edma_alloc_desc chip c w = (r2, w2)" by fastforce
  then obtain d2 where d2: "r2 = Some d2"
    using assms(4) ok by (cases r2) (simp_all add: dw_edma_device_transfer_def)
  note a2 = alloc_desc_cases [OF assms(1) 2 [unfolded d2], of "ll_region_of chip (ch_dir c) (ch_id c)" "ll_max c"]
  obtain h where h: "d_chunk d2 = Some (h, [])" and own2: "own w (desc_addrs d2) w2"
    using a2 by (auto simp: desc_wf_def)
  obtain b3 d3 w3 where 3: "dw_edma_alloc_chunk chip c d2 w2 = (b3, d3, w3)"
    by (metis prod_cases3)
  have b3: "b3"
    using assms(4) ok 2 d2 3 by (cases b3) (simp_all add: dw_edma_device_transfer_def)
  obtain e f where d3: "d3 = push_chunk (new_chunk chip c d2 e f) d2"
    using alloc_chunk_cases [OF h own2 3] b3 by auto
  have d3c: "d_chunk d3 = Some (h, [new_chunk chip c d2 e f])"
    by (simp add: d3 push_chunk_def h)
  have cur: "cur_chunk d3 = new_chunk chip c d2 e f"
    by (simp add: cur_chunk_def chunks_eq [OF d3c])
  have room: "(if bursts_alloc (cur_chunk d3) = ll_max c then dw_edma_alloc_chunk chip c d3 w3 else (True, d3, w3)) = (True, d3, w3)"
    "ck_burst (cur_chunk d3) \<noteq> None"
    using assms(2) by (auto simp: cur new_chunk_def)
  obtain s t where st: "transfer_addrs chip c ?x dir = (s, t)" by fastforce
  obtain b4 d4 w4 where 4: "transfer_loop k chip c ?x dir 1 0 [(a, l)] s t d3 w3 = (b4, d4, w4)"
    by (metis prod_cases3)
  have r4: "b4 \<and> c1 = c\<lparr>chan_vc := vchan_tx_prep (chan_vc c) d4 fl\<rparr>"
    using assms(4) ok 2 d2 3 b3 st 4
    by (cases b4) (simp_all add: dw_edma_device_transfer_def transfer_cnt_def transfer_sg_def)
  have d: "d = d4\<lparr>vd_flags := fl, vd_residue := 0\<rparr>"
    using r4 assms(3,5) by (simp add: vchan_tx_prep_def)
  obtain r5 w5 where 5: "kzalloc w3 = (r5, w5)" by fastforce
  obtain sar dar s1 e1 where ad: "xfer_burst_addrs ?x dir [(a, l)] s t = (sar, dar, s1, e1)"
    by (metis prod_cases4)
  obtain g2 s2 e2 where adv: "xfer_advance k ?x 0 (xfer_burst_sz ?x 0 [(a, l)]) [(a, l)] s1 e1 = (g2, s2, e2)"
    by (metis prod_cases3)
  have "\<exists>b. r5 = Some b"
    using transfer_loop_burst_fail [OF _ room, where x = ?x and sg = "[(a, l)]" and n = 0 and i = 0 and dir = dir and k = k and s = s and d = t] 4 r4 5 by (cases r5) auto
  then obtain b where b: "kzalloc w3 = (Some b, w5)"
    using 5 by blast
  have "d4 = add_burst b sar dar (xfer_burst_sz ?x 0 [(a, l)]) d3"
    using transfer_loop_round(1) [OF _ room b refl ad adv, of 0] 4 by simp
  then show ?thesis
    using add_burst_chunks [OF d3c, of b sar dar "xfer_burst_sz ?x 0 [(a, l)]"] by (simp add: d)
qed
lemma single_burst_chunk:
  assumes "desc_wf rg lm d" "chunks d = [ck]" "map burst_xfer (desc_bursts d) = [x]"
  shows "map burst_xfer (bursts ck) = [x] \<and> ck_cb ck = 1 \<and> chunk_wf rg lm ck"
proof -
  have "map ck_cb (chunks d) = cb_seq (length (chunks d))"
    using assms(1) by (simp add: desc_wf_def)
  then have "ck_cb ck = 1"
    by (simp add: assms(2) cb_seq_def)
  then show ?thesis
    using assms by (simp add: desc_bursts_def desc_wf_def)
qed

lemma quiet_lists:
  assumes "quiet w0 c w"
  shows "desc_allocated (chan_vc c) = []" "desc_submitted (chan_vc c) = []" "desc_issued (chan_vc c) = []"
    "desc_completed (chan_vc c) = []" "desc_terminated (chan_vc c) = []" "chan_inv w0 c w" "heap_ok w" "0 < ll_max c"
  using assms ownD(5) by (auto simp: quiet_def vchan_descs_def chan_inv_def)

lemma quiet_prep:
  assumes q: "quiet w0 c w"
    and r: "dw_edma_device_prep_slave_sg k chip c [(a, l)] 1 dir fl w = (tx, c1, w1)"
  shows "plain w w1 \<and> trace w1 = trace w \<and> chan_inv w0 c1 w1 \<and>
    (case tx of
       None \<Rightarrow> c1 = c
     | Some p \<Rightarrow>
         \<exists>d ck. c1 = c\<lparr>chan_vc := (chan_vc c)\<lparr>desc_allocated := [d]\<rparr>\<rparr> \<and> vd_addr d = p \<and> xfer_sz d = 0 \<and>
           chunks d = [ck] \<and>
           single_chunk chip c
             (if dir = DMA_DEV_TO_MEM then (dw_edma_get_pci_address chip (cfg_src_addr (ch_config c)), a, l)
              else (a, dw_edma_get_pci_address chip (cfg_dst_addr (ch_config c)), l)) ck)"
proof -
  note L = quiet_lists [OF q]
  define xfer where "xfer = \<lparr>x_direction = dir, x_flags = fl, x_xfer = XFER_SG [(a, l)] 1\<rparr>"
  have r': "dw_edma_device_transfer k chip c xfer w = (tx, c1, w1)"
    using r by (simp add: dw_edma_device_prep_slave_sg_def xfer_def)
  have inv: "chan_inv w0 c1 w1"
    by (rule transfer_inv [OF L(6) _ r']) (simp add: xfer_def transfer_cnt_def)
  have p: "plain w w1"
    by (rule plain_transfer [OF L(7,8) r'])
  have t: "trace w1 = trace w"
    using device_transfer_cases [OF L(7,8) r'] by (simp add: outside_def)
  show ?thesis
  proof (cases tx)
    case None
    then show ?thesis
      using device_transfer_None [OF L(7,8)] r' p t inv by simp
  next
    case (Some pa)
    obtain d where d: "vd_addr d = pa" "desc_wf (ll_region_of chip (ch_dir c) (ch_id c)) (ll_max c) d" "chunks d \<noteq> []"
      "map burst_xfer (desc_bursts d) =
         burst_plan k (XFER_SG [(a, l)] 1) dir 1 0 [(a, l)]
           (fst (transfer_addrs chip c (XFER_SG [(a, l)] 1) dir)) (snd (transfer_addrs chip c (XFER_SG [(a, l)] 1) dir))"
      "c1 = c\<lparr>chan_vc := vchan_tx_prep (chan_vc c) d fl\<rparr>"
      using device_transfer_cases [OF L(7,8) r'] Some by (auto simp: xfer_def transfer_cnt_def transfer_sg_def)
    have bs: "map burst_xfer (desc_bursts d) =
        [if dir = DMA_DEV_TO_MEM then (dw_edma_get_pci_address chip (cfg_src_addr (ch_config c)), a, l)
         else (a, dw_edma_get_pci_address chip (cfg_dst_addr (ch_config c)), l)]"
      unfolding d(4) burst_plan_sg by (simp add: sg_bursts_Cons transfer_addrs_def)
    define d1 where "d1 = d\<lparr>vd_flags := fl, vd_residue := 0\<rparr>"
    have c1: "c1 = c\<lparr>chan_vc := (chan_vc c)\<lparr>desc_allocated := [d1]\<rparr>\<rparr>"
      using L(1) by (simp add: d(5) vchan_tx_prep_def d1_def)
    have "desc_allocated (chan_vc c1) = [d1]"
      by (simp add: c1)
    then obtain ck where ck: "chunks d = [ck]"
      using single_sg_chunks [OF L(7,8,1) r' [unfolded xfer_def Some]] by (auto simp: d1_def)
    have "single_chunk chip c
        (if dir = DMA_DEV_TO_MEM then (dw_edma_get_pci_address chip (cfg_src_addr (ch_config c)), a, l)
         else (a, dw_edma_get_pci_address chip (cfg_dst_addr (ch_config c)), l)) ck"
      using single_burst_chunk [OF d(2) ck bs] unfolding single_chunk_def .
    moreover have "xfer_sz d = 0"
      using d(2) by (simp add: desc_wf_def)
    ultimately show ?thesis
      unfolding Some option.case using p t inv d(1) c1 ck
      by (intro conjI exI [of _ d1] exI [of _ ck]) (simp_all add: d1_def)
  qed
qed

text \<open>Submitting and issuing the prepared descriptor starts its first chunk.\<close>

lemma submit_issue:
  assumes env: "env_ok env" and inv: "chan_inv w0 c w"
    and ls: "desc_allocated (chan_vc c) = [d]" "desc_submitted (chan_vc c) = []" "desc_issued (chan_vc c) = []"
      "desc_completed (chan_vc c) = []" "desc_terminated (chan_vc c) = []"
    and st: "configured c" "ch_request c = EDMA_REQ_NONE" "ch_st c = EDMA_ST_IDLE"
    and d: "chunks d = [ck]" "xfer_sz d = 0"
    and s: "env_submit env d (chan_vc c) = (cookie, vc)"
    and i: "dw_edma_device_issue_pending (env_dw env) (c\<lparr>chan_vc := vc\<rparr>) w = (c', w')"
  shows "1 \<le> sint cookie" "chan_inv w0 c' w'" "w' = start_chunk (env_dw env) c True ck w" "plain w w'"
    "\<exists>d'. vd_addr d' = vd_addr d \<and> desc_issued (chan_vc c') = [d'] \<and> chunks d' = []"
    "desc_allocated (chan_vc c') = []" "desc_submitted (chan_vc c') = []" "desc_completed (chan_vc c') = []"
    "desc_terminated (chan_vc c') = []" "ch_request c' = EDMA_REQ_NONE" "ch_st c' = EDMA_ST_BUSY" "configured c'"
proof -
  have core: "dw_core (env_dw env) \<noteq> CORE_NONE" and sub: "submit_ok (\<lambda>d vc. snd (env_submit env d vc))"
    and fstc: "cookie = fst (dma_cookie_assign d (chan_vc c))"
    using env ls(1) s unfolding env_ok_def by (simp_all, metis fst_conv list.set_intros(1))
  obtain ck0 d' vc' where a: "dma_cookie_assign d (chan_vc c) = (ck0, d', vc')"
    by (metis prod_cases3)
  have d': "d' = d\<lparr>vd_cookie := ck0\<rparr>" "vc' = (chan_vc c)\<lparr>vc_cookie := ck0\<rparr>"
    using a by (auto simp: dma_cookie_assign_def Let_def)
  show "1 \<le> sint cookie"
    using cookie_assign_positive [OF a] fstc a by simp
  have "snd (env_submit env d (chan_vc c)) = vc'\<lparr>desc_allocated := remove1 d (desc_allocated (chan_vc c)),
      desc_submitted := desc_submitted (chan_vc c) @ [d']\<rparr>"
    using sub [unfolded submit_ok_def, rule_format, of d "chan_vc c"] ls(1) by (simp add: a)
  then have vc: "vc = vc'\<lparr>desc_allocated := [], desc_submitted := [d']\<rparr>"
    by (simp add: s ls(1,2))
  have inv1: "chan_inv w0 (c\<lparr>chan_vc := vc\<rparr>) w"
    using submit_inv [OF sub inv, of d] ls(1) by (simp add: s)
  show "chan_inv w0 c' w'"
    by (rule issue_pending_inv [OF core inv1 i])
  show "plain w w'"
    by (rule plain_issue [OF core i])
  define c2 where "c2 = c\<lparr>chan_vc := vc\<lparr>desc_issued := [d'], desc_submitted := []\<rparr>, ch_st := EDMA_ST_BUSY\<rparr>"
  have dk: "d_chunk d' \<noteq> None" "chunks d' = [ck]" "xfer_sz d' = 0" "vd_addr d' = vd_addr d"
    using d by (auto simp: d' chunks_def split: option.splits)
  have c2: "desc_issued (chan_vc c2) = [d']" "ch_id c2 = ch_id c" "ch_dir c2 = ch_dir c"
    by (simp_all add: c2_def)
  have "dw_edma_device_issue_pending (env_dw env) (c\<lparr>chan_vc := vc\<rparr>) w =
      (let (_, chan, w) = dw_edma_start_transfer (env_dw env) c2 w in (chan, w))"
    using st ls(3) by (simp add: dw_edma_device_issue_pending_def vchan_issue_pending_def Let_def vc d' c2_def)
  also have "\<dots> = (set_issued [pop_chunk d'] c2, start_chunk (env_dw env) c2 True ck w)"
    using start_transfer_next [OF c2(1) dk(1,2), of "env_dw env" w] dk(3) by simp
  finally have r: "c' = set_issued [pop_chunk d'] c2" "w' = start_chunk (env_dw env) c2 True ck w"
    using i by simp_all
  show "w' = start_chunk (env_dw env) c True ck w"
    using r(2) start_chunk_cong [OF c2(2,3)] by simp
  have "chunks (pop_chunk d') = []"
    using dk(2) by (auto simp: pop_chunk_def chunks_def split: option.splits)
  then show "\<exists>d'. vd_addr d' = vd_addr d \<and> desc_issued (chan_vc c') = [d'] \<and> chunks d' = []"
    by (intro exI [of _ "pop_chunk d'"]) (simp add: r(1) pop_chunk_def dk(4))
  show "desc_allocated (chan_vc c') = []" "desc_submitted (chan_vc c') = []" "desc_completed (chan_vc c') = []"
    "desc_terminated (chan_vc c') = []" "ch_request c' = EDMA_REQ_NONE" "ch_st c' = EDMA_ST_BUSY" "configured c'"
    using ls st by (simp_all add: r(1) set_issued_def c2_def vc d'(2))
qed

subsection \<open>Lemmas: the run\<close>

text \<open>The start the transfer leads to: one list of one element, then the doorbell; the rest comes after.\<close>

definition programmed :: "akida_env \<Rightarrow> dw_edma_chan \<Rightarrow> u64 \<times> u64 \<times> u32 \<Rightarrow> world \<Rightarrow> world \<Rightarrow> bool" where
  "programmed env c x w w' \<longleftrightarrow>
     (\<exists>ck w1 es. single_chunk (dw_chip (env_dw env)) c x ck \<and> plain w w1 \<and>
        trace w' = trace (start_chunk (env_dw env) c True ck w1) @ es)"

lemma programmed_goes: "programmed env c x w w1 \<Longrightarrow> goes R w1 R' w' \<Longrightarrow> programmed env c x w w'"
  unfolding programmed_def goes_def by (metis append_assoc)

text \<open>The elements: from the device into the buffer or the other way.\<close>

definition xfer_burst :: "dw_edma_chip \<Rightarrow> dma_transfer_direction \<Rightarrow> u64 \<Rightarrow> u64 \<Rightarrow> u64 \<Rightarrow> u64 \<times> u64 \<times> u32" where
  "xfer_burst chip dir dev_addr a len =
     (if dir = DMA_DEV_TO_MEM then (dw_edma_get_pci_address chip dev_addr, a, ucast len)
      else (a, dw_edma_get_pci_address chip dev_addr, ucast len))"

definition same_side :: "akida_xfer \<Rightarrow> akida_xfer \<Rightarrow> bool" where
  "same_side st st' \<longleftrightarrow> dc_chan (ax_dc st') = dc_chan (ax_dc st) \<and> dma_xfer_dir (ax_dc st') = dma_xfer_dir (ax_dc st) \<and>
     dma_data_dir (ax_dc st') = dma_data_dir (ax_dc st) \<and> is_used (ax_dc st') = is_used (ax_dc st)"

lemma same_client_side: "same_client st st' \<Longrightarrow> same_side st st'"
  by (auto simp: same_client_def same_side_def)

lemma err_goes:
  assumes "mapping (ax_dc st) \<in># R"
  obtains st' where "xfer_err ret evs st = Some (ret, evs, st')" "goes R (ax_w st) (R - {#mapping (ax_dc st)#}) (ax_w st')"
    "ax_dc st' = ax_dc st" "ax_chan st' = ax_chan st" "io_only (ax_w st) (ax_w st')" "ax_cbs st' = ax_cbs st"
proof -
  let ?dc = "ax_dc st"
  obtain r w1 where 1: "kcall (K_dma_unmap_single (dma_buf ?dc) (dma_len ?dc) (dma_data_dir ?dc)) (ax_w st) = (r, w1)"
    by fastforce
  have "goes R (ax_w st) (R - {#mapping ?dc#}) w1"
    by (rule goes_kcall [OF 1]) (use assms in \<open>simp add: mapping_def\<close>)
  then show ?thesis
    by (intro that [of "st\<lparr>ax_w := w1\<rparr>"]) (simp_all add: xfer_err_def 1 kcall_frame(5) [OF 1])
qed

lemma quiet_frame:
  "quiet w0 (c\<lparr>ch_config := g, configured := b\<rparr>) w = quiet w0 c w"
  by (simp add: quiet_def)

lemma quiet_io: "quiet w0 c w \<Longrightarrow> io_only w w' \<Longrightarrow> quiet w0 c w'"
  using chan_inv_io by (auto simp: quiet_def)

lemma transfer_rest:
  assumes "xfer_sconfig (dma_xfer_dir (ax_dc st)) dev_addr = Some g"
    "kcall (K_dma_map_single buf len (dma_data_dir (ax_dc st))) (ax_w st) = (a, w)" "0 \<le> a"
  shows "akida_dma_transfer env evs dev_addr len buf st =
    xfer_rest env evs (dma_xfer_dir (ax_dc st))
      (st\<lparr>ax_dc := (ax_dc st)\<lparr>dma_len := len, dma_buf := of_int a\<rparr>, ax_w := w,
          ax_chan := (ax_chan st)\<lparr>ch_config := (if dma_xfer_dir (ax_dc st) = DMA_MEM_TO_DEV then g\<lparr>cfg_src_addr := of_int a\<rparr>
            else g\<lparr>cfg_dst_addr := of_int a\<rparr>), configured := True\<rparr>\<rparr>)"
  using assms by (simp add: akida_dma_transfer_def dw_edma_device_config_def)

definition xfer_result :: "akida_env \<Rightarrow> dw_edma_chan \<Rightarrow> u64 \<times> u64 \<times> u32 \<Rightarrow> world \<Rightarrow> world \<Rightarrow> int \<Rightarrow> akida_xfer \<Rightarrow> bool" where
  "xfer_result env c x w0 w r st' \<longleftrightarrow>
     (r = - EINVAL \<and> quiet w0 (ax_chan st') (ax_w st')) \<or>
     (r = 0 \<and> quiet w0 (ax_chan st') (ax_w st') \<and> programmed env c x w (ax_w st')) \<or>
     (r = - ETIMEDOUT \<and> programmed env c x w (ax_w st'))"

text \<open>An accepted preparation: the caller waits for the one chunk it has started.\<close>

definition after_wait :: "akida_env \<Rightarrow> (bool \<times> wait_ev list \<times> akida_xfer) option \<Rightarrow> (int \<times> wait_ev list \<times> akida_xfer) option" where
  "after_wait env res =
     (case res of
        None \<Rightarrow> None
      | Some (ok, evs, st) \<Rightarrow>
          if ok then Some (0, evs, st)
          else (let (_, chan, w) = dw_edma_device_terminate_all (env_dw env) (ax_chan st) (ax_w st)
                in xfer_err (- ETIMEDOUT) evs (st\<lparr>ax_chan := chan, ax_w := w\<rparr>)))"

lemma rest_start:
  fixes dir st env
  assumes env: "env_ok env" and q: "quiet w0 (ax_chan st) (ax_w st)" and conf: "configured (ax_chan st)"
  defines "chip \<equiv> dw_chip (env_dw env)" and "a \<equiv> dma_buf (ax_dc st)" and "l \<equiv> ucast (dma_len (ax_dc st)) :: u32"
  defines "x \<equiv> if dir = DMA_DEV_TO_MEM then (dw_edma_get_pci_address chip (cfg_src_addr (ch_config (ax_chan st))), a, l)
      else (a, dw_edma_get_pci_address chip (cfg_dst_addr (ch_config (ax_chan st))), l)"
  assumes 1: "dw_edma_device_prep_slave_sg (env_k env) chip (ax_chan st) [(a, l)] 1 dir DMA_PREP_INTERRUPT (ax_w st) =
      (Some t, c1, w1)"
  obtains st3 d3 where "waiting w0 t st3" "dma_complete (ax_dc st3) = 0" "desc_issued (chan_vc (ax_chan st3)) = [d3]"
    "chunks d3 = []" "configured (ax_chan st3)" "same_side st st3" "mapping (ax_dc st3) = mapping (ax_dc st)"
    "\<And>Q. goes Q (ax_w st) Q (ax_w st3)" "programmed env (ax_chan st) x (ax_w st) (ax_w st3)"
    "\<And>evs. xfer_rest env evs dir st = after_wait env (wait_completion (env_dw env) evs st3)"
proof -
  note L = quiet_lists [OF q]
  note p1 = quiet_prep [OF q 1]
  have g1: "goes Q (ax_w st) Q w1" for Q
    using p1 plain_goes by blast
  obtain d ck where d: "c1 = (ax_chan st)\<lparr>chan_vc := (chan_vc (ax_chan st))\<lparr>desc_allocated := [d]\<rparr>\<rparr>" "vd_addr d = t"
    "xfer_sz d = 0" "chunks d = [ck]" "single_chunk chip (ax_chan st) x ck"
    using p1 by (auto simp: x_def)
  have inv1: "chan_inv w0 c1 w1"
    using p1 by simp
  obtain cookie vc where s: "env_submit env d (chan_vc c1) = (cookie, vc)" by fastforce
  obtain c3 w3 where i: "dw_edma_device_issue_pending (env_dw env) (c1\<lparr>chan_vc := vc\<rparr>) w1 = (c3, w3)" by fastforce
  have ls: "desc_allocated (chan_vc c1) = [d]" "desc_submitted (chan_vc c1) = []" "desc_issued (chan_vc c1) = []"
    "desc_completed (chan_vc c1) = []" "desc_terminated (chan_vc c1) = []"
    using L by (simp_all add: d(1))
  have cs: "configured c1" "ch_request c1 = EDMA_REQ_NONE" "ch_st c1 = EDMA_ST_IDLE"
    using q conf by (simp_all add: d(1) quiet_def)
  note si = submit_issue [OF env inv1 ls cs d(4,3) s i]
  define st3 where "st3 = st\<lparr>ax_dc := (ax_dc st)\<lparr>dma_complete := 0\<rparr>, ax_cbs := t # ax_cbs st, ax_chan := c3, ax_w := w3\<rparr>"
  have wait: "waiting w0 t st3"
    using si(2,5-) d(2) by (auto simp: waiting_def st3_def)
  have side3: "same_side st st3"
    by (simp add: same_side_def st3_def)
  have g3: "goes Q (ax_w st) Q w3" for Q
    using goes_trans [OF g1 plain_goes [OF si(4)]] .
  have prog: "programmed env (ax_chan st) x (ax_w st) w3"
    unfolding programmed_def
    using p1 d(5) start_chunk_cong [of c1 "ax_chan st" "env_dw env"] si(3)
    by (intro exI [of _ ck] exI [of _ w1] exI [of _ "[]"]) (simp add: chip_def d(1))
  obtain d3 where d3: "desc_issued (chan_vc c3) = [d3]" "chunks d3 = []"
    using si(5) by blast
  have run: "xfer_rest env evs dir st = after_wait env (wait_completion (env_dw env) evs st3)" for evs
    using 1 s i ls(1) d(2) si(1) by (simp add: xfer_rest_def after_wait_def a_def l_def chip_def st3_def Let_def)
  show ?thesis
    by (rule that [OF wait _ _ d3(2) _ side3 _ _ _ run])
      (use g3 prog d3(1) si(12) in \<open>simp_all add: st3_def mapping_def\<close>)
qed

text \<open>What is to be shown of the rest: the mapping \<open>M\<close> is given back on every path.\<close>

definition rest_ok ::
  "akida_env \<Rightarrow> u64 \<times> u64 \<times> u32 \<Rightarrow> world \<Rightarrow> resource \<Rightarrow> resource multiset \<Rightarrow> akida_xfer \<Rightarrow>
   (int \<times> wait_ev list \<times> akida_xfer) option \<Rightarrow> bool" where
  "rest_ok env x w0 M R st res \<longleftrightarrow>
     (\<exists>r evs' st'. res = Some (r, evs', st') \<and> same_side st st' \<and> goes (add_mset M R) (ax_w st) R (ax_w st') \<and>
        xfer_result env (ax_chan st) x w0 (ax_w st) r st')"

text \<open>The label \<open>err\<close> reached from \<open>st\<close> in \<open>st1\<close>.\<close>

lemma rest_err:
  assumes "goes (add_mset M R) (ax_w st) (add_mset M R) (ax_w st1)" "mapping (ax_dc st1) = M" "same_side st st1"
  obtains st2 where "xfer_err r evs st1 = Some (r, evs, st2)" "goes (add_mset M R) (ax_w st) R (ax_w st2)"
    "goes (add_mset M R) (ax_w st1) R (ax_w st2)" "same_side st st2" "ax_chan st2 = ax_chan st1" "io_only (ax_w st1) (ax_w st2)"
proof -
  obtain st2 where 2: "xfer_err r evs st1 = Some (r, evs, st2)"
    "goes (add_mset M R) (ax_w st1) (add_mset M R - {#mapping (ax_dc st1)#}) (ax_w st2)"
    "ax_dc st2 = ax_dc st1" "ax_chan st2 = ax_chan st1" "io_only (ax_w st1) (ax_w st2)"
    by (rule err_goes [of st1 "add_mset M R"]) (simp add: assms(2))
  have g: "goes (add_mset M R) (ax_w st1) R (ax_w st2)"
    using 2(2) by (simp add: assms(2))
  have "same_side st st2"
    using assms(3) by (simp add: same_side_def 2(3))
  then show ?thesis
    using that [OF 2(1) goes_trans [OF assms(1) g] g _ 2(4,5)] by blast
qed

lemma rest_refused:
  assumes q: "quiet w0 (ax_chan st) (ax_w st)"
    and 1: "dw_edma_device_prep_slave_sg (env_k env) (dw_chip (env_dw env)) (ax_chan st)
      [(dma_buf (ax_dc st), ucast (dma_len (ax_dc st)))] 1 dir DMA_PREP_INTERRUPT (ax_w st) = (None, c1, w1)"
  shows "rest_ok env x w0 (mapping (ax_dc st)) R st (xfer_rest env evs dir st)"
proof -
  define st1 where "st1 = st\<lparr>ax_chan := c1, ax_w := w1\<rparr>"
  note p1 = quiet_prep [OF q 1]
  have run: "xfer_rest env evs dir st = xfer_err (- EINVAL) evs st1"
    using 1 by (simp add: xfer_rest_def st1_def)
  have "goes Q (ax_w st) Q (ax_w st1)" for Q
    using p1 plain_goes by (simp add: st1_def)
  moreover have "mapping (ax_dc st1) = mapping (ax_dc st)" "same_side st st1"
    by (simp_all add: st1_def same_side_def)
  ultimately obtain st2 where 2: "xfer_err (- EINVAL) evs st1 = Some (- EINVAL, evs, st2)"
    "goes (add_mset (mapping (ax_dc st)) R) (ax_w st) R (ax_w st2)" "same_side st st2" "ax_chan st2 = ax_chan st1"
    "io_only (ax_w st1) (ax_w st2)"
    using rest_err by metis
  have "quiet w0 c1 w1"
    using p1 q by (auto simp: quiet_def)
  then have "quiet w0 (ax_chan st2) (ax_w st2)"
    using quiet_io [OF _ 2(5)] by (simp add: st1_def 2(4))
  then show ?thesis
    unfolding rest_ok_def xfer_result_def run using 2(1-3) by blast
qed

lemma rest_waits:
  assumes core: "dw_core (env_dw env) \<noteq> CORE_NONE"
    and wait: "waiting w0 t st3" "dma_complete (ax_dc st3) = 0" "same_side st st3" "mapping (ax_dc st3) = M"
    and g3: "\<And>Q. goes Q (ax_w st) Q (ax_w st3)" and prog: "programmed env (ax_chan st) x (ax_w st) (ax_w st3)"
  shows "rest_ok env x w0 M R st (after_wait env (wait_completion (env_dw env) evs st3))"
proof -
  have held3: "held (ax_dc st3) + R = add_mset M R"
    using wait(2,4) by (simp add: held_def)
  obtain ok evs4 st4 where 4: "wait_completion (env_dw env) evs st3 = Some (ok, evs4, st4)" "same_client st3 st4"
    "if ok then quiet w0 (ax_chan st4) (ax_w st4) \<and> goes (add_mset M R) (ax_w st3) R (ax_w st4)
     else waiting w0 t st4 \<and> dma_complete (ax_dc st4) = 0 \<and> goes (add_mset M R) (ax_w st3) (held (ax_dc st4) + R) (ax_w st4)"
    using wait_cases [OF wait(1) core, of evs R] unfolding held3 by blast
  have side4: "same_side st st4" and map4: "mapping (ax_dc st4) = M"
    using wait(3,4) same_client_side [OF 4(2)] 4(2) by (auto simp: same_side_def same_client_def mapping_def)
  show ?thesis
  proof (cases ok)
    case True
    then have "after_wait env (wait_completion (env_dw env) evs st3) = Some (0, evs4, st4)"
      by (simp add: after_wait_def 4(1))
    moreover have "goes (add_mset M R) (ax_w st3) R (ax_w st4)"
      using 4(3) True by simp
    then have "goes (add_mset M R) (ax_w st) R (ax_w st4)" "programmed env (ax_chan st) x (ax_w st) (ax_w st4)"
      using goes_trans [OF g3] programmed_goes [OF prog] by blast+
    ultimately show ?thesis
      using True 4(3) side4 unfolding rest_ok_def xfer_result_def by auto
  next
    case False
    obtain q5 c5 w5 where 5: "dw_edma_device_terminate_all (env_dw env) (ax_chan st4) (ax_w st4) = (q5, c5, w5)"
      by (metis prod_cases3)
    define st5 where "st5 = st4\<lparr>ax_chan := c5, ax_w := w5\<rparr>"
    have st5: "ax_dc st5 = ax_dc st4" "ax_w st5 = w5" "same_side st st5"
      using side4 by (simp_all add: st5_def same_side_def)
    have run: "after_wait env (wait_completion (env_dw env) evs st3) = xfer_err (- ETIMEDOUT) evs4 st5"
      using False by (simp add: after_wait_def 4(1) 5 st5_def)
    have "held (ax_dc st4) + R = add_mset M R"
      using 4(3) False map4 by (simp add: held_def)
    then have g5: "goes (add_mset M R) (ax_w st3) (add_mset M R) (ax_w st5)"
      using goes_trans [OF _ plain_goes [OF plain_terminate [OF core 5]], of "add_mset M R" "ax_w st3"] 4(3) False
      by (simp add: st5(2))
    obtain st6 where 6: "xfer_err (- ETIMEDOUT) evs4 st5 = Some (- ETIMEDOUT, evs4, st6)"
      "goes (add_mset M R) (ax_w st) R (ax_w st6)" "goes (add_mset M R) (ax_w st5) R (ax_w st6)" "same_side st st6"
      by (rule rest_err [OF goes_trans [OF g3 g5] _ st5(3)]) (simp add: st5(1) map4)
    have "programmed env (ax_chan st) x (ax_w st) (ax_w st6)"
      by (rule programmed_goes [OF prog goes_trans [OF g5 6(3)]])
    then show ?thesis
      unfolding rest_ok_def xfer_result_def run using 6(1,2,4) by blast
  qed
qed

lemma rest_run:
  fixes dir st env
  assumes env: "env_ok env" and q: "quiet w0 (ax_chan st) (ax_w st)" and conf: "configured (ax_chan st)"
  defines "chip \<equiv> dw_chip (env_dw env)" and "a \<equiv> dma_buf (ax_dc st)" and "l \<equiv> ucast (dma_len (ax_dc st)) :: u32"
  defines "x \<equiv> if dir = DMA_DEV_TO_MEM then (dw_edma_get_pci_address chip (cfg_src_addr (ch_config (ax_chan st))), a, l)
      else (a, dw_edma_get_pci_address chip (cfg_dst_addr (ch_config (ax_chan st))), l)"
  shows "rest_ok env x w0 (mapping (ax_dc st)) R st (xfer_rest env evs dir st)"
proof -
  obtain tx c1 w1 where 1: "dw_edma_device_prep_slave_sg (env_k env) (dw_chip (env_dw env)) (ax_chan st)
      [(dma_buf (ax_dc st), ucast (dma_len (ax_dc st)))] 1 dir DMA_PREP_INTERRUPT (ax_w st) = (tx, c1, w1)"
    by (metis prod_cases3)
  have core: "dw_core (env_dw env) \<noteq> CORE_NONE"
    using env by (simp add: env_ok_def)
  show ?thesis
  proof (cases tx)
    case None
    then show ?thesis
      using rest_refused [OF q] 1 by simp
  next
    case (Some t)
    obtain st3 where s3: "waiting w0 t st3" "dma_complete (ax_dc st3) = 0" "same_side st st3"
      "mapping (ax_dc st3) = mapping (ax_dc st)" "\<And>Q. goes Q (ax_w st) Q (ax_w st3)"
      "programmed env (ax_chan st) x (ax_w st) (ax_w st3)"
      "xfer_rest env evs dir st = after_wait env (wait_completion (env_dw env) evs st3)"
      unfolding x_def chip_def a_def l_def by (rule rest_start [OF env q conf 1 [unfolded Some]]) blast
    show ?thesis
      unfolding s3(7) by (rule rest_waits [OF core s3(1-6)])
  qed
qed

text \<open>The whole transfer.\<close>

lemma programmed_cong:
  assumes "ch_id c = ch_id c'" "ch_dir c = ch_dir c'" "ll_max c = ll_max c'"
  shows "programmed env c x w w' = programmed env c' x w w'"
  unfolding programmed_def single_chunk_def assms start_chunk_cong [OF assms(1,2)] ..

lemma transfer_run:
  assumes env: "env_ok env" and q: "quiet w0 (ax_chan st) (ax_w st)"
  shows "\<exists>r evs' st'. akida_dma_transfer env evs dev_addr len buf st = Some (r, evs', st') \<and> same_side st st' \<and>
    goes R (ax_w st) R (ax_w st') \<and>
    (r = - EINVAL \<and> quiet w0 (ax_chan st') (ax_w st') \<or>
     (\<exists>a w1. 0 \<le> a \<and> kcall (K_dma_map_single buf len (dma_data_dir (ax_dc st))) (ax_w st) = (a, w1) \<and>
        xfer_result env (ax_chan st) (xfer_burst (dw_chip (env_dw env)) (dma_xfer_dir (ax_dc st)) dev_addr (of_int a) len)
          w0 w1 r st'))"
proof (cases "xfer_sconfig (dma_xfer_dir (ax_dc st)) dev_addr")
  case None
  then have "akida_dma_transfer env evs dev_addr len buf st = Some (- EINVAL, evs, st)"
    by (simp add: akida_dma_transfer_def)
  then show ?thesis
    using q by (simp add: same_side_def)
next
  case (Some g)
  let ?dir = "dma_xfer_dir (ax_dc st)"
  obtain a w1 where 1: "kcall (K_dma_map_single buf len (dma_data_dir (ax_dc st))) (ax_w st) = (a, w1)" by fastforce
  have io: "io_only (ax_w st) w1"
    by (rule kcall_frame(5) [OF 1])
  show ?thesis
  proof (cases "a < 0")
    case True
    define st1 where "st1 = st\<lparr>ax_dc := (ax_dc st)\<lparr>dma_len := len, dma_buf := of_int a\<rparr>, ax_w := w1\<rparr>"
    have "akida_dma_transfer env evs dev_addr len buf st = Some (- EINVAL, evs, st1)"
      using Some True by (simp add: akida_dma_transfer_def 1 st1_def)
    moreover have "goes R (ax_w st) R w1"
      by (rule goes_kcall [OF 1]) (simp add: True)
    moreover have "quiet w0 (ax_chan st1) (ax_w st1)" "same_side st st1"
      using quiet_io [OF q io] by (simp_all add: st1_def same_side_def)
    ultimately show ?thesis
      by (intro exI [of _ "- EINVAL"] exI [of _ evs] exI [of _ st1]) (simp add: st1_def)
  next
    case False
    define cfg where "cfg = (if ?dir = DMA_MEM_TO_DEV then g\<lparr>cfg_src_addr := of_int a\<rparr> else g\<lparr>cfg_dst_addr := of_int a\<rparr>)"
    define st1 where "st1 = st\<lparr>ax_dc := (ax_dc st)\<lparr>dma_len := len, dma_buf := of_int a\<rparr>, ax_w := w1,
        ax_chan := (ax_chan st)\<lparr>ch_config := cfg, configured := True\<rparr>\<rparr>"
    have run: "akida_dma_transfer env evs dev_addr len buf st = xfer_rest env evs ?dir st1"
      using transfer_rest [OF Some 1, of env evs] False by (simp add: cfg_def st1_def)
    have q1: "quiet w0 (ax_chan st1) (ax_w st1)"
      using quiet_io [OF q io] by (simp add: st1_def quiet_frame)
    have x: "(if ?dir = DMA_DEV_TO_MEM
        then (dw_edma_get_pci_address (dw_chip (env_dw env)) (cfg_src_addr (ch_config (ax_chan st1))), dma_buf (ax_dc st1),
              ucast (dma_len (ax_dc st1)) :: u32)
        else (dma_buf (ax_dc st1), dw_edma_get_pci_address (dw_chip (env_dw env)) (cfg_dst_addr (ch_config (ax_chan st1))),
              ucast (dma_len (ax_dc st1)))) = xfer_burst (dw_chip (env_dw env)) ?dir dev_addr (of_int a) len"
      using Some by (cases ?dir) (auto simp: xfer_burst_def xfer_sconfig_def st1_def cfg_def)
    obtain r evs' st' where r: "xfer_rest env evs ?dir st1 = Some (r, evs', st')" "same_side st1 st'"
      "goes (add_mset (mapping (ax_dc st1)) R) (ax_w st1) R (ax_w st')"
      "xfer_result env (ax_chan st1) (xfer_burst (dw_chip (env_dw env)) ?dir dev_addr (of_int a) len) w0 (ax_w st1) r st'"
      using rest_run [OF env q1, where dir = ?dir and evs = evs and R = R] unfolding x rest_ok_def by (auto simp: st1_def)
    have "goes R (ax_w st) (add_mset (mapping (ax_dc st1)) R) w1"
      by (rule goes_kcall [OF 1]) (use False in \<open>simp add: mapping_def st1_def\<close>)
    then have "goes R (ax_w st) R (ax_w st')"
      using r(3) goes_trans by (simp add: st1_def)
    moreover have "xfer_result env (ax_chan st) (xfer_burst (dw_chip (env_dw env)) ?dir dev_addr (of_int a) len) w0 w1 r st'"
      using r(4) programmed_cong [of "ax_chan st1" "ax_chan st" env] by (simp add: st1_def xfer_result_def)
    moreover have "same_side st st'"
      using r(2) by (simp add: same_side_def st1_def)
    ultimately show ?thesis
      unfolding run r(1) using 1 False by (intro exI [of _ r] exI [of _ evs'] exI [of _ st']) auto
  qed
qed

text \<open>What the device finds when the doorbell rings: one element and the link that closes the list.\<close>

lemma single_chunk_list:
  assumes "single_chunk chip c (src, dst, l) ck" "ll_holds chip ck m"
  shows "read_lli m (vaddr (ll_region_of chip (ch_dir c) (ch_id c))) =
      Some (BIT 0 OR (BIT 3 OR (if chip_local chip then 0 else BIT 4)), l, src, dst)"
    "read_llp m (vaddr (ll_region_of chip (ch_dir c) (ch_id c)) + 24) =
      Some (BIT 2 OR BIT 1, paddr (ll_region_of chip (ch_dir c) (ch_id c)))"
proof -
  obtain b where b: "bursts ck = [b]" "b_sar b = src" "b_dar b = dst" "b_sz b = l"
    using assms(1) by (auto simp: single_chunk_def burst_xfer_def)
  have ck: "ck_cb ck = 1" "vaddr (ll_region ck) = vaddr (ll_region_of chip (ch_dir c) (ch_id c))"
    "paddr (ll_region ck) = paddr (ll_region_of chip (ch_dir c) (ch_id c))"
    using assms(1) by (simp_all add: single_chunk_def chunk_wf_def)
  show "read_lli m (vaddr (ll_region_of chip (ch_dir c) (ch_id c))) =
      Some (BIT 0 OR (BIT 3 OR (if chip_local chip then 0 else BIT 4)), l, src, dst)"
    using assms(2) by (simp add: ll_holds_def b ck lli_control_def)
  show "read_llp m (vaddr (ll_region_of chip (ch_dir c) (ch_id c)) + 24) =
      Some (BIT 2 OR BIT 1, paddr (ll_region_of chip (ch_dir c) (ch_id c)))"
    using assms(2) by (simp add: ll_holds_def b ck llp_control_def)
qed

definition rings_with ::
  "dw_edma \<Rightarrow> dw_edma_chan \<Rightarrow> u64 \<times> u64 \<times> u32 \<Rightarrow> ev list \<Rightarrow> bool" where
  "rings_with dw c x tr \<longleftrightarrow>
     (let rg = ll_region_of (dw_chip dw) (ch_dir c) (ch_id c); (src, dst, l) = x in
      \<exists>es es' rest. tr = es @ es' @ Writel (core_bell dw c) (core_bell_val dw c) # rest \<and>
        (\<forall>e \<in> set es. res_act e = Neutral) \<and>
        (\<forall>m. read_lli (fold store_ev es' m) (vaddr rg) =
               Some (BIT 0 OR (BIT 3 OR (if chip_local (dw_chip dw) then 0 else BIT 4)), l, src, dst) \<and>
             read_llp (fold store_ev es' m) (vaddr rg + 24) = Some (BIT 2 OR BIT 1, paddr rg)))"

lemma programmed_rings:
  assumes p: "programmed env c x w w'" and core: "dw_core (env_dw env) \<noteq> CORE_NONE" and id: "ch_id c < 8"
    and clear: "vaddr rg + 40 \<le> reg_base (dw_chip (env_dw env)) \<or> reg_base (dw_chip (env_dw env)) + 0x1200 \<le> vaddr rg"
    and rg: "rg = ll_region_of (dw_chip (env_dw env)) (ch_dir c) (ch_id c)"
  shows "rings_with (env_dw env) c x (new_evs w w')"
proof -
  let ?dw = "env_dw env" and ?chip = "dw_chip (env_dw env)"
  obtain ck w1 fs where 1: "single_chunk ?chip c x ck" "plain w w1"
    "trace w' = trace (start_chunk ?dw c True ck w1) @ fs"
    using p unfolding programmed_def by blast
  obtain es where es: "trace w1 = trace w @ es" "\<forall>e \<in> set es. res_act e = Neutral"
    using 1(2) unfolding plain_def by blast
  have len: "length (bursts ck) = 1" "ll_region ck = rg\<lparr>rg_sz := rg_sz (ll_region ck)\<rparr>"
    "bursts_alloc ck = 1" "ck_burst ck \<noteq> None"
    using 1(1) by (auto simp: single_chunk_def chunk_wf_def rg dest: arg_cong [where f = length])
  have ok: "burst_count_ok ck" "ll_clear ?chip ck"
  proof -
    show "burst_count_ok ck"
      by (simp add: burst_count_ok_def len)
    have "vaddr (ll_region ck) = vaddr rg"
      by (subst len(2)) simp
    then show "ll_clear ?chip ck"
      using clear len(1) by (simp add: ll_clear_def add.commute)
  qed
  let ?w2 = "dw_edma_core_start ?dw c ck True w1"
  have io: "io_only w1 ?w2"
    by (rule core_start_io [OF core])
  obtain es' where es': "new_evs w1 ?w2 = es' @ [Writel (core_bell ?dw c) (core_bell_val ?dw c)]"
    using core_start_bell [OF core ok id] by blast
  have ll: "ll_holds ?chip ck (fold store_ev es' m)" for m
    using core_start_bell [OF core ok id, of w1 True m] es' by auto
  have "trace (start_chunk ?dw c True ck w1) = trace ?w2"
    using outside_free_burst [OF len(4), of ?w2] by (simp add: start_chunk_def outside_def kfree_def)
  then have "trace w' = trace w @ es @ es' @ Writel (core_bell ?dw c) (core_bell_val ?dw c) # fs"
    using 1(3) io_only_frame(8) [OF io] es(1) es' by simp
  then have ev: "new_evs w w' = es @ es' @ Writel (core_bell ?dw c) (core_bell_val ?dw c) # fs"
    by (rule new_evsI)
  obtain src dst l where x: "x = (src, dst, l)"
    by (cases x)
  show ?thesis
    using single_chunk_list [OF 1(1) [unfolded x] ll] es(2) unfolding rings_with_def ev x Let_def prod.case
    by (intro exI [of _ es] exI [of _ es'] exI [of _ fs]) auto
qed

subsection \<open>Lemmas: the interrupt and the tasklet\<close>

text \<open>The interrupt of the one chunk completes the descriptor; then the tasklet runs the callback.\<close>

lemma finish_event:
  assumes w: "waiting w0 a st" "dma_complete (ax_dc st) = 0" and i: "desc_issued (chan_vc (ax_chan st)) = [d]" "chunks d = []"
    and e: "e = Ev_done \<or> e = Ev_abort"
  obtains c' d' where "xfer_event dw e st = Some (st\<lparr>ax_chan := c', ax_w := ax_w st\<rparr>)"
    "desc_completed (chan_vc c') = [d']" "vd_addr d' = a"
proof -
  let ?c = "ax_chan st" and ?d' = "d\<lparr>vd_cookie := 0\<rparr>"
  have inv: "chan_inv w0 ?c (ax_w st)" "ch_request ?c = EDMA_REQ_NONE" "desc_completed (chan_vc ?c) = []" "vd_addr d = a"
    using w i(1) by (auto simp: waiting_def Let_def)
  have ok: "desc_ok d" "1 \<le> sint (vd_cookie d)"
    using inv(1) i(1) by (auto simp: chan_inv_def chan_ok_def vchan_descs_def)
  from e show ?thesis
  proof
    assume "e = Ev_done"
    then have "xfer_event dw e st = Some (st\<lparr>ax_chan := completed d ?c\<lparr>ch_st := EDMA_ST_IDLE\<rparr>, ax_w := ax_w st\<rparr>)"
      using done_last_chunk [OF i(1) inv(2) ok(1) i(2) ok(2)] i(1) by simp
    then show ?thesis
      by (rule that [of _ ?d']) (simp_all add: completed_def inv)
  next
    assume "e = Ev_abort"
    then have "xfer_event dw e st =
        Some (st\<lparr>ax_chan := completed d ?c\<lparr>ch_request := EDMA_REQ_NONE, ch_st := EDMA_ST_IDLE\<rparr>, ax_w := ax_w st\<rparr>)"
      using complete_head_ok [OF i(1) ok(2)] i(1) by (simp add: dw_edma_abort_interrupt_def completed_def)
    then show ?thesis
      by (rule that [of _ ?d']) (simp_all add: completed_def inv)
  qed
qed

lemma wait_finishes:
  assumes w: "waiting w0 a st" "dma_complete (ax_dc st) = 0" and i: "desc_issued (chan_vc (ax_chan st)) = [d]" "chunks d = []"
    and e: "e = Ev_done \<or> e = Ev_abort"
  shows "\<exists>st'. wait_completion dw (e # Ev_tasklet # evs) st = Some (True, evs, st')"
proof -
  obtain c' d' where 1: "xfer_event dw e st = Some (st\<lparr>ax_chan := c', ax_w := ax_w st\<rparr>)"
    "desc_completed (chan_vc c') = [d']" "vd_addr d' = a"
    using finish_event [OF assms] .
  have a: "a \<in> set (ax_cbs st)"
    using w(1) by (simp add: waiting_def Let_def)
  let ?st1 = "st\<lparr>ax_chan := c', ax_w := ax_w st\<rparr>"
  obtain dc2 w2 where cb: "akida_dma_callback (ax_dc st) (ax_w st) = (dc2, w2)" by fastforce
  have dc2: "dma_complete dc2 = 1"
    using cb w(2) by (auto simp: akida_dma_callback_def split: prod.splits)
  obtain st2 where 2: "xfer_event dw Ev_tasklet ?st1 = Some st2" "ax_dc st2 = dc2"
    using 1(2,3) a cb by simp
  have "wait_completion dw (e # Ev_tasklet # evs) st = wait_completion dw (Ev_tasklet # evs) ?st1"
    using e w(2) 1(1) by (subst wait_completion.simps) auto
  also have "\<dots> = wait_completion dw evs st2"
    using w(2) 2(1) by (subst wait_completion.simps) simp
  also have "\<dots> = Some (True, evs, st2\<lparr>ax_dc := dc2\<lparr>dma_complete := 0\<rparr>\<rparr>)"
    by (subst wait_completion.simps) (simp add: 2(2) dc2)
  finally show ?thesis by blast
qed

text \<open>The transfer gets to the waiting point when the mapping and the allocations succeed and the direction fits.\<close>

lemma transfer_starts:
  assumes env: "env_ok env" and q: "quiet w0 (ax_chan st) (ax_w st)" and kz: "\<forall>a. kz_ok (ax_w st) a"
    and dir: "transfer_dir_ok (dw_chip (env_dw env)) (ax_chan st) (dma_xfer_dir (ax_dc st))"
    and map: "0 \<le> kret (ax_w st) (trace (ax_w st)) (K_dma_map_single buf len (dma_data_dir (ax_dc st)))"
  obtains st3 d3 t where "waiting w0 t st3" "dma_complete (ax_dc st3) = 0" "desc_issued (chan_vc (ax_chan st3)) = [d3]"
    "chunks d3 = []" "configured (ax_chan st3)" "same_side st st3"
    "\<And>Q. goes Q (ax_w st) (add_mset (mapping (ax_dc st3)) Q) (ax_w st3)"
    "\<And>evs. akida_dma_transfer env evs dev_addr len buf st = after_wait env (wait_completion (env_dw env) evs st3)"
proof -
  let ?dir = "dma_xfer_dir (ax_dc st)" and ?chip = "dw_chip (env_dw env)"
  have "?dir \<noteq> DMA_MEM_TO_MEM"
    using dir by (cases "ch_dir (ax_chan st)") (auto simp: transfer_dir_ok_def split: if_splits)
  then obtain g where g: "xfer_sconfig ?dir dev_addr = Some g"
    by (cases ?dir) (simp_all add: xfer_sconfig_def)
  obtain a w1 where 1: "kcall (K_dma_map_single buf len (dma_data_dir (ax_dc st))) (ax_w st) = (a, w1)" by fastforce
  have a: "0 \<le> a"
    using map 1 by (auto simp: kcall_def Let_def)
  define cfg where "cfg = (if ?dir = DMA_MEM_TO_DEV then g\<lparr>cfg_src_addr := of_int a\<rparr> else g\<lparr>cfg_dst_addr := of_int a\<rparr>)"
  define st1 where "st1 = st\<lparr>ax_dc := (ax_dc st)\<lparr>dma_len := len, dma_buf := of_int a\<rparr>, ax_w := w1,
      ax_chan := (ax_chan st)\<lparr>ch_config := cfg, configured := True\<rparr>\<rparr>"
  have run: "akida_dma_transfer env evs dev_addr len buf st = xfer_rest env evs ?dir st1" for evs
    using transfer_rest [OF g 1 a, of env evs] by (simp add: cfg_def st1_def)
  have q1: "quiet w0 (ax_chan st1) (ax_w st1)" and c1: "configured (ax_chan st1)"
    using quiet_io [OF q kcall_frame(5) [OF 1]] by (simp_all add: st1_def quiet_frame)
  obtain tx c2 w2 where 2: "dw_edma_device_prep_slave_sg (env_k env) ?chip (ax_chan st1)
      [(dma_buf (ax_dc st1), ucast (dma_len (ax_dc st1)))] 1 ?dir DMA_PREP_INTERRUPT (ax_w st1) = (tx, c2, w2)"
    by (metis prod_cases3)
  have "kz_ok (ax_w st1) b" for b
    using kz io_only_frame(4) [OF kcall_frame(5) [OF 1]] by (simp add: st1_def)
  then have "tx \<noteq> None"
    using device_transfer_cases [OF quiet_lists(7,8) [OF q1] 2 [unfolded dw_edma_device_prep_slave_sg_def]] dir
    by (simp add: st1_def transfer_dir_ok_def transfer_xfer_ok_def)
  then obtain t where t: "tx = Some t" by blast
  obtain st3 d3 where s: "waiting w0 t st3" "dma_complete (ax_dc st3) = 0" "desc_issued (chan_vc (ax_chan st3)) = [d3]"
    "chunks d3 = []" "configured (ax_chan st3)" "same_side st1 st3" "mapping (ax_dc st3) = mapping (ax_dc st1)"
    "\<And>Q. goes Q (ax_w st1) Q (ax_w st3)"
    "\<And>evs. xfer_rest env evs ?dir st1 = after_wait env (wait_completion (env_dw env) evs st3)"
    by (rule rest_start [OF env q1 c1 2 [unfolded t]]) blast
  have "goes Q (ax_w st) (add_mset (mapping (ax_dc st1)) Q) w1" for Q
    by (rule goes_kcall [OF 1]) (use a in \<open>simp add: mapping_def st1_def\<close>)
  then have "goes Q (ax_w st) (add_mset (mapping (ax_dc st3)) Q) (ax_w st3)" for Q
    using goes_trans s(7,8) by (simp add: st1_def) blast
  moreover have "same_side st st3"
    using s(6) by (simp add: same_side_def st1_def)
  ultimately show ?thesis
    using that [OF s(1-5)] s(9) by (simp add: run)
qed

lemma programmed_extends:
  assumes "programmed env c x w w'" "dw_core (env_dw env) \<noteq> CORE_NONE"
  shows "trace w' = trace w @ new_evs w w'"
proof -
  obtain ck w1 es where 1: "plain w w1" "trace w' = trace (start_chunk (env_dw env) c True ck w1) @ es"
    using assms(1) unfolding programmed_def by blast
  have "plain w (start_chunk (env_dw env) c True ck w1)"
    by (rule plain_trans [OF 1(1) plain_start_chunk [OF assms(2)]])
  then obtain fs where "trace (start_chunk (env_dw env) c True ck w1) = trace w @ fs"
    unfolding plain_def by blast
  then have "trace w' = trace w @ (fs @ es)"
    using 1(2) by simp
  then show ?thesis
    by (simp add: new_evs_def)
qed

text \<open>The state in which a transfer finds its channel: nothing queued, nothing running.\<close>

definition idle :: "dw_edma_chan \<Rightarrow> world \<Rightarrow> bool" where
  "idle c w \<longleftrightarrow> vchan_descs (chan_vc c) = [] \<and> ch_request c = EDMA_REQ_NONE \<and> ch_st c = EDMA_ST_IDLE \<and>
     0 < ll_max c \<and> heap_ok w"

lemma idle_quiet: "idle c w \<Longrightarrow> quiet w c w"
  by (auto simp: idle_def quiet_def chan_inv_def chan_ok_def chan_addrs_def vchan_descs_def intro: own_refl)

lemma quiet_idle:
  assumes "quiet w0 c w"
  shows "idle c w" "live w = live w0" "mem_fault w = mem_fault w0"
proof -
  have "own w0 [] w"
    using assms unfolding quiet_def chan_inv_def chan_addrs_def by auto
  then show "live w = live w0" "mem_fault w = mem_fault w0"
    using own_Nil by blast+
  show "idle c w"
    using quiet_lists [OF assms] assms by (simp add: idle_def quiet_def)
qed

lemma ledger_twice:
  assumes "goes R w R' w1" "trace w2 = trace w1 @ e # es" "res_act e = Release r" "r \<notin># R'"
  shows "ledger R (new_evs w w2) = None"
proof -
  obtain fs where fs: "trace w1 = trace w @ fs" "ledger R fs = Some R'"
    using assms(1) unfolding goes_def by blast
  have "new_evs w w2 = fs @ e # es"
    by (rule new_evsI) (simp add: assms(2) fs(1))
  then show ?thesis
    using fs(2) assms(3,4) by (simp add: ledger_append)
qed

lemma late_complete:
  assumes "desc_issued (chan_vc c) = [d]" "chunks d = []" "desc_ok d" "1 \<le> sint (vd_cookie d)"
    "desc_completed (chan_vc c) = []" "ch_request c \<noteq> EDMA_REQ_PAUSE" "e = Ev_done \<or> e = Ev_abort" "ax_chan st = c"
  obtains c' d' where "xfer_event dw e st = Some (st\<lparr>ax_chan := c', ax_w := ax_w st\<rparr>)"
    "desc_completed (chan_vc c') = [d']" "vd_addr d' = vd_addr d"
proof -
  let ?d' = "d\<lparr>vd_cookie := 0\<rparr>"
  note h = complete_head_ok [OF assms(1,4)]
  have z: "chunks_alloc d = 0"
    using chunks_alloc_zero [OF assms(3)] assms(2) by simp
  from assms(7) show ?thesis
  proof
    assume e: "e = Ev_done"
    show ?thesis
    proof (cases "ch_request c")
      case EDMA_REQ_NONE
      then have "xfer_event dw e st = Some (st\<lparr>ax_chan := completed d c\<lparr>ch_st := EDMA_ST_IDLE\<rparr>, ax_w := ax_w st\<rparr>)"
        using done_last_chunk [OF assms(1) _ assms(3,2,4)] assms(1,8) e by simp
      then show ?thesis
        by (rule that [of _ ?d']) (simp_all add: completed_def assms(5))
    next
      case EDMA_REQ_STOP
      then have "xfer_event dw e st =
          Some (st\<lparr>ax_chan := completed d c\<lparr>ch_request := EDMA_REQ_NONE, ch_st := EDMA_ST_IDLE\<rparr>, ax_w := ax_w st\<rparr>)"
        using h e assms(1,8) by (simp add: dw_edma_done_interrupt_def completed_def)
      then show ?thesis
        by (rule that [of _ ?d']) (simp_all add: completed_def assms(5))
    qed (use assms(6) in simp)
  next
    assume e: "e = Ev_abort"
    then have "xfer_event dw e st =
        Some (st\<lparr>ax_chan := completed d c\<lparr>ch_request := EDMA_REQ_NONE, ch_st := EDMA_ST_IDLE\<rparr>, ax_w := ax_w st\<rparr>)"
      using h assms(1,8) by (simp add: dw_edma_abort_interrupt_def completed_def)
    then show ?thesis
      by (rule that [of _ ?d']) (simp_all add: completed_def assms(5))
  qed
qed

lemma terminate_shape:
  assumes "dw_edma_device_terminate_all dw c w = (r, c', w')" "ch_request c = EDMA_REQ_NONE"
  shows "chan_vc c' = chan_vc c \<and> ch_request c' \<noteq> EDMA_REQ_PAUSE"
  using assms by (auto simp: dw_edma_device_terminate_all_def split: if_splits prod.splits)

lemma transfer_finishes:
  assumes "env_ok env" "idle (ax_chan st) (ax_w st)" "\<forall>a. kz_ok (ax_w st) a"
    and "transfer_dir_ok (dw_chip (env_dw env)) (ax_chan st) (dma_xfer_dir (ax_dc st))"
    and "0 \<le> kret (ax_w st) (trace (ax_w st)) (K_dma_map_single buf len (dma_data_dir (ax_dc st)))"
    and "e = Ev_done \<or> e = Ev_abort"
  shows "\<exists>st'. akida_dma_transfer env (e # Ev_tasklet # evs) dev_addr len buf st = Some (0, evs, st')"
proof -
  obtain st3 d3 t where s: "waiting (ax_w st) t st3" "dma_complete (ax_dc st3) = 0" "desc_issued (chan_vc (ax_chan st3)) = [d3]"
    "chunks d3 = []" "\<And>evs. akida_dma_transfer env evs dev_addr len buf st = after_wait env (wait_completion (env_dw env) evs st3)"
    using transfer_starts [OF assms(1) idle_quiet [OF assms(2)] assms(3-5)] by metis
  show ?thesis
    using wait_finishes [OF s(1-4) assms(6), of "env_dw env" evs] by (auto simp: s(5) after_wait_def)
qed

subsection \<open>Properties\<close>

text \<open>C8: Whatever happens while it waits, in any order and including nothing at all, a transfer on an idle
  channel returns success, -EINVAL or -ETIMEDOUT, the buffer is mapped and unmapped the same number of
  times, and unless it timed out the channel is idle again and every allocation is given back.\<close>

theorem akida_transfer_balanced:
  assumes "env_ok env" "idle (ax_chan st) (ax_w st)"
  shows "case akida_dma_transfer env evs dev_addr len buf st of None \<Rightarrow> False
    | Some (r, _, st') \<Rightarrow>
        ledger R (new_evs (ax_w st) (ax_w st')) = Some R \<and> (r = 0 \<or> r = - EINVAL \<or> r = - ETIMEDOUT) \<and>
        (r \<noteq> - ETIMEDOUT \<longrightarrow> idle (ax_chan st') (ax_w st') \<and> live (ax_w st') = live (ax_w st) \<and>
           mem_fault (ax_w st') = mem_fault (ax_w st))"
proof -
  obtain r evs' st' where r: "akida_dma_transfer env evs dev_addr len buf st = Some (r, evs', st')"
    "goes R (ax_w st) R (ax_w st')"
    "r = - EINVAL \<or> r = 0 \<or> r = - ETIMEDOUT"
    "r \<noteq> - ETIMEDOUT \<longrightarrow> quiet (ax_w st) (ax_chan st') (ax_w st')"
    using transfer_run [OF assms(1) idle_quiet [OF assms(2)], of evs dev_addr len buf R]
    unfolding xfer_result_def by (auto simp: EINVAL_def ETIMEDOUT_def)
  show ?thesis
    using r(3,4) quiet_idle [of "ax_w st" "ax_chan st'" "ax_w st'"] goes_new_evs [OF r(2)] by (auto simp: r(1))
qed

text \<open>C7: A transfer that did not fail before the hardware was started has rung the doorbell once the
  linked-list memory of the channel held one element with the length, the device address and the bus
  address of the mapped buffer, in the direction of the channel, with the interrupts enabled, and the
  link element behind it.\<close>

theorem akida_transfer_programs:
  assumes "env_ok env" "idle (ax_chan st) (ax_w st)" "ch_id (ax_chan st) < 8"
    and "rg = ll_region_of (dw_chip (env_dw env)) (ch_dir (ax_chan st)) (ch_id (ax_chan st))"
    and "vaddr rg + 40 \<le> reg_base (dw_chip (env_dw env)) \<or> reg_base (dw_chip (env_dw env)) + 0x1200 \<le> vaddr rg"
    and "akida_dma_transfer env evs dev_addr len buf st = Some (r, evs', st')" "r \<noteq> - EINVAL"
  shows "\<exists>a tr. 0 \<le> a \<and>
    new_evs (ax_w st) (ax_w st') = Kcall (K_dma_map_single buf len (dma_data_dir (ax_dc st))) a # tr \<and>
    rings_with (env_dw env) (ax_chan st)
      (if dma_xfer_dir (ax_dc st) = DMA_DEV_TO_MEM
       then (dw_edma_get_pci_address (dw_chip (env_dw env)) dev_addr, of_int a, ucast len)
       else (of_int a, dw_edma_get_pci_address (dw_chip (env_dw env)) dev_addr, ucast len)) tr"
proof -
  let ?x = "\<lambda>a. xfer_burst (dw_chip (env_dw env)) (dma_xfer_dir (ax_dc st)) dev_addr (of_int a) len"
  obtain a w1 where 1: "0 \<le> a" "kcall (K_dma_map_single buf len (dma_data_dir (ax_dc st))) (ax_w st) = (a, w1)"
    "programmed env (ax_chan st) (?x a) w1 (ax_w st')"
    using transfer_run [OF assms(1) idle_quiet [OF assms(2)], of evs dev_addr len buf "{#}"] assms(6,7)
    unfolding xfer_result_def by (auto simp: EINVAL_def ETIMEDOUT_def)
  have core: "dw_core (env_dw env) \<noteq> CORE_NONE"
    using assms(1) by (simp add: env_ok_def)
  have r: "rings_with (env_dw env) (ax_chan st) (?x a) (new_evs w1 (ax_w st'))"
    by (rule programmed_rings [OF 1(3) core assms(3,5,4)])
  have "trace (ax_w st') = trace w1 @ new_evs w1 (ax_w st')"
    by (rule programmed_extends [OF 1(3) core])
  moreover have "trace w1 = trace (ax_w st) @ [Kcall (K_dma_map_single buf len (dma_data_dir (ax_dc st))) a]"
    using 1(2) by (auto simp: kcall_def Let_def)
  ultimately have "new_evs (ax_w st) (ax_w st') =
      Kcall (K_dma_map_single buf len (dma_data_dir (ax_dc st))) a # new_evs w1 (ax_w st')"
    by (intro new_evsI) simp
  then show ?thesis
    using 1(1) r unfolding xfer_burst_def by blast
qed

text \<open>C16: A transfer whose buffer could be mapped and whose request could be allocated returns success when
  the engine's interrupt and the tasklet come before the timeout.\<close>

theorem akida_transfer_completes:
  assumes "env_ok env" "idle (ax_chan st) (ax_w st)" "\<forall>a. kz_ok (ax_w st) a"
    and "transfer_dir_ok (dw_chip (env_dw env)) (ax_chan st) (dma_xfer_dir (ax_dc st))"
    and "0 \<le> kret (ax_w st) (trace (ax_w st)) (K_dma_map_single buf len (dma_data_dir (ax_dc st)))"
  shows "\<exists>st'. akida_dma_transfer env (Ev_done # Ev_tasklet # evs) dev_addr len buf st = Some (0, evs, st')"
  by (rule transfer_finishes [OF assms]) simp

text \<open>C17: An abort is reported as success too: when the engine aborts the transfer, the descriptor is
  completed, its callback runs and the caller is told that the data arrived.\<close>

theorem akida_transfer_abort_is_success:
  assumes "env_ok env" "idle (ax_chan st) (ax_w st)" "\<forall>a. kz_ok (ax_w st) a"
    and "transfer_dir_ok (dw_chip (env_dw env)) (ax_chan st) (dma_xfer_dir (ax_dc st))"
    and "0 \<le> kret (ax_w st) (trace (ax_w st)) (K_dma_map_single buf len (dma_data_dir (ax_dc st)))"
  shows "\<exists>st'. akida_dma_transfer env (Ev_abort # Ev_tasklet # evs) dev_addr len buf st = Some (0, evs, st')"
  by (rule transfer_finishes [OF assms]) simp

text \<open>A wait that times out unmaps the buffer and returns, with its descriptor still issued on the
  channel and its callback still registered.\<close>

lemma transfer_times_out:
  assumes "env_ok env" "idle (ax_chan st) (ax_w st)" "\<forall>a. kz_ok (ax_w st) a"
    and "transfer_dir_ok (dw_chip (env_dw env)) (ax_chan st) (dma_xfer_dir (ax_dc st))"
    and "0 \<le> kret (ax_w st) (trace (ax_w st)) (K_dma_map_single buf len (dma_data_dir (ax_dc st)))"
  obtains st5 d3 where "akida_dma_transfer env [] dev_addr len buf st = Some (- ETIMEDOUT, [], st5)"
    "goes {#} (ax_w st) {#} (ax_w st5)" "vd_addr d3 \<in> set (ax_cbs st5)"
    "chunks d3 = []" "desc_ok d3" "1 \<le> sint (vd_cookie d3)"
    "desc_issued (chan_vc (ax_chan st5)) = [d3]" "desc_completed (chan_vc (ax_chan st5)) = []"
    "ch_request (ax_chan st5) \<noteq> EDMA_REQ_PAUSE"
proof -
  have core: "dw_core (env_dw env) \<noteq> CORE_NONE"
    using assms(1) by (simp add: env_ok_def)
  obtain st3 d3 t where s: "waiting (ax_w st) t st3" "dma_complete (ax_dc st3) = 0" "desc_issued (chan_vc (ax_chan st3)) = [d3]"
    "chunks d3 = []" "\<And>Q. goes Q (ax_w st) (add_mset (mapping (ax_dc st3)) Q) (ax_w st3)"
    "\<And>evs. akida_dma_transfer env evs dev_addr len buf st = after_wait env (wait_completion (env_dw env) evs st3)"
    using transfer_starts [OF assms(1) idle_quiet [OF assms(2)] assms(3-5)] by metis
  let ?c = "ax_chan st3"
  have w: "chan_inv (ax_w st) ?c (ax_w st3)" "ch_request ?c = EDMA_REQ_NONE" "vd_addr d3 = t" "t \<in> set (ax_cbs st3)"
    "desc_completed (chan_vc ?c) = []"
    using s(1-3) by (auto simp: waiting_def Let_def)
  have ok: "desc_ok d3" "1 \<le> sint (vd_cookie d3)"
    using w(1) s(3) by (auto simp: chan_inv_def chan_ok_def vchan_descs_def)
  obtain q c4 w4 where 4: "dw_edma_device_terminate_all (env_dw env) ?c (ax_w st3) = (q, c4, w4)"
    by (metis prod_cases3)
  note shape = terminate_shape [OF 4 w(2)]
  define st4 where "st4 = st3\<lparr>ax_chan := c4, ax_w := w4\<rparr>"
  have M: "mapping (ax_dc st4) = mapping (ax_dc st3)"
    by (simp add: st4_def)
  have g4: "goes {#} (ax_w st) {#mapping (ax_dc st4)#} (ax_w st4)"
    using goes_trans [OF s(5) plain_goes [OF plain_terminate [OF core 4]], of "{#}"] M by (simp add: st4_def)
  obtain st5 where 5: "xfer_err (- ETIMEDOUT) [] st4 = Some (- ETIMEDOUT, [], st5)"
    "goes {#mapping (ax_dc st4)#} (ax_w st4) ({#mapping (ax_dc st4)#} - {#mapping (ax_dc st4)#}) (ax_w st5)"
    "ax_dc st5 = ax_dc st4" "ax_chan st5 = ax_chan st4" "ax_cbs st5 = ax_cbs st4"
    by (rule err_goes [of st4 "{#mapping (ax_dc st4)#}"]) auto
  have cbs5: "t \<in> set (ax_cbs st5)"
    using w(4) by (simp add: 5(5) st4_def)
  have g5: "goes {#} (ax_w st) {#} (ax_w st5)"
    using goes_trans [OF g4] 5(2) by simp
  have run: "akida_dma_transfer env [] dev_addr len buf st = Some (- ETIMEDOUT, [], st5)"
    using 4 5(1) waiting_timeout [OF s(2), of "[]"] by (simp add: s(6) after_wait_def st4_def)
  have c5: "desc_issued (chan_vc (ax_chan st5)) = [d3]" "desc_completed (chan_vc (ax_chan st5)) = []"
    "ch_request (ax_chan st5) \<noteq> EDMA_REQ_PAUSE"
    using shape s(3) w(5) by (simp_all add: 5(4) st4_def)
  show thesis
    using that [OF run g5 _ s(4) ok c5] cbs5 w(3) by simp
qed

text \<open>C18: After a timeout the descriptor is still queued: an interrupt that comes late, done or abort, makes
  the tasklet run the callback, which unmaps the buffer a second time.\<close>

theorem akida_timeout_unmaps_twice:
  assumes "env_ok env" "idle (ax_chan st) (ax_w st)" "\<forall>a. kz_ok (ax_w st) a"
    and "transfer_dir_ok (dw_chip (env_dw env)) (ax_chan st) (dma_xfer_dir (ax_dc st))"
    and "0 \<le> kret (ax_w st) (trace (ax_w st)) (K_dma_map_single buf len (dma_data_dir (ax_dc st)))"
    and "e = Ev_done \<or> e = Ev_abort"
  shows "\<exists>evs st1 st2 st3. akida_dma_transfer env [] dev_addr len buf st = Some (- ETIMEDOUT, evs, st1) \<and>
    ledger {#} (new_evs (ax_w st) (ax_w st1)) = Some {#} \<and>
    xfer_event (env_dw env) e st1 = Some st2 \<and> xfer_event (env_dw env) Ev_tasklet st2 = Some st3 \<and>
    ledger {#} (new_evs (ax_w st) (ax_w st3)) = None"
proof -
  obtain st5 d3 where st5: "akida_dma_transfer env [] dev_addr len buf st = Some (- ETIMEDOUT, [], st5)"
    "goes {#} (ax_w st) {#} (ax_w st5)" "vd_addr d3 \<in> set (ax_cbs st5)" "chunks d3 = []" "desc_ok d3" "1 \<le> sint (vd_cookie d3)"
    and c5: "desc_issued (chan_vc (ax_chan st5)) = [d3]" "desc_completed (chan_vc (ax_chan st5)) = []"
    "ch_request (ax_chan st5) \<noteq> EDMA_REQ_PAUSE"
    by (rule transfer_times_out [OF assms(1-5)])
  obtain c6 d6 where 6: "xfer_event (env_dw env) e st5 = Some (st5\<lparr>ax_chan := c6, ax_w := ax_w st5\<rparr>)"
    "desc_completed (chan_vc c6) = [d6]" "vd_addr d6 = vd_addr d3"
    using late_complete [OF c5(1) st5(4-6) c5(2,3) assms(6) refl] by metis
  let ?st6 = "st5\<lparr>ax_chan := c6, ax_w := ax_w st5\<rparr>" and ?dc = "ax_dc st5"
  obtain r7 w7 where 7: "kcall (K_dma_unmap_single (dma_buf ?dc) (dma_len ?dc) (dma_data_dir ?dc)) (ax_w st5) = (r7, w7)"
    by fastforce
  obtain st8 where 8: "xfer_event (env_dw env) Ev_tasklet ?st6 = Some st8" "ax_w st8 = vchan_free_desc d6 w7"
    using 6(2,3) st5(3) 7 by (simp add: akida_dma_callback_def)
  obtain es where es: "trace (vchan_free_desc d6 w7) = trace w7 @ es"
    using plain_free_desc [of w7 d6] unfolding plain_def by blast
  have "trace w7 = trace (ax_w st5) @ [Kcall (K_dma_unmap_single (dma_buf ?dc) (dma_len ?dc) (dma_data_dir ?dc)) r7]"
    using 7 by (auto simp: kcall_def Let_def)
  then have "ledger {#} (new_evs (ax_w st) (ax_w st8)) = None"
    using ledger_twice [OF st5(2), of "ax_w st8" "Kcall (K_dma_unmap_single (dma_buf ?dc) (dma_len ?dc) (dma_data_dir ?dc)) r7" es
        "mapping ?dc"] es by (simp add: 8(2) mapping_def)
  then show ?thesis
    using st5(1) 6(1) 8(1) goes_new_evs [OF st5(2)] by blast
qed

subsection \<open>Witnesses\<close>

definition ex_env :: akida_env where
  "ex_env = \<lparr>env_k = ex_kapi, env_submit = (\<lambda>d vc. (fst (dma_cookie_assign d vc), ex_submit d vc)), env_dw = ex_dw\<rparr>"

definition ex_dc :: akida_dma_chan where
  "ex_dc = \<lparr>dc_chan = 1, dma_complete = 0, dma_xfer_dir = DMA_DEV_TO_MEM, dma_data_dir = DMA_FROM_DEVICE,
     dma_buf = 0, dma_len = 0, is_used = True\<rparr>"

definition ex_xfer_st :: akida_xfer where
  "ex_xfer_st = \<lparr>ax_dc = ex_dc, ax_chan = ex_chan EDMA_DIR_WRITE 0, ax_cbs = [], ax_w = ex_world\<rparr>"

lemma ex_env_ok: "env_ok ex_env"
  using ex_submit_ok by (simp add: env_ok_def ex_env_def)

lemma ex_xfer_ok:
  "idle (ax_chan ex_xfer_st) (ax_w ex_xfer_st)" "\<forall>a. kz_ok (ax_w ex_xfer_st) a"
  "transfer_dir_ok (dw_chip (env_dw ex_env)) (ax_chan ex_xfer_st) (dma_xfer_dir (ax_dc ex_xfer_st))"
  "0 \<le> kret (ax_w ex_xfer_st) (trace (ax_w ex_xfer_st)) (K_dma_map_single 7 64 (dma_data_dir (ax_dc ex_xfer_st)))"
  using ex_heap_ok
  by (simp_all add: ex_xfer_st_def ex_env_def idle_def vchan_descs_def transfer_dir_ok_def ex_dc_def ex_chan_def ex_vc_def
      ex_world_def ex_chip_def chip_local_def DW_EDMA_CHIP_LOCAL_def)

lemma akida_transfer_balanced_witness:
  "case akida_dma_transfer ex_env [Ev_abort, Ev_timeout] 0x1000 64 7 ex_xfer_st of None \<Rightarrow> False
   | Some (r, _, st') \<Rightarrow> ledger {#} (new_evs (ax_w ex_xfer_st) (ax_w st')) = Some {#}"
  using akida_transfer_balanced [OF ex_env_ok ex_xfer_ok(1), where R = "{#}" and evs = "[Ev_abort, Ev_timeout]" and
      dev_addr = "0x1000" and len = "64" and buf = "7"]
  by (auto split: option.splits)

lemma akida_transfer_programs_witness:
  "\<exists>r evs' st' a tr. akida_dma_transfer ex_env [Ev_done, Ev_tasklet] 0x1000 64 7 ex_xfer_st = Some (r, evs', st') \<and>
    new_evs (ax_w ex_xfer_st) (ax_w st') = Kcall (K_dma_map_single 7 64 DMA_FROM_DEVICE) a # tr \<and>
    rings_with ex_dw (ex_chan EDMA_DIR_WRITE 0) (0x1000, of_int a, 64) tr"
proof -
  obtain st' where r: "akida_dma_transfer ex_env [Ev_done, Ev_tasklet] 0x1000 64 7 ex_xfer_st = Some (0, [], st')"
    using transfer_finishes [OF ex_env_ok ex_xfer_ok, where e = Ev_done and evs = "[]"] by blast
  have *: "ch_id (ax_chan ex_xfer_st) < 8"
    "vaddr (ex_region 0) + 40 \<le> reg_base (dw_chip (env_dw ex_env)) \<or>
     reg_base (dw_chip (env_dw ex_env)) + 0x1200 \<le> vaddr (ex_region 0)"
    "ex_region 0 = ll_region_of (dw_chip (env_dw ex_env)) (ch_dir (ax_chan ex_xfer_st)) (ch_id (ax_chan ex_xfer_st))"
    by (simp_all add: ex_xfer_st_def ex_env_def ex_region_def ll_region_of_def ex_chip_def)
  show ?thesis
    using akida_transfer_programs [OF ex_env_ok ex_xfer_ok(1) *(1,3,2) r] r
    by (auto simp: ex_xfer_st_def ex_env_def ex_dc_def EINVAL_def dw_edma_get_pci_address_def ex_chip_def)
qed

lemma akida_transfer_completes_witness:
  "\<exists>st'. akida_dma_transfer ex_env [Ev_done, Ev_tasklet] 0x1000 64 7 ex_xfer_st = Some (0, [], st')"
  by (rule akida_transfer_completes [OF ex_env_ok ex_xfer_ok])

lemma akida_transfer_abort_is_success_witness:
  "\<exists>st'. akida_dma_transfer ex_env [Ev_abort, Ev_tasklet] 0x1000 64 7 ex_xfer_st = Some (0, [], st')"
  by (rule akida_transfer_abort_is_success [OF ex_env_ok ex_xfer_ok])

lemma akida_timeout_unmaps_twice_witness:
  "\<exists>evs st1 st2 st3. akida_dma_transfer ex_env [] 0x1000 64 7 ex_xfer_st = Some (- ETIMEDOUT, evs, st1) \<and>
    xfer_event ex_dw Ev_done st1 = Some st2 \<and> xfer_event ex_dw Ev_tasklet st2 = Some st3 \<and>
    ledger {#} (new_evs (ax_w ex_xfer_st) (ax_w st3)) = None"
  using akida_timeout_unmaps_twice [OF ex_env_ok ex_xfer_ok, where e = Ev_done and dev_addr = "0x1000"] by (fastforce simp: ex_env_def)

end
