(* ===== verification/Akida_Io.thy ===== *)
theory Akida_Io
  imports Xfer_Run
begin

section \<open>Reading and writing device memory (akida-pcie-core.c)\<close>

text \<open>
  The file operations \<open>read\<close> and \<open>write\<close>: the check of the range, the reservation of a client channel,
  the loop that moves the data through a bounce buffer, and the release.

  A channel table is a list, a reserved entry the index into it. While a caller sleeps in
  \<open>wait_event_interruptible_locked\<close>, \<open>Ev_wake\<close> is a wake-up with the table as the others left it,
  \<open>Ev_signal\<close> a signal; \<open>None\<close> is a caller that still sleeps. Every check of the table is under the
  lock of the queue, so it is one step with the reservation. Log messages are left out.
\<close>

definition ERESTARTSYS :: int where "ERESTARTSYS = 512"

subsection \<open>The reserved area\<close>

definition akida_is_allowed :: "u64 \<Rightarrow> u64 \<Rightarrow> bool" where
  "akida_is_allowed addr sz \<longleftrightarrow>
     addr + sz < AKIDA_DMA_RAM_PHY_ADDR + AKIDA_DMA_RAM_PHY_OFFSET \<or>
     AKIDA_DMA_RAM_PHY_ADDR + AKIDA_DMA_RAM_PHY_OFFSET + AKIDA_DMA_RAM_PHY_SIZE \<le> addr"

subsection \<open>The pool of client channels\<close>

fun get_unused_from :: "nat \<Rightarrow> akida_dma_chan list \<Rightarrow> nat option" where
  "get_unused_from i [] = None"
| "get_unused_from i (c # cs) = (if \<not> is_used c then Some i else get_unused_from (Suc i) cs)"

definition akida_get_unsused_chan :: "akida_dma_chan list \<Rightarrow> nat option" where
  "akida_get_unsused_chan tab = get_unused_from 0 tab"

datatype sleep_ev = Ev_wake "akida_dma_chan list" | Ev_signal

fun akida_acquire_chan :: "sleep_ev list \<Rightarrow> akida_dma_chan list \<Rightarrow> ((int + nat) \<times> akida_dma_chan list) option" where
  "akida_acquire_chan evs tab =
     (case akida_get_unsused_chan tab of
        Some i \<Rightarrow> Some (Inr i, tab[i := (tab ! i)\<lparr>is_used := True\<rparr>])
      | None \<Rightarrow>
          (case evs of
             [] \<Rightarrow> None
           | Ev_signal # evs \<Rightarrow> Some (Inl (- ERESTARTSYS), tab)
           | Ev_wake tab' # evs \<Rightarrow> akida_acquire_chan evs tab'))"

declare akida_acquire_chan.simps [simp del]

definition akida_release_chan :: "nat \<Rightarrow> akida_dma_chan list \<Rightarrow> akida_dma_chan list" where
  "akida_release_chan i tab = tab[i := (tab ! i)\<lparr>is_used := False\<rparr>]"

text \<open>The open device: the two tables, the engine channel behind each channel pointer, and the world.\<close>

record akida_dev =
  rxchan :: "akida_dma_chan list"
  txchan :: "akida_dma_chan list"
  ad_chan :: "int \<Rightarrow> dw_edma_chan"
  ad_cbs :: "nat list"
  ad_w :: world

definition akida_acquire_rxchan :: "sleep_ev list \<Rightarrow> akida_dev \<Rightarrow> ((int + nat) \<times> akida_dev) option" where
  "akida_acquire_rxchan evs akida =
     map_option (\<lambda>(r, tab). (r, akida\<lparr>rxchan := tab\<rparr>)) (akida_acquire_chan evs (rxchan akida))"

definition akida_release_rxchan :: "nat \<Rightarrow> akida_dev \<Rightarrow> akida_dev" where
  "akida_release_rxchan i akida = akida\<lparr>rxchan := akida_release_chan i (rxchan akida)\<rparr>"

definition akida_acquire_txchan :: "sleep_ev list \<Rightarrow> akida_dev \<Rightarrow> ((int + nat) \<times> akida_dev) option" where
  "akida_acquire_txchan evs akida =
     map_option (\<lambda>(r, tab). (r, akida\<lparr>txchan := tab\<rparr>)) (akida_acquire_chan evs (txchan akida))"

definition akida_release_txchan :: "nat \<Rightarrow> akida_dev \<Rightarrow> akida_dev" where
  "akida_release_txchan i akida = akida\<lparr>txchan := akida_release_chan i (txchan akida)\<rparr>"

subsection \<open>The loops\<close>

text \<open>
  One round of each loop, with what is left of the events, and the loop: it gives the result, the file
  position and the state. \<open>sz\<close> is the size the caller asked for.
\<close>

definition read_chunk ::
  "akida_env \<Rightarrow> int \<Rightarrow> wait_ev list \<Rightarrow> u64 \<Rightarrow> u64 \<Rightarrow> u64 \<Rightarrow> akida_xfer \<Rightarrow> (int \<times> wait_ev list \<times> akida_xfer) option" where
  "read_chunk env tmp evs pos usr len st =
     (case akida_dma_transfer env evs pos len tmp st of
        None \<Rightarrow> None
      | Some (ret, evs, st) \<Rightarrow>
          if ret < 0 then Some (ret, evs, st)
          else (let (n, w) = kcall (K_copy_to_user usr tmp len) (ax_w st)
                in Some (if n \<noteq> 0 then - EFAULT else 0, evs, st\<lparr>ax_w := w\<rparr>)))"

definition write_chunk ::
  "akida_env \<Rightarrow> int \<Rightarrow> wait_ev list \<Rightarrow> u64 \<Rightarrow> u64 \<Rightarrow> u64 \<Rightarrow> akida_xfer \<Rightarrow> (int \<times> wait_ev list \<times> akida_xfer) option" where
  "write_chunk env tmp evs pos usr len st =
     (let (n, w) = kcall (K_copy_from_user tmp usr len) (ax_w st); st = st\<lparr>ax_w := w\<rparr>
      in if n \<noteq> 0 then Some (- EFAULT, evs, st) else akida_dma_transfer env evs pos len tmp st)"

definition chunk_size :: "u64 \<Rightarrow> u64" where
  "chunk_size left = (if AKIDA_DMA_XFER_MAX_SIZE < left then AKIDA_DMA_XFER_MAX_SIZE else left)"

lemma chunk_size_bounds: "left \<noteq> 0 \<Longrightarrow> 0 < chunk_size left \<and> chunk_size left \<le> left \<and> chunk_size left \<le> 1024"
  by (auto simp: chunk_size_def AKIDA_DMA_XFER_MAX_SIZE_def word_neq_0_conv)

lemma chunk_size_decr: "left \<noteq> 0 \<Longrightarrow> unat (left - chunk_size left) < unat left"
  using chunk_size_bounds [of left] unat_sub [of "chunk_size left" left]
  by (auto simp: word_less_nat_alt word_le_nat_alt)

function read_loop ::
  "akida_env \<Rightarrow> int \<Rightarrow> u64 \<Rightarrow> wait_ev list \<Rightarrow> u64 \<Rightarrow> u64 \<Rightarrow> u64 \<Rightarrow> akida_xfer \<Rightarrow> (int \<times> u64 \<times> akida_xfer) option" where
  "read_loop env tmp sz evs left usr pos st =
     (if left = 0 then Some (sint sz, pos, st)
      else
        (let len = chunk_size left in
         case read_chunk env tmp evs pos usr len st of
           None \<Rightarrow> None
         | Some (ret, evs, st) \<Rightarrow>
             if ret < 0 then Some (ret, pos, st)
             else read_loop env tmp sz evs (left - len) (usr + len) (pos + len) st))"
  by pat_completeness auto
termination
  by (relation "measure (\<lambda>(env, tmp, sz, evs, left, usr, pos, st). unat left)") (use chunk_size_decr in auto)

function write_loop ::
  "akida_env \<Rightarrow> int \<Rightarrow> u64 \<Rightarrow> wait_ev list \<Rightarrow> u64 \<Rightarrow> u64 \<Rightarrow> u64 \<Rightarrow> akida_xfer \<Rightarrow> (int \<times> u64 \<times> akida_xfer) option" where
  "write_loop env tmp sz evs left usr pos st =
     (if left = 0 then Some (sint sz, pos, st)
      else
        (let len = chunk_size left in
         case write_chunk env tmp evs pos usr len st of
           None \<Rightarrow> None
         | Some (ret, evs, st) \<Rightarrow>
             if ret < 0 then Some (ret, pos, st)
             else write_loop env tmp sz evs (left - len) (usr + len) (pos + len) st))"
  by pat_completeness auto
termination
  by (relation "measure (\<lambda>(env, tmp, sz, evs, left, usr, pos, st). unat left)") (use chunk_size_decr in auto)

declare read_loop.simps [simp del] write_loop.simps [simp del]

subsection \<open>The file operations\<close>

text \<open>The transfer state of a client channel, and the device after the transfers.\<close>

definition xfer_state :: "akida_dev \<Rightarrow> akida_dma_chan \<Rightarrow> akida_xfer" where
  "xfer_state akida dc = \<lparr>ax_dc = dc, ax_chan = ad_chan akida (dc_chan dc), ax_cbs = ad_cbs akida, ax_w = ad_w akida\<rparr>"

definition put_xfer :: "akida_xfer \<Rightarrow> akida_dev \<Rightarrow> akida_dev" where
  "put_xfer st akida =
     akida\<lparr>ad_chan := (ad_chan akida)(dc_chan (ax_dc st) := ax_chan st), ad_cbs := ax_cbs st, ad_w := ax_w st\<rparr>"

definition akida_kfree :: "int \<Rightarrow> akida_dev \<Rightarrow> akida_dev" where
  "akida_kfree p akida = akida\<lparr>ad_w := snd (kcall (K_kfree p) (ad_w akida))\<rparr>"

definition akida_read ::
  "akida_env \<Rightarrow> sleep_ev list \<Rightarrow> wait_ev list \<Rightarrow> u64 \<Rightarrow> u64 \<Rightarrow> u64 \<Rightarrow> akida_dev \<Rightarrow> (int \<times> u64 \<times> akida_dev) option" where
  "akida_read env sleep evs buf sz pos akida =
     (if \<not> akida_is_allowed pos sz then Some (- EINVAL, pos, akida)
      else
        (let (tmp, w) = kcall (K_kmalloc (unat AKIDA_DMA_XFER_MAX_SIZE)) (ad_w akida); akida = akida\<lparr>ad_w := w\<rparr>
         in if tmp = 0 then Some (- ENOMEM, pos, akida)
            else
              (case akida_acquire_rxchan sleep akida of
                 None \<Rightarrow> None
               | Some (Inl err, akida) \<Rightarrow> Some (err, pos, akida_kfree tmp akida)
               | Some (Inr i, akida) \<Rightarrow>
                   (case read_loop env tmp sz evs sz buf pos (xfer_state akida (rxchan akida ! i)) of
                      None \<Rightarrow> None
                    | Some (ret, pos, st) \<Rightarrow>
                        (let akida = put_xfer st akida; akida = akida\<lparr>rxchan := (rxchan akida)[i := ax_dc st]\<rparr>;
                             akida = akida_release_rxchan i akida
                         in Some (ret, pos, akida_kfree tmp akida))))))"

definition akida_write ::
  "akida_env \<Rightarrow> sleep_ev list \<Rightarrow> wait_ev list \<Rightarrow> u64 \<Rightarrow> u64 \<Rightarrow> u64 \<Rightarrow> akida_dev \<Rightarrow> (int \<times> u64 \<times> akida_dev) option" where
  "akida_write env sleep evs buf sz pos akida =
     (if \<not> akida_is_allowed pos sz then Some (- EINVAL, pos, akida)
      else
        (let (tmp, w) = kcall (K_kmalloc (unat AKIDA_DMA_XFER_MAX_SIZE)) (ad_w akida); akida = akida\<lparr>ad_w := w\<rparr>
         in if tmp = 0 then Some (- ENOMEM, pos, akida)
            else
              (case akida_acquire_txchan sleep akida of
                 None \<Rightarrow> None
               | Some (Inl err, akida) \<Rightarrow> Some (err, pos, akida_kfree tmp akida)
               | Some (Inr i, akida) \<Rightarrow>
                   (case write_loop env tmp sz evs sz buf pos (xfer_state akida (txchan akida ! i)) of
                      None \<Rightarrow> None
                    | Some (ret, pos, st) \<Rightarrow>
                        (let akida = put_xfer st akida; akida = akida\<lparr>txchan := (txchan akida)[i := ax_dc st]\<rparr>;
                             akida = akida_release_txchan i akida
                         in Some (ret, pos, akida_kfree tmp akida))))))"

end
