(* ===== verification/Io_Pool.thy ===== *)
theory Io_Pool
  imports Akida_Io
begin

section \<open>The pool of client channels\<close>

text \<open>
  Facts of the transfer that reading and writing use, and the reservation of client channels as a
  transition system: any number of callers, in any order.
\<close>

subsection \<open>Lemmas: the identity of a channel\<close>

definition hw :: "dw_edma_chan \<Rightarrow> nat \<times> dw_edma_dir \<times> u32" where
  "hw c = (ch_id c, ch_dir c, ll_max c)"

lemma hw_frame [simp]:
  "hw (c\<lparr>chan_vc := vc\<rparr>) = hw c" "hw (c\<lparr>ch_st := s\<rparr>) = hw c" "hw (c\<lparr>ch_request := q\<rparr>) = hw c"
  "hw (c\<lparr>ch_config := g\<rparr>) = hw c" "hw (c\<lparr>configured := b\<rparr>) = hw c" "hw (set_issued ds c) = hw c"
  by (simp_all add: hw_def set_issued_def)

lemma hw_complete: "complete_head d c = Some c' \<Longrightarrow> hw c' = hw c"
  by (auto simp: complete_head_def)

lemma hw_start: "dw_edma_start_transfer dw c w = (r, c', w') \<Longrightarrow> hw c' = hw c"
  by (auto simp: dw_edma_start_transfer_def Let_def split_beta split: option.splits list.splits prod.splits)

lemma hw_done: "dw_edma_done_interrupt dw c w = Some (c', w') \<Longrightarrow> hw c' = hw c"
  by (auto simp: dw_edma_done_interrupt_def Let_def hw_complete hw_start
      split: option.splits dw_edma_request.splits prod.splits if_splits)

lemma hw_abort: "dw_edma_abort_interrupt c w = Some (c', w') \<Longrightarrow> hw c' = hw c"
  by (auto simp: dw_edma_abort_interrupt_def hw_complete split: option.splits)

lemma hw_issue: "dw_edma_device_issue_pending dw c w = (c', w') \<Longrightarrow> hw c' = hw c"
  by (auto simp: dw_edma_device_issue_pending_def Let_def hw_start split: if_splits prod.splits dest!: hw_start)

lemma hw_terminate: "dw_edma_device_terminate_all dw c w = (r, c', w') \<Longrightarrow> hw c' = hw c"
  by (auto simp: dw_edma_device_terminate_all_def split: if_splits prod.splits)

lemma hw_config: "hw (snd (dw_edma_device_config g c)) = hw c"
  by (simp add: dw_edma_device_config_def)

lemma hw_event: "xfer_event dw e st = Some st' \<Longrightarrow> hw (ax_chan st') = hw (ax_chan st)"
  by (cases "(dw, e, st)" rule: xfer_event.cases)
    (auto simp: hw_done hw_abort Let_def split: list.splits prod.splits if_splits)

lemma hw_wait: "wait_completion dw evs st = Some (ok, evs', st') \<Longrightarrow> hw (ax_chan st') = hw (ax_chan st)"
proof (induction evs arbitrary: st)
  case Nil
  then show ?case
    by (subst (asm) wait_completion.simps) (auto split: if_splits)
next
  case (Cons e evs)
  then show ?case
    by (subst (asm) (2) wait_completion.simps) (auto split: if_splits option.splits dest: hw_event)
qed

lemma hw_err: "xfer_err r evs st = Some (r', evs', st') \<Longrightarrow> ax_chan st' = ax_chan st"
  by (auto simp: xfer_err_def Let_def split: prod.splits)

lemma hw_prep:
  assumes "heap_ok w" "0 < ll_max c" "dw_edma_device_prep_slave_sg k chip c sg n dir fl w = (tx, c', w')"
  shows "hw c' = hw c"
  using device_transfer_cases [OF assms(1,2) assms(3) [unfolded dw_edma_device_prep_slave_sg_def]]
  by (auto split: option.splits)

lemma hw_rest:
  assumes "heap_ok (ax_w st)" "0 < ll_max (ax_chan st)" "xfer_rest env evs dir st = Some (r, evs', st')"
  shows "hw (ax_chan st') = hw (ax_chan st)"
  using assms(3)
  by (auto simp: xfer_rest_def Let_def split: prod.splits option.splits list.splits if_splits
      dest!: hw_prep [OF assms(1,2)] hw_err hw_issue hw_wait hw_terminate)

lemma hw_transfer:
  assumes "heap_ok (ax_w st)" "0 < ll_max (ax_chan st)" "akida_dma_transfer env evs dev_addr len buf st = Some (r, evs', st')"
  shows "hw (ax_chan st') = hw (ax_chan st)"
proof (cases "xfer_sconfig (dma_xfer_dir (ax_dc st)) dev_addr")
  case None
  then show ?thesis
    using assms(3) by (simp add: akida_dma_transfer_def)
next
  case (Some g)
  obtain a w1 where 1: "kcall (K_dma_map_single buf len (dma_data_dir (ax_dc st))) (ax_w st) = (a, w1)" by fastforce
  show ?thesis
  proof (cases "a < 0")
    case True
    then show ?thesis
      using assms(3) Some 1 by (auto simp: akida_dma_transfer_def)
  next
    case False
    define st1 where "st1 = st\<lparr>ax_dc := (ax_dc st)\<lparr>dma_len := len, dma_buf := of_int a\<rparr>, ax_w := w1,
        ax_chan := (ax_chan st)\<lparr>ch_config := (if dma_xfer_dir (ax_dc st) = DMA_MEM_TO_DEV then g\<lparr>cfg_src_addr := of_int a\<rparr>
            else g\<lparr>cfg_dst_addr := of_int a\<rparr>), configured := True\<rparr>\<rparr>"
    have "xfer_rest env evs (dma_xfer_dir (ax_dc st)) st1 = Some (r, evs', st')"
      using assms(3) False transfer_rest [OF Some 1, of env evs] by (simp add: st1_def)
    from hw_rest [OF _ _ this] show ?thesis
      using assms(1,2) kcall_frame(4) [OF 1] by (simp add: st1_def)
  qed
qed

subsection \<open>Reserving a channel\<close>

text \<open>
  The interface of a pool: \<open>take\<close> reserves a slot if one is free, \<open>give\<close> returns it, \<open>busy\<close> are the
  reserved slots. Threads take, use their own slot without changing the reservations, and give back.
\<close>

inductive pool_reach ::
  "('t \<Rightarrow> (nat \<times> 't) option) \<Rightarrow> (nat \<Rightarrow> 't \<Rightarrow> 't) \<Rightarrow> (nat \<Rightarrow> 't \<Rightarrow> 't \<Rightarrow> bool) \<Rightarrow> 't \<Rightarrow> 't \<Rightarrow> (nat \<rightharpoonup> nat) \<Rightarrow> bool"
  for take give using_slot t0 where
  start: "pool_reach take give using_slot t0 t0 Map.empty"
| acquire: "pool_reach take give using_slot t0 t h \<Longrightarrow> h n = None \<Longrightarrow> take t = Some (i, t') \<Longrightarrow>
     pool_reach take give using_slot t0 t' (h(n \<mapsto> i))"
| use: "pool_reach take give using_slot t0 t h \<Longrightarrow> h n = Some i \<Longrightarrow> using_slot i t t' \<Longrightarrow>
     pool_reach take give using_slot t0 t' h"
| release: "pool_reach take give using_slot t0 t h \<Longrightarrow> h n = Some i \<Longrightarrow>
     pool_reach take give using_slot t0 (give i t) (h(n := None))"

locale channel_pool =
  fixes take :: "'t \<Rightarrow> (nat \<times> 't) option" and give :: "nat \<Rightarrow> 't \<Rightarrow> 't" and using_slot :: "nat \<Rightarrow> 't \<Rightarrow> 't \<Rightarrow> bool"
    and slots :: "'t \<Rightarrow> nat set" and busy :: "'t \<Rightarrow> nat set"
  assumes take_free: "take t = Some (i, t') \<Longrightarrow> i \<in> slots t \<and> i \<notin> busy t \<and> busy t' = insert i (busy t) \<and> slots t' = slots t"
    and take_full: "take t = None \<longleftrightarrow> slots t \<subseteq> busy t"
    and give_slot: "i \<in> slots t \<Longrightarrow> busy (give i t) = busy t - {i} \<and> slots (give i t) = slots t"
    and use_slot: "using_slot i t t' \<Longrightarrow> busy t' = busy t \<and> slots t' = slots t"
begin

lemma holders:
  assumes "pool_reach take give using_slot t0 t h" "busy t0 = {}"
  shows "slots t = slots t0 \<and> busy t = ran h \<and> ran h \<subseteq> slots t0 \<and> inj_on h (dom h)"
  using assms(1)
proof induction
  case start
  then show ?case by (simp add: assms(2))
next
  case (acquire t h n i t')
  have "i \<notin> ran h" "i \<in> slots t0"
    using take_free [OF acquire.hyps(3)] acquire.IH by auto
  moreover have "inj_on (h(n \<mapsto> i)) (dom (h(n \<mapsto> i)))"
    using acquire.IH \<open>i \<notin> ran h\<close> by (auto simp: inj_on_def dom_def ran_def)
  moreover have "ran (h(n \<mapsto> i)) = insert i (ran h)"
    using acquire.hyps(2) by (rule ran_map_upd)
  ultimately show ?case
    using take_free [OF acquire.hyps(3)] acquire.IH \<open>i \<in> slots t0\<close> by (simp del: fun_upd_apply dom_fun_upd)
next
  case (use t h n i t')
  then show ?case
    using use_slot by simp
next
  case (release t h n i)
  have i: "i \<in> slots t"
    using release by (auto simp: ran_def)
  have own: "m = n" if "h m = Some i" for m
    by (rule inj_onD [of h "dom h"]) (use release that in auto)
  have "ran (h(n := None)) = {x. \<exists>m. m \<noteq> n \<and> h m = Some x}"
    by (auto simp: ran_def)
  also have "\<dots> = ran h - {i}"
  proof (rule set_eqI)
    fix x
    have "(\<exists>m. m \<noteq> n \<and> h m = Some x) \<longleftrightarrow> (\<exists>m. h m = Some x) \<and> x \<noteq> i"
      using own release.hyps(2) by (metis option.inject)
    then show "x \<in> {x. \<exists>m. m \<noteq> n \<and> h m = Some x} \<longleftrightarrow> x \<in> ran h - {i}"
      by (simp add: ran_def)
  qed
  finally have "ran (h(n := None)) = ran h - {i}" .
  moreover have "inj_on (h(n := None)) (dom (h(n := None)))"
  proof (rule inj_onI)
    fix x y
    assume "x \<in> dom (h(n := None))" "y \<in> dom (h(n := None))" "(h(n := None)) x = (h(n := None)) y"
    then have "x \<in> dom h" "y \<in> dom h" "h x = h y"
      by (auto split: if_splits)
    then show "x = y"
      using release.IH inj_onD by metis
  qed
  ultimately show ?case
    using give_slot [OF i] release.IH by (auto simp del: fun_upd_apply dom_fun_upd)
qed

lemma exclusive:
  assumes "pool_reach take give using_slot t0 t h" "busy t0 = {}" "h m = Some i" "h n = Some i"
  shows "m = n"
  using holders [OF assms(1,2)] assms(3,4) by (auto simp: inj_on_def dom_def)

lemma refuses_only_when_full:
  assumes "pool_reach take give using_slot t0 t h" "busy t0 = {}"
  shows "take t = None \<longleftrightarrow> slots t0 \<subseteq> ran h"
  using holders [OF assms] take_full by auto

end

lemma get_unused_spec:
  "get_unused_from k tab = Some i \<Longrightarrow> k \<le> i \<and> i - k < length tab \<and> \<not> is_used (tab ! (i - k))"
  "get_unused_from k tab = None \<longleftrightarrow> (\<forall>c \<in> set tab. is_used c)"
proof (induction tab arbitrary: k)
  case (Cons c tab)
  {
    case 1
    then show ?case
      using Cons(1) [of "Suc k"] 
      by (cases "i - k") (auto simp: diff_Suc split: if_splits nat.splits)
  next
    case 2
    then show ?case
      using Cons(2) by auto
  }
qed simp_all

definition akida_take :: "akida_dma_chan list \<Rightarrow> (nat \<times> akida_dma_chan list) option" where
  "akida_take tab = (case akida_acquire_chan [] tab of Some (Inr i, tab') \<Rightarrow> Some (i, tab') | _ \<Rightarrow> None)"

text \<open>A holder changes its own entry, but not the reservation.\<close>

definition use_entry :: "nat \<Rightarrow> akida_dma_chan list \<Rightarrow> akida_dma_chan list \<Rightarrow> bool" where
  "use_entry i tab tab' \<longleftrightarrow> (\<exists>dc. is_used dc = is_used (tab ! i) \<and> tab' = tab[i := dc])"

definition busy_slots :: "akida_dma_chan list \<Rightarrow> nat set" where
  "busy_slots tab = {i. i < length tab \<and> is_used (tab ! i)}"

lemma akida_take_eq:
  "akida_take tab = map_option (\<lambda>i. (i, tab[i := (tab ! i)\<lparr>is_used := True\<rparr>])) (akida_get_unsused_chan tab)"
  unfolding akida_take_def by (subst akida_acquire_chan.simps) (simp split: option.splits)

lemma unused_chan_spec:
  "akida_get_unsused_chan tab = Some i \<Longrightarrow> i < length tab \<and> \<not> is_used (tab ! i)"
  "akida_get_unsused_chan tab = None \<longleftrightarrow> {..<length tab} \<subseteq> busy_slots tab"
  using get_unused_spec [of 0 tab] by (auto simp: akida_get_unsused_chan_def busy_slots_def all_set_conv_all_nth)

interpretation pool: channel_pool akida_take akida_release_chan use_entry "\<lambda>tab. {..<length tab}" busy_slots
proof
  show "i \<in> {..<length t} \<and> i \<notin> busy_slots t \<and> busy_slots t' = insert i (busy_slots t) \<and> {..<length t'} = {..<length t}"
    if "akida_take t = Some (i, t')" for t i t'
    using that unused_chan_spec(1) [of t i] by (auto simp: akida_take_eq busy_slots_def nth_list_update)
  show "akida_take t = None \<longleftrightarrow> {..<length t} \<subseteq> busy_slots t" for t
    using unused_chan_spec(2) [of t] by (simp add: akida_take_eq)
  show "busy_slots (akida_release_chan i t) = busy_slots t - {i} \<and> {..<length (akida_release_chan i t)} = {..<length t}"
    if "i \<in> {..<length t}" for i t
    using that by (auto simp: akida_release_chan_def busy_slots_def nth_list_update)
  show "busy_slots t' = busy_slots t \<and> {..<length t'} = {..<length t}" if u: "use_entry i t t'" for i t t'
  proof -
    obtain dc where dc: "is_used dc = is_used (t ! i)" "t' = t[i := dc]"
      using u unfolding use_entry_def by blast
    have "is_used (t' ! j) = is_used (t ! j)" if "j < length t" for j
      using that dc by (cases "j = i") simp_all
    then show ?thesis
      by (auto simp: busy_slots_def dc(2))
  qed
qed

text \<open>C9: Of all callers that reserve channels, use them and give them back in any order, no two hold the
  same one, a held channel is marked as used, and a caller has to sleep only when every channel is held.\<close>

theorem akida_channels_exclusive:
  assumes "pool_reach akida_take akida_release_chan use_entry tab0 tab h" "\<forall>c \<in> set tab0. \<not> is_used c"
  shows "(\<forall>m n i. h m = Some i \<longrightarrow> h n = Some i \<longrightarrow> m = n) \<and>
    (\<forall>i < length tab. is_used (tab ! i) \<longleftrightarrow> (\<exists>n. h n = Some i)) \<and>
    (akida_take tab = None \<longleftrightarrow> (\<forall>i < length tab0. \<exists>n. h n = Some i))"
proof -
  have "busy_slots tab0 = {}"
    using assms(2) by (auto simp: busy_slots_def)
  note H = pool.holders [OF assms(1) this] and F = pool.refuses_only_when_full [OF assms(1) this]
    and E = pool.exclusive [OF assms(1) this]
  have "is_used (tab ! i) \<longleftrightarrow> (\<exists>n. h n = Some i)" if "i < length tab" for i
    using H that by (auto simp: busy_slots_def ran_def set_eq_iff)
  then show ?thesis
    using E F by (auto simp: ran_def)
qed

definition ex_tab :: "akida_dma_chan list" where
  "ex_tab = [ex_dc\<lparr>is_used := False\<rparr>, ex_dc\<lparr>is_used := False, dc_chan := 2\<rparr>]"

lemma akida_channels_exclusive_witness:
  "\<exists>tab h. pool_reach akida_take akida_release_chan use_entry ex_tab tab h \<and> h 7 = Some 0 \<and> h 8 = Some 1 \<and>
    akida_take tab = None"
proof -
  obtain t1 where 1: "akida_take ex_tab = Some (0, t1)" "t1 = ex_tab[0 := ex_dc]"
    by (simp add: akida_take_eq akida_get_unsused_chan_def ex_tab_def ex_dc_def)
  obtain t2 where 2: "akida_take t1 = Some (1, t2)" "t2 = ex_tab[0 := ex_dc, 1 := ex_dc\<lparr>dc_chan := 2\<rparr>]"
    by (simp add: 1(2) akida_take_eq akida_get_unsused_chan_def ex_tab_def ex_dc_def)
  have "pool_reach akida_take akida_release_chan use_entry ex_tab t2 (Map.empty((7::nat) \<mapsto> 0, 8 \<mapsto> 1))"
  proof (rule pool_reach.acquire)
    show "pool_reach akida_take akida_release_chan use_entry ex_tab t1 (Map.empty(7 \<mapsto> 0))"
      by (rule pool_reach.acquire [where t = ex_tab]) (simp_all only: pool_reach.start 1(1))
    show "akida_take t1 = Some (1, t2)"
      by (rule 2(1))
  qed simp
  moreover have "akida_take t2 = None \<longleftrightarrow> (\<forall>i < length ex_tab. \<exists>n. (Map.empty((7::nat) \<mapsto> 0, 8 \<mapsto> 1)) n = Some i)"
    by (rule akida_channels_exclusive [OF calculation, THEN conjunct2, THEN conjunct2]) (simp add: ex_tab_def)
  moreover have "\<exists>n. (Map.empty((7::nat) \<mapsto> 0, 8 \<mapsto> 1)) n = Some i" if "i < length ex_tab" for i :: nat
    by (rule exI [of _ "7 + i"]) (use that in \<open>auto simp: ex_tab_def less_Suc_eq numeral_2_eq_2\<close>)
  ultimately show ?thesis
    by (intro exI [of _ t2] exI) auto
qed

end
