(* ===== verification/Io_Run.thy ===== *)
theory Io_Run
  imports Io_Pool
begin

section \<open>What reading and writing do\<close>

text \<open>
  The loops of \<open>akida_read\<close> and \<open>akida_write\<close> as one interface with two providers, the plan of chunks
  they follow, and the two operations as a whole.
\<close>

subsection \<open>The plan of chunks\<close>

text \<open>What a request is cut into: offset and length of each chunk.\<close>

function chunk_plan :: "u64 \<Rightarrow> u64 \<Rightarrow> (u64 \<times> u64) list" where
  "chunk_plan off left =
     (if left = 0 then [] else (off, chunk_size left) # chunk_plan (off + chunk_size left) (left - chunk_size left))"
  by pat_completeness auto
termination
  by (relation "measure (\<lambda>(off, left). unat left)") (use chunk_size_decr in auto)

declare chunk_plan.simps [simp del]

lemma chunk_plan_0 [simp]: "chunk_plan off 0 = []"
  by (subst chunk_plan.simps) simp

lemma chunk_plan_step:
  "left \<noteq> 0 \<Longrightarrow> chunk_plan off left = (off, chunk_size left) # chunk_plan (off + chunk_size left) (left - chunk_size left)"
  by (subst chunk_plan.simps) simp

lemma chunk_plan_sum: "sum_list (map snd (chunk_plan off left)) = left"
proof (induction off left rule: chunk_plan.induct)
  case (1 off left)
  then show ?case
    by (cases "left = 0") (simp_all add: chunk_plan_step)
qed

text \<open>Without wrap-around the chunks lie in the request, one after the other.\<close>

lemma chunk_plan_within:
  assumes "(o', l) \<in> set (chunk_plan off left)" "unat off + unat left < 2 ^ 64"
  shows "unat off \<le> unat o' \<and> unat o' + unat l \<le> unat off + unat left \<and> 0 < l \<and> l \<le> 1024"
  using assms
proof (induction off left rule: chunk_plan.induct)
  case (1 off left)
  show ?case
  proof (cases "left = 0")
    case True
    then show ?thesis
      using "1.prems" by simp
  next
    case False
    let ?c = "chunk_size left"
    have c: "0 < ?c" "?c \<le> left" "?c \<le> 1024"
      using chunk_size_bounds [OF False] by simp_all
    then have le: "unat ?c \<le> unat left"
      by (simp add: word_le_nat_alt)
    have sub: "unat (left - ?c) = unat left - unat ?c"
      by (rule unat_sub [OF c(2)])
    have "unat off + unat ?c < 2 ^ LENGTH(64)"
      using le "1.prems"(2) by simp
    then have add: "unat (off + ?c) = unat off + unat ?c"
      by (rule unat_add_lem [THEN iffD1])
    consider "o' = off" "l = ?c" | "(o', l) \<in> set (chunk_plan (off + ?c) (left - ?c))"
      using "1.prems"(1) False by (auto simp: chunk_plan_step)
    then show ?thesis
    proof cases
      case 1
      then show ?thesis
        using c le by simp
    next
      case 2
      then show ?thesis
        using "1.IH" [OF False] "1.prems"(2) sub add le by simp
    qed
  qed
qed

fun moved_all :: "(u64 \<Rightarrow> u64 \<Rightarrow> u64 \<Rightarrow> 's \<Rightarrow> 's \<Rightarrow> bool) \<Rightarrow> u64 \<Rightarrow> u64 \<Rightarrow> (u64 \<times> u64) list \<Rightarrow> 's \<Rightarrow> 's \<Rightarrow> bool" where
  "moved_all mv usr pos [] s s' = (s' = s)"
| "moved_all mv usr pos ((off, len) # ps) s s' =
     (\<exists>s1. mv (pos + off) (usr + off) len s s1 \<and> moved_all mv usr pos ps s1 s')"

subsection \<open>The interface of the loops\<close>

text \<open>
  \<open>move\<close> moves one chunk, given what is left of the events, the device and the user address and the
  length; \<open>moved\<close> says what a successful move has done, \<open>failed\<close> what a failed one leaves, \<open>link\<close> what holds
  of both.
\<close>

text \<open>What a loop returns with \<open>left\<close> bytes to move from offset \<open>off\<close> on.\<close>

definition loop_result ::
  "('s \<Rightarrow> bool) \<Rightarrow> ('s \<Rightarrow> 's \<Rightarrow> bool) \<Rightarrow> (int \<Rightarrow> 's \<Rightarrow> bool) \<Rightarrow> (u64 \<Rightarrow> u64 \<Rightarrow> u64 \<Rightarrow> 's \<Rightarrow> 's \<Rightarrow> bool) \<Rightarrow>
   u64 \<Rightarrow> u64 \<Rightarrow> u64 \<Rightarrow> u64 \<Rightarrow> u64 \<Rightarrow> 's \<Rightarrow> (int \<times> u64 \<times> 's) option \<Rightarrow> bool" where
  "loop_result ready link failed moved sz usr pos off left s res \<longleftrightarrow> (\<exists>r pos' s'. res = Some (r, pos', s') \<and> link s s' \<and>
    (r = sint sz \<and> pos' = pos + off + left \<and> ready s' \<and> moved_all moved usr pos (chunk_plan off left) s s' \<or>
     r < 0 \<and> failed r s' \<and>
       (\<exists>ps q qs s1. chunk_plan off left = ps @ q # qs \<and> pos' = pos + fst q \<and> moved_all moved usr pos ps s s1)))"

locale chunked =
  fixes move :: "'e \<Rightarrow> u64 \<Rightarrow> u64 \<Rightarrow> u64 \<Rightarrow> 's \<Rightarrow> (int \<times> 'e \<times> 's) option"
    and loop :: "u64 \<Rightarrow> 'e \<Rightarrow> u64 \<Rightarrow> u64 \<Rightarrow> u64 \<Rightarrow> 's \<Rightarrow> (int \<times> u64 \<times> 's) option"
    and ready :: "'s \<Rightarrow> bool" and link :: "'s \<Rightarrow> 's \<Rightarrow> bool" and failed :: "int \<Rightarrow> 's \<Rightarrow> bool"
    and moved :: "u64 \<Rightarrow> u64 \<Rightarrow> u64 \<Rightarrow> 's \<Rightarrow> 's \<Rightarrow> bool"
  assumes loop_eq: "loop sz e left usr pos s =
      (if left = 0 then Some (sint sz, pos, s)
       else
         (case move e pos usr (chunk_size left) s of
            None \<Rightarrow> None
          | Some (r, e, s) \<Rightarrow>
              if r < 0 then Some (r, pos, s)
              else loop sz e (left - chunk_size left) (usr + chunk_size left) (pos + chunk_size left) s))"
    and move_runs: "ready s \<Longrightarrow> \<exists>r e' s'. move e pos usr len s = Some (r, e', s') \<and> link s s' \<and>
      (r = 0 \<and> ready s' \<and> moved pos usr len s s' \<or> r < 0 \<and> failed r s')"
    and link_refl: "link s s" and link_trans: "link s s' \<Longrightarrow> link s' s'' \<Longrightarrow> link s s''"
begin

lemma loop_result_fail:
  assumes "left \<noteq> 0" "link s s'" "r < 0" "failed r s'"
  shows "loop_result ready link failed moved sz usr pos off left s (Some (r, pos + off, s'))"
proof -
  have "chunk_plan off left = [] @ (off, chunk_size left) # chunk_plan (off + chunk_size left) (left - chunk_size left)"
    using assms(1) by (simp add: chunk_plan_step)
  moreover have "moved_all moved usr pos [] s s"
    by simp
  ultimately show ?thesis
    unfolding loop_result_def using assms(2-4) by (metis fst_conv)
qed

lemma loop_result_step:
  assumes "left \<noteq> 0" "link s s1" "moved (pos + off) (usr + off) (chunk_size left) s s1"
    "loop_result ready link failed moved sz usr pos (off + chunk_size left) (left - chunk_size left) s1 res"
  shows "loop_result ready link failed moved sz usr pos off left s res"
proof -
  let ?c = "chunk_size left"
  note step = chunk_plan_step [OF assms(1), of off]
  obtain r pos' s' where r: "res = Some (r, pos', s')" "link s s'"
    and cases: "r = sint sz \<and> pos' = pos + (off + ?c) + (left - ?c) \<and> ready s' \<and>
        moved_all moved usr pos (chunk_plan (off + ?c) (left - ?c)) s1 s' \<or>
      r < 0 \<and> failed r s' \<and> (\<exists>ps q qs s2. chunk_plan (off + ?c) (left - ?c) = ps @ q # qs \<and>
        pos' = pos + fst q \<and> moved_all moved usr pos ps s1 s2)"
    using assms(4) link_trans [OF assms(2)] unfolding loop_result_def by blast
  from cases show ?thesis
  proof (elim disjE conjE exE)
    assume a: "r = sint sz" "pos' = pos + (off + ?c) + (left - ?c)" "ready s'"
      "moved_all moved usr pos (chunk_plan (off + ?c) (left - ?c)) s1 s'"
    have "moved_all moved usr pos (chunk_plan off left) s s'"
      using assms(3) a(4) by (auto simp: step)
    then show ?thesis
      using r a(1-3) by (simp add: loop_result_def)
  next
    fix ps q qs s2
    assume a: "r < 0" "failed r s'" "chunk_plan (off + ?c) (left - ?c) = ps @ q # qs" "pos' = pos + fst q"
      "moved_all moved usr pos ps s1 s2"
    have "chunk_plan off left = ((off, ?c) # ps) @ q # qs"
      by (simp add: step a(3))
    moreover have "moved_all moved usr pos ((off, ?c) # ps) s s2"
      using assms(3) a(5) by auto
    ultimately show ?thesis
      unfolding loop_result_def using r a(1,2,4) by blast
  qed
qed

lemma loop_runs: "ready s \<Longrightarrow> loop_result ready link failed moved sz usr pos off left s (loop sz e left (usr + off) (pos + off) s)"
proof (induction off left arbitrary: e s rule: chunk_plan.induct)
  case (1 off left)
  show ?case
  proof (cases "left = 0")
    case True
    then show ?thesis
      using "1.prems" link_refl by (subst loop_eq) (simp add: loop_result_def)
  next
    case False
    let ?c = "chunk_size left"
    obtain r e1 s1 where m: "move e (pos + off) (usr + off) ?c s = Some (r, e1, s1)" "link s s1"
      "r = 0 \<and> ready s1 \<and> moved (pos + off) (usr + off) ?c s s1 \<or> r < 0 \<and> failed r s1"
      using move_runs [OF "1.prems"] by blast
    have l: "loop sz e left (usr + off) (pos + off) s = (if r < 0 then Some (r, pos + off, s1)
        else loop sz e1 (left - ?c) (usr + (off + ?c)) (pos + (off + ?c)) s1)"
      using False m(1) by (subst loop_eq) (simp add: add.assoc)
    show ?thesis
      using m(2,3) loop_result_fail [OF False] loop_result_step [OF False] "1.IH" [OF False, of s1 e1] by (auto simp: l)
  qed
qed

lemma loop_all:
  assumes "ready s"
  shows "\<exists>r pos' s'. loop sz e sz usr pos s = Some (r, pos', s') \<and> link s s' \<and>
    (r = sint sz \<and> pos' = pos + sz \<and> ready s' \<and> moved_all moved usr pos (chunk_plan 0 sz) s s' \<or>
     r < 0 \<and> failed r s' \<and> (\<exists>ps q qs s1. chunk_plan 0 sz = ps @ q # qs \<and> pos' = pos + fst q \<and> moved_all moved usr pos ps s s1))"
  using loop_runs [OF assms, of sz usr pos 0 sz e] by (simp add: loop_result_def)

end

subsection \<open>The two providers\<close>

definition io_ready :: "dw_edma_chan \<Rightarrow> dma_transfer_direction \<Rightarrow> dma_data_direction \<Rightarrow> akida_xfer \<Rightarrow> bool" where
  "io_ready c x d st \<longleftrightarrow> idle (ax_chan st) (ax_w st) \<and> hw (ax_chan st) = hw c \<and> dma_xfer_dir (ax_dc st) = x \<and>
     dma_data_dir (ax_dc st) = d"

definition io_link :: "akida_xfer \<Rightarrow> akida_xfer \<Rightarrow> bool" where
  "io_link st st' \<longleftrightarrow> same_side st st' \<and> (\<forall>R. goes R (ax_w st) R (ax_w st'))"

definition io_failed :: "int \<Rightarrow> akida_xfer \<Rightarrow> bool" where
  "io_failed r st \<longleftrightarrow> r \<in> {- EINVAL, - EFAULT, - ETIMEDOUT} \<and> (r \<noteq> - ETIMEDOUT \<longrightarrow> idle (ax_chan st) (ax_w st))"

definition mapped_xfer ::
  "akida_env \<Rightarrow> dw_edma_chan \<Rightarrow> dma_transfer_direction \<Rightarrow> dma_data_direction \<Rightarrow> int \<Rightarrow> u64 \<Rightarrow> u64 \<Rightarrow> world \<Rightarrow> world \<Rightarrow> bool" where
  "mapped_xfer env c x d tmp pos len w w' \<longleftrightarrow>
     (\<exists>a w1. 0 \<le> a \<and> kcall (K_dma_map_single tmp len d) w = (a, w1) \<and>
        programmed env c (xfer_burst (dw_chip (env_dw env)) x pos (of_int a) len) w1 w')"

definition read_moved ::
  "akida_env \<Rightarrow> dw_edma_chan \<Rightarrow> dma_transfer_direction \<Rightarrow> dma_data_direction \<Rightarrow> int \<Rightarrow>
   u64 \<Rightarrow> u64 \<Rightarrow> u64 \<Rightarrow> akida_xfer \<Rightarrow> akida_xfer \<Rightarrow> bool" where
  "read_moved env c x d tmp pos usr len st st' \<longleftrightarrow>
     (\<exists>w. mapped_xfer env c x d tmp pos len (ax_w st) w \<and> kcall (K_copy_to_user usr tmp len) w = (0, ax_w st'))"

definition write_moved ::
  "akida_env \<Rightarrow> dw_edma_chan \<Rightarrow> dma_transfer_direction \<Rightarrow> dma_data_direction \<Rightarrow> int \<Rightarrow>
   u64 \<Rightarrow> u64 \<Rightarrow> u64 \<Rightarrow> akida_xfer \<Rightarrow> akida_xfer \<Rightarrow> bool" where
  "write_moved env c x d tmp pos usr len st st' \<longleftrightarrow>
     (\<exists>w. kcall (K_copy_from_user tmp usr len) (ax_w st) = (0, w) \<and> mapped_xfer env c x d tmp pos len w (ax_w st'))"

lemma io_link_refl: "io_link st st"
  by (simp add: io_link_def same_side_def)

lemma io_link_trans:
  assumes "io_link a b" "io_link b c"
  shows "io_link a c"
  using assms goes_trans [of _ "ax_w a" _ "ax_w b"] by (simp add: io_link_def same_side_def) blast

lemma idle_io: "idle c w \<Longrightarrow> io_only w w' \<Longrightarrow> idle c w'"
  using io_only_frame(5,6) [of w w'] by (simp add: idle_def heap_ok_def)

lemma transfer_step:
  assumes env: "env_ok env" and rdy: "io_ready c x d st"
  shows "\<exists>r evs' st'. akida_dma_transfer env evs pos len tmp st = Some (r, evs', st') \<and> io_link st st' \<and>
    (r = 0 \<and> io_ready c x d st' \<and> mapped_xfer env c x d tmp pos len (ax_w st) (ax_w st') \<or> r < 0 \<and> io_failed r st')"
proof -
  have st: "idle (ax_chan st) (ax_w st)" "hw (ax_chan st) = hw c" "dma_xfer_dir (ax_dc st) = x" "dma_data_dir (ax_dc st) = d"
    using rdy by (simp_all add: io_ready_def)
  note run = transfer_run [OF env idle_quiet [OF st(1)], of evs pos len tmp]
  obtain r evs' st' where 1: "akida_dma_transfer env evs pos len tmp st = Some (r, evs', st')" "same_side st st'"
    "r = - EINVAL \<and> quiet (ax_w st) (ax_chan st') (ax_w st') \<or>
     (\<exists>a w1. 0 \<le> a \<and> kcall (K_dma_map_single tmp len d) (ax_w st) = (a, w1) \<and>
        xfer_result env (ax_chan st) (xfer_burst (dw_chip (env_dw env)) x pos (of_int a) len) (ax_w st) w1 r st')"
    using run [of "{#}"] unfolding st(3,4) by blast
  have g: "goes R (ax_w st) R (ax_w st')" for R
    using run [of R] 1(1) by auto
  have lk: "io_link st st'"
    using 1(2) g by (simp add: io_link_def)
  have hw': "hw (ax_chan st') = hw c"
    using hw_transfer [OF _ _ 1(1)] st(1,2) by (simp add: idle_def)
  have cong: "programmed env (ax_chan st) y w w' = programmed env c y w w'" for y w w'
    by (rule programmed_cong) (use st(2) in \<open>simp_all add: hw_def\<close>)
  have qi: "idle (ax_chan st') (ax_w st')" if "quiet (ax_w st) (ax_chan st') (ax_w st')"
    by (rule quiet_idle(1) [OF that])
  consider "r = - EINVAL" "quiet (ax_w st) (ax_chan st') (ax_w st')" | "r = - ETIMEDOUT"
    | "r = 0" "quiet (ax_w st) (ax_chan st') (ax_w st')" "mapped_xfer env c x d tmp pos len (ax_w st) (ax_w st')"
    using 1(3) unfolding xfer_result_def mapped_xfer_def cong by blast
  then show ?thesis
  proof cases
    case 3
    then have "io_ready c x d st'"
      using qi hw' 1(2) st(3,4) by (simp add: io_ready_def same_side_def)
    then show ?thesis
      using 1(1) lk 3 by blast
  qed (use 1(1) lk qi in \<open>auto simp: io_failed_def errno_defs\<close>)
qed

lemma copy_step:
  assumes "kcall k (ax_w st) = (n, w)" "res_act (Kcall k n) = Neutral"
  shows "io_link st (st\<lparr>ax_w := w\<rparr>) \<and> (io_ready c x d st \<longrightarrow> io_ready c x d (st\<lparr>ax_w := w\<rparr>)) \<and>
    (idle (ax_chan st) (ax_w st) \<longrightarrow> idle (ax_chan st) w)"
proof -
  have "goes R (ax_w st) R w" for R
    by (rule goes_kcall [OF assms(1)]) (simp only: ledger.simps assms(2) act.case)
  then show ?thesis
    using idle_io [OF _ kcall_frame(5) [OF assms(1)]] by (simp add: io_link_def same_side_def io_ready_def)
qed

lemma read_chunk_runs:
  assumes env: "env_ok env" and rdy: "io_ready c x d st"
  shows "\<exists>r evs' st'. read_chunk env tmp evs pos usr len st = Some (r, evs', st') \<and> io_link st st' \<and>
    (r = 0 \<and> io_ready c x d st' \<and> read_moved env c x d tmp pos usr len st st' \<or> r < 0 \<and> io_failed r st')"
proof -
  obtain r evs1 st1 where 1: "akida_dma_transfer env evs pos len tmp st = Some (r, evs1, st1)" "io_link st st1"
    "r = 0 \<and> io_ready c x d st1 \<and> mapped_xfer env c x d tmp pos len (ax_w st) (ax_w st1) \<or> r < 0 \<and> io_failed r st1"
    using transfer_step [OF assms, of evs pos len tmp] by blast
  show ?thesis
  proof (cases "r < 0")
    case True
    then show ?thesis
      using 1 by (auto simp: read_chunk_def)
  next
    case False
    then have ok: "io_ready c x d st1" "mapped_xfer env c x d tmp pos len (ax_w st) (ax_w st1)"
      using 1(3) by auto
    obtain n w where 2: "kcall (K_copy_to_user usr tmp len) (ax_w st1) = (n, w)" by fastforce
    note cp = copy_step [OF 2, of c x d]
    have lk: "io_link st (st1\<lparr>ax_w := w\<rparr>)"
      using io_link_trans [OF 1(2)] cp by simp
    have run: "read_chunk env tmp evs pos usr len st = Some (if n \<noteq> 0 then - EFAULT else 0, evs1, st1\<lparr>ax_w := w\<rparr>)"
      using False 1(1) 2 by (simp add: read_chunk_def)
    show ?thesis
    proof (cases "n = 0")
      case True
      then have "read_moved env c x d tmp pos usr len st (st1\<lparr>ax_w := w\<rparr>)"
        using ok(2) 2 by (auto simp: read_moved_def)
      then show ?thesis
        using run lk cp ok(1) True by simp
    next
      case False
      have "io_failed (- EFAULT) (st1\<lparr>ax_w := w\<rparr>)"
        using cp ok(1) by (simp add: io_failed_def io_ready_def)
      then show ?thesis
        using run lk False by (simp add: EFAULT_def)
    qed
  qed
qed

lemma write_chunk_runs:
  assumes env: "env_ok env" and rdy: "io_ready c x d st"
  shows "\<exists>r evs' st'. write_chunk env tmp evs pos usr len st = Some (r, evs', st') \<and> io_link st st' \<and>
    (r = 0 \<and> io_ready c x d st' \<and> write_moved env c x d tmp pos usr len st st' \<or> r < 0 \<and> io_failed r st')"
proof -
  obtain n w where 1: "kcall (K_copy_from_user tmp usr len) (ax_w st) = (n, w)" by fastforce
  note cp = copy_step [OF 1, of c x d]
  show ?thesis
  proof (cases "n = 0")
    case True
    have rdy1: "io_ready c x d (st\<lparr>ax_w := w\<rparr>)"
      using cp rdy by simp
    obtain r evs2 st2 where 2: "akida_dma_transfer env evs pos len tmp (st\<lparr>ax_w := w\<rparr>) = Some (r, evs2, st2)"
      "io_link (st\<lparr>ax_w := w\<rparr>) st2"
      "r = 0 \<and> io_ready c x d st2 \<and> mapped_xfer env c x d tmp pos len w (ax_w st2) \<or> r < 0 \<and> io_failed r st2"
      using transfer_step [OF env rdy1, of evs pos len tmp] by auto
    have "io_link st st2"
      using io_link_trans [OF _ 2(2)] cp by simp
    then show ?thesis
      using 1 2 True by (auto simp: write_chunk_def write_moved_def)
  next
    case False
    have "io_failed (- EFAULT) (st\<lparr>ax_w := w\<rparr>)"
      using cp rdy by (simp add: io_failed_def io_ready_def)
    then show ?thesis
      using 1 cp False by (simp add: write_chunk_def EFAULT_def)
  qed
qed

text \<open>A request that is fit for the environment; the others are never ready.\<close>

definition env_ready ::
  "akida_env \<Rightarrow> dw_edma_chan \<Rightarrow> dma_transfer_direction \<Rightarrow> dma_data_direction \<Rightarrow> akida_xfer \<Rightarrow> bool" where
  "env_ready env c x d st \<longleftrightarrow> env_ok env \<and> io_ready c x d st"

interpretation rd: chunked "read_chunk env tmp" "\<lambda>sz e. read_loop env tmp sz e" "env_ready env c x d" io_link io_failed
  "read_moved env c x d tmp" for env tmp c x d
proof
  show "read_loop env tmp sz e left usr pos s = (if left = 0 then Some (sint sz, pos, s)
    else case read_chunk env tmp e pos usr (chunk_size left) s of None \<Rightarrow> None
      | Some (r, e, s) \<Rightarrow> if r < 0 then Some (r, pos, s)
          else read_loop env tmp sz e (left - chunk_size left) (usr + chunk_size left) (pos + chunk_size left) s)"
    for sz e left usr pos s
    by (subst read_loop.simps) (simp add: Let_def)
  show "\<exists>r e' s'. read_chunk env tmp e pos usr len s = Some (r, e', s') \<and> io_link s s' \<and>
      (r = 0 \<and> env_ready env c x d s' \<and> read_moved env c x d tmp pos usr len s s' \<or> r < 0 \<and> io_failed r s')"
    if "env_ready env c x d s" for s e pos usr len
    using read_chunk_runs [of env c x d s tmp e pos usr len] that by (simp add: env_ready_def)
qed (rule io_link_refl, rule io_link_trans)

interpretation wr: chunked "write_chunk env tmp" "\<lambda>sz e. write_loop env tmp sz e" "env_ready env c x d" io_link io_failed
  "write_moved env c x d tmp" for env tmp c x d
proof
  show "write_loop env tmp sz e left usr pos s = (if left = 0 then Some (sint sz, pos, s)
    else case write_chunk env tmp e pos usr (chunk_size left) s of None \<Rightarrow> None
      | Some (r, e, s) \<Rightarrow> if r < 0 then Some (r, pos, s)
          else write_loop env tmp sz e (left - chunk_size left) (usr + chunk_size left) (pos + chunk_size left) s)"
    for sz e left usr pos s
    by (subst write_loop.simps) (simp add: Let_def)
  show "\<exists>r e' s'. write_chunk env tmp e pos usr len s = Some (r, e', s') \<and> io_link s s' \<and>
      (r = 0 \<and> env_ready env c x d s' \<and> write_moved env c x d tmp pos usr len s s' \<or> r < 0 \<and> io_failed r s')"
    if "env_ready env c x d s" for s e pos usr len
    using write_chunk_runs [of env c x d s tmp e pos usr len] that by (simp add: env_ready_def)
qed (rule io_link_refl, rule io_link_trans)

end
