(* ===== verification/Io_Ops.thy ===== *)
theory Io_Ops
  imports Io_Run
begin

section \<open>The operations read and write\<close>

text \<open>
  \<open>akida_read\<close> and \<open>akida_write\<close> as providers of one interface: a bounce buffer, a reserved channel, the
  loop of chunks, the release. What each returns, what it leaves, and what it has done on success.
\<close>

subsection \<open>Lemmas: the channel tables\<close>

text \<open>Every channel that is not reserved is idle.\<close>

definition pool_ok :: "akida_dev \<Rightarrow> akida_dma_chan list \<Rightarrow> bool" where
  "pool_ok akida tab \<longleftrightarrow> (\<forall>dc \<in> set tab. \<not> is_used dc \<longrightarrow> idle (ad_chan akida (dc_chan dc)) (ad_w akida))"

text \<open>The tables a sleeping caller may see.\<close>

definition seen_tabs :: "sleep_ev list \<Rightarrow> akida_dma_chan list \<Rightarrow> akida_dma_chan list set" where
  "seen_tabs evs tab = insert tab {t. Ev_wake t \<in> set evs}"

lemma acquire_cases:
  assumes "akida_acquire_chan evs tab = Some (r, tab')"
  shows "\<exists>t \<in> seen_tabs evs tab. (r = Inl (- ERESTARTSYS) \<and> tab' = t) \<or> (\<exists>i. r = Inr i \<and> akida_take t = Some (i, tab'))"
  using assms
proof (induction evs tab rule: akida_acquire_chan.induct)
  case (1 evs tab)
  show ?case
  proof (cases "akida_get_unsused_chan tab")
    case (Some i)
    then show ?thesis
      using "1.prems" by (subst (asm) akida_acquire_chan.simps) (auto simp: seen_tabs_def akida_take_eq)
  next
    case None
    note none = None
    show ?thesis
    proof (cases evs)
      case Nil
      then show ?thesis
        using "1.prems" None by (subst (asm) akida_acquire_chan.simps) simp
    next
      case (Cons e evs')
      show ?thesis
      proof (cases e)
        case (Ev_wake t)
        have "akida_acquire_chan evs' t = Some (r, tab')"
          using "1.prems" None Cons Ev_wake by (subst (asm) akida_acquire_chan.simps) simp
        then have "\<exists>t' \<in> seen_tabs evs' t. (r = Inl (- ERESTARTSYS) \<and> tab' = t') \<or> (\<exists>i. r = Inr i \<and> akida_take t' = Some (i, tab'))"
          using "1.IH" [OF None Cons Ev_wake] by blast
        moreover have "seen_tabs evs' t \<subseteq> seen_tabs evs tab"
          by (auto simp: seen_tabs_def Cons Ev_wake)
        ultimately show ?thesis
          by blast
      next
        case Ev_signal
        then show ?thesis
          using "1.prems" None Cons by (subst (asm) akida_acquire_chan.simps) (auto simp: seen_tabs_def)
      qed
    qed
  qed
qed

lemma take_entry:
  assumes "akida_take t = Some (i, t')"
  shows "i < length t" "t' = t[i := (t ! i)\<lparr>is_used := True\<rparr>]" "\<not> is_used (t ! i)"
  using assms unused_chan_spec(1) [of t i] by (auto simp: akida_take_eq)

lemma kcall_trace: "kcall k w = (r, w') \<Longrightarrow> trace w' = trace w @ [Kcall k r]"
  by (auto simp: kcall_def Let_def)

subsection \<open>The interface of a file operation\<close>

definition io_errors :: "int set" where
  "io_errors = {- EINVAL, - ENOMEM, - ERESTARTSYS, - EFAULT, - ETIMEDOUT}"

text \<open>What a table says of its channels between two operations: who reserves them and what they are.\<close>

definition chan_slot :: "akida_dma_chan \<Rightarrow> bool \<times> int \<times> dma_transfer_direction \<times> dma_data_direction" where
  "chan_slot dc = (is_used dc, dc_chan dc, dma_xfer_dir dc, dma_data_dir dc)"

text \<open>A successful operation, from the allocation to the release of the bounce buffer.\<close>

definition op_done ::
  "(dw_edma_chan \<Rightarrow> dma_transfer_direction \<Rightarrow> dma_data_direction \<Rightarrow> int \<Rightarrow>
     u64 \<Rightarrow> u64 \<Rightarrow> u64 \<Rightarrow> akida_xfer \<Rightarrow> akida_xfer \<Rightarrow> bool) \<Rightarrow> akida_dma_chan list \<Rightarrow> u64 \<Rightarrow> u64 \<Rightarrow> u64 \<Rightarrow>
   akida_dev \<Rightarrow> akida_dev \<Rightarrow> bool" where
  "op_done moved t buf pos sz akida akida' \<longleftrightarrow>
     (\<exists>tmp dc st st'. trace (ax_w st) = trace (ad_w akida) @ [Kcall (K_kmalloc 1024) tmp] \<and>
        dc \<in> set t \<and> \<not> is_used dc \<and>
        moved_all (moved (ad_chan akida (dc_chan dc)) (dma_xfer_dir dc) (dma_data_dir dc) tmp) buf pos (chunk_plan 0 sz) st st' \<and>
        ad_w akida' = snd (kcall (K_kfree tmp) (ax_w st')))"

text \<open>
  What is to be shown of an operation on the table \<open>tab\<close> that returned: it has given back every
  resource and its reservation, so that the table reads as the one it found, and has left the table of
  the other direction, \<open>other\<close>, alone.
\<close>

definition op_ok ::
  "(akida_dev \<Rightarrow> akida_dma_chan list) \<Rightarrow> (akida_dev \<Rightarrow> akida_dma_chan list) \<Rightarrow>
   (dw_edma_chan \<Rightarrow> dma_transfer_direction \<Rightarrow> dma_data_direction \<Rightarrow> int \<Rightarrow>
     u64 \<Rightarrow> u64 \<Rightarrow> u64 \<Rightarrow> akida_xfer \<Rightarrow> akida_xfer \<Rightarrow> bool) \<Rightarrow> akida_dma_chan list set \<Rightarrow> u64 \<Rightarrow> u64 \<Rightarrow> u64 \<Rightarrow>
   akida_dev \<Rightarrow> int \<times> u64 \<times> akida_dev \<Rightarrow> bool" where
  "op_ok tab other moved ts buf pos sz akida = (\<lambda>(r, pos', akida').
     (\<forall>R. ledger R (new_evs (ad_w akida) (ad_w akida')) = Some R) \<and>
     (r \<noteq> - ETIMEDOUT \<longrightarrow> pool_ok akida' (tab akida')) \<and> other akida' = other akida \<and>
     (\<exists>t \<in> ts. map chan_slot (tab akida') = map chan_slot t \<and>
       (r \<in> io_errors \<and> (pos' = pos \<or> (\<exists>q \<in> set (chunk_plan 0 sz). pos' = pos + fst q)) \<or>
        r = sint sz \<and> pos' = pos + sz \<and> akida_is_allowed pos sz \<and> op_done moved t buf pos sz akida akida')))"

locale file_op =
  fixes op :: "sleep_ev list \<Rightarrow> wait_ev list \<Rightarrow> u64 \<Rightarrow> u64 \<Rightarrow> u64 \<Rightarrow> akida_dev \<Rightarrow> (int \<times> u64 \<times> akida_dev) option"
    and tab other :: "akida_dev \<Rightarrow> akida_dma_chan list" and upd :: "akida_dma_chan list \<Rightarrow> akida_dev \<Rightarrow> akida_dev"
    and loop :: "int \<Rightarrow> u64 \<Rightarrow> wait_ev list \<Rightarrow> u64 \<Rightarrow> u64 \<Rightarrow> u64 \<Rightarrow> akida_xfer \<Rightarrow> (int \<times> u64 \<times> akida_xfer) option"
    and moved :: "dw_edma_chan \<Rightarrow> dma_transfer_direction \<Rightarrow> dma_data_direction \<Rightarrow> int \<Rightarrow>
      u64 \<Rightarrow> u64 \<Rightarrow> u64 \<Rightarrow> akida_xfer \<Rightarrow> akida_xfer \<Rightarrow> bool"
    and fit :: bool
  assumes op_eq: "op sleep evs buf sz pos akida =
      (if \<not> akida_is_allowed pos sz then Some (- EINVAL, pos, akida)
       else
         (let (tmp, w) = kcall (K_kmalloc 1024) (ad_w akida); akida = akida\<lparr>ad_w := w\<rparr>
          in if tmp = 0 then Some (- ENOMEM, pos, akida)
             else
               (case akida_acquire_chan sleep (tab akida) of
                  None \<Rightarrow> None
                | Some (Inl err, t) \<Rightarrow> Some (err, pos, akida_kfree tmp (upd t akida))
                | Some (Inr i, t) \<Rightarrow>
                    (case loop tmp sz evs sz buf pos (xfer_state akida (t ! i)) of
                       None \<Rightarrow> None
                     | Some (ret, pos, st) \<Rightarrow>
                         Some (ret, pos, akida_kfree tmp (put_xfer st (upd (akida_release_chan i (t[i := ax_dc st])) akida)))))))"
    and tab_upd: "tab (upd t akida) = t" "tab (put_xfer st akida) = tab akida" "tab (akida\<lparr>ad_w := w\<rparr>) = tab akida"
    and other_upd: "other (upd t akida) = other akida" "other (put_xfer st akida) = other akida"
      "other (akida\<lparr>ad_w := w\<rparr>) = other akida"
    and upd_frame: "ad_w (upd t akida) = ad_w akida" "ad_chan (upd t akida) = ad_chan akida"
    and loop_runs: "fit \<Longrightarrow> io_ready c x d st \<Longrightarrow> \<exists>r pos' st'. loop tmp sz evs sz usr pos st = Some (r, pos', st') \<and> io_link st st' \<and>
      (r = sint sz \<and> pos' = pos + sz \<and> io_ready c x d st' \<and> moved_all (moved c x d tmp) usr pos (chunk_plan 0 sz) st st' \<or>
       r < 0 \<and> io_failed r st' \<and> (\<exists>q \<in> set (chunk_plan 0 sz). pos' = pos + fst q))"
begin

lemma kfree_frame:
  "ad_chan (akida_kfree p akida) = ad_chan akida" "tab (akida_kfree p akida) = tab akida"
  "other (akida_kfree p akida) = other akida"
  by (simp_all add: akida_kfree_def tab_upd other_upd)

lemma kfree_goes:
  assumes "R_buf p \<in># R"
  shows "goes R (ad_w akida) (R - {#R_buf p#}) (ad_w (akida_kfree p akida))"
proof -
  obtain r w where 1: "kcall (K_kfree p) (ad_w akida) = (r, w)" by fastforce
  show ?thesis
    unfolding akida_kfree_def 1 snd_conv akida_dev.select_convs akida_dev.surjective
    using goes_kcall [OF 1, of R "R - {#R_buf p#}"] assms by simp
qed

lemma kfree_idle: "idle c (ad_w akida) \<Longrightarrow> idle c (ad_w (akida_kfree p akida))"
  by (cases "kcall (K_kfree p) (ad_w akida)") (auto simp: akida_kfree_def intro: idle_io kcall_frame(5))

lemma kfree_pool: "pool_ok akida t \<Longrightarrow> pool_ok (akida_kfree p akida) t"
  by (simp add: pool_ok_def kfree_frame kfree_idle)

text \<open>Between the two calls for the bounce buffer nothing is taken or given back.\<close>

lemma bracket:
  assumes "kcall (K_kmalloc n) (ad_w akida) = (tmp, w1)" "tmp \<noteq> 0" "\<And>R. goes R w1 R (ad_w d)"
  shows "ledger R (new_evs (ad_w akida) (ad_w (akida_kfree tmp d))) = Some R"
proof -
  have "goes R (ad_w akida) (add_mset (R_buf tmp) R) w1"
    by (rule goes_kcall [OF assms(1)]) (simp add: assms(2))
  from goes_trans [OF this goes_trans [OF assms(3) kfree_goes [of tmp "add_mset (R_buf tmp) R" d]]] show ?thesis
    by (intro goes_new_evs) simp
qed

text \<open>A caller that is granted channel \<open>i\<close> of \<open>t\<close> runs the loop on it \<dots>\<close>

lemma granted:
  assumes "fit" "pool_ok akida t" "akida_take t = Some (i, t')"
  shows "\<exists>r pos' st'. loop tmp sz evs sz buf pos (xfer_state akida (t' ! i)) = Some (r, pos', st') \<and>
    io_link (xfer_state akida (t' ! i)) st' \<and> (r \<noteq> - ETIMEDOUT \<longrightarrow> idle (ax_chan st') (ax_w st')) \<and>
    (r = sint sz \<and> pos' = pos + sz \<and>
       moved_all (moved (ad_chan akida (dc_chan (t ! i))) (dma_xfer_dir (t ! i)) (dma_data_dir (t ! i)) tmp)
         buf pos (chunk_plan 0 sz) (xfer_state akida (t' ! i)) st' \<or>
     r \<in> io_errors \<and> (\<exists>q \<in> set (chunk_plan 0 sz). pos' = pos + fst q))"
proof -
  have "idle (ad_chan akida (dc_chan (t ! i))) (ad_w akida)"
    using assms(2) take_entry [OF assms(3)] by (simp add: pool_ok_def)
  then have "io_ready (ad_chan akida (dc_chan (t ! i))) (dma_xfer_dir (t ! i)) (dma_data_dir (t ! i)) (xfer_state akida (t' ! i))"
    using take_entry [OF assms(3)] by (simp add: io_ready_def xfer_state_def)
  from loop_runs [OF assms(1) this, of tmp sz evs buf pos] show ?thesis
    by (elim exE conjE disjE) (auto simp: io_ready_def io_failed_def io_errors_def)
qed

text \<open>\<dots> and gives it back idle.\<close>

lemma release_pool:
  assumes "pool_ok akida t" "akida_take t = Some (i, t')" "io_link (xfer_state akida (t' ! i)) st'"
    "idle (ax_chan st') (ax_w st')"
  defines "d \<equiv> put_xfer st' (upd (akida_release_chan i (t'[i := ax_dc st'])) akida)"
  shows "pool_ok d (tab d)"
proof -
  note te = take_entry [OF assms(2)]
  have h: "dc_chan (ax_dc st') = dc_chan (t ! i)"
    using assms(3) te by (simp add: io_link_def same_side_def xfer_state_def)
  have tb: "tab d = t[i := (ax_dc st')\<lparr>is_used := False\<rparr>]"
    using te by (simp add: d_def tab_upd akida_release_chan_def)
  have ch: "ad_chan d = (ad_chan akida)(dc_chan (t ! i) := ax_chan st')" "ad_w d = ax_w st'"
    by (simp_all add: d_def put_xfer_def upd_frame h)
  have "idle (ad_chan d (dc_chan e)) (ad_w d)" if "e \<in> set (tab d)" "\<not> is_used e" for e
  proof (cases "dc_chan e = dc_chan (t ! i)")
    case True
    then show ?thesis
      using assms(4) by (simp add: ch)
  next
    case False
    then have "e \<in> set t"
      using subsetD [OF set_update_subset_insert that(1) [unfolded tb]] h by auto
    then have "idle (ad_chan akida (dc_chan e)) (ad_w akida)"
      using assms(1) that(2) by (simp add: pool_ok_def)
    then show ?thesis
      using assms(4) False by (simp add: ch idle_def)
  qed
  then show ?thesis
    by (simp add: pool_ok_def)
qed

lemma released:
  assumes "akida_take t = Some (i, t')" "io_link (xfer_state akida (t' ! i)) st'"
  defines "d \<equiv> put_xfer st' (upd (akida_release_chan i (t'[i := ax_dc st'])) akida)"
  shows "map chan_slot (tab d) = map chan_slot t" "other d = other akida"
proof -
  note te = take_entry [OF assms(1)]
  have "tab d = t[i := (ax_dc st')\<lparr>is_used := False\<rparr>]"
    using te by (simp add: d_def tab_upd akida_release_chan_def)
  moreover have "chan_slot ((ax_dc st')\<lparr>is_used := False\<rparr>) = chan_slot (t ! i)"
    using assms(2) te by (simp add: chan_slot_def io_link_def same_side_def xfer_state_def)
  ultimately show "map chan_slot (tab d) = map chan_slot t"
    using te(1) by (simp add: map_update list_update_same_conv)
  show "other d = other akida"
    by (simp add: d_def other_upd)
qed

text \<open>The operation once the bounce buffer is there.\<close>

lemma op_buffer:
  assumes "fit" "\<forall>t \<in> seen_tabs sleep (tab akida). pool_ok akida t" "akida_acquire_chan sleep (tab akida) \<noteq> None"
    and allowed: "akida_is_allowed pos sz" and 1: "kcall (K_kmalloc 1024) (ad_w akida) = (tmp, w1)" "tmp \<noteq> 0"
  shows "\<exists>res. op sleep evs buf sz pos akida = Some res \<and> op_ok tab other moved (seen_tabs sleep (tab akida)) buf pos sz akida res"
proof -
  define akida1 where "akida1 = akida\<lparr>ad_w := w1\<rparr>"
  have akida1: "tab akida1 = tab akida" "ad_chan akida1 = ad_chan akida" "ad_w akida1 = w1"
    by (simp_all add: akida1_def tab_upd)
  obtain res t' where acq: "akida_acquire_chan sleep (tab akida) = Some (res, t')"
    using assms(3) by auto
  obtain t where t: "t \<in> seen_tabs sleep (tab akida)"
    "(res = Inl (- ERESTARTSYS) \<and> t' = t) \<or> (\<exists>i. res = Inr i \<and> akida_take t = Some (i, t'))"
    using acquire_cases [OF acq] by blast
  have pool: "pool_ok akida1 t"
    using assms(2) t(1) idle_io [OF _ kcall_frame(5) [OF 1(1)]] by (auto simp: pool_ok_def akida1)
  note run = op_eq [of sleep evs buf sz pos akida, unfolded 1(1) Let_def prod.case, folded akida1_def]
  from t(2) show ?thesis
  proof (elim disjE conjE exE)
    assume res: "res = Inl (- ERESTARTSYS)" "t' = t"
    let ?d = "akida_kfree tmp (upd t akida1)"
    have "op sleep evs buf sz pos akida = Some (- ERESTARTSYS, pos, ?d)"
      using allowed 1(2) by (simp add: run akida1(1) acq res)
    moreover have "pool_ok ?d (tab ?d)"
      using kfree_pool [of "upd t akida1" t] pool by (simp add: kfree_frame tab_upd pool_ok_def upd_frame)
    moreover have "ledger R (new_evs (ad_w akida) (ad_w ?d)) = Some R" for R
      by (rule bracket [OF 1]) (simp add: upd_frame akida1(3) goes_refl)
    moreover have "tab ?d = t" "other ?d = other akida"
      by (simp_all add: kfree_frame tab_upd other_upd akida1_def)
    ultimately show ?thesis
      using t(1) by (auto simp: op_ok_def io_errors_def)
  next
    fix i
    assume res: "res = Inr i" "akida_take t = Some (i, t')"
    let ?st = "xfer_state akida1 (t' ! i)"
    obtain r pos' st' where lp: "loop tmp sz evs sz buf pos ?st = Some (r, pos', st')" "io_link ?st st'"
      "r \<noteq> - ETIMEDOUT \<longrightarrow> idle (ax_chan st') (ax_w st')"
      "r = sint sz \<and> pos' = pos + sz \<and> moved_all (moved (ad_chan akida (dc_chan (t ! i))) (dma_xfer_dir (t ! i))
         (dma_data_dir (t ! i)) tmp) buf pos (chunk_plan 0 sz) ?st st' \<or>
       r \<in> io_errors \<and> (\<exists>q \<in> set (chunk_plan 0 sz). pos' = pos + fst q)"
      using granted [OF assms(1) pool res(2), of tmp sz evs buf pos] unfolding akida1(2) by blast
    define d where "d = put_xfer st' (upd (akida_release_chan i (t'[i := ax_dc st'])) akida1)"
    have w: "ad_w d = ax_w st'" "ax_w ?st = w1"
      by (simp_all add: d_def put_xfer_def xfer_state_def akida1(3))
    have "op sleep evs buf sz pos akida = Some (r, pos', akida_kfree tmp d)"
      using allowed 1(2) lp(1) by (simp add: run akida1(1) acq res d_def)
    moreover have "ledger R (new_evs (ad_w akida) (ad_w (akida_kfree tmp d))) = Some R" for R
      by (rule bracket [OF 1]) (use lp(2) in \<open>simp add: io_link_def w\<close>)
    moreover have "pool_ok (akida_kfree tmp d) (tab (akida_kfree tmp d))" if "r \<noteq> - ETIMEDOUT"
      using kfree_pool [OF release_pool(1) [OF pool res(2) lp(2)], of tmp] lp(3) that by (simp add: d_def kfree_frame)
    moreover have "map chan_slot (tab (akida_kfree tmp d)) = map chan_slot t" "other (akida_kfree tmp d) = other akida"
      using released [OF res(2) lp(2)] by (simp_all add: d_def kfree_frame other_upd akida1_def)
    moreover have "op_done moved t buf pos sz akida (akida_kfree tmp d)"
      if mv: "moved_all (moved (ad_chan akida (dc_chan (t ! i))) (dma_xfer_dir (t ! i)) (dma_data_dir (t ! i)) tmp)
        buf pos (chunk_plan 0 sz) ?st st'"
      unfolding op_done_def
    proof (intro exI conjI)
      show "trace (ax_w ?st) = trace (ad_w akida) @ [Kcall (K_kmalloc 1024) tmp]"
        using kcall_trace [OF 1(1)] by (simp add: w(2))
      show "moved_all (moved (ad_chan akida (dc_chan (t ! i))) (dma_xfer_dir (t ! i)) (dma_data_dir (t ! i)) tmp)
          buf pos (chunk_plan 0 sz) ?st st'"
        by (rule mv)
      show "t ! i \<in> set t" "\<not> is_used (t ! i)"
        using take_entry [OF res(2)] by simp_all
    qed (simp add: akida_kfree_def w)
    ultimately show ?thesis
      using lp(4) allowed t(1) by (auto simp: op_ok_def)
  qed
qed

lemma op_runs:
  assumes "fit" "\<forall>t \<in> seen_tabs sleep (tab akida). pool_ok akida t" "akida_acquire_chan sleep (tab akida) \<noteq> None"
  shows "\<exists>res. op sleep evs buf sz pos akida = Some res \<and> op_ok tab other moved (seen_tabs sleep (tab akida)) buf pos sz akida res"
proof (cases "akida_is_allowed pos sz")
  case False
  then have "op sleep evs buf sz pos akida = Some (- EINVAL, pos, akida)"
    by (subst op_eq) simp
  then show ?thesis
    using assms(2) by (simp add: op_ok_def io_errors_def seen_tabs_def)
next
  case allowed: True
  obtain tmp w1 where 1: "kcall (K_kmalloc 1024) (ad_w akida) = (tmp, w1)" by fastforce
  show ?thesis
  proof (cases "tmp = 0")
    case True
    let ?d = "akida\<lparr>ad_w := w1\<rparr>"
    have "op sleep evs buf sz pos akida = Some (- ENOMEM, pos, ?d)"
      using allowed True by (subst op_eq) (simp add: 1)
    moreover have "ledger R (new_evs (ad_w akida) (ad_w ?d)) = Some R" for R
      using goes_new_evs [OF goes_kcall [OF 1, of R R]] True by simp
    moreover have "pool_ok ?d (tab ?d)"
      using assms(2) idle_io [OF _ kcall_frame(5) [OF 1]] by (auto simp: pool_ok_def tab_upd seen_tabs_def)
    ultimately show ?thesis
      by (auto simp: op_ok_def io_errors_def tab_upd other_upd seen_tabs_def)
  qed (rule op_buffer [OF assms allowed 1])
qed

end

subsection \<open>The two operations as providers\<close>

lemma put_xfer_tabs [simp]:
  "(put_xfer st akida)\<lparr>rxchan := t\<rparr> = put_xfer st (akida\<lparr>rxchan := t\<rparr>)"
  "(put_xfer st akida)\<lparr>txchan := t\<rparr> = put_xfer st (akida\<lparr>txchan := t\<rparr>)"
  "rxchan (put_xfer st akida) = rxchan akida" "txchan (put_xfer st akida) = txchan akida"
  by (auto simp: put_xfer_def)

interpretation rd_op: file_op "akida_read env" rxchan txchan "\<lambda>t akida. akida\<lparr>rxchan := t\<rparr>" "read_loop env"
  "read_moved env" "env_ok env" for env
proof
  show "akida_read env sleep evs buf sz pos akida =
      (if \<not> akida_is_allowed pos sz then Some (- EINVAL, pos, akida)
       else
         (let (tmp, w) = kcall (K_kmalloc 1024) (ad_w akida); akida = akida\<lparr>ad_w := w\<rparr>
          in if tmp = 0 then Some (- ENOMEM, pos, akida)
             else
               (case akida_acquire_chan sleep (rxchan akida) of
                  None \<Rightarrow> None
                | Some (Inl err, t) \<Rightarrow> Some (err, pos, akida_kfree tmp (akida\<lparr>rxchan := t\<rparr>))
                | Some (Inr i, t) \<Rightarrow>
                    (case read_loop env tmp sz evs sz buf pos (xfer_state akida (t ! i)) of
                       None \<Rightarrow> None
                     | Some (ret, pos, st) \<Rightarrow>
                         Some (ret, pos, akida_kfree tmp (put_xfer st (akida\<lparr>rxchan := akida_release_chan i (t[i := ax_dc st])\<rparr>)))))))"
    for sleep evs buf sz pos akida
    by (cases "kcall (K_kmalloc 1024) (ad_w akida)")
      (auto simp: akida_read_def akida_acquire_rxchan_def akida_release_rxchan_def xfer_state_def Let_def
        AKIDA_DMA_XFER_MAX_SIZE_def split: option.splits sum.splits prod.splits)
  show "\<exists>r pos' st'. read_loop env tmp sz evs sz usr pos st = Some (r, pos', st') \<and> io_link st st' \<and>
      (r = sint sz \<and> pos' = pos + sz \<and> io_ready c x d st' \<and> moved_all (read_moved env c x d tmp) usr pos (chunk_plan 0 sz) st st' \<or>
       r < 0 \<and> io_failed r st' \<and> (\<exists>q \<in> set (chunk_plan 0 sz). pos' = pos + fst q))"
    if "env_ok env" "io_ready c x d st" for c x d st tmp sz evs usr pos
  proof -
    have "env_ready env c x d st"
      using that by (simp add: env_ready_def)
    from rd.loop_all [OF this, of tmp sz evs usr pos] show ?thesis
      by (force simp: env_ready_def)
  qed
qed (simp_all add: put_xfer_def)

interpretation wr_op: file_op "akida_write env" txchan rxchan "\<lambda>t akida. akida\<lparr>txchan := t\<rparr>" "write_loop env"
  "write_moved env" "env_ok env" for env
proof
  show "akida_write env sleep evs buf sz pos akida =
      (if \<not> akida_is_allowed pos sz then Some (- EINVAL, pos, akida)
       else
         (let (tmp, w) = kcall (K_kmalloc 1024) (ad_w akida); akida = akida\<lparr>ad_w := w\<rparr>
          in if tmp = 0 then Some (- ENOMEM, pos, akida)
             else
               (case akida_acquire_chan sleep (txchan akida) of
                  None \<Rightarrow> None
                | Some (Inl err, t) \<Rightarrow> Some (err, pos, akida_kfree tmp (akida\<lparr>txchan := t\<rparr>))
                | Some (Inr i, t) \<Rightarrow>
                    (case write_loop env tmp sz evs sz buf pos (xfer_state akida (t ! i)) of
                       None \<Rightarrow> None
                     | Some (ret, pos, st) \<Rightarrow>
                         Some (ret, pos, akida_kfree tmp (put_xfer st (akida\<lparr>txchan := akida_release_chan i (t[i := ax_dc st])\<rparr>)))))))"
    for sleep evs buf sz pos akida
    by (cases "kcall (K_kmalloc 1024) (ad_w akida)")
      (auto simp: akida_write_def akida_acquire_txchan_def akida_release_txchan_def xfer_state_def Let_def
        AKIDA_DMA_XFER_MAX_SIZE_def split: option.splits sum.splits prod.splits)
  show "\<exists>r pos' st'. write_loop env tmp sz evs sz usr pos st = Some (r, pos', st') \<and> io_link st st' \<and>
      (r = sint sz \<and> pos' = pos + sz \<and> io_ready c x d st' \<and> moved_all (write_moved env c x d tmp) usr pos (chunk_plan 0 sz) st st' \<or>
       r < 0 \<and> io_failed r st' \<and> (\<exists>q \<in> set (chunk_plan 0 sz). pos' = pos + fst q))"
    if "env_ok env" "io_ready c x d st" for c x d st tmp sz evs usr pos
  proof -
    have "env_ready env c x d st"
      using that by (simp add: env_ready_def)
    from wr.loop_all [OF this, of tmp sz evs usr pos] show ?thesis
      by (force simp: env_ready_def)
  qed
qed (simp_all add: put_xfer_def)

subsection \<open>What a successful operation has done\<close>

text \<open>
  The events of a plan: for each chunk the bounce buffer is mapped, the engine is started on the chunk's
  device address, and the copy to or from the chunk's user address succeeds.
\<close>

fun read_events ::
  "dw_edma \<Rightarrow> dw_edma_chan \<Rightarrow> akida_dma_chan \<Rightarrow> int \<Rightarrow> u64 \<Rightarrow> u64 \<Rightarrow> (u64 \<times> u64) list \<Rightarrow> ev list \<Rightarrow> bool" where
  "read_events dw c dc tmp usr pos [] es = (es = [])"
| "read_events dw c dc tmp usr pos ((off, len) # ps) es =
     (\<exists>a tr es'. 0 \<le> a \<and>
        es = (Kcall (K_dma_map_single tmp len (dma_data_dir dc)) a # tr) @ Kcall (K_copy_to_user (usr + off) tmp len) 0 # es' \<and>
        rings_with dw c (xfer_burst (dw_chip dw) (dma_xfer_dir dc) (pos + off) (of_int a) len) tr \<and>
        read_events dw c dc tmp usr pos ps es')"

fun write_events ::
  "dw_edma \<Rightarrow> dw_edma_chan \<Rightarrow> akida_dma_chan \<Rightarrow> int \<Rightarrow> u64 \<Rightarrow> u64 \<Rightarrow> (u64 \<times> u64) list \<Rightarrow> ev list \<Rightarrow> bool" where
  "write_events dw c dc tmp usr pos [] es = (es = [])"
| "write_events dw c dc tmp usr pos ((off, len) # ps) es =
     (\<exists>a tr es'. 0 \<le> a \<and>
        es = Kcall (K_copy_from_user tmp (usr + off) len) 0 # (Kcall (K_dma_map_single tmp len (dma_data_dir dc)) a # tr) @ es' \<and>
        rings_with dw c (xfer_burst (dw_chip dw) (dma_xfer_dir dc) (pos + off) (of_int a) len) tr \<and>
        write_events dw c dc tmp usr pos ps es')"

text \<open>The list of a channel is clear of the registers.\<close>

definition ll_apart :: "dw_edma \<Rightarrow> dw_edma_chan \<Rightarrow> bool" where
  "ll_apart dw c \<longleftrightarrow> ch_id c < 8 \<and>
     (let rg = ll_region_of (dw_chip dw) (ch_dir c) (ch_id c)
      in vaddr rg + 40 \<le> reg_base (dw_chip dw) \<or> reg_base (dw_chip dw) + 0x1200 \<le> vaddr rg)"

lemma mapped_events:
  assumes "mapped_xfer env c x d tmp pos len w w'" "env_ok env" "ll_apart (env_dw env) c"
  obtains a tr where "0 \<le> a" "trace w' = trace w @ Kcall (K_dma_map_single tmp len d) a # tr"
    "rings_with (env_dw env) c (xfer_burst (dw_chip (env_dw env)) x pos (of_int a) len) tr"
proof -
  obtain a w1 where 1: "0 \<le> a" "kcall (K_dma_map_single tmp len d) w = (a, w1)"
    "programmed env c (xfer_burst (dw_chip (env_dw env)) x pos (of_int a) len) w1 w'"
    using assms(1) unfolding mapped_xfer_def by blast
  have core: "dw_core (env_dw env) \<noteq> CORE_NONE"
    using assms(2) by (simp add: env_ok_def)
  have "trace w1 = trace w @ [Kcall (K_dma_map_single tmp len d) a]"
    using 1(2) by (auto simp: kcall_def Let_def)
  then have "trace w' = trace w @ Kcall (K_dma_map_single tmp len d) a # new_evs w1 w'"
    using programmed_extends [OF 1(3) core] by simp
  moreover have "rings_with (env_dw env) c (xfer_burst (dw_chip (env_dw env)) x pos (of_int a) len) (new_evs w1 w')"
    by (rule programmed_rings [OF 1(3) core _ _ refl]) (use assms(3) in \<open>simp_all add: ll_apart_def Let_def\<close>)
  ultimately show ?thesis
    using that 1(1) by blast
qed

lemma read_all_events:
  assumes "moved_all (read_moved env c (dma_xfer_dir dc) (dma_data_dir dc) tmp) usr pos ps st st'" "env_ok env"
    "ll_apart (env_dw env) c"
  shows "\<exists>es. trace (ax_w st') = trace (ax_w st) @ es \<and> read_events (env_dw env) c dc tmp usr pos ps es"
  using assms(1)
proof (induction ps arbitrary: st)
  case Nil
  then show ?case by simp
next
  case (Cons p ps)
  obtain off len where p: "p = (off, len)" by fastforce
  obtain st1 where m: "read_moved env c (dma_xfer_dir dc) (dma_data_dir dc) tmp (pos + off) (usr + off) len st st1"
    "moved_all (read_moved env c (dma_xfer_dir dc) (dma_data_dir dc) tmp) usr pos ps st1 st'"
    using Cons.prems by (auto simp: p)
  obtain w where 1: "mapped_xfer env c (dma_xfer_dir dc) (dma_data_dir dc) tmp (pos + off) len (ax_w st) w"
    "kcall (K_copy_to_user (usr + off) tmp len) w = (0, ax_w st1)"
    using m(1) unfolding read_moved_def by blast
  obtain es where es: "trace (ax_w st') = trace (ax_w st1) @ es" "read_events (env_dw env) c dc tmp usr pos ps es"
    using Cons.IH [OF m(2)] by blast
  obtain a tr where 2: "0 \<le> a" "trace w = trace (ax_w st) @ Kcall (K_dma_map_single tmp len (dma_data_dir dc)) a # tr"
    "rings_with (env_dw env) c (xfer_burst (dw_chip (env_dw env)) (dma_xfer_dir dc) (pos + off) (of_int a) len) tr"
    using mapped_events [OF 1(1) assms(2,3)] .
  have "trace (ax_w st') = trace (ax_w st) @
      ((Kcall (K_dma_map_single tmp len (dma_data_dir dc)) a # tr) @ Kcall (K_copy_to_user (usr + off) tmp len) 0 # es)"
    by (simp add: es(1) kcall_trace [OF 1(2)] 2(2))
  moreover have "read_events (env_dw env) c dc tmp usr pos (p # ps)
      ((Kcall (K_dma_map_single tmp len (dma_data_dir dc)) a # tr) @ Kcall (K_copy_to_user (usr + off) tmp len) 0 # es)"
    unfolding p read_events.simps using 2(1,3) es(2) by blast
  ultimately show ?case
    by blast
qed

lemma write_all_events:
  assumes "moved_all (write_moved env c (dma_xfer_dir dc) (dma_data_dir dc) tmp) usr pos ps st st'" "env_ok env"
    "ll_apart (env_dw env) c"
  shows "\<exists>es. trace (ax_w st') = trace (ax_w st) @ es \<and> write_events (env_dw env) c dc tmp usr pos ps es"
  using assms(1)
proof (induction ps arbitrary: st)
  case Nil
  then show ?case by simp
next
  case (Cons p ps)
  obtain off len where p: "p = (off, len)" by fastforce
  obtain st1 where m: "write_moved env c (dma_xfer_dir dc) (dma_data_dir dc) tmp (pos + off) (usr + off) len st st1"
    "moved_all (write_moved env c (dma_xfer_dir dc) (dma_data_dir dc) tmp) usr pos ps st1 st'"
    using Cons.prems by (auto simp: p)
  obtain w where 1: "kcall (K_copy_from_user tmp (usr + off) len) (ax_w st) = (0, w)"
    "mapped_xfer env c (dma_xfer_dir dc) (dma_data_dir dc) tmp (pos + off) len w (ax_w st1)"
    using m(1) unfolding write_moved_def by blast
  obtain es where es: "trace (ax_w st') = trace (ax_w st1) @ es" "write_events (env_dw env) c dc tmp usr pos ps es"
    using Cons.IH [OF m(2)] by blast
  obtain a tr where 2: "0 \<le> a" "trace (ax_w st1) = trace w @ Kcall (K_dma_map_single tmp len (dma_data_dir dc)) a # tr"
    "rings_with (env_dw env) c (xfer_burst (dw_chip (env_dw env)) (dma_xfer_dir dc) (pos + off) (of_int a) len) tr"
    using mapped_events [OF 1(2) assms(2,3)] .
  have "trace (ax_w st') = trace (ax_w st) @
      (Kcall (K_copy_from_user tmp (usr + off) len) 0 # (Kcall (K_dma_map_single tmp len (dma_data_dir dc)) a # tr) @ es)"
    by (simp add: es(1) kcall_trace [OF 1(1)] 2(2))
  moreover have "write_events (env_dw env) c dc tmp usr pos (p # ps)
      (Kcall (K_copy_from_user tmp (usr + off) len) 0 # (Kcall (K_dma_map_single tmp len (dma_data_dir dc)) a # tr) @ es)"
    unfolding p write_events.simps using 2(1,3) es(2) by blast
  ultimately show ?case
    by blast
qed

lemma op_events:
  assumes "trace (ax_w st) = trace w @ [Kcall (K_kmalloc 1024) tmp]" "trace (ax_w st') = trace (ax_w st) @ es"
  shows "\<exists>r. new_evs w (snd (kcall (K_kfree tmp) (ax_w st'))) = Kcall (K_kmalloc 1024) tmp # es @ [Kcall (K_kfree tmp) r]"
proof -
  obtain r w2 where 2: "kcall (K_kfree tmp) (ax_w st') = (r, w2)" by fastforce
  have "trace w2 = trace w @ (Kcall (K_kmalloc 1024) tmp # es @ [Kcall (K_kfree tmp) r])"
    using kcall_trace [OF 2] assms by simp
  then show ?thesis
    unfolding 2 snd_conv by (blast dest: new_evsI)
qed

lemma read_done:
  assumes "op_done (read_moved env) t buf pos sz akida akida'" "env_ok env" "\<forall>h. ll_apart (env_dw env) (ad_chan akida h)"
  shows "\<exists>dc \<in> set t. \<exists>tmp es x. \<not> is_used dc \<and>
    new_evs (ad_w akida) (ad_w akida') = Kcall (K_kmalloc 1024) tmp # es @ [Kcall (K_kfree tmp) x] \<and>
    read_events (env_dw env) (ad_chan akida (dc_chan dc)) dc tmp buf pos (chunk_plan 0 sz) es"
proof -
  obtain tmp dc st st' where a: "trace (ax_w st) = trace (ad_w akida) @ [Kcall (K_kmalloc 1024) tmp]"
    "dc \<in> set t" "\<not> is_used dc"
    "moved_all (read_moved env (ad_chan akida (dc_chan dc)) (dma_xfer_dir dc) (dma_data_dir dc) tmp) buf pos (chunk_plan 0 sz) st st'"
    "ad_w akida' = snd (kcall (K_kfree tmp) (ax_w st'))"
    using assms(1) unfolding op_done_def by blast
  obtain es where es: "trace (ax_w st') = trace (ax_w st) @ es"
    "read_events (env_dw env) (ad_chan akida (dc_chan dc)) dc tmp buf pos (chunk_plan 0 sz) es"
    using read_all_events [OF a(4) assms(2)] assms(3) by blast
  obtain x where "new_evs (ad_w akida) (ad_w akida') = Kcall (K_kmalloc 1024) tmp # es @ [Kcall (K_kfree tmp) x]"
    using op_events [OF a(1) es(1)] unfolding a(5) by blast
  then show ?thesis
    using a(2,3) es(2) by blast
qed

lemma write_done:
  assumes "op_done (write_moved env) t buf pos sz akida akida'" "env_ok env" "\<forall>h. ll_apart (env_dw env) (ad_chan akida h)"
  shows "\<exists>dc \<in> set t. \<exists>tmp es x. \<not> is_used dc \<and>
    new_evs (ad_w akida) (ad_w akida') = Kcall (K_kmalloc 1024) tmp # es @ [Kcall (K_kfree tmp) x] \<and>
    write_events (env_dw env) (ad_chan akida (dc_chan dc)) dc tmp buf pos (chunk_plan 0 sz) es"
proof -
  obtain tmp dc st st' where a: "trace (ax_w st) = trace (ad_w akida) @ [Kcall (K_kmalloc 1024) tmp]"
    "dc \<in> set t" "\<not> is_used dc"
    "moved_all (write_moved env (ad_chan akida (dc_chan dc)) (dma_xfer_dir dc) (dma_data_dir dc) tmp) buf pos (chunk_plan 0 sz) st st'"
    "ad_w akida' = snd (kcall (K_kfree tmp) (ax_w st'))"
    using assms(1) unfolding op_done_def by blast
  obtain es where es: "trace (ax_w st') = trace (ax_w st) @ es"
    "write_events (env_dw env) (ad_chan akida (dc_chan dc)) dc tmp buf pos (chunk_plan 0 sz) es"
    using write_all_events [OF a(4) assms(2)] assms(3) by blast
  obtain x where "new_evs (ad_w akida) (ad_w akida') = Kcall (K_kmalloc 1024) tmp # es @ [Kcall (K_kfree tmp) x]"
    using op_events [OF a(1) es(1)] unfolding a(5) by blast
  then show ?thesis
    using a(2,3) es(2) by blast
qed

subsection \<open>Properties\<close>

text \<open>C5: A read that gets a channel always returns. It gives back the bounce buffer and every mapping and
  its reservation, on every path: the table of the read channels is left with the reservations and the
  channels of a table the caller saw (the present one, if it did not sleep), in which the channel it used
  was free, and the table of the write channels is untouched. It fails with one of five errors, having moved the file position over
  the chunks it has delivered, or it returns the size asked for: then for each chunk of the request, in
  order, the engine was started on the device address of the chunk and the bounce buffer copied to the
  user address of the chunk.\<close>

theorem akida_read_runs:
  assumes "env_ok env" "\<forall>t \<in> seen_tabs sleep (rxchan akida). pool_ok akida t"
    and "akida_acquire_chan sleep (rxchan akida) \<noteq> None" "\<forall>h. ll_apart (env_dw env) (ad_chan akida h)"
  shows "\<exists>r pos' akida'. akida_read env sleep evs buf sz pos akida = Some (r, pos', akida') \<and>
    (\<forall>R. ledger R (new_evs (ad_w akida) (ad_w akida')) = Some R) \<and>
    (r \<noteq> - ETIMEDOUT \<longrightarrow> pool_ok akida' (rxchan akida')) \<and> txchan akida' = txchan akida \<and>
    (\<exists>t \<in> seen_tabs sleep (rxchan akida). map chan_slot (rxchan akida') = map chan_slot t \<and>
      (r \<in> io_errors \<and> (pos' = pos \<or> (\<exists>q \<in> set (chunk_plan 0 sz). pos' = pos + fst q)) \<or>
       r = sint sz \<and> pos' = pos + sz \<and> akida_is_allowed pos sz \<and>
         (\<exists>dc \<in> set t. \<exists>tmp es x. \<not> is_used dc \<and>
            new_evs (ad_w akida) (ad_w akida') = Kcall (K_kmalloc 1024) tmp # es @ [Kcall (K_kfree tmp) x] \<and>
            read_events (env_dw env) (ad_chan akida (dc_chan dc)) dc tmp buf pos (chunk_plan 0 sz) es)))"
proof -
  obtain r pos' akida' where 1: "akida_read env sleep evs buf sz pos akida = Some (r, pos', akida')"
    "op_ok rxchan txchan (read_moved env) (seen_tabs sleep (rxchan akida)) buf pos sz akida (r, pos', akida')"
    using rd_op.op_runs [OF assms(1-3), of evs buf sz pos] by auto
  note ok = 1(2) [unfolded op_ok_def prod.case]
  show ?thesis
  proof (intro exI conjI, rule 1(1))
    show "\<forall>R. ledger R (new_evs (ad_w akida) (ad_w akida')) = Some R"
      "r \<noteq> - ETIMEDOUT \<longrightarrow> pool_ok akida' (rxchan akida')" "txchan akida' = txchan akida"
      using ok by blast+
  qed (use ok read_done [OF _ assms(1,4)] in blast)
qed

text \<open>C6: The same of a write, with the bounce buffer filled from the user address of each chunk before the
  engine is started on the chunk's device address.\<close>

theorem akida_write_runs:
  assumes "env_ok env" "\<forall>t \<in> seen_tabs sleep (txchan akida). pool_ok akida t"
    and "akida_acquire_chan sleep (txchan akida) \<noteq> None" "\<forall>h. ll_apart (env_dw env) (ad_chan akida h)"
  shows "\<exists>r pos' akida'. akida_write env sleep evs buf sz pos akida = Some (r, pos', akida') \<and>
    (\<forall>R. ledger R (new_evs (ad_w akida) (ad_w akida')) = Some R) \<and>
    (r \<noteq> - ETIMEDOUT \<longrightarrow> pool_ok akida' (txchan akida')) \<and> rxchan akida' = rxchan akida \<and>
    (\<exists>t \<in> seen_tabs sleep (txchan akida). map chan_slot (txchan akida') = map chan_slot t \<and>
      (r \<in> io_errors \<and> (pos' = pos \<or> (\<exists>q \<in> set (chunk_plan 0 sz). pos' = pos + fst q)) \<or>
       r = sint sz \<and> pos' = pos + sz \<and> akida_is_allowed pos sz \<and>
         (\<exists>dc \<in> set t. \<exists>tmp es x. \<not> is_used dc \<and>
            new_evs (ad_w akida) (ad_w akida') = Kcall (K_kmalloc 1024) tmp # es @ [Kcall (K_kfree tmp) x] \<and>
            write_events (env_dw env) (ad_chan akida (dc_chan dc)) dc tmp buf pos (chunk_plan 0 sz) es)))"
proof -
  obtain r pos' akida' where 1: "akida_write env sleep evs buf sz pos akida = Some (r, pos', akida')"
    "op_ok txchan rxchan (write_moved env) (seen_tabs sleep (txchan akida)) buf pos sz akida (r, pos', akida')"
    using wr_op.op_runs [OF assms(1-3), of evs buf sz pos] by auto
  note ok = 1(2) [unfolded op_ok_def prod.case]
  show ?thesis
  proof (intro exI conjI, rule 1(1))
    show "\<forall>R. ledger R (new_evs (ad_w akida) (ad_w akida')) = Some R"
      "r \<noteq> - ETIMEDOUT \<longrightarrow> pool_ok akida' (txchan akida')" "rxchan akida' = rxchan akida"
      using ok by blast+
  qed (use ok write_done [OF _ assms(1,4)] in blast)
qed

text \<open>C11: A request that is let through and does not wrap around the address space is cut into chunks of 1 to
  1024 bytes that make up the request and never touch the area of the linked lists.\<close>

theorem akida_io_spares_lists:
  assumes "akida_is_allowed pos sz" "unat pos + unat sz < 2 ^ 64" "(off, len) \<in> set (chunk_plan 0 sz)"
  shows "unat (pos + off) = unat pos + unat off \<and> 0 < len \<and> len \<le> AKIDA_DMA_XFER_MAX_SIZE \<and>
    sum_list (map snd (chunk_plan 0 sz)) = sz \<and> unat off + unat len \<le> unat sz \<and>
    (unat (pos + off) + unat len < unat AKIDA_DMA_RAM_PHY_ADDR \<or>
     unat AKIDA_DMA_RAM_PHY_ADDR + unat AKIDA_DMA_RAM_PHY_SIZE \<le> unat (pos + off))"
proof -
  have w: "unat off + unat len \<le> unat sz" "0 < len" "len \<le> 1024"
    using chunk_plan_within [OF assms(3)] assms(2) by simp_all
  have "unat pos + unat off < 2 ^ LENGTH(64)"
    using w(1) assms(2) by simp
  then have po: "unat (pos + off) = unat pos + unat off"
    by (rule unat_add_lem [THEN iffD1])
  have "unat pos + unat sz < 2 ^ LENGTH(64)"
    using assms(2) by simp
  then have ps: "unat (pos + sz) = unat pos + unat sz"
    by (rule unat_add_lem [THEN iffD1])
  have "unat pos + unat sz < 0x20000000 \<or> 0x20000100 \<le> unat pos"
    using assms(1) ps by (simp add: akida_is_allowed_def akida_ram_defs word_less_nat_alt word_le_nat_alt)
  then show ?thesis
    using w po chunk_plan_sum [of 0 sz] by (auto simp: akida_ram_defs AKIDA_DMA_XFER_MAX_SIZE_def)
qed

subsection \<open>Witnesses\<close>

definition ex_akida :: akida_dev where
  "ex_akida = \<lparr>rxchan = ex_tab, txchan = [ex_dc\<lparr>is_used := False, dma_xfer_dir := DMA_MEM_TO_DEV, dma_data_dir := DMA_TO_DEVICE\<rparr>],
     ad_chan = (\<lambda>_. ex_chan EDMA_DIR_WRITE 0), ad_cbs = [], ad_w = ex_world\<rparr>"

lemma ex_akida_ok:
  "\<forall>t \<in> seen_tabs [] (rxchan ex_akida). pool_ok ex_akida t" "\<forall>t \<in> seen_tabs [] (txchan ex_akida). pool_ok ex_akida t"
  "akida_acquire_chan [] (rxchan ex_akida) \<noteq> None" "akida_acquire_chan [] (txchan ex_akida) \<noteq> None"
  "\<forall>h. ll_apart (env_dw ex_env) (ad_chan ex_akida h)"
proof -
  have "idle (ex_chan EDMA_DIR_WRITE 0) ex_world"
    using ex_xfer_ok(1) by (simp add: ex_xfer_st_def)
  then show "\<forall>t \<in> seen_tabs [] (rxchan ex_akida). pool_ok ex_akida t" "\<forall>t \<in> seen_tabs [] (txchan ex_akida). pool_ok ex_akida t"
    by (simp_all add: seen_tabs_def pool_ok_def ex_akida_def)
  show "akida_acquire_chan [] (rxchan ex_akida) \<noteq> None" "akida_acquire_chan [] (txchan ex_akida) \<noteq> None"
    by (subst akida_acquire_chan.simps, simp add: ex_akida_def akida_get_unsused_chan_def ex_tab_def)+
  show "\<forall>h. ll_apart (env_dw ex_env) (ad_chan ex_akida h)"
    by (simp add: ex_akida_def ex_env_def ll_apart_def ex_region_def ll_region_of_def ex_chip_def)
qed

lemma akida_read_runs_witness:
  "\<exists>r pos' akida'. akida_read ex_env [] [Ev_done, Ev_tasklet] 0x7000 64 0x1000 ex_akida = Some (r, pos', akida') \<and>
    ledger {#} (new_evs ex_world (ad_w akida')) = Some {#} \<and> map chan_slot (rxchan akida') = map chan_slot (rxchan ex_akida)"
  using akida_read_runs [OF ex_env_ok ex_akida_ok(1,3,5), where evs = "[Ev_done, Ev_tasklet]" and buf = "0x7000" and sz = "64" and
      pos = "0x1000"]
  by (fastforce simp: ex_akida_def seen_tabs_def)

lemma akida_write_runs_witness:
  "\<exists>r pos' akida'. akida_write ex_env [] [Ev_done, Ev_tasklet] 0x7000 64 0x1000 ex_akida = Some (r, pos', akida') \<and>
    ledger {#} (new_evs ex_world (ad_w akida')) = Some {#} \<and> map chan_slot (txchan akida') = map chan_slot (txchan ex_akida)"
  using akida_write_runs [OF ex_env_ok ex_akida_ok(2,4,5), where evs = "[Ev_done, Ev_tasklet]" and buf = "0x7000" and sz = "64" and
      pos = "0x1000"]
  by (fastforce simp: ex_akida_def seen_tabs_def)

lemma akida_io_spares_lists_witness:
  "(1024, 76) \<in> set (chunk_plan 0 1100) \<and> unat (0x1FFFFB00 + 1024 :: u64) + 76 < 0x20000000"
proof -
  have p: "chunk_plan 0 1100 = [(0, 1024), (1024, 76)]"
    by (simp add: chunk_plan_step chunk_size_def AKIDA_DMA_XFER_MAX_SIZE_def)
  then show ?thesis
    using akida_io_spares_lists [where pos = "0x1FFFFB00" and sz = "1100" and off = "1024" and len = "76"] by (simp add: akida_is_allowed_def akida_ram_defs)
qed

end
