(* ===== verification/Akida_Mmap.thy ===== *)
theory Akida_Mmap
  imports Io_Ops
begin

section \<open>Mapping device memory to user space (akida-pcie-core.c)\<close>

text \<open>
  The file operation \<open>mmap\<close> of both boards and the tables of file operations. A BAR is what the kernel
  reports of it; \<open>unsigned long\<close> and \<open>size_t\<close> have 64 bits and a page 4096 bytes. The protection bits
  and the \<open>vm_ops\<close> of the area are kernel data that nothing here depends on.
\<close>

definition PAGE_SHIFT :: nat where "PAGE_SHIFT = 12"

definition IORESOURCE_MEM :: u64 where "IORESOURCE_MEM = 0x200"

definition AKIDA_1500_BAR2_OFFSET :: u64 where "AKIDA_1500_BAR2_OFFSET = 0xFCC00000"

definition AKIDA_1500_BAR4_OFFSET :: u64 where "AKIDA_1500_BAR4_OFFSET = 0x20000000"

definition AKIDA_1500_HOST_DDR_BASE :: u64 where "AKIDA_1500_HOST_DDR_BASE = 0xC0000000"

record vm_area =
  vm_start :: u64
  vm_end :: u64
  vm_pgoff :: u64

definition vma_pages :: "vm_area \<Rightarrow> u64" where
  "vma_pages vma = drop_bit PAGE_SHIFT (vm_end vma - vm_start vma)"

text \<open>What the kernel reports of the BARs, by number.\<close>

record pci_bars =
  bar_start :: "nat \<Rightarrow> u64"
  bar_len :: "nat \<Rightarrow> u64"
  bar_flags :: "nat \<Rightarrow> u64"

record host_ddr_area =
  hd_cpu_addr :: int
  hd_dma_addr :: u64
  hd_size :: u64

definition akida_mmap :: "pci_bars \<Rightarrow> nat \<Rightarrow> vm_area \<Rightarrow> world \<Rightarrow> int \<times> vm_area \<times> world" where
  "akida_mmap bars bar vma w =
     (let vma = vma\<lparr>vm_pgoff := vm_pgoff vma + drop_bit PAGE_SHIFT (bar_start bars bar)\<rparr>;
          (ret, w) = kcall (K_io_remap_pfn_range (vm_start vma) (vm_pgoff vma) (vm_end vma - vm_start vma)) w
      in (ret, vma, w))"

definition bar_is_mem :: "pci_bars \<Rightarrow> nat \<Rightarrow> bool" where
  "bar_is_mem bars bar \<longleftrightarrow> bar_flags bars bar AND IORESOURCE_MEM \<noteq> 0"

definition pages_of :: "u64 \<Rightarrow> u64" where
  "pages_of n = drop_bit PAGE_SHIFT (n - 1) + 1"

definition akida_1000_mmap :: "pci_bars \<Rightarrow> vm_area \<Rightarrow> world \<Rightarrow> int \<times> vm_area \<times> world" where
  "akida_1000_mmap bars vma w =
     (if \<not> bar_is_mem bars 0 then (- EINVAL, vma, w)
      else if vm_pgoff vma + vma_pages vma > pages_of (bar_len bars 0) then (- EINVAL, vma, w)
      else akida_mmap bars 0 vma w)"

definition akida_1500_mmap ::
  "pci_bars \<Rightarrow> host_ddr_area \<Rightarrow> vm_area \<Rightarrow> world \<Rightarrow> int \<times> vm_area \<times> world" where
  "akida_1500_mmap bars ddr vma w =
     (let start0 = drop_bit PAGE_SHIFT AKIDA_1500_BAR2_OFFSET;
          start1 = drop_bit PAGE_SHIFT AKIDA_1500_BAR4_OFFSET;
          start2 = drop_bit PAGE_SHIFT AKIDA_1500_HOST_DDR_BASE;
          size0 = pages_of (bar_len bars 2); size1 = pages_of (bar_len bars 4); size2 = pages_of (hd_size ddr);
          on_bar = (\<lambda>bar vma. if \<not> bar_is_mem bars bar then (- EINVAL, vma, w) else akida_mmap bars bar vma w)
      in if start0 \<le> vm_pgoff vma \<and> vm_pgoff vma + vma_pages vma \<le> start0 + size0
         then on_bar 2 (vma\<lparr>vm_pgoff := vm_pgoff vma - start0\<rparr>)
         else if start1 \<le> vm_pgoff vma \<and> vm_pgoff vma + vma_pages vma \<le> start1 + size1
         then on_bar 4 (vma\<lparr>vm_pgoff := vm_pgoff vma - start1\<rparr>)
         else if hd_size ddr \<noteq> 0 \<and> start2 \<le> vm_pgoff vma \<and> vm_pgoff vma + vma_pages vma \<le> start2 + size2
         then (let vma = vma\<lparr>vm_pgoff := vm_pgoff vma - start2\<rparr>;
                   (ret, w) = kcall (K_dma_mmap_attrs (hd_cpu_addr ddr) (hd_dma_addr ddr) AKIDA_1500_HOST_DDR_BASE) w
               in (ret, vma, w))
         else (- EINVAL, vma, w))"

text \<open>The tables of file operations; \<open>llseek\<close> is the kernel's \<open>no_seek_end_llseek\<close>.\<close>

record akida_fops =
  fo_write :: "akida_env \<Rightarrow> sleep_ev list \<Rightarrow> wait_ev list \<Rightarrow> u64 \<Rightarrow> u64 \<Rightarrow> u64 \<Rightarrow> akida_dev \<Rightarrow> (int \<times> u64 \<times> akida_dev) option"
  fo_read :: "akida_env \<Rightarrow> sleep_ev list \<Rightarrow> wait_ev list \<Rightarrow> u64 \<Rightarrow> u64 \<Rightarrow> u64 \<Rightarrow> akida_dev \<Rightarrow> (int \<times> u64 \<times> akida_dev) option"
  fo_mmap :: "pci_bars \<Rightarrow> host_ddr_area \<Rightarrow> vm_area \<Rightarrow> world \<Rightarrow> int \<times> vm_area \<times> world"

definition akida_1000_fops :: akida_fops where
  "akida_1000_fops = \<lparr>fo_write = akida_write, fo_read = akida_read, fo_mmap = (\<lambda>bars ddr. akida_1000_mmap bars)\<rparr>"

definition akida_1500_fops :: akida_fops where
  "akida_1500_fops = \<lparr>fo_write = akida_write, fo_read = akida_read, fo_mmap = akida_1500_mmap\<rparr>"

subsection \<open>Lemmas\<close>

lemma unat_lt_64: "unat (x :: u64) < 2 ^ 64"
  by (rule order_less_le_trans [OF unsigned_less]) simp

lemma drop_12: "unat (drop_bit PAGE_SHIFT x) = unat (x :: u64) div 4096"
  unfolding PAGE_SHIFT_def unat_drop_bit_eq by (simp add: drop_bit_eq_div)

lemma unat_plus: "unat (a :: u64) + unat b < 2 ^ 64 \<Longrightarrow> unat (a + b) = unat a + unat b"
  using unat_add_lem [of a b] by simp

lemma pages_of_eq: "n \<noteq> 0 \<Longrightarrow> unat (pages_of n) = (unat n + 4095) div 4096"
proof -
  assume n: "n \<noteq> 0"
  then have "1 \<le> n"
    by (simp add: word_le_nat_alt Suc_le_eq unat_gt_0)
  then have s: "unat (n - 1) = unat n - 1"
    using unat_sub [of 1 n] by simp
  have "unat n < 2 ^ 64"
    by (rule unat_lt_64)
  then have "unat (drop_bit PAGE_SHIFT (n - 1)) + unat (1 :: u64) < 2 ^ 64"
    by (simp add: drop_12 s)
  then have "unat (pages_of n) = (unat n - 1) div 4096 + 1"
    unfolding pages_of_def by (subst unat_plus) (simp_all add: drop_12 s)
  also have "\<dots> = (unat n - 1 + 4096) div 4096"
    by simp
  also have "unat n - 1 + 4096 = unat n + 4095"
    using n unat_gt_0 [of n] by linarith
  finally show ?thesis .
qed

lemma pages_of_le: "unat (pages_of n) \<le> 2 ^ 52"
proof -
  have "unat (drop_bit PAGE_SHIFT (n - 1)) < 2 ^ 52"
    using unat_lt_64 [of "n - 1"] by (simp add: drop_12 less_mult_imp_div_less)
  then show ?thesis
    unfolding pages_of_def by (subst unat_plus) simp_all
qed

text \<open>A window of pages: an accepted area starts in it and ends in it.\<close>

lemma window_inside:
  assumes "unat (vm_pgoff vma) + unat (vma_pages vma) < 2 ^ 64" "start \<le> vm_pgoff vma"
    "vm_pgoff vma + vma_pages vma \<le> start + pages_of n" "unat start < 2 ^ 52" "n \<noteq> 0"
  shows "unat (vm_pgoff vma - start) + unat (vma_pages vma) \<le> (unat n + 4095) div 4096"
proof -
  have e: "unat (start + pages_of n) = unat start + unat (pages_of n)"
    using assms(4) pages_of_le [of n] by (intro unat_plus) simp
  have "unat (vm_pgoff vma) + unat (vma_pages vma) \<le> unat start + unat (pages_of n)"
    using assms(3) unfolding word_le_nat_alt e unat_plus [OF assms(1)] .
  then show ?thesis
    using unat_sub [OF assms(2)] assms(2) by (simp add: pages_of_eq [OF assms(5)] word_le_nat_alt)
qed

text \<open>What is handed to the kernel: the pages of one BAR, from the area's offset on.\<close>

definition maps_bar :: "pci_bars \<Rightarrow> nat \<Rightarrow> vm_area \<Rightarrow> vm_area \<Rightarrow> int \<Rightarrow> ev list \<Rightarrow> bool" where
  "maps_bar bars bar vma vma' r es \<longleftrightarrow>
     bar_is_mem bars bar \<and> es = [Kcall (K_io_remap_pfn_range (vm_start vma) (vm_pgoff vma') (vm_end vma - vm_start vma)) r] \<and>
     unat (bar_start bars bar) div 4096 \<le> unat (vm_pgoff vma') \<and>
     unat (vm_pgoff vma') + unat (vma_pages vma) \<le>
       unat (bar_start bars bar) div 4096 + (unat (bar_len bars bar) + 4095) div 4096"

lemma akida_mmap_maps:
  assumes "akida_mmap bars bar (vma\<lparr>vm_pgoff := p\<rparr>) w = (r, vma', w')" "bar_is_mem bars bar"
    "unat p + unat (vma_pages vma) \<le> (unat (bar_len bars bar) + 4095) div 4096"
    "unat (bar_start bars bar) + unat (bar_len bars bar) \<le> 2 ^ 64"
  shows "maps_bar bars bar vma vma' r (new_evs w w')"
proof -
  obtain q w1 where 1: "kcall (K_io_remap_pfn_range (vm_start vma) (p + drop_bit PAGE_SHIFT (bar_start bars bar))
      (vm_end vma - vm_start vma)) w = (q, w1)"
    by fastforce
  have "(unat (bar_len bars bar) + 4095) div 4096 + unat (bar_start bars bar) div 4096 < 2 ^ 64"
    using assms(4) by (simp add: less_mult_imp_div_less)
  then have p: "unat (p + drop_bit PAGE_SHIFT (bar_start bars bar)) = unat p + unat (bar_start bars bar) div 4096"
    using assms(3) by (subst unat_plus) (simp_all add: drop_12)
  have "new_evs w w1 = [Kcall (K_io_remap_pfn_range (vm_start vma) (p + drop_bit PAGE_SHIFT (bar_start bars bar))
      (vm_end vma - vm_start vma)) q]"
    by (rule new_evsI) (rule kcall_trace [OF 1])
  then show ?thesis
    using assms(1-3) p 1 by (auto simp: akida_mmap_def maps_bar_def)
qed

lemma mmap_1000_inside:
  assumes "unat (vm_pgoff vma) + unat (vma_pages vma) < 2 ^ 64"
    and bar: "bar_len bars 0 \<noteq> 0" "unat (bar_start bars 0) + unat (bar_len bars 0) \<le> 2 ^ 64"
    and r: "akida_1000_mmap bars vma w = (r, vma', w')"
  shows "r = - EINVAL \<and> w' = w \<or> maps_bar bars 0 vma vma' r (new_evs w w')"
proof (cases "\<not> bar_is_mem bars 0 \<or> vm_pgoff vma + vma_pages vma > pages_of (bar_len bars 0)")
  case True
  then show ?thesis
    using r by (auto simp: akida_1000_mmap_def split: if_splits)
next
  case False
  then have ok: "bar_is_mem bars 0" "vm_pgoff vma + vma_pages vma \<le> 0 + pages_of (bar_len bars 0)"
    by (simp_all add: not_less)
  have i: "unat (vm_pgoff vma) + unat (vma_pages vma) \<le> (unat (bar_len bars 0) + 4095) div 4096"
    using window_inside [OF assms(1) _ ok(2)] bar by simp
  have "maps_bar bars 0 vma vma' r (new_evs w w')"
    by (rule akida_mmap_maps [OF _ ok(1) i bar(2)]) (use r False in \<open>auto simp: akida_1000_mmap_def\<close>)
  then show ?thesis ..
qed

text \<open>The three windows of the Akida 1500, tried in this order.\<close>

lemma mmap_1500_window:
  obtains (bar) b s where "b \<in> {2, 4}" "unat s < 2 ^ 52" "s \<le> vm_pgoff vma" "vm_pgoff vma + vma_pages vma \<le> s + pages_of (bar_len bars b)"
      "akida_1500_mmap bars ddr vma w =
        (if \<not> bar_is_mem bars b then (- EINVAL, vma\<lparr>vm_pgoff := vm_pgoff vma - s\<rparr>, w)
         else akida_mmap bars b (vma\<lparr>vm_pgoff := vm_pgoff vma - s\<rparr>) w)"
  | (ddr) s where "hd_size ddr \<noteq> 0" "unat s < 2 ^ 52" "s \<le> vm_pgoff vma" "vm_pgoff vma + vma_pages vma \<le> s + pages_of (hd_size ddr)"
      "akida_1500_mmap bars ddr vma w = (case kcall (K_dma_mmap_attrs (hd_cpu_addr ddr) (hd_dma_addr ddr) AKIDA_1500_HOST_DDR_BASE) w of
         (q, w1) \<Rightarrow> (q, vma\<lparr>vm_pgoff := vm_pgoff vma - s\<rparr>, w1))"
  | (none) "akida_1500_mmap bars ddr vma w = (- EINVAL, vma, w)"
proof -
  let ?s0 = "drop_bit PAGE_SHIFT AKIDA_1500_BAR2_OFFSET" and ?s1 = "drop_bit PAGE_SHIFT AKIDA_1500_BAR4_OFFSET"
    and ?s2 = "drop_bit PAGE_SHIFT AKIDA_1500_HOST_DDR_BASE"
  have s: "unat ?s0 < 2 ^ 52" "unat ?s1 < 2 ^ 52" "unat ?s2 < 2 ^ 52"
    by (simp_all add: drop_12 AKIDA_1500_BAR2_OFFSET_def AKIDA_1500_BAR4_OFFSET_def AKIDA_1500_HOST_DDR_BASE_def)
  let ?in = "\<lambda>s n. s \<le> vm_pgoff vma \<and> vm_pgoff vma + vma_pages vma \<le> s + pages_of n"
  consider (b2) "?in ?s0 (bar_len bars 2)" | (b4) "\<not> ?in ?s0 (bar_len bars 2)" "?in ?s1 (bar_len bars 4)"
    | (d) "\<not> ?in ?s0 (bar_len bars 2)" "\<not> ?in ?s1 (bar_len bars 4)" "hd_size ddr \<noteq> 0 \<and> ?in ?s2 (hd_size ddr)"
    | (n) "\<not> ?in ?s0 (bar_len bars 2)" "\<not> ?in ?s1 (bar_len bars 4)" "\<not> (hd_size ddr \<noteq> 0 \<and> ?in ?s2 (hd_size ddr))"
    by blast
  then show ?thesis
  proof cases
    case b2
    show ?thesis by (intro bar [of 2 ?s0]) (use b2 s in \<open>simp_all add: akida_1500_mmap_def del: de_Morgan_conj\<close>)
  next
    case b4
    show ?thesis by (intro bar [of 4 ?s1]) (use b4 s in \<open>simp_all add: akida_1500_mmap_def del: de_Morgan_conj\<close>)
  next
    case d
    show ?thesis by (intro ddr [of ?s2]) (use d s in \<open>simp_all add: akida_1500_mmap_def del: de_Morgan_conj\<close>)
  next
    case n
    show ?thesis by (intro none) (use n s in \<open>simp_all add: akida_1500_mmap_def del: de_Morgan_conj\<close>)
  qed
qed

lemma mmap_1500_inside:
  assumes "unat (vm_pgoff vma) + unat (vma_pages vma) < 2 ^ 64"
    and bar: "\<forall>b \<in> {0, 2, 4}. bar_len bars b \<noteq> 0 \<and> unat (bar_start bars b) + unat (bar_len bars b) \<le> 2 ^ 64"
    and r: "akida_1500_mmap bars ddr vma w = (r, vma', w')"
  shows "r = - EINVAL \<and> w' = w \<or> (\<exists>bar \<in> {2, 4}. maps_bar bars bar vma vma' r (new_evs w w')) \<or>
    hd_size ddr \<noteq> 0 \<and> unat (vm_pgoff vma') + unat (vma_pages vma) \<le> (unat (hd_size ddr) + 4095) div 4096 \<and>
    new_evs w w' = [Kcall (K_dma_mmap_attrs (hd_cpu_addr ddr) (hd_dma_addr ddr) AKIDA_1500_HOST_DDR_BASE) r]"
proof (cases rule: mmap_1500_window [where bars = bars and vma = vma and ddr = ddr and w = w])
  case (bar b s)
  have i: "unat (vm_pgoff vma - s) + unat (vma_pages vma) \<le> (unat (bar_len bars b) + 4095) div 4096"
    by (rule window_inside [OF assms(1) bar(3,4,2)]) (use assms(2) bar(1) in auto)
  show ?thesis
  proof (cases "bar_is_mem bars b")
    case True
    have "maps_bar bars b vma vma' r (new_evs w w')"
      by (rule akida_mmap_maps [OF _ True i]) (use r bar(1,5) True assms(2) in auto)
    then show ?thesis
      using bar(1) by blast
  qed (use r bar(5) in simp)
next
  case (ddr s)
  obtain q w1 where 1: "kcall (K_dma_mmap_attrs (hd_cpu_addr ddr) (hd_dma_addr ddr) AKIDA_1500_HOST_DDR_BASE) w = (q, w1)"
    by fastforce
  have "unat (vm_pgoff vma - s) + unat (vma_pages vma) \<le> (unat (hd_size ddr) + 4095) div 4096"
    by (rule window_inside [OF assms(1) ddr(3,4,2,1)])
  moreover have "new_evs w w1 = [Kcall (K_dma_mmap_attrs (hd_cpu_addr ddr) (hd_dma_addr ddr) AKIDA_1500_HOST_DDR_BASE) q]"
    by (rule new_evsI) (rule kcall_trace [OF 1])
  ultimately show ?thesis
    using r ddr(1,5) 1 by auto
qed (use r in simp)

subsection \<open>Property\<close>

text \<open>C12: A mapping that is let through stays inside one BAR or inside the host buffer, for the whole
  length of the area; any other request is refused with -EINVAL and nothing is mapped.\<close>

theorem akida_mmap_inside:
  assumes "unat (vm_pgoff vma) + unat (vma_pages vma) < 2 ^ 64"
    and "\<forall>bar \<in> {0, 2, 4}. bar_len bars bar \<noteq> 0 \<and> unat (bar_start bars bar) + unat (bar_len bars bar) \<le> 2 ^ 64"
  shows "(case akida_1000_mmap bars vma w of (r, vma', w') \<Rightarrow>
      r = - EINVAL \<and> w' = w \<or> maps_bar bars 0 vma vma' r (new_evs w w')) \<and>
    (case akida_1500_mmap bars ddr vma w of (r, vma', w') \<Rightarrow>
      r = - EINVAL \<and> w' = w \<or> (\<exists>bar \<in> {2, 4}. maps_bar bars bar vma vma' r (new_evs w w')) \<or>
      hd_size ddr \<noteq> 0 \<and> unat (vm_pgoff vma') + unat (vma_pages vma) \<le> (unat (hd_size ddr) + 4095) div 4096 \<and>
      new_evs w w' = [Kcall (K_dma_mmap_attrs (hd_cpu_addr ddr) (hd_dma_addr ddr) AKIDA_1500_HOST_DDR_BASE) r])"
  using mmap_1000_inside [OF assms(1), of bars] mmap_1500_inside [OF assms] assms(2) by (auto split: prod.split)

definition ex_bars :: pci_bars where
  "ex_bars = \<lparr>bar_start = (\<lambda>_. 0x90000000), bar_len = (\<lambda>_. 0x100000), bar_flags = (\<lambda>_. 0x200)\<rparr>"

definition ex_vma :: vm_area where
  "ex_vma = \<lparr>vm_start = 0x7000, vm_end = 0x9000, vm_pgoff = 0xFCC01\<rparr>"

definition ex_ddr :: host_ddr_area where
  "ex_ddr = \<lparr>hd_cpu_addr = 1, hd_dma_addr = 0x40000000, hd_size = 0x1000000\<rparr>"

lemma akida_mmap_inside_witness:
  "case akida_1000_mmap ex_bars (ex_vma\<lparr>vm_pgoff := 3\<rparr>) ex_world of (r, vma', w') \<Rightarrow>
     maps_bar ex_bars 0 (ex_vma\<lparr>vm_pgoff := 3\<rparr>) vma' r (new_evs ex_world w')"
proof -
  let ?vma = "ex_vma\<lparr>vm_pgoff := 3\<rparr>"
  have p: "vma_pages ?vma = 2"
    by (simp add: vma_pages_def ex_vma_def PAGE_SHIFT_def drop_bit_eq_div)
  have h: "unat (vm_pgoff ?vma) + unat (vma_pages ?vma) < 2 ^ 64"
    unfolding p by simp
  have "pages_of (bar_len ex_bars 0) = 256" "bar_is_mem ex_bars 0"
    by (simp_all add: pages_of_def ex_bars_def PAGE_SHIFT_def drop_bit_eq_div bar_is_mem_def IORESOURCE_MEM_def)
  then have r: "akida_1000_mmap ex_bars ?vma ex_world = akida_mmap ex_bars 0 ?vma ex_world"
    unfolding akida_1000_mmap_def p by simp
  have "fst (akida_mmap ex_bars 0 ?vma ex_world) = 0"
    by (simp add: akida_mmap_def kcall_def Let_def ex_world_def)
  then show ?thesis
    using akida_mmap_inside [OF h, THEN conjunct1, of ex_bars ex_world] r
    by (auto simp: ex_bars_def EINVAL_def split: prod.splits)
qed

end
