(* ===== verification/Edma_Probe.thy ===== *)
theory Edma_Probe
  imports Chan_Life Ledger
begin

section \<open>Probe and remove of the eDMA engine (dw-edma-core.c)\<close>

text \<open>
  Distribution of the interrupt lines over the channels, setup of the channels, probe and remove.
  \<open>edma_os\<close> holds the two kernel functions whose results the code stores: the MSI message of a line
  and \<open>vchan_init\<close>. \<open>None\<close> is a step that does not return or goes wrong: an endless loop, a division
  by zero or an access behind the interrupt array.
\<close>

record edma_os =
  get_cached_msi_msg :: "int \<Rightarrow> msi_msg"
  vchan_init :: "dw_edma_desc virt_dma_chan \<Rightarrow> dw_edma_desc virt_dma_chan"

text \<open>The documented effect of \<open>vchan_init\<close>: empty lists.\<close>

definition vchan_init_ok :: "edma_os \<Rightarrow> bool" where
  "vchan_init_ok os \<longleftrightarrow> (\<forall>vc. vchan_descs (vchan_init os vc) = [])"

subsection \<open>Zeroed memory\<close>

definition zero_msi :: msi_msg where
  "zero_msi = \<lparr>address_lo = 0, address_hi = 0, msi_data = 0\<rparr>"

definition zero_irq :: dw_edma_irq where
  "zero_irq = \<lparr>irq_msi = zero_msi, wr_mask = 0, rd_mask = 0\<rparr>"

definition zero_chan :: dw_edma_chan where
  "zero_chan = \<lparr>chan_vc = \<lparr>vc_cookie = 0, completed_cookie = 0, desc_allocated = [], desc_submitted = [],
       desc_issued = [], desc_completed = [], desc_terminated = [], vc_cyclic = None, vc_tasklet = False\<rparr>,
     ch_id = 0, ch_dir = EDMA_DIR_WRITE, ll_max = 0, ch_msi = zero_msi, ch_request = EDMA_REQ_NONE,
     ch_st = EDMA_ST_IDLE, configured = False,
     ch_config = \<lparr>cfg_direction = DMA_MEM_TO_MEM, cfg_src_addr = 0, cfg_dst_addr = 0,
       cfg_src_addr_width = 0, cfg_dst_addr_width = 0\<rparr>,
     ch_private = \<lparr>paddr = 0, vaddr = 0, rg_sz = 0\<rparr>\<rparr>"

subsection \<open>Interrupt lines\<close>

definition dw_edma_dec_irq_alloc :: "int \<Rightarrow> u32 \<Rightarrow> u16 \<Rightarrow> int \<times> u32" where
  "dw_edma_dec_irq_alloc nr_irqs alloc cnt =
     (if nr_irqs \<noteq> 0 \<and> alloc < ucast cnt then (nr_irqs - 1, alloc + 1) else (nr_irqs, alloc))"

partial_function (option) dw_edma_add_irq_mask :: "u32 \<Rightarrow> u32 \<Rightarrow> u16 \<Rightarrow> u32 option" where
  "dw_edma_add_irq_mask msk alloc cnt =
     (if msk * alloc < ucast cnt then dw_edma_add_irq_mask (msk + 1) alloc cnt else Some msk)"

partial_function (option) irq_distribute ::
  "u16 \<Rightarrow> u16 \<Rightarrow> u32 \<Rightarrow> int \<Rightarrow> u32 \<Rightarrow> u32 \<Rightarrow> (u32 \<times> u32) option" where
  "irq_distribute wr_cnt rd_cnt ch_cnt tmp wr_alloc rd_alloc =
     (if tmp \<noteq> 0 \<and> wr_alloc + rd_alloc < ch_cnt then
        (case dw_edma_dec_irq_alloc tmp wr_alloc wr_cnt of
           (tmp, wr_alloc) \<Rightarrow>
             (case dw_edma_dec_irq_alloc tmp rd_alloc rd_cnt of
                (tmp, rd_alloc) \<Rightarrow> irq_distribute wr_cnt rd_cnt ch_cnt tmp wr_alloc rd_alloc))
      else Some (wr_alloc, rd_alloc))"

text \<open>\<open>n\<close> lines left to request, the first of them number \<open>i\<close>; the result has the error and the number reached.\<close>

fun irq_request_loop ::
  "edma_os \<Rightarrow> u32 \<Rightarrow> nat \<Rightarrow> nat \<Rightarrow> dw_edma_irq list \<Rightarrow> world \<Rightarrow> int \<times> nat \<times> dw_edma_irq list \<times> world" where
  "irq_request_loop os wr_alloc 0 i irqs w = (0, i, irqs, w)"
| "irq_request_loop os wr_alloc (Suc n) i irqs w =
     (let (irq, w) = kcall (K_irq_vector i) w;
          (err, w) = kcall (K_request_irq irq (if i < unat wr_alloc then IRQ_WRITE else IRQ_READ) i) w
      in if err \<noteq> 0 then (err, i, irqs, w)
         else (let (has_msi, w) = kcall (K_irq_get_msi_desc irq) w;
                   irqs = (if has_msi \<noteq> 0
                           then irqs[i := (irqs ! i)\<lparr>irq_msi := get_cached_msi_msg os irq\<rparr>] else irqs)
               in irq_request_loop os wr_alloc n (Suc i) irqs w))"

text \<open>Lines \<open>n - 1\<close> down to \<open>0\<close> are freed.\<close>

fun irq_free_loop :: "nat \<Rightarrow> world \<Rightarrow> world" where
  "irq_free_loop 0 w = w"
| "irq_free_loop (Suc i) w =
     (let (irq, w) = kcall (K_irq_vector i) w; (_, w) = kcall (K_free_irq irq i) w in irq_free_loop i w)"

definition dw_edma_irq_request ::
  "edma_os \<Rightarrow> dw_edma \<Rightarrow> u32 \<Rightarrow> u32 \<Rightarrow> world \<Rightarrow> (int \<times> u32 \<times> u32 \<times> dw_edma \<times> world) option" where
  "dw_edma_irq_request os dw wr_alloc rd_alloc w =
     (let chip = dw_chip dw; ch_cnt = ucast (wr_ch_cnt dw) + ucast (rd_ch_cnt dw) :: u32 in
      if chip_nr_irqs chip < 1 \<or> \<not> ops_irq_vector chip then Some (- EINVAL, wr_alloc, rd_alloc, dw, w)
      else
        (let (p, w) = kcall (K_devm_kcalloc (nat (chip_nr_irqs chip))) w in
         if p = 0 then Some (- ENOMEM, wr_alloc, rd_alloc, dw, w)
         else
           (let dw = dw\<lparr>dw_irqs := replicate (nat (chip_nr_irqs chip)) zero_irq\<rparr> in
            if chip_nr_irqs chip = 1 then
              (let (irq, w) = kcall (K_irq_vector 0) w;
                   (err, w) = kcall (K_request_irq irq IRQ_COMMON 0) w
               in if err \<noteq> 0 then Some (err, wr_alloc, rd_alloc, dw\<lparr>dw_nr_irqs := 0\<rparr>, w)
                  else
                    (let (has_msi, w) = kcall (K_irq_get_msi_desc irq) w;
                         irqs = (if has_msi \<noteq> 0
                                 then (dw_irqs dw)[0 := (dw_irqs dw ! 0)\<lparr>irq_msi := get_cached_msi_msg os irq\<rparr>]
                                 else dw_irqs dw)
                     in Some (0, wr_alloc, rd_alloc, dw\<lparr>dw_irqs := irqs, dw_nr_irqs := 1\<rparr>, w)))
            else
              (case irq_distribute (wr_ch_cnt dw) (rd_ch_cnt dw) ch_cnt (chip_nr_irqs chip) wr_alloc rd_alloc of
                 None \<Rightarrow> None
               | Some (wr_alloc, rd_alloc) \<Rightarrow>
                   (case (dw_edma_add_irq_mask 1 wr_alloc (wr_ch_cnt dw),
                          dw_edma_add_irq_mask 1 rd_alloc (rd_ch_cnt dw)) of
                      (Some wr_msk, Some rd_msk) \<Rightarrow>
                        (let (err, i, irqs, w) = irq_request_loop os wr_alloc (unat (wr_alloc + rd_alloc)) 0 (dw_irqs dw) w;
                             dw = dw\<lparr>dw_irqs := irqs\<rparr>
                         in if err \<noteq> 0 then Some (err, wr_alloc, rd_alloc, dw, irq_free_loop i w)
                            else Some (0, wr_alloc, rd_alloc, dw\<lparr>dw_nr_irqs := int i\<rparr>, w))
                    | _ \<Rightarrow> None)))))"

subsection \<open>Channel setup\<close>

datatype dma_cap = DMA_SLAVE | DMA_CYCLIC | DMA_PRIVATE | DMA_INTERLEAVE

datatype residue_granularity = DMA_RESIDUE_GRANULARITY_DESCRIPTOR

record dma_device =
  cap_mask :: "dma_cap list"
  directions :: u32
  src_addr_widths :: u32
  dst_addr_widths :: u32
  residue_gran :: residue_granularity
  max_seg_size :: u32

definition DMA_SLAVE_BUSWIDTH_4_BYTES :: nat where
  "DMA_SLAVE_BUSWIDTH_4_BYTES = 4"

text \<open>The capabilities the engine announces.\<close>

definition dw_edma_dma_device :: dma_device where
  "dw_edma_dma_device = \<lparr>cap_mask = [DMA_SLAVE, DMA_CYCLIC, DMA_PRIVATE, DMA_INTERLEAVE],
     directions = BIT (xfer_dir_val DMA_DEV_TO_MEM) OR BIT (xfer_dir_val DMA_MEM_TO_DEV),
     src_addr_widths = BIT DMA_SLAVE_BUSWIDTH_4_BYTES, dst_addr_widths = BIT DMA_SLAVE_BUSWIDTH_4_BYTES,
     residue_gran = DMA_RESIDUE_GRANULARITY_DESCRIPTOR, max_seg_size = 0xffffffff\<rparr>"

definition dt_region_of :: "dw_edma_chip \<Rightarrow> dw_edma_dir \<Rightarrow> nat \<Rightarrow> dw_edma_region" where
  "dt_region_of chip dir i = (if dir = EDMA_DIR_WRITE then dt_region_wr chip ! i else dt_region_rd chip ! i)"

text \<open>The interrupt line of a channel; \<open>None\<close> is a division by zero.\<close>

definition irq_pos :: "int \<Rightarrow> u32 \<Rightarrow> u32 \<Rightarrow> dw_edma_dir \<Rightarrow> nat \<Rightarrow> nat option" where
  "irq_pos nr_irqs wr_alloc rd_alloc dir i =
     (if nr_irqs = 1 then Some 0
      else if dir = EDMA_DIR_WRITE
      then (if wr_alloc = 0 then None else Some (unat ((of_nat i :: u32) mod wr_alloc)))
      else (if rd_alloc = 0 then None else Some (unat (wr_alloc + (of_nat i :: u32) mod rd_alloc))))"

definition setup_chan :: "edma_os \<Rightarrow> u32 \<Rightarrow> u32 \<Rightarrow> nat \<Rightarrow> dw_edma \<Rightarrow> world \<Rightarrow> (dw_edma \<times> world) option" where
  "setup_chan os wr_alloc rd_alloc i dw w =
     (let chip = dw_chip dw; chan = dw_chan dw ! i;
          chan = (if i < unat (wr_ch_cnt dw) then chan\<lparr>ch_id := i, ch_dir := EDMA_DIR_WRITE\<rparr>
                  else chan\<lparr>ch_id := i - unat (wr_ch_cnt dw), ch_dir := EDMA_DIR_READ\<rparr>);
          chan = chan\<lparr>configured := False, ch_request := EDMA_REQ_NONE, ch_st := EDMA_ST_IDLE\<rparr>;
          chan = chan\<lparr>ll_max := ucast (rg_sz (ll_region_of chip (ch_dir chan) (ch_id chan)) div EDMA_LL_SZ)\<rparr>;
          chan = chan\<lparr>ll_max := ll_max chan - 1\<rparr>
      in case irq_pos (dw_nr_irqs dw) wr_alloc rd_alloc (ch_dir chan) (ch_id chan) of
           None \<Rightarrow> None
         | Some pos \<Rightarrow>
             if \<not> pos < length (dw_irqs dw) then None
             else
               (let irq = dw_irqs dw ! pos;
                    irq = (if ch_dir chan = EDMA_DIR_WRITE then irq\<lparr>wr_mask := wr_mask irq OR BIT (ch_id chan)\<rparr>
                           else irq\<lparr>rd_mask := rd_mask irq OR BIT (ch_id chan)\<rparr>);
                    chan = chan\<lparr>ch_msi := irq_msi irq\<rparr>;
                    chan = chan\<lparr>ch_private := dt_region_of chip (ch_dir chan) (ch_id chan),
                                chan_vc := vchan_init os (chan_vc chan)\<rparr>;
                    dw = dw\<lparr>dw_irqs := (dw_irqs dw)[pos := irq], dw_chan := (dw_chan dw)[i := chan]\<rparr>
                in Some (dw, dw_edma_core_ch_config dw chan w)))"

text \<open>\<open>n\<close> channels left, the first of them number \<open>i\<close>.\<close>

fun setup_chans :: "edma_os \<Rightarrow> u32 \<Rightarrow> u32 \<Rightarrow> nat \<Rightarrow> nat \<Rightarrow> dw_edma \<Rightarrow> world \<Rightarrow> (dw_edma \<times> world) option" where
  "setup_chans os wr_alloc rd_alloc 0 i dw w = Some (dw, w)"
| "setup_chans os wr_alloc rd_alloc (Suc n) i dw w =
     (case setup_chan os wr_alloc rd_alloc i dw w of
        None \<Rightarrow> None
      | Some (dw, w) \<Rightarrow> setup_chans os wr_alloc rd_alloc n (Suc i) dw w)"

definition dw_edma_channel_setup ::
  "edma_os \<Rightarrow> dw_edma \<Rightarrow> u32 \<Rightarrow> u32 \<Rightarrow> world \<Rightarrow> (int \<times> dw_edma \<times> dma_device \<times> world) option" where
  "dw_edma_channel_setup os dw wr_alloc rd_alloc w =
     (case setup_chans os wr_alloc rd_alloc (unat (wr_ch_cnt dw) + unat (rd_ch_cnt dw)) 0 dw w of
        None \<Rightarrow> None
      | Some (dw, w) \<Rightarrow>
          (let (err, w) = kcall K_dma_async_device_register w in Some (err, dw, dw_edma_dma_device, w)))"

subsection \<open>Probe and remove\<close>

text \<open>The zeroed device with its chip and engine.\<close>

definition probe_select :: "dw_edma_chip \<Rightarrow> dw_edma" where
  "probe_select chip =
     (let dw = \<lparr>dw_chip = chip, wr_ch_cnt = 0, rd_ch_cnt = 0, dw_irqs = [], dw_nr_irqs = 0, dw_chan = [],
                dw_core = CORE_NONE\<rparr>
      in if chip_mf chip = EDMA_MF_HDMA_NATIVE then dw_hdma_v0_core_register dw else dw_edma_v0_core_register dw)"

text \<open>The channel counts: what the platform and the hardware both have, at most eight.\<close>

definition probe_counts :: "dw_edma \<Rightarrow> world \<Rightarrow> dw_edma \<times> world" where
  "probe_counts dw w =
     (let chip = dw_chip dw;
          (n, w) = dw_edma_core_ch_count dw EDMA_DIR_WRITE w;
          dw = dw\<lparr>wr_ch_cnt := min (ll_wr_cnt chip) n\<rparr>;
          dw = dw\<lparr>wr_ch_cnt := min (wr_ch_cnt dw) EDMA_MAX_WR_CH\<rparr>;
          (n, w) = dw_edma_core_ch_count dw EDMA_DIR_READ w;
          dw = dw\<lparr>rd_ch_cnt := min (ll_rd_cnt chip) n\<rparr>;
          dw = dw\<lparr>rd_ch_cnt := min (rd_ch_cnt dw) EDMA_MAX_RD_CH\<rparr>
      in (dw, w))"

text \<open>The result is the error code and \<open>chip->dw\<close>.\<close>

definition akida_dw_edma_probe ::
  "edma_os \<Rightarrow> dw_edma_chip option \<Rightarrow> world \<Rightarrow> (int \<times> dw_edma option \<times> world) option" where
  "akida_dw_edma_probe os chip w =
     (case chip of
        None \<Rightarrow> Some (- EINVAL, None, w)
      | Some chip \<Rightarrow>
          if \<not> chip_dev chip \<or> \<not> chip_ops chip then Some (- EINVAL, None, w)
          else
            (let (p, w) = kcall K_devm_kzalloc w in
             if p = 0 then Some (- ENOMEM, None, w)
             else
               (let (dw, w) = probe_counts (probe_select chip) w in
                if wr_ch_cnt dw = 0 \<and> rd_ch_cnt dw = 0 then Some (- EINVAL, None, w)
                else
                  (let cnt = unat (wr_ch_cnt dw) + unat (rd_ch_cnt dw);
                       (p, w) = kcall (K_devm_kcalloc cnt) w
                   in if p = 0 then Some (- ENOMEM, None, w)
                      else
                        (let dw = dw\<lparr>dw_chan := replicate cnt zero_chan\<rparr>;
                             w = dw_edma_core_off dw w
                         in case dw_edma_irq_request os dw 0 0 w of
                              None \<Rightarrow> None
                            | Some (err, wr_alloc, rd_alloc, dw, w) \<Rightarrow>
                                if err \<noteq> 0 then Some (err, None, w)
                                else
                                  (case dw_edma_channel_setup os dw wr_alloc rd_alloc w of
                                     None \<Rightarrow> None
                                   | Some (err, dw, dma, w) \<Rightarrow>
                                       if err \<noteq> 0 then Some (err, None, irq_free_loop (nat (dw_nr_irqs dw)) w)
                                       else (let (_, w) = kcall K_debugfs_on w in Some (0, Some dw, w))))))))"

fun tasklet_kill_loop :: "nat \<Rightarrow> nat \<Rightarrow> world \<Rightarrow> world" where
  "tasklet_kill_loop 0 i w = w"
| "tasklet_kill_loop (Suc n) i w = (let (_, w) = kcall (K_tasklet_kill i) w in tasklet_kill_loop n (Suc i) w)"

definition akida_dw_edma_remove :: "dw_edma option \<Rightarrow> world \<Rightarrow> int \<times> world" where
  "akida_dw_edma_remove dw w =
     (case dw of
        None \<Rightarrow> (- ENODEV, w)
      | Some dw \<Rightarrow>
          (let w = dw_edma_core_off dw w;
               w = irq_free_loop (nat (dw_nr_irqs dw)) w;
               (_, w) = kcall K_dma_async_device_unregister w
           in (0, tasklet_kill_loop (length (dw_chan dw)) 0 w)))"

subsection \<open>Lemmas: register accesses\<close>

lemma mmio_V0 [simp]: "mmio w (dw_edma_v0_core_off chip w)" "mmio w (dw_edma_v0_core_ch_config chip chan w)"
  "mmio w (snd (dw_edma_v0_core_ch_count chip dir w))"
  by (simp_all add: dw_edma_v0_core_off_def dw_edma_v0_core_ch_config_def dw_edma_v0_core_ch_count_def
      v0_reg_defs Let_def split_beta)

lemma mmio_fold: "(\<And>x w. mmio w (f x w)) \<Longrightarrow> mmio w (fold f xs w)"
  by (induction xs arbitrary: w) (auto intro: mmio_trans)

lemma mmio_hdma [simp]: "mmio w (dw_hdma_v0_core_off chip w)" "mmio w (dw_hdma_v0_core_ch_config chip chan w)"
  "mmio w (snd (dw_hdma_v0_core_ch_count chip dir w))"
proof -
  show "mmio w (dw_hdma_v0_core_off chip w)"
    unfolding dw_hdma_v0_core_off_def
    by (rule mmio_fold) (simp add: hdma_off_ch_def HSET_BOTH_CH_32_def HSET_CH_32_def Let_def)
qed (simp_all add: dw_hdma_v0_core_ch_config_def dw_hdma_v0_core_ch_count_def HSET_CH_32_def Let_def)

lemma mmio_core:
  assumes "dw_core dw \<noteq> CORE_NONE"
  shows "mmio w (dw_edma_core_off dw w)" "mmio w (dw_edma_core_ch_config dw chan w)"
    "mmio w (snd (dw_edma_core_ch_count dw dir w))"
  using assms by (cases "dw_core dw"; simp add: dw_edma_core_off_def dw_edma_core_ch_config_def
      dw_edma_core_ch_count_def)+

subsection \<open>Lemmas: the interrupt lines\<close>

lemma unat_ucast_16 [simp]: "unat (ucast (v :: u16) :: u32) = unat v"
  by transfer simp

text \<open>The mask loop ends when there is a line, and covers the channels.\<close>

lemma add_irq_mask_returns:
  assumes "alloc \<noteq> 0" "unat alloc \<le> 2 ^ 16" "unat msk * unat alloc \<le> 2 ^ 17"
  shows "\<exists>m. dw_edma_add_irq_mask msk alloc cnt = Some m \<and> ucast cnt \<le> m * alloc"
  using assms(3)
proof (induction "2 ^ 17 - unat msk * unat alloc" arbitrary: msk rule: less_induct)
  case less
  show ?case
  proof (cases "msk * alloc < ucast cnt")
    case True
    have pos: "0 < unat alloc"
      using assms(1) by (simp add: unat_gt_0)
    have mul: "unat (msk * alloc) = unat msk * unat alloc"
      using less.prems by (simp add: unat_word_ariths)
    then have lt: "unat msk * unat alloc < 2 ^ 16"
      using True unsigned_less [of cnt, where ?'a = nat] by (simp add: word_less_nat_alt)
    then have "unat msk < 2 ^ 16"
      using pos by (metis le_less_trans mult.right_neutral mult_le_mono2 Suc_leI One_nat_def)
    then have suc: "unat (msk + 1) = Suc (unat msk)"
      by (simp add: unat_word_ariths)
    have "unat (msk + 1) * unat alloc \<le> 2 ^ 17"
      using lt assms(2) by (simp add: suc)
    moreover have "2 ^ 17 - unat (msk + 1) * unat alloc < 2 ^ 17 - unat msk * unat alloc"
      using lt pos by (simp add: suc)
    ultimately obtain m where "dw_edma_add_irq_mask (msk + 1) alloc cnt = Some m" "ucast cnt \<le> m * alloc"
      using less.hyps by blast
    then show ?thesis
      using True by (subst dw_edma_add_irq_mask.simps) auto
  next
    case False
    then show ?thesis
      by (subst dw_edma_add_irq_mask.simps) (auto simp: not_less)
  qed
qed

lemma add_irq_mask_none: "dw_edma_add_irq_mask msk alloc 0 = Some msk"
  by (subst dw_edma_add_irq_mask.simps) simp

lemma add_irq_mask_some:
  assumes "unat a \<le> unat c" "0 < unat c \<longrightarrow> 0 < unat a"
  shows "\<exists>m. dw_edma_add_irq_mask 1 a c = Some m"
proof (cases "c = 0")
  case True
  then show ?thesis using add_irq_mask_none by blast
next
  case False
  then have "a \<noteq> 0" "unat a \<le> 2 ^ 16"
    using assms unsigned_less [of c, where ?'a = nat] by (auto simp: unat_gt_0)
  then show ?thesis
    using add_irq_mask_returns [of a 1 c] by auto
qed

text \<open>The distribution hands out at most the lines there are, and at least one to each side that has channels.\<close>

lemma irq_distribute_returns:
  assumes "0 \<le> tmp" "unat wa \<le> unat wc" "unat ra \<le> unat rc" "ch = ucast wc + ucast rc"
  shows "\<exists>wa' ra'. irq_distribute wc rc ch tmp wa ra = Some (wa', ra') \<and>
    unat wa \<le> unat wa' \<and> unat wa' \<le> unat wc \<and> unat ra \<le> unat ra' \<and> unat ra' \<le> unat rc \<and>
    unat wa' + unat ra' \<le> nat tmp + unat wa + unat ra"
  using assms(1-3)
proof (induction "nat tmp" arbitrary: tmp wa ra rule: less_induct)
  case less
  have bnd: "unat wc < 2 ^ 16" "unat rc < 2 ^ 16"
    using unsigned_less [of wc, where ?'a = nat] unsigned_less [of rc, where ?'a = nat] by simp_all
  have uc: "unat (ucast wc :: u32) = unat wc" "unat (ucast rc :: u32) = unat rc"
    by simp_all
  have ch: "unat ch = unat wc + unat rc"
    using bnd by (simp add: assms(4) unat_word_ariths uc)
  have sum: "unat (wa + ra) = unat wa + unat ra"
    using less.prems bnd by (simp add: unat_word_ariths)
  show ?case
  proof (cases "tmp \<noteq> 0 \<and> wa + ra < ch")
    case False
    then show ?thesis
      using less.prems by (subst irq_distribute.simps) auto
  next
    case True
    obtain t1 wa1 where 1: "dw_edma_dec_irq_alloc tmp wa wc = (t1, wa1)"
      by fastforce
    obtain t2 ra1 where 2: "dw_edma_dec_irq_alloc t1 ra rc = (t2, ra1)"
      by fastforce
    have suc: "unat (wa + 1) = Suc (unat wa)" "unat (ra + 1) = Suc (unat ra)"
      using less.prems bnd by (simp_all add: unat_word_ariths)
    have lt: "unat wa + unat ra < unat wc + unat rc"
      using True by (simp add: word_less_nat_alt ch sum)
    have step1: "(unat wa < unat wc \<and> t1 = tmp - 1 \<and> unat wa1 = Suc (unat wa)) \<or>
        (unat wa = unat wc \<and> t1 = tmp \<and> wa1 = wa)"
      using 1 True less.prems suc
      by (auto simp: dw_edma_dec_irq_alloc_def word_less_nat_alt uc split: if_splits)
    have step2: "(t1 \<noteq> 0 \<and> unat ra < unat rc \<and> t2 = t1 - 1 \<and> unat ra1 = Suc (unat ra)) \<or>
        ((t1 = 0 \<or> unat ra = unat rc) \<and> t2 = t1 \<and> ra1 = ra)"
      using 2 less.prems suc
      by (auto simp: dw_edma_dec_irq_alloc_def word_less_nat_alt uc split: if_splits)
    have t: "nat t2 < nat tmp" "0 \<le> t2" "unat wa1 \<le> unat wc" "unat ra1 \<le> unat rc"
      "unat wa \<le> unat wa1" "unat ra \<le> unat ra1" "nat t2 + unat wa1 + unat ra1 = nat tmp + unat wa + unat ra"
      using step1 step2 lt less.prems True by auto
    have "irq_distribute wc rc ch tmp wa ra = irq_distribute wc rc ch t2 wa1 ra1"
      using True by (subst irq_distribute.simps) (simp add: 1 2)
    then show ?thesis
      using less.hyps [OF t(1-4)] t(5-7) by auto
  qed
qed

subsection \<open>Lemmas: requesting and freeing the lines\<close>

text \<open>The platform names the same interrupt for a line each time, as \<open>pci_irq_vector\<close> does.\<close>

definition vec_stable :: "(nat \<Rightarrow> int) \<Rightarrow> world \<Rightarrow> bool" where
  "vec_stable f w \<longleftrightarrow> (\<forall>tr i. kret w tr (K_irq_vector i) = f i)"

definition irq_lines :: "(nat \<Rightarrow> int) \<Rightarrow> nat \<Rightarrow> resource multiset" where
  "irq_lines f n = mset (map (\<lambda>i. R_irq (f i) i) [0..<n])"

lemma irq_lines_0 [simp]: "irq_lines f 0 = {#}"
  by (simp add: irq_lines_def)

lemma irq_lines_Suc: "irq_lines f (Suc n) = add_mset (R_irq (f n) n) (irq_lines f n)"
  by (simp add: irq_lines_def)

lemma vec_stable_io: "vec_stable f w \<Longrightarrow> io_only w w' \<Longrightarrow> vec_stable f w'"
  by (simp add: vec_stable_def io_only_frame)

lemma vec_stable_kcall: "vec_stable f w \<Longrightarrow> kcall (K_irq_vector i) w = (r, w') \<Longrightarrow> r = f i"
  by (auto simp: vec_stable_def kcall_def Let_def)

lemma irq_free_moves:
  "vec_stable f w \<Longrightarrow> moves (irq_lines f n + R) w R (irq_free_loop n w)"
proof (induction n arbitrary: w)
  case (Suc n)
  obtain irq w1 where 1: "kcall (K_irq_vector n) w = (irq, w1)" by fastforce
  obtain r w2 where 2: "kcall (K_free_irq irq n) w1 = (r, w2)" by fastforce
  have irq: "irq = f n"
    using vec_stable_kcall [OF Suc.prems 1] .
  have "moves (irq_lines f (Suc n) + R) w (irq_lines f (Suc n) + R) w1"
    by (rule moves_kcall [OF 1]) simp
  also have m2: "moves (irq_lines f (Suc n) + R) w1 (irq_lines f n + R) w2"
    by (rule moves_kcall [OF 2]) (simp add: irq irq_lines_Suc)
  also have "moves (irq_lines f n + R) w2 R (irq_free_loop n w2)"
    using calculation Suc.IH vec_stable_io [OF Suc.prems] moves_io by blast
  finally show ?case
    using 1 2 by simp
qed simp

definition irq_masks :: "dw_edma_irq list \<Rightarrow> (u32 \<times> u32) list" where
  "irq_masks irqs = map (\<lambda>q. (wr_mask q, rd_mask q)) irqs"

lemma irq_masks_update [simp]: "irq_masks (irqs[i := (irqs ! i)\<lparr>irq_msi := m\<rparr>]) = irq_masks irqs"
  by (cases "i < length irqs") (auto simp: irq_masks_def map_update not_less list_update_beyond intro: list_update_same_conv [THEN iffD2])

lemma irq_request_loop_moves:
  assumes "irq_request_loop os wa n i irqs w = (err, i', irqs', w')" "vec_stable f w"
  shows "moves (irq_lines f i + R) w (irq_lines f i' + R) w' \<and> (err = 0 \<longrightarrow> i' = i + n) \<and>
    irq_masks irqs' = irq_masks irqs"
  using assms
proof (induction n arbitrary: i irqs w)
  case (Suc n)
  obtain irq w1 where 1: "kcall (K_irq_vector i) w = (irq, w1)" by fastforce
  obtain e w2 where 2: "kcall (K_request_irq irq (if i < unat wa then IRQ_WRITE else IRQ_READ) i) w1 = (e, w2)"
    by fastforce
  have irq: "irq = f i"
    using vec_stable_kcall [OF Suc.prems(2) 1] .
  have m1: "moves (irq_lines f i + R) w (irq_lines f i + R) w1"
    by (rule moves_kcall [OF 1]) simp
  show ?case
  proof (cases "e = 0")
    case False
    have "moves (irq_lines f i + R) w1 (irq_lines f i + R) w2"
      by (rule moves_kcall [OF 2]) (simp add: False)
    then show ?thesis
      using Suc.prems(1) moves_trans [OF m1] by (auto simp: 1 2 False)
  next
    case True
    obtain h w3 where 3: "kcall (K_irq_get_msi_desc irq) w2 = (h, w3)" by fastforce
    have m2: "moves (irq_lines f i + R) w1 (irq_lines f (Suc i) + R) w2"
      by (rule moves_kcall [OF 2]) (simp add: True irq irq_lines_Suc)
    have m3: "moves (irq_lines f (Suc i) + R) w2 (irq_lines f (Suc i) + R) w3"
      by (rule moves_kcall [OF 3]) simp
    note m = moves_trans [OF moves_trans [OF m1 m2] m3]
    have "vec_stable f w3"
      using vec_stable_io [OF Suc.prems(2) moves_io [OF m]] .
    then show ?thesis
      using Suc.prems(1) moves_trans [OF m] by (auto simp: 1 2 3 True dest!: Suc.IH split: if_splits)
  qed
qed simp

text \<open>What a successful request leaves: a table of lines whose masks are still empty, and for every
  channel a line that was requested, on the side of the channel.\<close>

definition pos_ok :: "dw_edma \<Rightarrow> u32 \<Rightarrow> u32 \<Rightarrow> bool" where
  "pos_ok dw wa ra \<longleftrightarrow> dw_nr_irqs dw \<le> int (length (dw_irqs dw)) \<and>
     (\<forall>dir i. i < unat (if dir = EDMA_DIR_WRITE then wr_ch_cnt dw else rd_ch_cnt dw) \<longrightarrow>
        (\<exists>p. irq_pos (dw_nr_irqs dw) wa ra dir i = Some p \<and> int p < dw_nr_irqs dw))"

lemma irq_pos_distributed:
  assumes "unat wa \<le> unat wc" "unat ra \<le> unat rc" "0 < unat wc \<longrightarrow> 0 < unat wa" "0 < unat rc \<longrightarrow> 0 < unat ra"
    "i < unat (if dir = EDMA_DIR_WRITE then wc else rc :: u16)"
  shows "\<exists>p. irq_pos (int (unat (wa + ra))) wa ra dir i = Some p \<and> p < unat (wa + ra)"
proof -
  have bnd: "unat wc < 2 ^ 16" "unat rc < 2 ^ 16"
    using unsigned_less [of wc, where ?'a = nat] unsigned_less [of rc, where ?'a = nat] by simp_all
  have sum: "unat (wa + ra) = unat wa + unat ra"
    using assms(1,2) bnd by (simp add: unat_word_ariths)
  have i: "unat (of_nat i :: u32) = i"
    using assms(5) bnd by (cases "dir = EDMA_DIR_WRITE") (simp_all add: unat_of_nat)
  show ?thesis
  proof (cases "dir = EDMA_DIR_WRITE")
    case True
    have "0 < unat wa"
      using assms(3,5) True by simp
    moreover have "i mod unat wa < unat wa + unat ra"
      using calculation mod_less_divisor [of "unat wa" i] by linarith
    ultimately show ?thesis
      using True by (auto simp: irq_pos_def sum unat_mod i unat_gt_0)
  next
    case False
    have ra: "0 < unat ra"
      using assms(4,5) False by simp
    moreover have m: "i mod unat ra < unat ra"
      using calculation by simp
    moreover have "unat (wa + (of_nat i :: u32) mod ra) = unat wa + i mod unat ra"
      using m assms(1,2) bnd by (simp add: unat_word_ariths unat_mod i)
    ultimately show ?thesis
      using False by (auto simp: irq_pos_def sum unat_gt_0)
  qed
qed

lemma irq_distribute_both:
  assumes "2 \<le> nr" "wc \<noteq> 0 \<or> rc \<noteq> 0"
  shows "\<exists>wa ra. irq_distribute wc rc (ucast wc + ucast rc) nr 0 0 = Some (wa, ra) \<and>
    unat wa \<le> unat wc \<and> unat ra \<le> unat rc \<and> (0 < unat wc \<longrightarrow> 0 < unat wa) \<and> (0 < unat rc \<longrightarrow> 0 < unat ra) \<and>
    int (unat wa + unat ra) \<le> nr"
proof -
  let ?ch = "ucast wc + ucast rc :: u32"
  have bnd: "unat wc < 2 ^ 16" "unat rc < 2 ^ 16"
    using unsigned_less [of wc, where ?'a = nat] unsigned_less [of rc, where ?'a = nat] by simp_all
  then have ch: "unat ?ch = unat wc + unat rc"
    by (simp add: unat_word_ariths)
  then have lt: "0 < ?ch"
    using assms(2) by (auto simp: word_less_nat_alt unat_gt_0)
  obtain t1 wa1 where 1: "dw_edma_dec_irq_alloc nr 0 wc = (t1, wa1)" by fastforce
  obtain t2 ra1 where 2: "dw_edma_dec_irq_alloc t1 0 rc = (t2, ra1)" by fastforce
  have s: "0 \<le> t2" "unat wa1 \<le> unat wc" "unat ra1 \<le> unat rc" "0 < unat wc \<longrightarrow> 0 < unat wa1"
    "0 < unat rc \<longrightarrow> 0 < unat ra1" "t2 + int (unat wa1) + int (unat ra1) = nr"
    using 1 2 assms(1) by (auto simp: dw_edma_dec_irq_alloc_def word_less_nat_alt split: if_splits)
  have "irq_distribute wc rc ?ch nr 0 0 = irq_distribute wc rc ?ch t2 wa1 ra1"
    using assms(1) lt by (subst irq_distribute.simps) (simp add: 1 2)
  moreover obtain wa ra where r: "irq_distribute wc rc ?ch t2 wa1 ra1 = Some (wa, ra)"
    "unat wa1 \<le> unat wa" "unat wa \<le> unat wc" "unat ra1 \<le> unat ra" "unat ra \<le> unat rc"
    "unat wa + unat ra \<le> nat t2 + unat wa1 + unat ra1"
    using irq_distribute_returns [OF s(1-3) refl] by blast
  moreover have "int (unat wa + unat ra) \<le> nr"
    using r(6) s(1,6) by linarith
  ultimately show ?thesis
    using s(4,5) by - (rule exI [of _ wa], rule exI [of _ ra], auto)
qed

text \<open>The outcome of the request, from the holdings \<open>R\<close> before it.\<close>

definition steps_succeed :: "world \<Rightarrow> bool" where
  "steps_succeed w \<longleftrightarrow> (\<forall>tr n. kret w tr K_devm_kzalloc \<noteq> 0 \<and> kret w tr (K_devm_kcalloc n) \<noteq> 0 \<and>
     (\<forall>irq h. kret w tr (K_request_irq irq h n) = 0))"

definition registers :: "world \<Rightarrow> bool" where
  "registers w \<longleftrightarrow> (\<forall>tr. kret w tr K_dma_async_device_register = 0)"

definition calls_succeed :: "world \<Rightarrow> bool" where
  "calls_succeed w \<longleftrightarrow> steps_succeed w \<and> registers w"

lemma steps_succeed_moves: "moves R w R' w' \<Longrightarrow> steps_succeed w' = steps_succeed w"
  by (simp add: steps_succeed_def moves_kret)

lemma registers_moves: "moves R w R' w' \<Longrightarrow> registers w' = registers w"
  by (simp add: registers_def moves_kret)

lemma steps_succeed_kcall:
  assumes "steps_succeed w" "kcall c w = (r, w')"
  shows "c = K_devm_kzalloc \<Longrightarrow> r \<noteq> 0" "c = K_devm_kcalloc n \<Longrightarrow> r \<noteq> 0" "c = K_request_irq irq h n \<Longrightarrow> r = 0"
  using assms by (auto simp: steps_succeed_def kcall_def Let_def)

lemma registers_kcall: "registers w \<Longrightarrow> kcall K_dma_async_device_register w = (r, w') \<Longrightarrow> r = 0"
  by (auto simp: registers_def kcall_def Let_def)

lemma irq_request_loop_succeeds:
  "steps_succeed w \<Longrightarrow> irq_request_loop os wa n i irqs w = (err, i', irqs', w') \<Longrightarrow> err = 0"
proof (induction n arbitrary: i irqs w)
  case (Suc n)
  obtain irq w1 where 1: "kcall (K_irq_vector i) w = (irq, w1)" by fastforce
  obtain e w2 where 2: "kcall (K_request_irq irq (if i < unat wa then IRQ_WRITE else IRQ_READ) i) w1 = (e, w2)"
    by fastforce
  obtain h w3 where 3: "kcall (K_irq_get_msi_desc irq) w2 = (h, w3)" by fastforce
  have c: "steps_succeed w1" "steps_succeed w3"
    using Suc.prems(1) kcall_kret [OF 1] kcall_kret [OF 2] kcall_kret [OF 3] by (simp_all add: steps_succeed_def)
  have "e = 0"
    by (rule steps_succeed_kcall(3) [OF c(1) 2 refl])
  then show ?case
    using Suc.prems(2) Suc.IH [OF c(2)] by (auto simp: 1 2 3 split: if_splits)
qed simp

definition request_ok ::
  "(nat \<Rightarrow> int) \<Rightarrow> resource multiset \<Rightarrow> dw_edma \<Rightarrow> world \<Rightarrow> (int \<times> u32 \<times> u32 \<times> dw_edma \<times> world) option \<Rightarrow> bool" where
  "request_ok f R dw w res \<longleftrightarrow>
     (case res of
        None \<Rightarrow> False
      | Some (err, wa, ra, dw', w') \<Rightarrow>
          (if err \<noteq> 0
           then moves R w R w' \<and>
             (steps_succeed w \<longrightarrow> chip_nr_irqs (dw_chip dw) < 1 \<or> \<not> ops_irq_vector (dw_chip dw))
           else moves R w (irq_lines f (nat (dw_nr_irqs dw')) + R) w' \<and>
                dw' = dw\<lparr>dw_irqs := dw_irqs dw', dw_nr_irqs := dw_nr_irqs dw'\<rparr> \<and>
                irq_masks (dw_irqs dw') = replicate (length (dw_irqs dw')) (0, 0) \<and>
                pos_ok dw' wa ra \<and> 1 \<le> dw_nr_irqs dw'))"

lemma zero_irq_masks: "irq_masks (replicate n zero_irq) = replicate n (0, 0)"
  by (simp add: irq_masks_def zero_irq_def map_replicate)

lemma request_common_ok:
  assumes "vec_stable f w" "chip_nr_irqs (dw_chip dw) = 1" "ops_irq_vector (dw_chip dw)"
  shows "request_ok f R dw w (dw_edma_irq_request os dw 0 0 w)"
proof -
  obtain p w1 where 1: "kcall (K_devm_kcalloc (Suc 0)) w = (p, w1)" by fastforce
  have m1: "moves R w R w1"
    by (rule moves_kcall [OF 1]) simp
  show ?thesis
  proof (cases "p = 0")
    case True
    then have "\<not> steps_succeed w"
      using steps_succeed_kcall(2) [OF _ 1 refl] by blast
    then show ?thesis
      using True assms m1 by (simp add: dw_edma_irq_request_def 1 ENOMEM_def request_ok_def)
  next
    case p: False
    obtain irq w2 where 2: "kcall (K_irq_vector 0) w1 = (irq, w2)" by fastforce
    obtain e w3 where 3: "kcall (K_request_irq irq IRQ_COMMON 0) w2 = (e, w3)" by fastforce
    have m2: "moves R w R w2"
      by (rule moves_trans [OF m1 moves_kcall [OF 2]]) simp
    have irq: "irq = f 0"
      using vec_stable_kcall [OF vec_stable_io [OF assms(1) moves_io [OF m1]] 2] .
    show ?thesis
    proof (cases "e = 0")
      case False
      have "moves R w R w3"
        by (rule moves_trans [OF m2 moves_kcall [OF 3]]) (simp add: False)
      moreover have "\<not> steps_succeed w"
        using steps_succeed_kcall(3) [OF _ 3 refl] False steps_succeed_moves [OF m2] by blast
      ultimately show ?thesis
        using assms p False by (simp add: dw_edma_irq_request_def 1 2 3 request_ok_def)
    next
      case True
      obtain h w4 where 4: "kcall (K_irq_get_msi_desc irq) w3 = (h, w4)" by fastforce
      have m3: "moves R w (irq_lines f 1 + R) w3"
        by (rule moves_trans [OF m2 moves_kcall [OF 3]]) (simp add: True irq irq_lines_def)
      have m4: "moves R w (irq_lines f 1 + R) w4"
        by (rule moves_trans [OF m3 moves_kcall [OF 4]]) simp
      let ?irqs = "if h \<noteq> 0 then [zero_irq\<lparr>irq_msi := get_cached_msi_msg os irq\<rparr>] else [zero_irq]"
      have "dw_edma_irq_request os dw 0 0 w = Some (0, 0, 0, dw\<lparr>dw_irqs := ?irqs, dw_nr_irqs := 1\<rparr>, w4)"
        using assms p True by (simp add: dw_edma_irq_request_def 1 2 3 4)
      then show ?thesis
        using m4 by (simp add: request_ok_def pos_ok_def irq_pos_def irq_masks_def zero_irq_def)
    qed
  qed
qed

text \<open>The shares of the directions: at least one line for a direction with channels, at most one per channel.\<close>

definition shares_ok :: "dw_edma \<Rightarrow> u32 \<Rightarrow> u32 \<Rightarrow> bool" where
  "shares_ok dw wa ra \<longleftrightarrow> unat wa \<le> unat (wr_ch_cnt dw) \<and> unat ra \<le> unat (rd_ch_cnt dw) \<and>
     (0 < unat (wr_ch_cnt dw) \<longrightarrow> 0 < unat wa) \<and> (0 < unat (rd_ch_cnt dw) \<longrightarrow> 0 < unat ra) \<and>
     unat (wa + ra) = unat wa + unat ra \<and> int (unat (wa + ra)) \<le> chip_nr_irqs (dw_chip dw)"

text \<open>The run with several lines: their distribution, and the loop that requests them.\<close>

lemma request_many_run:
  assumes "2 \<le> chip_nr_irqs (dw_chip dw)" "ops_irq_vector (dw_chip dw)" "wr_ch_cnt dw \<noteq> 0 \<or> rd_ch_cnt dw \<noteq> 0"
    and 1: "kcall (K_devm_kcalloc (nat (chip_nr_irqs (dw_chip dw)))) w = (p, w1)" "p \<noteq> 0"
  obtains wa ra e i irqs w2 where "shares_ok dw wa ra"
    "irq_request_loop os wa (unat (wa + ra)) 0 (replicate (nat (chip_nr_irqs (dw_chip dw))) zero_irq) w1 = (e, i, irqs, w2)"
    "dw_edma_irq_request os dw 0 0 w =
       (if e \<noteq> 0 then Some (e, wa, ra, dw\<lparr>dw_irqs := irqs\<rparr>, irq_free_loop i w2)
        else Some (0, wa, ra, dw\<lparr>dw_irqs := irqs, dw_nr_irqs := int i\<rparr>, w2))"
proof -
  let ?n = "nat (chip_nr_irqs (dw_chip dw))"
  obtain wa ra where d: "irq_distribute (wr_ch_cnt dw) (rd_ch_cnt dw) (ucast (wr_ch_cnt dw) + ucast (rd_ch_cnt dw))
      (chip_nr_irqs (dw_chip dw)) 0 0 = Some (wa, ra)"
    "unat wa \<le> unat (wr_ch_cnt dw)" "unat ra \<le> unat (rd_ch_cnt dw)" "0 < unat (wr_ch_cnt dw) \<longrightarrow> 0 < unat wa"
    "0 < unat (rd_ch_cnt dw) \<longrightarrow> 0 < unat ra" "int (unat wa + unat ra) \<le> chip_nr_irqs (dw_chip dw)"
    using irq_distribute_both [OF assms(1,3)] by (elim exE conjE) (rule that)
  obtain m1 m2 where ms: "dw_edma_add_irq_mask 1 wa (wr_ch_cnt dw) = Some m1" "dw_edma_add_irq_mask 1 ra (rd_ch_cnt dw) = Some m2"
    using add_irq_mask_some d(2-5) by meson
  obtain e i irqs w2 where l: "irq_request_loop os wa (unat (wa + ra)) 0 (replicate ?n zero_irq) w1 = (e, i, irqs, w2)"
    by (metis prod_cases4)
  have "unat (wr_ch_cnt dw) < 2 ^ 16" "unat (rd_ch_cnt dw) < 2 ^ 16"
    using unsigned_less [of "wr_ch_cnt dw", where ?'a = nat] unsigned_less [of "rd_ch_cnt dw", where ?'a = nat] by simp_all
  then have sum: "unat (wa + ra) = unat wa + unat ra"
    using d(2,3) by (simp add: unat_word_ariths)
  have nr: "\<not> chip_nr_irqs (dw_chip dw) < 1" "chip_nr_irqs (dw_chip dw) \<noteq> 1"
    using assms(1) by simp_all
  have "dw_edma_irq_request os dw 0 0 w =
      (if e \<noteq> 0 then Some (e, wa, ra, dw\<lparr>dw_irqs := irqs\<rparr>, irq_free_loop i w2)
       else Some (0, wa, ra, dw\<lparr>dw_irqs := irqs, dw_nr_irqs := int i\<rparr>, w2))"
    using nr 1(2) assms(2) by (simp add: dw_edma_irq_request_def 1(1) d(1) ms l)
  then show ?thesis
    using d(2-6) sum by (intro that [OF _ l]) (simp_all add: shares_ok_def)
qed

lemma shares_pos_ok:
  assumes "shares_ok dw wa ra" "wr_ch_cnt dw \<noteq> 0 \<or> rd_ch_cnt dw \<noteq> 0" "i = unat (wa + ra)" "i \<le> length irqs"
  shows "pos_ok (dw\<lparr>dw_irqs := irqs, dw_nr_irqs := int i\<rparr>) wa ra" "1 \<le> i"
proof -
  note d = assms(1) [unfolded shares_ok_def]
  have "\<exists>p. irq_pos (int i) wa ra dir j = Some p \<and> int p < int i"
    if "j < unat (if dir = EDMA_DIR_WRITE then wr_ch_cnt dw else rd_ch_cnt dw)" for dir j
    unfolding assms(3) of_nat_less_iff by (rule irq_pos_distributed [OF _ _ _ _ that]) (use d in simp_all)
  then show "pos_ok (dw\<lparr>dw_irqs := irqs, dw_nr_irqs := int i\<rparr>) wa ra"
    using assms(4) unfolding pos_ok_def by simp
  have "0 < unat (wr_ch_cnt dw) \<or> 0 < unat (rd_ch_cnt dw)"
    using assms(2) by (auto simp: unat_gt_0)
  then show "1 \<le> i"
    using d unfolding assms(3) by linarith
qed

lemma request_many_ok:
  assumes "vec_stable f w" "2 \<le> chip_nr_irqs (dw_chip dw)" "ops_irq_vector (dw_chip dw)"
    "wr_ch_cnt dw \<noteq> 0 \<or> rd_ch_cnt dw \<noteq> 0"
  shows "request_ok f R dw w (dw_edma_irq_request os dw 0 0 w)"
proof -
  let ?n = "nat (chip_nr_irqs (dw_chip dw))"
  obtain p w1 where 1: "kcall (K_devm_kcalloc ?n) w = (p, w1)" by fastforce
  have m1: "moves R w R w1"
    by (rule moves_kcall [OF 1]) simp
  show ?thesis
  proof (cases "p = 0")
    case True
    then have "\<not> steps_succeed w"
      using steps_succeed_kcall(2) [OF _ 1 refl] by blast
    then show ?thesis
      using True assms m1 by (simp add: dw_edma_irq_request_def 1 ENOMEM_def request_ok_def)
  next
    case False
    obtain wa ra e i irqs w2 where sh: "shares_ok dw wa ra"
      and l: "irq_request_loop os wa (unat (wa + ra)) 0 (replicate ?n zero_irq) w1 = (e, i, irqs, w2)"
      and res: "dw_edma_irq_request os dw 0 0 w =
        (if e \<noteq> 0 then Some (e, wa, ra, dw\<lparr>dw_irqs := irqs\<rparr>, irq_free_loop i w2)
         else Some (0, wa, ra, dw\<lparr>dw_irqs := irqs, dw_nr_irqs := int i\<rparr>, w2))"
      using request_many_run [OF assms(2-4) 1 False] .
    note lm = irq_request_loop_moves [OF l vec_stable_io [OF assms(1) moves_io [OF m1]], of R]
    have mm: "moves R w (irq_lines f i + R) w2"
      using moves_trans [OF m1] lm by simp
    show ?thesis
    proof (cases "e = 0")
      case False
      have "moves (irq_lines f i + R) w2 R (irq_free_loop i w2)"
        by (rule irq_free_moves [OF vec_stable_io [OF assms(1) moves_io [OF mm]]])
      moreover have "\<not> steps_succeed w"
        using irq_request_loop_succeeds [OF _ l] False steps_succeed_moves [OF m1] by blast
      ultimately show ?thesis
        unfolding res using False moves_trans [OF mm] by (simp add: request_ok_def)
    next
      case True
      have i: "i = unat (wa + ra)"
        using lm True by simp
      have masks: "irq_masks irqs = replicate ?n (0, 0)"
        using lm zero_irq_masks by simp
      then have len: "length irqs = ?n"
        by (metis irq_masks_def length_map length_replicate)
      have "i \<le> length irqs"
        using sh assms(2) unfolding shares_ok_def i len by linarith
      from shares_pos_ok [OF sh assms(4) i this] show ?thesis
        unfolding res using True mm masks len by (simp add: request_ok_def)
    qed
  qed
qed

lemma irq_request_ok:
  assumes "vec_stable f w" "wr_ch_cnt dw \<noteq> 0 \<or> rd_ch_cnt dw \<noteq> 0"
  shows "request_ok f R dw w (dw_edma_irq_request os dw 0 0 w)"
proof (cases "chip_nr_irqs (dw_chip dw) < 1 \<or> \<not> ops_irq_vector (dw_chip dw)")
  case True
  then show ?thesis
    by (simp add: dw_edma_irq_request_def EINVAL_def request_ok_def)
next
  case False
  then show ?thesis
    using request_common_ok [OF assms(1)] request_many_ok [OF assms(1) _ _ assms(2)]
    by (cases "chip_nr_irqs (dw_chip dw) = 1") auto
qed

end
