(* ===== verification/Probe_Setup.thy ===== *)
theory Probe_Setup
  imports Edma_Probe
begin

section \<open>What probe establishes\<close>

text \<open>
  The channels and the interrupt table a successful probe leaves, the resources it and remove hold
  and release, and the properties of both.
\<close>

subsection \<open>Lemmas: one channel\<close>

abbreviation side :: "dw_edma \<Rightarrow> nat \<Rightarrow> dw_edma_dir" where
  "side dw j \<equiv> (if j < unat (wr_ch_cnt dw) then EDMA_DIR_WRITE else EDMA_DIR_READ)"

abbreviation num :: "dw_edma \<Rightarrow> nat \<Rightarrow> nat" where
  "num dw j \<equiv> (if j < unat (wr_ch_cnt dw) then j else j - unat (wr_ch_cnt dw))"

text \<open>A channel as the setup leaves it, entry \<open>j\<close> of the array.\<close>

definition chan_fresh :: "dw_edma \<Rightarrow> nat \<Rightarrow> dw_edma_chan \<Rightarrow> bool" where
  "chan_fresh dw j c \<longleftrightarrow>
     ch_dir c = side dw j \<and> ch_id c = num dw j \<and> \<not> configured c \<and> ch_request c = EDMA_REQ_NONE \<and>
     ch_st c = EDMA_ST_IDLE \<and> vchan_descs (chan_vc c) = [] \<and>
     ll_max c = ucast (rg_sz (ll_region_of (dw_chip dw) (ch_dir c) (ch_id c)) div EDMA_LL_SZ) - 1 \<and>
     ch_private c = dt_region_of (dw_chip dw) (ch_dir c) (ch_id c)"

text \<open>After \<open>i\<close> channels, starting from the table of \<open>dw0\<close>: the masks, and the whole device.\<close>

definition setup_masks :: "dw_edma \<Rightarrow> u32 \<Rightarrow> u32 \<Rightarrow> nat \<Rightarrow> dw_edma_irq list \<Rightarrow> bool" where
  "setup_masks dw0 wa ra i irqs \<longleftrightarrow>
     (\<forall>p < length irqs. \<forall>k.
        (bit (wr_mask (irqs ! p)) k \<longleftrightarrow>
           k < i \<and> k < unat (wr_ch_cnt dw0) \<and> irq_pos (dw_nr_irqs dw0) wa ra EDMA_DIR_WRITE k = Some p) \<and>
        (bit (rd_mask (irqs ! p)) k \<longleftrightarrow>
           unat (wr_ch_cnt dw0) + k < i \<and> irq_pos (dw_nr_irqs dw0) wa ra EDMA_DIR_READ k = Some p))"

definition setup_inv :: "dw_edma \<Rightarrow> u32 \<Rightarrow> u32 \<Rightarrow> nat \<Rightarrow> dw_edma \<Rightarrow> bool" where
  "setup_inv dw0 wa ra i dw \<longleftrightarrow>
     dw = dw0\<lparr>dw_irqs := dw_irqs dw, dw_chan := dw_chan dw\<rparr> \<and>
     map irq_msi (dw_irqs dw) = map irq_msi (dw_irqs dw0) \<and> length (dw_chan dw) = length (dw_chan dw0) \<and>
     (\<forall>j < i. chan_fresh dw0 j (dw_chan dw ! j) \<and>
        (\<exists>p. irq_pos (dw_nr_irqs dw0) wa ra (side dw0 j) (num dw0 j) = Some p \<and>
             ch_msi (dw_chan dw ! j) = irq_msi (dw_irqs dw0 ! p))) \<and>
     setup_masks dw0 wa ra i (dw_irqs dw)"

lemma setup_invD:
  assumes "setup_inv dw0 wa ra i dw"
  shows "dw_chip dw = dw_chip dw0" "wr_ch_cnt dw = wr_ch_cnt dw0" "rd_ch_cnt dw = rd_ch_cnt dw0"
    "dw_nr_irqs dw = dw_nr_irqs dw0" "dw_core dw = dw_core dw0" "length (dw_irqs dw) = length (dw_irqs dw0)"
proof -
  have eq: "dw = dw0\<lparr>dw_irqs := dw_irqs dw, dw_chan := dw_chan dw\<rparr>"
    using assms by (simp add: setup_inv_def)
  show "dw_chip dw = dw_chip dw0" "wr_ch_cnt dw = wr_ch_cnt dw0" "rd_ch_cnt dw = rd_ch_cnt dw0"
    "dw_nr_irqs dw = dw_nr_irqs dw0" "dw_core dw = dw_core dw0"
    by (subst eq, simp)+
  show "length (dw_irqs dw) = length (dw_irqs dw0)"
    using assms by (metis setup_inv_def length_map)
qed

lemma setup_inv_start:
  assumes "irq_masks (dw_irqs dw) = replicate (length (dw_irqs dw)) (0, 0)"
  shows "setup_inv dw wa ra 0 dw"
proof -
  have "wr_mask (dw_irqs dw ! p) = 0 \<and> rd_mask (dw_irqs dw ! p) = 0" if "p < length (dw_irqs dw)" for p
    using arg_cong [OF assms, of "\<lambda>xs. xs ! p"] that by (simp add: irq_masks_def)
  then show ?thesis
    by (simp add: setup_inv_def setup_masks_def)
qed

lemma map_update_same: "i < length xs \<Longrightarrow> f x = f (xs ! i) \<Longrightarrow> map f (xs[i := x]) = map f xs"
  by (simp add: list_eq_iff_nth_eq nth_list_update)

text \<open>The line of a channel with the channel's bit, and the channel as the loop body leaves it.\<close>

definition serve :: "dw_edma_dir \<Rightarrow> nat \<Rightarrow> dw_edma_irq \<Rightarrow> dw_edma_irq" where
  "serve d n irq = (if d = EDMA_DIR_WRITE then irq\<lparr>wr_mask := wr_mask irq OR BIT n\<rparr> else irq\<lparr>rd_mask := rd_mask irq OR BIT n\<rparr>)"

definition fresh_chan :: "edma_os \<Rightarrow> dw_edma \<Rightarrow> nat \<Rightarrow> msi_msg \<Rightarrow> dw_edma_chan \<Rightarrow> dw_edma_chan" where
  "fresh_chan os dw i m c = c\<lparr>ch_id := num dw i, ch_dir := side dw i, configured := False,
      ch_request := EDMA_REQ_NONE, ch_st := EDMA_ST_IDLE,
      ll_max := ucast (rg_sz (ll_region_of (dw_chip dw) (side dw i) (num dw i)) div EDMA_LL_SZ) - 1,
      ch_msi := m, ch_private := dt_region_of (dw_chip dw) (side dw i) (num dw i), chan_vc := vchan_init os (chan_vc c)\<rparr>"

lemma setup_chan_run:
  assumes "irq_pos (dw_nr_irqs dw) wa ra (side dw i) (num dw i) = Some p" "p < length (dw_irqs dw)"
  shows "setup_chan os wa ra i dw w =
    (let chan = fresh_chan os dw i (irq_msi (dw_irqs dw ! p)) (dw_chan dw ! i);
         dw' = dw\<lparr>dw_irqs := (dw_irqs dw)[p := serve (side dw i) (num dw i) (dw_irqs dw ! p)], dw_chan := (dw_chan dw)[i := chan]\<rparr>
     in Some (dw', dw_edma_core_ch_config dw' chan w))"
  using assms by (cases "i < unat (wr_ch_cnt dw)") (simp_all add: setup_chan_def serve_def fresh_chan_def Let_def)

lemma fresh_chan_fresh:
  assumes "vchan_init_ok os"
  shows "chan_fresh dw i (fresh_chan os dw i m c)"
  unfolding chan_fresh_def fresh_chan_def using assms by (simp add: vchan_init_ok_def)

lemma setup_masks_step:
  assumes masks: "setup_masks dw wa ra i irqs" and p: "irq_pos (dw_nr_irqs dw) wa ra (side dw i) (num dw i) = Some p" "p < length irqs"
    and n8: "num dw i < 8"
  shows "setup_masks dw wa ra (Suc i) (irqs[p := serve (side dw i) (num dw i) (irqs ! p)])" (is "setup_masks _ _ _ _ ?irqs")
  unfolding setup_masks_def length_list_update
proof (intro allI impI)
  fix q k assume q: "q < length irqs"
  have b: "bit (BIT n) k \<longleftrightarrow> k = n" if "n < 8" for n k
    using that by (auto simp: bit_BIT)
  have old: "bit (wr_mask (irqs ! q)) k \<longleftrightarrow>
       k < i \<and> k < unat (wr_ch_cnt dw) \<and> irq_pos (dw_nr_irqs dw) wa ra EDMA_DIR_WRITE k = Some q"
    "bit (rd_mask (irqs ! q)) k \<longleftrightarrow>
       unat (wr_ch_cnt dw) + k < i \<and> irq_pos (dw_nr_irqs dw) wa ra EDMA_DIR_READ k = Some q"
    using masks q by (simp_all add: setup_masks_def)
  show "(bit (wr_mask (?irqs ! q)) k \<longleftrightarrow>
       k < Suc i \<and> k < unat (wr_ch_cnt dw) \<and> irq_pos (dw_nr_irqs dw) wa ra EDMA_DIR_WRITE k = Some q) \<and>
    (bit (rd_mask (?irqs ! q)) k \<longleftrightarrow>
       unat (wr_ch_cnt dw) + k < Suc i \<and> irq_pos (dw_nr_irqs dw) wa ra EDMA_DIR_READ k = Some q)"
  proof (cases "i < unat (wr_ch_cnt dw)")
    case True
    have "bit (wr_mask (?irqs ! q)) k \<longleftrightarrow> bit (wr_mask (irqs ! q)) k \<or> (q = p \<and> k = i)"
      "rd_mask (?irqs ! q) = rd_mask (irqs ! q)"
      using True q p(2) n8 by (auto simp: serve_def nth_list_update bit_or_iff b)
    then show ?thesis
      using old True p(1) by (cases "k = i") (auto simp: less_Suc_eq)
  next
    case False
    have "wr_mask (?irqs ! q) = wr_mask (irqs ! q)"
      "bit (rd_mask (?irqs ! q)) k \<longleftrightarrow> bit (rd_mask (irqs ! q)) k \<or> (q = p \<and> unat (wr_ch_cnt dw) + k = i)"
      using False q p(2) n8 by (auto simp: serve_def nth_list_update bit_or_iff b)
    then show ?thesis
      using old False p(1) by (cases "unat (wr_ch_cnt dw) + k = i") (auto simp: less_Suc_eq)
  qed
qed

lemma setup_chan_step:
  assumes inv: "setup_inv dw0 wa ra i dw" and pos: "pos_ok dw0 wa ra"
    and i: "i < unat (wr_ch_cnt dw0) + unat (rd_ch_cnt dw0)" "length (dw_chan dw0) = unat (wr_ch_cnt dw0) + unat (rd_ch_cnt dw0)"
    and cnt: "unat (wr_ch_cnt dw0) \<le> 8" "unat (rd_ch_cnt dw0) \<le> 8"
    and os: "vchan_init_ok os" and core: "dw_core dw0 \<noteq> CORE_NONE"
  obtains dw' w' where "setup_chan os wa ra i dw w = Some (dw', w')" "setup_inv dw0 wa ra (Suc i) dw'" "mmio w w'"
proof -
  note D = setup_invD [OF inv]
  have num: "num dw0 i < unat (if side dw0 i = EDMA_DIR_WRITE then wr_ch_cnt dw0 else rd_ch_cnt dw0)"
    using i by auto
  then obtain p where p: "irq_pos (dw_nr_irqs dw0) wa ra (side dw0 i) (num dw0 i) = Some p" "int p < dw_nr_irqs dw0"
    using pos unfolding pos_ok_def by blast
  have plen: "p < length (dw_irqs dw)"
    using pos p(2) D(6) by (simp add: pos_ok_def)
  have n8: "num dw0 i < 8"
    using num cnt by (auto split: if_splits)
  define m chan irqs where "m = irq_msi (dw_irqs dw ! p)" and "chan = fresh_chan os dw0 i m (dw_chan dw ! i)"
    and "irqs = (dw_irqs dw)[p := serve (side dw0 i) (num dw0 i) (dw_irqs dw ! p)]"
  define dw' where "dw' = dw\<lparr>dw_irqs := irqs, dw_chan := (dw_chan dw)[i := chan]\<rparr>"
  have run: "setup_chan os wa ra i dw w = Some (dw', dw_edma_core_ch_config dw' chan w)"
    unfolding dw'_def chan_def irqs_def m_def fresh_chan_def
    by (rule setup_chan_run [of dw wa ra i p os w, unfolded D(1-5) Let_def fresh_chan_def, OF p(1) plen])
  have msi: "map irq_msi irqs = map irq_msi (dw_irqs dw0)"
    using inv map_update_same [OF plen, of irq_msi] unfolding irqs_def by (simp add: setup_inv_def serve_def)
  have "map irq_msi (dw_irqs dw) ! p = map irq_msi (dw_irqs dw0) ! p"
    using inv by (simp add: setup_inv_def)
  then have m: "m = irq_msi (dw_irqs dw0 ! p)"
    using plen D(6) by (simp add: m_def)
  have chans: "chan_fresh dw0 j ((dw_chan dw)[i := chan] ! j) \<and>
      (\<exists>p. irq_pos (dw_nr_irqs dw0) wa ra (side dw0 j) (num dw0 j) = Some p \<and>
           ch_msi ((dw_chan dw)[i := chan] ! j) = irq_msi (dw_irqs dw0 ! p))" if "j < Suc i" for j
  proof (cases "j = i")
    case True
    have "(dw_chan dw)[i := chan] ! i = chan"
      using i inv by (simp add: setup_inv_def)
    moreover have "ch_msi chan = irq_msi (dw_irqs dw0 ! p)"
      by (simp add: chan_def fresh_chan_def m)
    ultimately show ?thesis
      unfolding True using fresh_chan_fresh [OF os] p(1) chan_def by metis
  next
    case False
    then show ?thesis
      using inv that by (simp add: setup_inv_def)
  qed
  have "dw' = dw0\<lparr>dw_irqs := dw_irqs dw', dw_chan := dw_chan dw'\<rparr>"
    by (rule dw_edma.equality) (simp_all add: D dw'_def)
  moreover have "setup_masks dw0 wa ra (Suc i) irqs"
    unfolding irqs_def by (rule setup_masks_step [OF _ p(1) plen n8]) (use inv in \<open>simp add: setup_inv_def\<close>)
  ultimately have "setup_inv dw0 wa ra (Suc i) dw'"
    using chans msi inv by (simp add: setup_inv_def dw'_def)
  moreover have "mmio w (dw_edma_core_ch_config dw' chan w)"
    by (rule mmio_core) (simp add: D core dw'_def)
  ultimately show ?thesis
    using run that by blast
qed

lemma setup_chans_run:
  assumes "setup_inv dw0 wa ra i dw" "pos_ok dw0 wa ra"
    "i + n \<le> unat (wr_ch_cnt dw0) + unat (rd_ch_cnt dw0)" "length (dw_chan dw0) = unat (wr_ch_cnt dw0) + unat (rd_ch_cnt dw0)"
    "unat (wr_ch_cnt dw0) \<le> 8" "unat (rd_ch_cnt dw0) \<le> 8" "vchan_init_ok os" "dw_core dw0 \<noteq> CORE_NONE"
  shows "\<exists>dw' w'. setup_chans os wa ra n i dw w = Some (dw', w') \<and> setup_inv dw0 wa ra (i + n) dw' \<and> mmio w w'"
  using assms
proof (induction n arbitrary: i dw w)
  case (Suc n)
  have i: "i < unat (wr_ch_cnt dw0) + unat (rd_ch_cnt dw0)"
    using Suc.prems(3) by simp
  obtain dw1 w1 where 1: "setup_chan os wa ra i dw w = Some (dw1, w1)" "setup_inv dw0 wa ra (Suc i) dw1" "mmio w w1"
    using setup_chan_step [OF Suc.prems(1,2) i Suc.prems(4-8), of w] .
  obtain dw2 w2 where "setup_chans os wa ra n (Suc i) dw1 w1 = Some (dw2, w2)" "setup_inv dw0 wa ra (i + Suc n) dw2" "mmio w1 w2"
    using Suc.IH [OF 1(2) Suc.prems(2) _ Suc.prems(4-8), of w1] Suc.prems(3) by auto
  then show ?case
    using 1(1) mmio_trans [OF 1(3)] by (intro exI conjI) simp_all
qed auto

text \<open>
  The device a successful probe leaves: at least one channel and at most eight per direction, every channel fresh, and
  for every channel exactly one line that serves it, which was requested and gave it its message.
\<close>

definition probed :: "dw_edma_chip \<Rightarrow> dw_edma \<Rightarrow> bool" where
  "probed chip dw \<longleftrightarrow> dw_chip dw = chip \<and> dw_core dw \<noteq> CORE_NONE \<and> dw_wf dw \<and>
     (wr_ch_cnt dw \<noteq> 0 \<or> rd_ch_cnt dw \<noteq> 0) \<and>
     wr_ch_cnt dw \<le> ll_wr_cnt chip \<and> rd_ch_cnt dw \<le> ll_rd_cnt chip \<and>
     unat (wr_ch_cnt dw) \<le> 8 \<and> unat (rd_ch_cnt dw) \<le> 8 \<and>
     (\<forall>j < length (dw_chan dw). chan_fresh dw j (dw_chan dw ! j) \<and>
        (\<exists>p < length (dw_irqs dw). int p < dw_nr_irqs dw \<and> ch_msi (dw_chan dw ! j) = irq_msi (dw_irqs dw ! p) \<and>
           (\<forall>q < length (dw_irqs dw). irq_serves dw (dw_irqs dw ! q) (side dw j) j \<longleftrightarrow> q = p)))"

text \<open>
  The outcome of probe, from the holdings \<open>R\<close> before it. \<open>probe_ready\<close> and \<open>probe_good\<close> say that no kernel
  call fails, the former up to the registration of the DMA device,
  and that the platform describes a device with interrupt lines and channels: then probe succeeds.
\<close>

definition probe_ready :: "dw_edma_chip option \<Rightarrow> world \<Rightarrow> bool" where
  "probe_ready chip w \<longleftrightarrow> steps_succeed w \<and>
     (case chip of
        None \<Rightarrow> False
      | Some c \<Rightarrow> chip_dev c \<and> chip_ops c \<and> ops_irq_vector c \<and> 1 \<le> chip_nr_irqs c \<and>
          (case probe_counts (probe_select c) (snd (kcall K_devm_kzalloc w)) of
             (dw, _) \<Rightarrow> wr_ch_cnt dw \<noteq> 0 \<or> rd_ch_cnt dw \<noteq> 0))"

definition probe_good :: "dw_edma_chip option \<Rightarrow> world \<Rightarrow> bool" where
  "probe_good chip w \<longleftrightarrow> probe_ready chip w \<and> registers w"

definition probe_ok ::
  "(nat \<Rightarrow> int) \<Rightarrow> resource multiset \<Rightarrow> bool \<Rightarrow> dw_edma_chip option \<Rightarrow> world \<Rightarrow> (int \<times> dw_edma option \<times> world) option \<Rightarrow> bool" where
  "probe_ok f R good chip w res \<longleftrightarrow>
     (case res of
        None \<Rightarrow> False
      | Some (err, dw, w') \<Rightarrow>
          (if err \<noteq> 0 then dw = None \<and> moves R w R w' \<and> \<not> good
           else \<exists>d c. dw = Some d \<and> chip = Some c \<and> probed c d \<and>
                  moves R w (add_mset R_dma_device (irq_lines f (nat (dw_nr_irqs d)) + R)) w'))"

lemma channel_setup_cases:
  assumes "irq_masks (dw_irqs dw) = replicate (length (dw_irqs dw)) (0, 0)" "pos_ok dw wa ra"
    "length (dw_chan dw) = unat (wr_ch_cnt dw) + unat (rd_ch_cnt dw)"
    "unat (wr_ch_cnt dw) \<le> 8" "unat (rd_ch_cnt dw) \<le> 8" "vchan_init_ok os" "dw_core dw \<noteq> CORE_NONE"
  obtains err dw' w' where "dw_edma_channel_setup os dw wa ra w = Some (err, dw', dw_edma_dma_device, w')"
    "setup_inv dw wa ra (length (dw_chan dw)) dw'"
    "moves R w (if err = 0 then add_mset R_dma_device R else R) w'" "registers w \<longrightarrow> err = 0"
proof -
  obtain dw' w1 where 1: "setup_chans os wa ra (unat (wr_ch_cnt dw) + unat (rd_ch_cnt dw)) 0 dw w = Some (dw', w1)"
    "setup_inv dw wa ra (unat (wr_ch_cnt dw) + unat (rd_ch_cnt dw)) dw'" "mmio w w1"
    using setup_chans_run [OF setup_inv_start [OF assms(1)] assms(2) _ assms(3-7), of "unat (wr_ch_cnt dw) + unat (rd_ch_cnt dw)" w] by auto
  obtain e w2 where 2: "kcall K_dma_async_device_register w1 = (e, w2)" by fastforce
  have "moves R w1 (if e = 0 then add_mset R_dma_device R else R) w2"
    by (rule moves_kcall [OF 2]) simp
  then have "moves R w (if e = 0 then add_mset R_dma_device R else R) w2"
    using moves_trans [OF mmio_moves [OF 1(3)]] by blast
  moreover have "registers w \<longrightarrow> e = 0"
    using registers_kcall [OF _ 2] registers_moves [OF mmio_moves [OF 1(3)]] by blast
  ultimately show ?thesis
    using that [of e dw' w2] 1 assms(3) by (simp add: dw_edma_channel_setup_def 2)
qed

lemma setup_probed:
  assumes inv: "setup_inv dw wa ra (length (dw_chan dw)) dw'" and pos: "pos_ok dw wa ra"
    and len: "length (dw_chan dw) = unat (wr_ch_cnt dw) + unat (rd_ch_cnt dw)"
    and cnt: "unat (wr_ch_cnt dw) \<le> 8" "unat (rd_ch_cnt dw) \<le> 8"
    and le: "wr_ch_cnt dw \<le> ll_wr_cnt (dw_chip dw)" "rd_ch_cnt dw \<le> ll_rd_cnt (dw_chip dw)"
    and core: "dw_core dw \<noteq> CORE_NONE" and some: "wr_ch_cnt dw \<noteq> 0 \<or> rd_ch_cnt dw \<noteq> 0"
  shows "probed (dw_chip dw) dw'"
proof -
  note D = setup_invD [OF inv]
  have len': "length (dw_chan dw') = length (dw_chan dw)"
    using inv by (simp add: setup_inv_def)
  have "chan_fresh dw' j (dw_chan dw' ! j) \<and>
      (\<exists>p < length (dw_irqs dw'). int p < dw_nr_irqs dw' \<and> ch_msi (dw_chan dw' ! j) = irq_msi (dw_irqs dw' ! p) \<and>
         (\<forall>q < length (dw_irqs dw'). irq_serves dw' (dw_irqs dw' ! q) (side dw' j) j \<longleftrightarrow> q = p))"
    if j: "j < length (dw_chan dw')" for j
  proof -
    have "num dw j < unat (if side dw j = EDMA_DIR_WRITE then wr_ch_cnt dw else rd_ch_cnt dw)"
      using j len len' by auto
    then obtain p where p: "irq_pos (dw_nr_irqs dw) wa ra (side dw j) (num dw j) = Some p" "int p < dw_nr_irqs dw"
      using pos unfolding pos_ok_def by blast
    have plen: "p < length (dw_irqs dw')"
      using pos p(2) D(6) by (simp add: pos_ok_def)
    have "map irq_msi (dw_irqs dw') ! p = map irq_msi (dw_irqs dw) ! p"
      using inv by (simp add: setup_inv_def)
    then have msi: "irq_msi (dw_irqs dw' ! p) = irq_msi (dw_irqs dw ! p)"
      using plen D(6) by simp
    have fresh: "chan_fresh dw j (dw_chan dw' ! j)" "ch_msi (dw_chan dw' ! j) = irq_msi (dw_irqs dw ! p)"
      using inv j p(1) unfolding len' setup_inv_def by auto
    have serves: "irq_serves dw' (dw_irqs dw' ! q) (side dw j) j \<longleftrightarrow> q = p" if q: "q < length (dw_irqs dw')" for q
    proof -
      have m: "bit (wr_mask (dw_irqs dw' ! q)) k \<longleftrightarrow>
           k < length (dw_chan dw) \<and> k < unat (wr_ch_cnt dw) \<and> irq_pos (dw_nr_irqs dw) wa ra EDMA_DIR_WRITE k = Some q"
        "bit (rd_mask (dw_irqs dw' ! q)) k \<longleftrightarrow>
           unat (wr_ch_cnt dw) + k < length (dw_chan dw) \<and> irq_pos (dw_nr_irqs dw) wa ra EDMA_DIR_READ k = Some q" for k
        using inv q by (simp_all add: setup_inv_def setup_masks_def)
      show ?thesis
        using p(1) j len len' by (cases "j < unat (wr_ch_cnt dw)") (auto simp: irq_serves_def D m)
    qed
    have "chan_fresh dw' j (dw_chan dw' ! j)"
      using fresh(1) by (simp add: chan_fresh_def D)
    then show ?thesis
      using fresh(2) p(2) plen msi serves by (auto simp: D)
  qed
  then show ?thesis
    using len len' cnt le core some by (simp add: probed_def dw_wf_def D)
qed

text \<open>The steps of probe up to the interrupts, with what comes after them as a function.\<close>

definition probe_with ::
  "(dw_edma \<Rightarrow> world \<Rightarrow> (int \<times> 'd option \<times> world) option) \<Rightarrow> dw_edma_chip option \<Rightarrow> world \<Rightarrow>
   (int \<times> 'd option \<times> world) option" where
  "probe_with tail chip w =
     (case chip of
        None \<Rightarrow> Some (- EINVAL, None, w)
      | Some chip \<Rightarrow>
          if \<not> chip_dev chip \<or> \<not> chip_ops chip then Some (- EINVAL, None, w)
          else
            (let (p, w) = kcall K_devm_kzalloc w in
             if p = 0 then Some (- ENOMEM, None, w)
             else
               (let (dw, w) = probe_counts (probe_select chip) w in
                if wr_ch_cnt dw = 0 \<and> rd_ch_cnt dw = 0 then Some (- EINVAL, None, w)
                else
                  (let cnt = unat (wr_ch_cnt dw) + unat (rd_ch_cnt dw);
                       (p, w) = kcall (K_devm_kcalloc cnt) w
                   in if p = 0 then Some (- ENOMEM, None, w)
                      else
                        (let dw = dw\<lparr>dw_chan := replicate cnt zero_chan\<rparr>; w = dw_edma_core_off dw w in tail dw w)))))"

text \<open>The device and the world in which the interrupts are requested.\<close>

definition at_request :: "resource multiset \<Rightarrow> dw_edma_chip option \<Rightarrow> world \<Rightarrow> dw_edma \<Rightarrow> world \<Rightarrow> bool" where
  "at_request R chip w dw v \<longleftrightarrow> moves R w R v \<and> chip = Some (dw_chip dw) \<and> dw_core dw \<noteq> CORE_NONE \<and>
     (wr_ch_cnt dw \<noteq> 0 \<or> rd_ch_cnt dw \<noteq> 0) \<and>
     length (dw_chan dw) = unat (wr_ch_cnt dw) + unat (rd_ch_cnt dw) \<and>
     unat (wr_ch_cnt dw) \<le> 8 \<and> unat (rd_ch_cnt dw) \<le> 8 \<and>
     wr_ch_cnt dw \<le> ll_wr_cnt (dw_chip dw) \<and> rd_ch_cnt dw \<le> ll_rd_cnt (dw_chip dw) \<and>
     (probe_ready chip w \<longrightarrow> steps_succeed v \<and> 1 \<le> chip_nr_irqs (dw_chip dw) \<and> ops_irq_vector (dw_chip dw))"

text \<open>What a granted request leaves, with the device as it was before.\<close>

definition lines_requested ::
  "(nat \<Rightarrow> int) \<Rightarrow> resource multiset \<Rightarrow> dw_edma_chip option \<Rightarrow> dw_edma \<Rightarrow> u32 \<Rightarrow> u32 \<Rightarrow> world \<Rightarrow> world \<Rightarrow> bool" where
  "lines_requested f R chip dw wa ra w w1 \<longleftrightarrow> moves R w (irq_lines f (nat (dw_nr_irqs dw)) + R) w1 \<and>
     irq_masks (dw_irqs dw) = replicate (length (dw_irqs dw)) (0, 0) \<and> pos_ok dw wa ra \<and>
     chip = Some (dw_chip dw) \<and> dw_core dw \<noteq> CORE_NONE \<and> (wr_ch_cnt dw \<noteq> 0 \<or> rd_ch_cnt dw \<noteq> 0) \<and>
     length (dw_chan dw) = unat (wr_ch_cnt dw) + unat (rd_ch_cnt dw) \<and>
     unat (wr_ch_cnt dw) \<le> 8 \<and> unat (rd_ch_cnt dw) \<le> 8 \<and>
     wr_ch_cnt dw \<le> ll_wr_cnt (dw_chip dw) \<and> rd_ch_cnt dw \<le> ll_rd_cnt (dw_chip dw)"

lemma request_cases:
  assumes "vec_stable f w" and at: "at_request R chip w0 dw w"
  obtains (failed) err wa ra dw1 w1 where "dw_edma_irq_request os dw 0 0 w = Some (err, wa, ra, dw1, w1)" "err \<noteq> 0"
      "moves R w R w1" "\<not> probe_ready chip w0"
    | (granted) wa ra dw1 w1 where "dw_edma_irq_request os dw 0 0 w = Some (0, wa, ra, dw1, w1)"
      "lines_requested f R chip dw1 wa ra w w1"
proof -
  note d = at [unfolded at_request_def]
  obtain err wa ra dw1 w1 where q: "dw_edma_irq_request os dw 0 0 w = Some (err, wa, ra, dw1, w1)"
    "if err \<noteq> 0 then moves R w R w1 \<and>
       (steps_succeed w \<longrightarrow> chip_nr_irqs (dw_chip dw) < 1 \<or> \<not> ops_irq_vector (dw_chip dw))
     else moves R w (irq_lines f (nat (dw_nr_irqs dw1)) + R) w1 \<and>
          dw1 = dw\<lparr>dw_irqs := dw_irqs dw1, dw_nr_irqs := dw_nr_irqs dw1\<rparr> \<and>
          irq_masks (dw_irqs dw1) = replicate (length (dw_irqs dw1)) (0, 0) \<and>
          pos_ok dw1 wa ra \<and> 1 \<le> dw_nr_irqs dw1"
    using irq_request_ok [OF assms(1), of dw R os] d unfolding request_ok_def
    by (cases "dw_edma_irq_request os dw 0 0 w") auto
  show ?thesis
  proof (cases "err = 0")
    case False
    then show ?thesis
      using q d by (intro failed [OF q(1)]) auto
  next
    case True
    then have eq: "dw1 = dw\<lparr>dw_irqs := dw_irqs dw1, dw_nr_irqs := dw_nr_irqs dw1\<rparr>"
      using q(2) by simp
    have "dw_core dw1 = dw_core dw" "wr_ch_cnt dw1 = wr_ch_cnt dw" "rd_ch_cnt dw1 = rd_ch_cnt dw"
      "dw_chan dw1 = dw_chan dw" "dw_chip dw1 = dw_chip dw"
      by (subst eq, simp)+
    then have "lines_requested f R chip dw1 wa ra w w1"
      using q(2) True d by (simp add: lines_requested_def)
    then show ?thesis
      using granted q(1) True by simp
  qed
qed

text \<open>From the request of the lines on.\<close>

lemma probe_tail:
  assumes "vec_stable f w" "vchan_init_ok os" "at_request R chip w0 dw w"
  shows "probe_ok f R (probe_good chip w0) chip w
    (case dw_edma_irq_request os dw 0 0 w of
       None \<Rightarrow> None
     | Some (err, wa, ra, dw, w) \<Rightarrow>
         if err \<noteq> 0 then Some (err, None, w)
         else (case dw_edma_channel_setup os dw wa ra w of
                 None \<Rightarrow> None
               | Some (err, dw, dma, w) \<Rightarrow>
                   if err \<noteq> 0 then Some (err, None, irq_free_loop (nat (dw_nr_irqs dw)) w)
                   else (let (_, w) = kcall K_debugfs_on w in Some (0, Some dw, w))))"
  using assms(1,3)
proof (cases rule: request_cases [where os = os])
  case (failed err wa ra dw1 w1)
  then show ?thesis
    by (simp add: probe_ok_def probe_good_def)
next
  case (granted wa ra dw1 w1)
  note l = granted(2) [unfolded lines_requested_def]
  let ?R = "irq_lines f (nat (dw_nr_irqs dw1)) + R"
  obtain e dw2 w2 where s: "dw_edma_channel_setup os dw1 wa ra w1 = Some (e, dw2, dw_edma_dma_device, w2)"
    "setup_inv dw1 wa ra (length (dw_chan dw1)) dw2" "moves ?R w1 (if e = 0 then add_mset R_dma_device ?R else ?R) w2"
    "registers w1 \<longrightarrow> e = 0"
    using channel_setup_cases [of dw1 wa ra os w1 ?R] l assms(2) by blast
  have m2: "moves R w (if e = 0 then add_mset R_dma_device ?R else ?R) w2"
    using moves_trans [OF _ s(3)] l by blast
  have nr: "dw_nr_irqs dw2 = dw_nr_irqs dw1"
    using setup_invD(4) [OF s(2)] .
  show ?thesis
  proof (cases "e = 0")
    case False
    have "moves ?R w2 R (irq_free_loop (nat (dw_nr_irqs dw1)) w2)"
      by (rule irq_free_moves [OF vec_stable_io [OF assms(1) moves_io [OF m2]]])
    then have "moves R w R (irq_free_loop (nat (dw_nr_irqs dw1)) w2)"
      using m2 False moves_trans by (metis (full_types))
    moreover have "\<not> registers w0"
      using s(4) False registers_moves [of R w ?R w1] registers_moves [of R w0 R w] l assms(3) by (auto simp: at_request_def)
    ultimately show ?thesis
      using granted(1) s(1) False by (simp add: probe_ok_def nr probe_good_def)
  next
    case e: True
    obtain r w3 where 3: "kcall K_debugfs_on w2 = (r, w3)" by fastforce
    have "moves R w (add_mset R_dma_device ?R) w3"
      using m2 e moves_trans moves_kcall [OF 3, of "add_mset R_dma_device ?R" "add_mset R_dma_device ?R"] by simp
    moreover have "probed (dw_chip dw1) dw2"
      using setup_probed [OF s(2)] l by blast
    ultimately show ?thesis
      using granted(1) s(1) e l by (simp add: probe_ok_def 3 nr)
  qed
qed

lemma probe_ok_prefix: "moves R w R w1 \<Longrightarrow> probe_ok f R good chip w1 res \<Longrightarrow> probe_ok f R good chip w res"
  unfolding probe_ok_def by (auto split: option.splits if_splits intro: moves_trans)

lemma min_le_8: "unat (min (min a b) (8 :: u16)) \<le> 8"
proof -
  have "min (min a b) 8 \<le> (8 :: u16)"
    by (rule min.cobounded2)
  then show ?thesis
    by (simp add: word_le_nat_alt)
qed

lemma min_le_left: "min (min a b) c \<le> (a :: u16)"
  by (rule min.coboundedI1, rule min.cobounded1)

lemma probe_counts_result:
  assumes "dw_core dw \<noteq> CORE_NONE" "probe_counts dw w = (dw', w')"
  shows "dw' = dw\<lparr>wr_ch_cnt := wr_ch_cnt dw', rd_ch_cnt := rd_ch_cnt dw'\<rparr> \<and> mmio w w' \<and>
    unat (wr_ch_cnt dw') \<le> 8 \<and> unat (rd_ch_cnt dw') \<le> 8 \<and>
    wr_ch_cnt dw' \<le> ll_wr_cnt (dw_chip dw) \<and> rd_ch_cnt dw' \<le> ll_rd_cnt (dw_chip dw)"
proof -
  obtain n1 w1 where 1: "dw_edma_core_ch_count dw EDMA_DIR_WRITE w = (n1, w1)" by fastforce
  define dw1 where "dw1 = dw\<lparr>wr_ch_cnt := min (min (ll_wr_cnt (dw_chip dw)) n1) EDMA_MAX_WR_CH\<rparr>"
  obtain n2 w2 where 2: "dw_edma_core_ch_count dw1 EDMA_DIR_READ w1 = (n2, w2)" by fastforce
  have "dw_core dw1 \<noteq> CORE_NONE"
    using assms(1) by (simp add: dw1_def)
  then have "mmio w w1" "mmio w1 w2"
    using mmio_core(3) [OF assms(1), of w EDMA_DIR_WRITE] mmio_core(3) [of dw1 w1 EDMA_DIR_READ] by (simp_all add: 1 2)
  moreover have "dw' = dw1\<lparr>rd_ch_cnt := min (min (ll_rd_cnt (dw_chip dw)) n2) EDMA_MAX_RD_CH\<rparr>" "w' = w2"
    using assms(2) by (simp_all add: probe_counts_def 1 dw1_def [symmetric] 2)
  ultimately show ?thesis
    by (auto simp: dw1_def EDMA_MAX_WR_CH_def EDMA_MAX_RD_CH_def min_le_8 min_le_left intro: mmio_trans)
qed

lemma probe_with_cases:
  assumes fail: "\<And>err v. err \<noteq> 0 \<Longrightarrow> moves R w R v \<Longrightarrow> \<not> probe_ready chip w \<Longrightarrow> P (Some (err, None, v))"
    and tail: "\<And>dw v. at_request R chip w dw v \<Longrightarrow> P (tail dw v)"
  shows "P (probe_with tail chip w)"
proof (cases "\<exists>c. chip = Some c \<and> chip_dev c \<and> chip_ops c")
  case False
  then have "probe_with tail chip w = Some (- EINVAL, None, w)" "\<not> probe_ready chip w"
    by (auto simp: probe_with_def probe_ready_def split: option.splits)
  then show ?thesis
    using fail [of "- EINVAL" w] by (simp add: EINVAL_def)
next
  case True
  then obtain c where c: "chip = Some c" "chip_dev c" "chip_ops c" by blast
  obtain p w1 where 1: "kcall K_devm_kzalloc w = (p, w1)" by fastforce
  obtain dw w2 where 2: "probe_counts (probe_select c) w1 = (dw, w2)" by fastforce
  define cnt where "cnt = unat (wr_ch_cnt dw) + unat (rd_ch_cnt dw)"
  obtain q w3 where 3: "kcall (K_devm_kcalloc cnt) w2 = (q, w3)" by fastforce
  have sel: "dw_core (probe_select c) \<noteq> CORE_NONE" "dw_chip (probe_select c) = c"
    by (simp_all add: probe_select_def Let_def dw_hdma_v0_core_register_def dw_edma_v0_core_register_def)
  have cnts: "dw = (probe_select c)\<lparr>wr_ch_cnt := wr_ch_cnt dw, rd_ch_cnt := rd_ch_cnt dw\<rparr>" "mmio w1 w2"
    "unat (wr_ch_cnt dw) \<le> 8" "unat (rd_ch_cnt dw) \<le> 8" "wr_ch_cnt dw \<le> ll_wr_cnt c" "rd_ch_cnt dw \<le> ll_rd_cnt c"
    using probe_counts_result [OF sel(1) 2] sel(2) by simp_all
  have m1: "moves R w R w1"
    by (rule moves_kcall [OF 1]) simp
  have m2: "moves R w R w2"
    by (rule moves_trans [OF m1 mmio_moves [OF cnts(2)]])
  have m3: "moves R w R w3"
    by (rule moves_trans [OF m2 moves_kcall [OF 3]]) simp
  define dw' where "dw' = dw\<lparr>dw_chan := replicate cnt zero_chan\<rparr>"
  have core: "dw_core dw' \<noteq> CORE_NONE" "dw_chip dw' = c"
    using arg_cong [OF cnts(1), of dw_core] arg_cong [OF cnts(1), of dw_chip] sel by (simp_all add: dw'_def)
  have d': "wr_ch_cnt dw' = wr_ch_cnt dw" "rd_ch_cnt dw' = rd_ch_cnt dw" "length (dw_chan dw') = cnt"
    by (simp_all add: dw'_def)
  define w4 where "w4 = dw_edma_core_off dw' w3"
  have m4: "moves R w R w4"
    unfolding w4_def by (rule moves_trans [OF m3 mmio_moves [OF mmio_core(1) [OF core(1)]]])
  note run = probe_with_def [of tail chip w, unfolded c option.case Let_def 1 prod.case 2 cnt_def [symmetric]
      3 dw'_def [symmetric] w4_def [symmetric]]
  have good: "probe_ready chip w \<longleftrightarrow> steps_succeed w \<and> ops_irq_vector c \<and> 1 \<le> chip_nr_irqs c \<and>
      (wr_ch_cnt dw \<noteq> 0 \<or> rd_ch_cnt dw \<noteq> 0)"
    using c by (simp add: probe_ready_def 1 2)
  have ok: "steps_succeed w \<Longrightarrow> p \<noteq> 0 \<and> q \<noteq> 0"
    using steps_succeed_kcall(1) [OF _ 1 refl] steps_succeed_kcall(2) [OF _ 3 refl] steps_succeed_moves [OF m2] by blast
  show ?thesis
  proof (cases "p = 0 \<or> wr_ch_cnt dw = 0 \<and> rd_ch_cnt dw = 0 \<or> q = 0")
    case True
    then have "\<not> probe_ready chip w"
      using good ok by blast
    then show ?thesis
      unfolding c(1) run using c True fail [of "- ENOMEM" w1] fail [of "- EINVAL" w2] fail [of "- ENOMEM" w3] m1 m2 m3
      by (auto simp: ENOMEM_def EINVAL_def)
  next
    case False
    have "at_request R chip w dw' w4"
      unfolding at_request_def using m4 core c(1) False d' cnts(3-6) good steps_succeed_moves [OF m4] by (simp add: cnt_def)
    then have "P (tail dw' w4)"
      by (rule tail)
    then show ?thesis
      unfolding c(1) run using c(2,3) False by auto
  qed
qed

lemma probe_outcome:
  assumes "vec_stable f w" "vchan_init_ok os"
  shows "probe_ok f R (probe_good chip w) chip w (akida_dw_edma_probe os chip w)"
proof -
  let ?tail = "\<lambda>dw w. case dw_edma_irq_request os dw 0 0 w of
       None \<Rightarrow> None
     | Some (err, wa, ra, dw, w) \<Rightarrow>
         if err \<noteq> 0 then Some (err, None, w)
         else (case dw_edma_channel_setup os dw wa ra w of
                 None \<Rightarrow> None
               | Some (err, dw, dma, w) \<Rightarrow>
                   if err \<noteq> 0 then Some (err, None, irq_free_loop (nat (dw_nr_irqs dw)) w)
                   else (let (_, w) = kcall K_debugfs_on w in Some (0, Some dw, w)))"
  have "akida_dw_edma_probe os chip w = probe_with ?tail chip w"
    unfolding akida_dw_edma_probe_def probe_with_def Let_def by (rule refl)
  also have "probe_ok f R (probe_good chip w) chip w \<dots>"
  proof (rule probe_with_cases [where R = R])
    fix dw v assume a: "at_request R chip w dw v"
    then have m: "moves R w R v"
      by (simp add: at_request_def)
    show "probe_ok f R (probe_good chip w) chip w (?tail dw v)"
      by (rule probe_ok_prefix [OF m probe_tail [OF vec_stable_io [OF assms(1) moves_io [OF m]] assms(2) a]])
  qed (auto simp: probe_ok_def probe_good_def)
  finally show ?thesis .
qed

text \<open>What a successful run of probe says, and remove.\<close>

lemma probe_SomeD:
  assumes "akida_dw_edma_probe os chip w = Some (0, Some dw, w')" "vec_stable f w" "vchan_init_ok os"
  shows "\<exists>c. chip = Some c \<and> probed c dw"
    "moves R w (add_mset R_dma_device (irq_lines f (nat (dw_nr_irqs dw)) + R)) w'"
  using probe_outcome [OF assms(2,3), where R = R and chip = chip] unfolding assms(1) probe_ok_def by auto

lemma tasklet_kill_mmio: "mmio w (tasklet_kill_loop n i w)"
proof (induction n arbitrary: i w)
  case (Suc n)
  have "mmio w (emit (Kcall (K_tasklet_kill i) r) w)" for r
    by (simp add: mmio_emit)
  then show ?case
    using Suc.IH by (auto simp: kcall_def Let_def intro: mmio_trans)
qed simp

lemma remove_moves:
  assumes "vec_stable f w" "dw_core dw \<noteq> CORE_NONE" "akida_dw_edma_remove (Some dw) w = (r, w')"
  shows "r = 0 \<and> moves (add_mset R_dma_device (irq_lines f (nat (dw_nr_irqs dw)) + R)) w R w'"
proof -
  let ?L = "irq_lines f (nat (dw_nr_irqs dw))"
  define w1 w2 where "w1 = dw_edma_core_off dw w" and "w2 = irq_free_loop (nat (dw_nr_irqs dw)) w1"
  have m1: "moves (add_mset R_dma_device (?L + R)) w (?L + add_mset R_dma_device R) w1"
    using mmio_moves [OF mmio_core(1) [OF assms(2)]] by (simp add: w1_def)
  have m2: "moves (?L + add_mset R_dma_device R) w1 (add_mset R_dma_device R) w2"
    unfolding w2_def by (rule irq_free_moves [OF vec_stable_io [OF assms(1) moves_io [OF m1]]])
  obtain q w3 where 3: "kcall K_dma_async_device_unregister w2 = (q, w3)" by fastforce
  have m3: "moves (add_mset R_dma_device R) w2 R w3"
    by (rule moves_kcall [OF 3]) simp
  have "r = 0" "w' = tasklet_kill_loop (length (dw_chan dw)) 0 w3"
    using assms(3) by (simp_all add: akida_dw_edma_remove_def Let_def w1_def [symmetric] w2_def [symmetric] 3)
  then show ?thesis
    using moves_trans [OF moves_trans [OF moves_trans [OF m1 m2] m3] mmio_moves [OF tasklet_kill_mmio]] by simp
qed

lemma probed_chan_ok: "probed c dw \<Longrightarrow> \<forall>ch \<in> set (dw_chan dw). chan_ok ch \<and> ch_id ch < 8"
proof
  fix ch assume p: "probed c dw" and "ch \<in> set (dw_chan dw)"
  then obtain j where j: "j < length (dw_chan dw)" "ch = dw_chan dw ! j"
    by (auto simp: in_set_conv_nth)
  then have "chan_fresh dw j ch" "length (dw_chan dw) = unat (wr_ch_cnt dw) + unat (rd_ch_cnt dw)"
    "unat (wr_ch_cnt dw) \<le> 8" "unat (rd_ch_cnt dw) \<le> 8"
    using p by (auto simp: probed_def dw_wf_def)
  then show "chan_ok ch \<and> ch_id ch < 8"
    using j(1) by (auto simp: chan_fresh_def chan_ok_def vchan_descs_def)
qed

text \<open>The concrete platform for the theorems below: two channels per direction, lines 40 and up.\<close>

definition ex_os :: edma_os where
  "ex_os = \<lparr>get_cached_msi_msg = (\<lambda>irq. \<lparr>address_lo = 0xfee00000, address_hi = 0, msi_data = of_int irq\<rparr>),
     vchan_init = (\<lambda>vc. vc\<lparr>desc_allocated := [], desc_submitted := [], desc_issued := [], desc_completed := [],
       desc_terminated := [], vc_cyclic := None\<rparr>)\<rparr>"

fun ex_kret :: "ev list \<Rightarrow> kcall \<Rightarrow> int" where
  "ex_kret tr (K_irq_vector i) = 40 + int i"
| "ex_kret tr K_devm_kzalloc = 1"
| "ex_kret tr (K_devm_kcalloc n) = 1"
| "ex_kret tr _ = 0"

definition ex_pworld :: world where
  "ex_pworld = ex_world\<lparr>dev := (\<lambda>_ _. 0x20002), kret := ex_kret\<rparr>"

definition ex_pchip :: dw_edma_chip where
  "ex_pchip = ex_chip\<lparr>chip_nr_irqs := 3\<rparr>"

lemma ex_os_ok: "vchan_init_ok ex_os"
  by (simp add: vchan_init_ok_def ex_os_def vchan_descs_def)

lemma ex_pworld_ok: "vec_stable (\<lambda>i. 40 + int i) ex_pworld" "calls_succeed ex_pworld"
  by (simp_all add: vec_stable_def calls_succeed_def steps_succeed_def registers_def ex_pworld_def)

lemma ex_counts:
  "FIELD_GET EDMA_V0_WRITE_CH_COUNT_MASK 0x20002 = 2" "FIELD_GET EDMA_V0_READ_CH_COUNT_MASK 0x20002 = 2"
  by (simp_all add: FIELD_GET_def field_masks field_shifts)

lemma ex_probe_counts:
  "wr_ch_cnt (fst (probe_counts (probe_select ex_pchip) (snd (kcall K_devm_kzalloc ex_pworld)))) = 2"
  by (simp add: kcall_def Let_def probe_select_def ex_pchip_def ex_chip_def ex_pworld_def
      dw_edma_v0_core_register_def probe_counts_def dw_edma_core_ch_count_def dw_edma_v0_core_ch_count_def
      v0_reg_defs readl_def EDMA_MAX_WR_CH_def EDMA_MAX_RD_CH_def EDMA_V0_MAX_NR_CH_def ex_counts split_beta)

lemma ex_probe_good: "probe_good (Some ex_pchip) ex_pworld"
  using ex_probe_counts
  by (simp add: probe_good_def probe_ready_def ex_pworld_ok(2) [unfolded calls_succeed_def] split_beta) (simp add: ex_pchip_def ex_chip_def)

lemma ex_probe_run:
  obtains dw w' where "akida_dw_edma_probe ex_os (Some ex_pchip) ex_pworld = Some (0, Some dw, w')"
  using probe_outcome [OF ex_pworld_ok(1) ex_os_ok, where R = "{#}" and chip = "Some ex_pchip"] ex_probe_good
  by (auto simp: probe_ok_def split: option.splits if_splits)

subsection \<open>Properties\<close>

text \<open>C21: Probe always returns (no endless loop in the distribution of the interrupts, no division by
  zero, no access behind the interrupt table), and a probe that fails at any of its steps has given
  back every line and registration it took, while a successful one holds the DMA device and exactly
  its interrupt lines.\<close>

theorem probe_returns_balanced:
  assumes "vec_stable f w" "vchan_init_ok os"
  shows "case akida_dw_edma_probe os chip w of None \<Rightarrow> False
    | Some (err, dw, w') \<Rightarrow>
        (if err \<noteq> 0 then dw = None \<and> ledger {#} (new_evs w w') = Some {#}
         else \<exists>d. dw = Some d \<and> ledger {#} (new_evs w w') =
                Some (add_mset R_dma_device (irq_lines f (nat (dw_nr_irqs d)))))"
  using probe_outcome [OF assms, where R = "{#}" and chip = chip] unfolding probe_ok_def moves_def
  by (auto split: option.splits if_splits)

theorem probe_returns_balanced_witness:
  "case akida_dw_edma_probe ex_os (Some ex_pchip) ex_pworld of None \<Rightarrow> False
    | Some (err, dw, w') \<Rightarrow>
        (if err \<noteq> 0 then dw = None \<and> ledger {#} (new_evs ex_pworld w') = Some {#}
         else \<exists>d. dw = Some d \<and> ledger {#} (new_evs ex_pworld w') =
                Some (add_mset R_dma_device (irq_lines (\<lambda>i. 40 + int i) (nat (dw_nr_irqs d)))))"
  by (rule probe_returns_balanced [OF ex_pworld_ok(1) ex_os_ok])

text \<open>Probe succeeds when no kernel call fails and the platform describes an operable device with at
  least one interrupt line and one channel that both the platform and the hardware have.\<close>

theorem probe_succeeds:
  assumes "vec_stable f w" "vchan_init_ok os" "calls_succeed w"
    "chip_dev c" "chip_ops c" "ops_irq_vector c" "1 \<le> chip_nr_irqs c"
    "case probe_counts (probe_select c) (snd (kcall K_devm_kzalloc w)) of
       (dw, _) \<Rightarrow> wr_ch_cnt dw \<noteq> 0 \<or> rd_ch_cnt dw \<noteq> 0"
  shows "\<exists>dw w'. akida_dw_edma_probe os (Some c) w = Some (0, Some dw, w') \<and> dw_chip dw = c"
proof -
  have "probe_good (Some c) w"
    using assms by (simp add: probe_good_def probe_ready_def calls_succeed_def)
  then show ?thesis
    using probe_outcome [OF assms(1,2), where R = "{#}" and chip = "Some c"]
    by (auto simp: probe_ok_def probed_def split: option.splits if_splits)
qed

theorem probe_succeeds_witness:
  "\<exists>dw w'. akida_dw_edma_probe ex_os (Some ex_pchip) ex_pworld = Some (0, Some dw, w') \<and> dw_chip dw = ex_pchip"
  by (rule probe_succeeds [OF ex_pworld_ok(1) ex_os_ok ex_pworld_ok(2)])
    (use ex_probe_counts in \<open>simp_all add: split_beta\<close>, simp_all add: ex_pchip_def ex_chip_def)

text \<open>C22: After a successful probe every channel of both directions is idle, not configured, without
  requests and with the limit of its own linked-list memory; there are at most eight per direction and
  no more than the platform described; and every channel is in the mask of exactly one interrupt line,
  one that was requested and whose message the channel was given.\<close>

theorem probe_sets_up_channels:
  assumes "akida_dw_edma_probe os (Some chip) w = Some (0, Some dw, w')" "vec_stable f w" "vchan_init_ok os"
  shows "length (dw_chan dw) = unat (wr_ch_cnt dw) + unat (rd_ch_cnt dw) \<and>
    unat (wr_ch_cnt dw) \<le> 8 \<and> unat (rd_ch_cnt dw) \<le> 8 \<and>
    wr_ch_cnt dw \<le> ll_wr_cnt chip \<and> rd_ch_cnt dw \<le> ll_rd_cnt chip \<and>
    (\<forall>j < length (dw_chan dw). chan_fresh dw j (dw_chan dw ! j) \<and>
       (\<exists>p < length (dw_irqs dw). int p < dw_nr_irqs dw \<and> ch_msi (dw_chan dw ! j) = irq_msi (dw_irqs dw ! p) \<and>
          (\<forall>q < length (dw_irqs dw). irq_serves dw (dw_irqs dw ! q) (side dw j) j \<longleftrightarrow> q = p)))"
  using probe_SomeD(1) [OF assms] unfolding probed_def dw_wf_def by blast

theorem probe_sets_up_channels_witness:
  "\<exists>dw w'. akida_dw_edma_probe ex_os (Some ex_pchip) ex_pworld = Some (0, Some dw, w') \<and>
    length (dw_chan dw) = unat (wr_ch_cnt dw) + unat (rd_ch_cnt dw)"
proof -
  obtain dw w' where r: "akida_dw_edma_probe ex_os (Some ex_pchip) ex_pworld = Some (0, Some dw, w')"
    using ex_probe_run .
  then show ?thesis
    using probe_sets_up_channels [OF r ex_pworld_ok(1) ex_os_ok] by blast
qed

text \<open>From a successful probe on no interrupt, on whichever line and whatever the device reports,
  runs into a kernel bug.\<close>

theorem probed_interrupts_return:
  assumes "akida_dw_edma_probe os chip w = Some (0, Some dw, w')" "vec_stable f w" "vchan_init_ok os"
  shows "dw_edma_interrupt_common dw irq v \<noteq> None \<and> dw_edma_interrupt_write dw irq v \<noteq> None \<and>
    dw_edma_interrupt_read dw irq v \<noteq> None"
proof -
  obtain c where p: "probed c dw"
    using probe_SomeD(1) [OF assms] by blast
  then have d: "dw_core dw \<noteq> CORE_NONE" "dw_wf dw" "\<forall>ch \<in> set (dw_chan dw). chan_ok ch"
    using probed_chan_ok [OF p] by (simp_all add: probed_def)
  show ?thesis
    using core_irq.handle_both_keeps [of dw chan_ok dw_edma_done_interrupt dw_edma_abort_interrupt irq v]
      core_irq.handle_keeps [of dw chan_ok "dw_edma_done_interrupt dw" dw_edma_abort_interrupt irq EDMA_DIR_WRITE v]
      core_irq.handle_keeps [of dw chan_ok "dw_edma_done_interrupt dw" dw_edma_abort_interrupt irq EDMA_DIR_READ v]
      d handlers_keep
    by (auto simp: interrupt_common_eq dw_edma_interrupt_write_def dw_edma_interrupt_read_def)
qed

theorem probed_interrupts_return_witness:
  "\<exists>dw w'. akida_dw_edma_probe ex_os (Some ex_pchip) ex_pworld = Some (0, Some dw, w') \<and>
    dw_edma_interrupt_common dw (dw_irqs dw ! 0) w' \<noteq> None"
proof -
  obtain dw w' where r: "akida_dw_edma_probe ex_os (Some ex_pchip) ex_pworld = Some (0, Some dw, w')"
    using ex_probe_run .
  then show ?thesis
    using probed_interrupts_return [OF r ex_pworld_ok(1) ex_os_ok] by blast
qed

text \<open>C23: Remove gives back exactly what probe took, whatever register accesses happened in between.\<close>

theorem probe_remove_balanced:
  assumes "akida_dw_edma_probe os chip w = Some (0, Some dw, w')" "vec_stable f w" "vchan_init_ok os" "mmio w' v"
  shows "case akida_dw_edma_remove (Some dw) v of (r, v') \<Rightarrow> r = 0 \<and> ledger {#} (new_evs w v') = Some {#}"
proof -
  obtain r v' where r: "akida_dw_edma_remove (Some dw) v = (r, v')" by fastforce
  obtain c where "probed c dw"
    using probe_SomeD(1) [OF assms(1-3)] by blast
  then have core: "dw_core dw \<noteq> CORE_NONE"
    by (simp add: probed_def)
  have m: "moves {#} w (add_mset R_dma_device (irq_lines f (nat (dw_nr_irqs dw)) + {#})) v"
    using moves_trans [OF probe_SomeD(2) [OF assms(1-3)] mmio_moves [OF assms(4)]] .
  show ?thesis
    using remove_moves [OF vec_stable_io [OF assms(2) moves_io [OF m]] core r, where R = "{#}"] moves_trans [OF m, of "{#}" v']
    by (simp add: r moves_def)
qed

theorem probe_remove_balanced_witness:
  "\<exists>dw w' v'. akida_dw_edma_probe ex_os (Some ex_pchip) ex_pworld = Some (0, Some dw, w') \<and>
    akida_dw_edma_remove (Some dw) w' = (0, v') \<and> ledger {#} (new_evs ex_pworld v') = Some {#}"
proof -
  obtain dw w' where r: "akida_dw_edma_probe ex_os (Some ex_pchip) ex_pworld = Some (0, Some dw, w')"
    using ex_probe_run .
  then show ?thesis
    using probe_remove_balanced [OF r ex_pworld_ok(1) ex_os_ok mmio_refl] by auto
qed

end
