(* ===== verification/Akida_Probe.thy ===== *)
theory Akida_Probe
  imports Akida_Mmap Probe_Setup
begin

section \<open>Probe and remove of the Akida driver (akida-pcie-core.c)\<close>

text \<open>
  What happens when a board is found: the address translation, the host buffer, the interrupt vectors,
  the platform data of the engine, the client channels, the misc device; the labels that undo it; and
  the removal. Kernel calls are events with the value they returned. The code for kernels after 5.17 is
  the one modelled; names, wait queues and log messages are left out. Memory and regions taken with
  \<open>devm_\<close> and \<open>pcim_\<close> are released by the kernel and not counted.
\<close>

definition AKIDA_1000 :: int where "AKIDA_1000 = 0"

definition AKIDA_1500 :: int where "AKIDA_1500 = 1"

definition AKIDA_1500_HOST_DDR_SIZE_MAX :: u64 where "AKIDA_1500_HOST_DDR_SIZE_MAX = 0x1000000"

definition AKIDA_1500_HOST_DDR_SIZE_MIN :: u64 where "AKIDA_1500_HOST_DDR_SIZE_MIN = 0x100000"

text \<open>What the kernel gives: the functions of the engine's probe, the mapped BARs, the bus address of the host buffer.\<close>

record akida_plat =
  plat_os :: edma_os
  iomap_table :: "nat \<Rightarrow> iomem"
  ddr_dma_addr :: "u64 \<Rightarrow> u64"

text \<open>The driver's data of one board; \<open>chip_dw\<close> is \<open>edma_chip.dw\<close>.\<close>

record akida_priv =
  devno :: int
  edma_chip :: dw_edma_chip
  chip_dw :: "dw_edma option"
  p_rx :: "akida_dma_chan list"
  p_tx :: "akida_dma_chan list"
  mmio_bar0 :: iomem
  host_ddr :: host_ddr_area

subsection \<open>Zeroed memory\<close>

definition zero_dc :: akida_dma_chan where
  "zero_dc = \<lparr>dc_chan = 0, dma_complete = 0, dma_xfer_dir = DMA_MEM_TO_MEM, dma_data_dir = DMA_BIDIRECTIONAL,
     dma_buf = 0, dma_len = 0, is_used = False\<rparr>"

definition zero_region :: dw_edma_region where
  "zero_region = \<lparr>paddr = 0, vaddr = 0, rg_sz = 0\<rparr>"

definition zero_chip :: dw_edma_chip where
  "zero_chip = \<lparr>chip_dev = False, chip_ops = False, ops_irq_vector = False, ops_pci_address = None, chip_nr_irqs = 0,
     chip_flags = 0, reg_base = 0, ll_wr_cnt = 0, ll_rd_cnt = 0,
     ll_region_wr = replicate 8 zero_region, ll_region_rd = replicate 8 zero_region,
     dt_region_wr = replicate 8 zero_region, dt_region_rd = replicate 8 zero_region, chip_mf = EDMA_MF_EDMA_LEGACY\<rparr>"

definition zero_priv :: akida_priv where
  "zero_priv = \<lparr>devno = 0, edma_chip = zero_chip, chip_dw = None, p_rx = replicate 2 zero_dc, p_tx = replicate 2 zero_dc,
     mmio_bar0 = 0, host_ddr = \<lparr>hd_cpu_addr = 0, hd_dma_addr = 0, hd_size = 0\<rparr>\<rparr>"

subsection \<open>Address translation and host buffer\<close>

definition akida_1000_iatu_conf_table :: "(nat \<times> u32) list" where
  "akida_1000_iatu_conf_table =
     [(0x0900, 0x80000000), (0x0904, 0x00000000), (0x0918, 0xFCC00000), (0x0908, 0xC0080000),
      (0x0900, 0x80000001), (0x0904, 0x00000000), (0x0918, 0xF8C00000), (0x0908, 0xC0080200),
      (0x0900, 0x80000002), (0x0904, 0x00000000), (0x0918, ucast AKIDA_DMA_RAM_PHY_ADDR), (0x0908, 0xC0080400),
      (0, 0)]"

definition akida_1500_iatu_conf_table :: "(nat \<times> u32) list" where
  "akida_1500_iatu_conf_table =
     [(0x0700, 0x00000000), (0x0704, 0xC0080200), (0x0714, ucast AKIDA_1500_BAR2_OFFSET),
      (0x0900, 0x00000000), (0x0904, 0xC0080400), (0x0914, ucast AKIDA_1500_BAR4_OFFSET),
      (0, 0)]"

text \<open>The loop over the sizes; \<open>size\<close> in the code is \<open>host_ddr.size\<close>.\<close>

function host_ddr_loop :: "akida_plat \<Rightarrow> u64 \<Rightarrow> host_ddr_area \<Rightarrow> world \<Rightarrow> host_ddr_area \<times> world" where
  "host_ddr_loop plat sz ddr w =
     (if AKIDA_1500_HOST_DDR_SIZE_MIN \<le> sz
      then (let (p, w) = kcall (K_dmam_alloc_attrs sz) w;
                ddr = ddr\<lparr>hd_size := sz, hd_cpu_addr := p, hd_dma_addr := ddr_dma_addr plat sz\<rparr>
            in if p \<noteq> 0 then (ddr, w) else host_ddr_loop plat (sz div 2) ddr w)
      else (ddr\<lparr>hd_size := 0\<rparr>, w))"
  by pat_completeness auto
termination
proof (relation "measure (\<lambda>(plat, sz, ddr, w). unat sz)")
  fix sz :: u64 and plat :: akida_plat and ddr ddr' :: host_ddr_area and w w' :: world
  assume "AKIDA_1500_HOST_DDR_SIZE_MIN \<le> sz"
  then have "0 < unat sz"
    by (simp add: AKIDA_1500_HOST_DDR_SIZE_MIN_def word_le_nat_alt)
  then show "((plat, sz div 2, ddr', w'), plat, sz, ddr, w) \<in> measure (\<lambda>(plat, sz, ddr, w). unat sz)"
    by (simp add: unat_div)
qed simp

declare host_ddr_loop.simps [simp del]

definition akida_1500_setup_host_ddr :: "akida_plat \<Rightarrow> akida_priv \<Rightarrow> world \<Rightarrow> int \<times> akida_priv \<times> world" where
  "akida_1500_setup_host_ddr plat akida w =
     (let (ddr, w) = host_ddr_loop plat AKIDA_1500_HOST_DDR_SIZE_MAX (host_ddr akida) w
      in (0, akida\<lparr>host_ddr := ddr\<rparr>, w))"

fun iatu_1000_loop :: "(nat \<times> u32) list \<Rightarrow> world \<Rightarrow> int \<times> world" where
  "iatu_1000_loop [] w = (0, w)"
| "iatu_1000_loop ((addr, val) # confs) w =
     (if addr = 0 then (0, w)
      else (let (ret, w) = kcall (K_pci_write_config_dword addr val) w
            in if ret \<noteq> 0 then (ret, w) else iatu_1000_loop confs w))"

definition akida_1000_setup_iatu :: "akida_plat \<Rightarrow> akida_priv \<Rightarrow> world \<Rightarrow> int \<times> akida_priv \<times> world" where
  "akida_1000_setup_iatu plat akida w =
     (let (ret, w) = iatu_1000_loop akida_1000_iatu_conf_table w
      in if ret \<noteq> 0 then (ret, akida, w) else (let (_, w) = kcall (K_msleep 1000) w in (0, akida, w)))"

fun iatu_1500_loop :: "iomem \<Rightarrow> (nat \<times> u32) list \<Rightarrow> world \<Rightarrow> world" where
  "iatu_1500_loop base [] w = w"
| "iatu_1500_loop base ((addr, val) # confs) w =
     (if addr = 0 then w else iatu_1500_loop base confs (writel val (base + addr) w))"

definition iatu_outbound :: "iomem \<Rightarrow> host_ddr_area \<Rightarrow> world \<Rightarrow> world" where
  "iatu_outbound base ddr w =
     (let w = writel 0 (base + 0x404) w;
          w = writel 0 (base + 0x400) w;
          w = writel (ucast AKIDA_1500_HOST_DDR_BASE) (base + 0x408) w;
          w = writel 0 (base + 0x40c) w;
          w = writel (ucast (AKIDA_1500_HOST_DDR_BASE + hd_size ddr - 1)) (base + 0x410) w;
          w = writel (lower_32_bits (hd_dma_addr ddr)) (base + 0x414) w;
          w = writel (upper_32_bits (hd_dma_addr ddr)) (base + 0x418) w
      in writel 0x80000000 (base + 0x404) w)"

definition akida_1500_setup_iatu :: "akida_plat \<Rightarrow> akida_priv \<Rightarrow> world \<Rightarrow> int \<times> akida_priv \<times> world" where
  "akida_1500_setup_iatu plat akida w =
     (let (ret, w) = kcall (K_pcim_iomap_regions (BIT 0)) w
      in if ret \<noteq> 0 then (ret, akida, w)
         else
           (let akida = akida\<lparr>mmio_bar0 := iomap_table plat 0\<rparr>;
                w = iatu_1500_loop (mmio_bar0 akida) akida_1500_iatu_conf_table w;
                w = (if hd_size (host_ddr akida) \<noteq> 0 then iatu_outbound (mmio_bar0 akida) (host_ddr akida) w else w);
                (_, w) = kcall (K_msleep 1000) w
            in (0, akida, w)))"

definition akida_1000_setup_iomap :: "world \<Rightarrow> int \<times> world" where
  "akida_1000_setup_iomap w = kcall (K_pcim_iomap_regions (BIT 2 OR BIT 4)) w"

definition akida_1500_setup_iomap :: "world \<Rightarrow> int \<times> world" where
  "akida_1500_setup_iomap w = kcall (K_pcim_iomap_regions (BIT 4)) w"

definition akida_1000_setup_dma_reg_base :: "akida_plat \<Rightarrow> iomem" where
  "akida_1000_setup_dma_reg_base plat = iomap_table plat 2 + 0x00000970"

definition akida_1500_setup_dma_reg_base :: "akida_plat \<Rightarrow> iomem" where
  "akida_1500_setup_dma_reg_base plat = iomap_table plat 0"

subsection \<open>Client channels\<close>

record akida_filter_param =
  fp_dev :: int
  dir_mask :: u32
  dir_exp :: u32

text \<open>The filter, on the device of the channel and what \<open>dma_get_slave_caps\<close> gives: result and directions.\<close>

definition akida_dma_chan_filter :: "int \<Rightarrow> int \<times> u32 \<Rightarrow> akida_filter_param \<Rightarrow> bool" where
  "akida_dma_chan_filter chan_dev caps p =
     (if fp_dev p \<noteq> chan_dev then False
      else if fst caps \<noteq> 0 then False
      else if snd caps AND dir_mask p \<noteq> dir_exp p then False
      else True)"

text \<open>The two loops of \<open>akida_dma_init\<close>: \<open>n\<close> entries from \<open>i\<close> on; and the loops that release.\<close>

fun init_chans ::
  "dma_transfer_direction \<Rightarrow> dma_data_direction \<Rightarrow> nat \<Rightarrow> nat \<Rightarrow> akida_dma_chan list \<Rightarrow> world \<Rightarrow>
   bool \<times> akida_dma_chan list \<times> world" where
  "init_chans x d 0 i tab w = (True, tab, w)"
| "init_chans x d (Suc n) i tab w =
     (let (h, w) = kcall (K_dma_request_channel (BIT (xfer_dir_val x))) w;
          tab = tab[i := (tab ! i)\<lparr>dc_chan := h\<rparr>]
      in if h = 0 then (False, tab, w)
         else
           (let (_, w) = kcall K_module_put w;
                tab = tab[i := (tab ! i)\<lparr>dma_complete := 0, dma_xfer_dir := x, dma_data_dir := d\<rparr>]
            in init_chans x d n (Suc i) tab w))"

fun free_chans :: "akida_dma_chan list \<Rightarrow> world \<Rightarrow> world" where
  "free_chans [] w = w"
| "free_chans (dc # tab) w =
     (let w = (if dc_chan dc \<noteq> 0
               then (let (_, w) = kcall K_module_get w; (_, w) = kcall (K_dma_release_channel (dc_chan dc)) w in w)
               else w)
      in free_chans tab w)"

definition akida_dma_init :: "akida_priv \<Rightarrow> world \<Rightarrow> int \<times> akida_priv \<times> world" where
  "akida_dma_init akida w =
     (let (ok, rx, w) = init_chans DMA_DEV_TO_MEM DMA_FROM_DEVICE (length (p_rx akida)) 0 (p_rx akida) w;
          akida = akida\<lparr>p_rx := rx\<rparr>
      in if \<not> ok then (- EBUSY, akida, free_chans (p_rx akida) w)
         else
           (let (ok, tx, w) = init_chans DMA_MEM_TO_DEV DMA_TO_DEVICE (length (p_tx akida)) 0 (p_tx akida) w;
                akida = akida\<lparr>p_tx := tx\<rparr>
            in if \<not> ok then (- EBUSY, akida, free_chans (p_rx akida) (free_chans (p_tx akida) w))
               else (0, akida, w)))"

fun exit_chans :: "akida_dma_chan list \<Rightarrow> world \<Rightarrow> world" where
  "exit_chans [] w = w"
| "exit_chans (dc # tab) w =
     (let (_, w) = kcall (K_terminate_sync (dc_chan dc)) w;
          (_, w) = kcall K_module_get w;
          (_, w) = kcall (K_dma_release_channel (dc_chan dc)) w
      in exit_chans tab w)"

definition akida_dma_exit :: "akida_priv \<Rightarrow> world \<Rightarrow> world" where
  "akida_dma_exit akida w = exit_chans (p_rx akida) (exit_chans (p_tx akida) w)"

subsection \<open>The platform data of the engine\<close>

datatype ram_side = TX | RX

fun AKIDA_DMA_RAM_PHY_LL_OFFSET :: "ram_side \<Rightarrow> nat \<Rightarrow> u64" where
  "AKIDA_DMA_RAM_PHY_LL_OFFSET TX i = (if i = 0 then 0x00 else 0x40) + AKIDA_DMA_RAM_PHY_OFFSET"
| "AKIDA_DMA_RAM_PHY_LL_OFFSET RX i = (if i = 0 then 0x80 else 0xC0) + AKIDA_DMA_RAM_PHY_OFFSET"

definition AKIDA_DMA_RAM_PHY_LL_SIZE :: "ram_side \<Rightarrow> nat \<Rightarrow> u64" where
  "AKIDA_DMA_RAM_PHY_LL_SIZE t i = 0x40"

definition AKIDA_DMA_RAM_PHY_DT_OFFSET :: "ram_side \<Rightarrow> nat \<Rightarrow> u64" where
  "AKIDA_DMA_RAM_PHY_DT_OFFSET t i = 0x0 + AKIDA_DMA_RAM_PHY_OFFSET"

definition AKIDA_DMA_RAM_PHY_DT_SIZE :: "ram_side \<Rightarrow> nat \<Rightarrow> u64" where
  "AKIDA_DMA_RAM_PHY_DT_SIZE t i = 0"

definition akida_ll_region :: "iomem \<Rightarrow> ram_side \<Rightarrow> nat \<Rightarrow> dw_edma_region" where
  "akida_ll_region bar4 t i =
     \<lparr>paddr = AKIDA_DMA_RAM_PHY_ADDR + AKIDA_DMA_RAM_PHY_LL_OFFSET t i,
      vaddr = bar4 + unat (AKIDA_DMA_RAM_PHY_LL_OFFSET t i), rg_sz = AKIDA_DMA_RAM_PHY_LL_SIZE t i\<rparr>"

definition akida_dt_region :: "iomem \<Rightarrow> ram_side \<Rightarrow> nat \<Rightarrow> dw_edma_region" where
  "akida_dt_region bar4 t i =
     \<lparr>paddr = AKIDA_DMA_RAM_PHY_ADDR + AKIDA_DMA_RAM_PHY_DT_OFFSET t i,
      vaddr = bar4 + unat (AKIDA_DMA_RAM_PHY_DT_OFFSET t i), rg_sz = AKIDA_DMA_RAM_PHY_DT_SIZE t i\<rparr>"

text \<open>The platform operations have \<open>irq_vector\<close> and no \<open>pci_address\<close>.\<close>

definition akida_setup_chip :: "dw_edma_map_format \<Rightarrow> iomem \<Rightarrow> iomem \<Rightarrow> dw_edma_chip \<Rightarrow> dw_edma_chip" where
  "akida_setup_chip mf base bar4 chip =
     chip\<lparr>reg_base := base, ll_wr_cnt := 2, ll_rd_cnt := 2,
       ll_region_wr := (ll_region_wr chip)[0 := akida_ll_region bar4 TX 0, 1 := akida_ll_region bar4 TX 1],
       dt_region_wr := (dt_region_wr chip)[0 := akida_dt_region bar4 TX 0, 1 := akida_dt_region bar4 TX 1],
       ll_region_rd := (ll_region_rd chip)[0 := akida_ll_region bar4 RX 0, 1 := akida_ll_region bar4 RX 1],
       dt_region_rd := (dt_region_rd chip)[0 := akida_dt_region bar4 RX 0, 1 := akida_dt_region bar4 RX 1],
       chip_mf := mf, chip_nr_irqs := 1, chip_ops := True, ops_irq_vector := True, ops_pci_address := None,
       chip_dev := True\<rparr>"

subsection \<open>The boards\<close>

record akida_ops =
  miscdev_name :: string
  setup_host_ddr :: "(akida_plat \<Rightarrow> akida_priv \<Rightarrow> world \<Rightarrow> int \<times> akida_priv \<times> world) option"
  setup_iatu :: "akida_plat \<Rightarrow> akida_priv \<Rightarrow> world \<Rightarrow> int \<times> akida_priv \<times> world"
  setup_iomap :: "world \<Rightarrow> int \<times> world"
  setup_dma_reg_base :: "akida_plat \<Rightarrow> iomem"
  ops_fops :: akida_fops
  ops_mf :: dw_edma_map_format

definition akida_1000_ops :: akida_ops where
  "akida_1000_ops = \<lparr>miscdev_name = ''akida'', setup_host_ddr = None, setup_iatu = akida_1000_setup_iatu,
     setup_iomap = akida_1000_setup_iomap, setup_dma_reg_base = akida_1000_setup_dma_reg_base,
     ops_fops = akida_1000_fops, ops_mf = EDMA_MF_EDMA_LEGACY\<rparr>"

definition akida_1500_ops :: akida_ops where
  "akida_1500_ops = \<lparr>miscdev_name = ''akd1500_'', setup_host_ddr = Some akida_1500_setup_host_ddr,
     setup_iatu = akida_1500_setup_iatu, setup_iomap = akida_1500_setup_iomap,
     setup_dma_reg_base = akida_1500_setup_dma_reg_base, ops_fops = akida_1500_fops, ops_mf = EDMA_MF_HDMA_NATIVE\<rparr>"

definition akida_board_ops :: "int \<Rightarrow> akida_ops option" where
  "akida_board_ops board_id =
     (if board_id = AKIDA_1000 then Some akida_1000_ops else if board_id = AKIDA_1500 then Some akida_1500_ops else None)"

subsection \<open>Probe\<close>

definition akida_set_dma_masks :: "world \<Rightarrow> int \<times> world" where
  "akida_set_dma_masks w =
     (let (ret, w) = kcall (K_dma_set_mask 64) w
      in if ret = 0 then kcall (K_dma_set_coherent_mask 64) w
         else
           (let (ret, w) = kcall (K_dma_set_mask 32) w
            in if ret \<noteq> 0 then (ret, w) else kcall (K_dma_set_coherent_mask 32) w))"

text \<open>The labels, from the last to the first.\<close>

definition fail_free_irq_vectors :: "int \<Rightarrow> world \<Rightarrow> int \<times> akida_priv option \<times> world" where
  "fail_free_irq_vectors ret w = (let (_, w) = kcall K_pci_free_irq_vectors w in (ret, None, w))"

definition fail_dw_edma_remove :: "int \<Rightarrow> akida_priv \<Rightarrow> world \<Rightarrow> int \<times> akida_priv option \<times> world" where
  "fail_dw_edma_remove ret akida w =
     (let (_, w) = akida_dw_edma_remove (chip_dw akida) w in fail_free_irq_vectors ret w)"

definition fail_akida_dma_exit :: "int \<Rightarrow> akida_priv \<Rightarrow> world \<Rightarrow> int \<times> akida_priv option \<times> world" where
  "fail_akida_dma_exit ret akida w = fail_dw_edma_remove ret akida (akida_dma_exit akida w)"

definition fail_ida_alloc :: "int \<Rightarrow> akida_priv \<Rightarrow> world \<Rightarrow> int \<times> akida_priv option \<times> world" where
  "fail_ida_alloc ret akida w =
     (let (_, w) = kcall (K_ida_free (devno akida)) w in fail_akida_dma_exit ret akida w)"

text \<open>From the start of the engine on, with the vectors allocated.\<close>

definition akida_probe_engine :: "akida_plat \<Rightarrow> akida_priv \<Rightarrow> world \<Rightarrow> (int \<times> akida_priv option \<times> world) option" where
  "akida_probe_engine plat akida w =
     (case akida_dw_edma_probe (plat_os plat) (Some (edma_chip akida)) w of
        None \<Rightarrow> None
      | Some (ret, dw, w) \<Rightarrow>
          if ret \<noteq> 0 then Some (fail_free_irq_vectors ret w)
          else
            (let (ret, akida, w) = akida_dma_init (akida\<lparr>chip_dw := dw\<rparr>) w
             in if ret \<noteq> 0 then Some (fail_dw_edma_remove ret akida w)
                else
                  (let (ret, w) = kcall K_ida_alloc w
                   in if ret < 0 then Some (fail_akida_dma_exit ret akida w)
                      else
                        (let akida = akida\<lparr>devno := ret\<rparr>; (ret, w) = kcall K_misc_register w
                         in if ret \<noteq> 0 then Some (fail_ida_alloc ret akida w) else Some (0, Some akida, w)))))"

definition akida_probe :: "akida_plat \<Rightarrow> int \<Rightarrow> world \<Rightarrow> (int \<times> akida_priv option \<times> world) option" where
  "akida_probe plat board_id w =
     (let (p, w) = kcall K_devm_kzalloc w
      in if p = 0 then Some (- ENOMEM, None, w)
         else
           (case akida_board_ops board_id of
              None \<Rightarrow> Some (- EOPNOTSUPP, None, w)
            | Some ops \<Rightarrow>
                (let (_, w) = kcall K_pci_disable_link_state w; (ret, w) = kcall K_pcim_enable_device w
                 in if ret \<noteq> 0 then Some (ret, None, w)
                    else
                      (let (_, w) = kcall K_pci_set_master w; (ret, w) = akida_set_dma_masks w
                       in if ret \<noteq> 0 then Some (ret, None, w)
                          else
                            (let (ret, akida, w) =
                               (case setup_host_ddr ops of None \<Rightarrow> (0, zero_priv, w) | Some f \<Rightarrow> f plat zero_priv w)
                             in if ret \<noteq> 0 then Some (ret, None, w)
                                else
                                  (let (ret, akida, w) = setup_iatu ops plat akida w
                                   in if ret \<noteq> 0 then Some (ret, None, w)
                                      else
                                        (let (ret, w) = setup_iomap ops w
                                         in if ret \<noteq> 0 then Some (ret, None, w)
                                            else
                                              (let (nr_irqs, w) = kcall K_pci_alloc_irq_vectors w
                                               in if nr_irqs < 1 then Some (- EPERM, None, w)
                                                  else
                                                    (let (msi, w) = kcall K_pci_dev_msi_enabled w
                                                     in if msi = 0 then Some (fail_free_irq_vectors (- EPERM) w)
                                                        else akida_probe_engine plat
                                                          (akida\<lparr>edma_chip := akida_setup_chip (ops_mf ops)
                                                             (setup_dma_reg_base ops plat) (iomap_table plat 4) (edma_chip akida)\<rparr>)
                                                          w)))))))))"

subsection \<open>Remove\<close>

definition akida_remove :: "akida_priv \<Rightarrow> world \<Rightarrow> world" where
  "akida_remove akida w =
     (let (_, w) = kcall K_misc_deregister w;
          (_, w) = kcall (K_ida_free (devno akida)) w;
          w = (if dc_chan (p_tx akida ! 0) \<noteq> 0 \<and> dc_chan (p_rx akida ! 0) \<noteq> 0 then akida_dma_exit akida w else w);
          w = (if chip_dev (edma_chip akida) then snd (akida_dw_edma_remove (chip_dw akida) w) else w);
          (msi, w) = kcall K_pci_dev_msi_enabled w;
          w = (if msi \<noteq> 0 then snd (kcall K_pci_free_irq_vectors w) else w)
      in if mmio_bar0 akida \<noteq> 0 then snd (kcall (K_pcim_iounmap_regions (BIT 0)) w) else w)"

text \<open>The table of the devices the driver serves: vendor, device, board.\<close>

definition akida_pci_ids :: "(u16 \<times> u16 \<times> int) list" where
  "akida_pci_ids = [(0x1e7c, 0xbca1, AKIDA_1000), (0x1e7c, 0xa500, AKIDA_1500)]"

end
