(* ===== verification/Probe_Run.thy ===== *)
theory Probe_Run
  imports Akida_Probe
begin

section \<open>What probe and remove of the Akida driver do\<close>

text \<open>
  Every path through probe against the ledger of kernel resources, the state a successful probe leaves,
  and remove as its inverse.
\<close>

subsection \<open>Lemmas: client channels\<close>

text \<open>A client channel and the module reference it gave back.\<close>

definition chan_own :: "akida_dma_chan \<Rightarrow> resource multiset" where
  "chan_own dc = (if dc_chan dc = 0 then {#} else {#R_dma_chan (dc_chan dc), R_module_debt#})"

definition chans_own :: "akida_dma_chan list \<Rightarrow> resource multiset" where
  "chans_own tab = sum_list (map chan_own tab)"

lemma chans_own_simps [simp]: "chans_own [] = {#}" "chans_own (dc # tab) = chan_own dc + chans_own tab"
  by (simp_all add: chans_own_def)

lemma chans_own_update:
  "i < length tab \<Longrightarrow> chan_own (tab ! i) = {#} \<Longrightarrow> chans_own (tab[i := dc]) = chan_own dc + chans_own tab"
proof (induction tab arbitrary: i)
  case (Cons c tab)
  then show ?case
    by (cases i) (simp_all add: ac_simps)
qed simp

lemma chans_own_same:
  "i < length tab \<Longrightarrow> dc_chan dc = dc_chan (tab ! i) \<Longrightarrow> chans_own (tab[i := dc]) = chans_own tab"
proof (induction tab arbitrary: i)
  case (Cons c tab)
  then show ?case
    by (cases i) (simp_all add: chan_own_def)
qed simp

text \<open>An entry as the loops leave it.\<close>

definition client_of :: "dma_transfer_direction \<Rightarrow> dma_data_direction \<Rightarrow> akida_dma_chan \<Rightarrow> bool" where
  "client_of x d dc \<longleftrightarrow> dc_chan dc \<noteq> 0 \<and> dma_xfer_dir dc = x \<and> dma_data_dir dc = d \<and> \<not> is_used dc"

lemma init_chans_moves:
  assumes "init_chans x d n i tab w = (ok, tab', w')" "i + n = length tab"
    "\<forall>j < length tab. \<not> is_used (tab ! j) \<and> (i \<le> j \<longrightarrow> dc_chan (tab ! j) = 0)" "\<forall>j < i. client_of x d (tab ! j)"
  shows "moves (chans_own tab + R) w (chans_own tab' + R) w' \<and> length tab' = length tab \<and>
    (ok \<longrightarrow> (\<forall>dc \<in> set tab'. client_of x d dc))"
  using assms
proof (induction n arbitrary: i tab w)
  case 0
  then show ?case
    by (auto simp: all_set_conv_all_nth)
next
  case (Suc n)
  let ?req = "K_dma_request_channel (BIT (xfer_dir_val x))"
  obtain h w1 where 1: "kcall ?req w = (h, w1)" by fastforce
  have i: "i < length tab" "dc_chan (tab ! i) = 0"
    using Suc.prems(2,3) by simp_all
  have own_i: "chan_own (tab ! i) = {#}"
    using i(2) by (simp add: chan_own_def)
  show ?case
  proof (cases "h = 0")
    case True
    then have r: "ok = False" "tab' = tab[i := (tab ! i)\<lparr>dc_chan := 0\<rparr>]" "w' = w1"
      using Suc.prems(1) 1 by simp_all
    have "moves (chans_own tab + R) w (chans_own tab + R) w1"
      by (rule moves_kcall [OF 1]) (simp add: True)
    then show ?thesis
      using r chans_own_same [of i tab "(tab ! i)\<lparr>dc_chan := 0\<rparr>"] i by simp
  next
    case False
    obtain q w2 where 2: "kcall K_module_put w1 = (q, w2)" by fastforce
    define dc where "dc = (tab ! i)\<lparr>dc_chan := h, dma_complete := 0, dma_xfer_dir := x, dma_data_dir := d\<rparr>"
    have r: "init_chans x d n (Suc i) (tab[i := dc]) w2 = (ok, tab', w')"
      using Suc.prems(1) 1 2 False i(1) by (simp add: dc_def)
    have own: "chans_own (tab[i := dc]) = {#R_dma_chan h, R_module_debt#} + chans_own tab"
      using chans_own_update [OF i(1) own_i, of dc] False by (simp add: chan_own_def dc_def)
    have dc: "client_of x d dc" "\<not> is_used dc"
      using False Suc.prems(3) i(1) by (simp_all add: client_of_def dc_def)
    have m1: "moves (chans_own tab + R) w (add_mset (R_dma_chan h) (chans_own tab + R)) w1"
      by (rule moves_kcall [OF 1]) (simp add: False)
    have m2: "moves (add_mset (R_dma_chan h) (chans_own tab + R)) w1 (chans_own (tab[i := dc]) + R) w2"
      by (rule moves_kcall [OF 2]) (simp add: own)
    have "moves (chans_own (tab[i := dc]) + R) w2 (chans_own tab' + R) w' \<and> length tab' = length (tab[i := dc]) \<and>
        (ok \<longrightarrow> (\<forall>dc \<in> set tab'. client_of x d dc))"
    proof (rule Suc.IH [OF r])
      show "Suc i + n = length (tab[i := dc])"
        using Suc.prems(2) by simp
      show "\<forall>j < length (tab[i := dc]). \<not> is_used (tab[i := dc] ! j) \<and> (Suc i \<le> j \<longrightarrow> dc_chan (tab[i := dc] ! j) = 0)"
        using Suc.prems(3) dc(2) i(1) by (auto simp: nth_list_update)
      show "\<forall>j < Suc i. client_of x d (tab[i := dc] ! j)"
        using Suc.prems(4) dc(1) i(1) by (auto simp: nth_list_update less_Suc_eq)
    qed
    then show ?thesis
      using moves_trans [OF moves_trans [OF m1 m2]] by simp
  qed
qed

lemma free_chans_moves: "moves (chans_own tab + R) w R (free_chans tab w)"
proof (induction tab arbitrary: w)
  case (Cons dc tab)
  show ?case
  proof (cases "dc_chan dc = 0")
    case True
    then show ?thesis
      using Cons.IH by (simp add: chan_own_def)
  next
    case False
    obtain q w1 where 1: "kcall K_module_get w = (q, w1)" by fastforce
    obtain q2 w2 where 2: "kcall (K_dma_release_channel (dc_chan dc)) w1 = (q2, w2)" by fastforce
    have m1: "moves (chans_own (dc # tab) + R) w (add_mset (R_dma_chan (dc_chan dc)) (chans_own tab + R)) w1"
      by (rule moves_kcall [OF 1]) (simp add: chan_own_def False)
    have m2: "moves (add_mset (R_dma_chan (dc_chan dc)) (chans_own tab + R)) w1 (chans_own tab + R) w2"
      by (rule moves_kcall [OF 2]) simp
    show ?thesis
      using moves_trans [OF moves_trans [OF m1 m2] Cons.IH] False 1 2 by simp
  qed
qed simp

lemma exit_chans_moves:
  "\<forall>dc \<in> set tab. dc_chan dc \<noteq> 0 \<Longrightarrow> moves (chans_own tab + R) w R (exit_chans tab w)"
proof (induction tab arbitrary: w)
  case (Cons dc tab)
  obtain q w1 where 1: "kcall (K_terminate_sync (dc_chan dc)) w = (q, w1)" by fastforce
  obtain q2 w2 where 2: "kcall K_module_get w1 = (q2, w2)" by fastforce
  obtain q3 w3 where 3: "kcall (K_dma_release_channel (dc_chan dc)) w2 = (q3, w3)" by fastforce
  have own: "chan_own dc = {#R_dma_chan (dc_chan dc), R_module_debt#}"
    using Cons.prems by (simp add: chan_own_def)
  have m1: "moves (chans_own (dc # tab) + R) w (chans_own (dc # tab) + R) w1"
    by (rule moves_kcall [OF 1]) simp
  have m2: "moves (chans_own (dc # tab) + R) w1 (add_mset (R_dma_chan (dc_chan dc)) (chans_own tab + R)) w2"
    by (rule moves_kcall [OF 2]) (simp add: own)
  have m3: "moves (add_mset (R_dma_chan (dc_chan dc)) (chans_own tab + R)) w2 (chans_own tab + R) w3"
    by (rule moves_kcall [OF 3]) simp
  have "moves (chans_own tab + R) w3 R (exit_chans tab w3)"
    using Cons.IH Cons.prems by simp
  then show ?case
    using moves_trans [OF moves_trans [OF moves_trans [OF m1 m2] m3]] 1 2 3 by simp
qed simp

definition clients_own :: "akida_priv \<Rightarrow> resource multiset" where
  "clients_own akida = chans_own (p_tx akida) + chans_own (p_rx akida)"

definition clients_ok :: "akida_priv \<Rightarrow> bool" where
  "clients_ok akida \<longleftrightarrow> length (p_rx akida) = 2 \<and> length (p_tx akida) = 2 \<and>
     (\<forall>dc \<in> set (p_rx akida). client_of DMA_DEV_TO_MEM DMA_FROM_DEVICE dc) \<and>
     (\<forall>dc \<in> set (p_tx akida). client_of DMA_MEM_TO_DEV DMA_TO_DEVICE dc)"

lemma dma_init_cases:
  assumes "p_rx akida = replicate 2 zero_dc" "p_tx akida = replicate 2 zero_dc"
    "akida_dma_init akida w = (ret, akida', w')"
  shows "if ret = 0 then moves R w (clients_own akida' + R) w' \<and> clients_ok akida' \<and>
       akida' = akida\<lparr>p_rx := p_rx akida', p_tx := p_tx akida'\<rparr>
     else moves R w R w' \<and> edma_chip akida' = edma_chip akida \<and> chip_dw akida' = chip_dw akida"
proof -
  have zero: "\<forall>j < length (replicate 2 zero_dc). \<not> is_used (replicate 2 zero_dc ! j) \<and>
      (0 \<le> j \<longrightarrow> dc_chan (replicate 2 zero_dc ! j) = 0)" "chans_own (replicate 2 zero_dc) = {#}"
    by (simp add: zero_dc_def) (simp add: zero_dc_def chan_own_def numeral_2_eq_2)
  obtain ok rx w1 where 1: "init_chans DMA_DEV_TO_MEM DMA_FROM_DEVICE 2 0 (replicate 2 zero_dc) w = (ok, rx, w1)"
    by (metis prod_cases3)
  have m1: "moves (chans_own (replicate 2 zero_dc) + Q) w (chans_own rx + Q) w1" "length rx = 2"
    "ok \<longrightarrow> (\<forall>dc \<in> set rx. client_of DMA_DEV_TO_MEM DMA_FROM_DEVICE dc)" for Q
    using init_chans_moves [OF 1 _ zero(1), of Q] by simp_all
  show ?thesis
  proof (cases ok)
    case False
    have "moves R w R (free_chans rx w1)"
      using moves_trans [OF m1(1) free_chans_moves, of R] by (simp add: zero(2))
    then show ?thesis
      using assms(3) 1 False by (auto simp: akida_dma_init_def assms(1,2) EBUSY_def)
  next
    case True
    obtain ok2 tx w2 where 2: "init_chans DMA_MEM_TO_DEV DMA_TO_DEVICE 2 0 (replicate 2 zero_dc) w1 = (ok2, tx, w2)"
      by (metis prod_cases3)
    have m2: "moves (chans_own (replicate 2 zero_dc) + Q) w1 (chans_own tx + Q) w2" "length tx = 2"
      "ok2 \<longrightarrow> (\<forall>dc \<in> set tx. client_of DMA_MEM_TO_DEV DMA_TO_DEVICE dc)" for Q
      using init_chans_moves [OF 2 _ zero(1), of Q] by simp_all
    have m: "moves R w (chans_own tx + (chans_own rx + R)) w2"
      using moves_trans [OF m1(1) [of R], of "chans_own tx + (chans_own rx + R)" w2] m2(1) [of "chans_own rx + R"]
      by (simp add: zero(2))
    show ?thesis
    proof (cases ok2)
      case False
      have "moves R w R (free_chans rx (free_chans tx w2))"
        by (rule moves_trans [OF moves_trans [OF m free_chans_moves] free_chans_moves])
      then show ?thesis
        using assms(3) 1 True 2 False by (auto simp: akida_dma_init_def assms(1,2) EBUSY_def)
    next
      case ok2: True
      then show ?thesis
        using assms(3) 1 True 2 m m1(2,3) m2(2,3)
        by (auto simp: akida_dma_init_def assms(1,2) clients_own_def clients_ok_def add.assoc)
    qed
  qed
qed

lemma dma_exit_moves:
  assumes "clients_ok akida"
  shows "moves (clients_own akida + R) w R (akida_dma_exit akida w)"
proof -
  have "\<forall>dc \<in> set (p_tx akida). dc_chan dc \<noteq> 0" "\<forall>dc \<in> set (p_rx akida). dc_chan dc \<noteq> 0"
    using assms by (auto simp: clients_ok_def client_of_def)
  then show ?thesis
    using moves_trans [OF exit_chans_moves exit_chans_moves, of "p_tx akida" "p_rx akida" R w]
    by (simp add: akida_dma_exit_def clients_own_def add.assoc)
qed

subsection \<open>Lemmas: probe\<close>

text \<open>What a probed board holds.\<close>

definition board_holds :: "(nat \<Rightarrow> int) \<Rightarrow> akida_priv \<Rightarrow> resource multiset" where
  "board_holds f akida =
     {#R_miscdev, R_devno (devno akida)#} + clients_own akida +
     add_mset R_dma_device (irq_lines f (nat (dw_nr_irqs (the (chip_dw akida))))) + {#R_irq_vectors#}"

text \<open>What a successful probe leaves: the engine probed on the platform data, and the client channels.\<close>

definition board_ok :: "dw_edma_chip \<Rightarrow> akida_priv \<Rightarrow> bool" where
  "board_ok chip akida \<longleftrightarrow> edma_chip akida = chip \<and> (\<exists>dw. chip_dw akida = Some dw \<and> probed chip dw) \<and> clients_ok akida"

text \<open>The undoing of each label, from what is held when it is reached.\<close>

lemma free_vectors_moves:
  assumes "fail_free_irq_vectors ret w = (r, a, w')"
  shows "r = ret \<and> a = None \<and> moves (add_mset R_irq_vectors R) w R w'"
proof -
  obtain q w1 where 1: "kcall K_pci_free_irq_vectors w = (q, w1)" by fastforce
  have "moves (add_mset R_irq_vectors R) w R w1"
    by (rule moves_kcall [OF 1]) simp
  then show ?thesis
    using assms by (simp add: fail_free_irq_vectors_def 1)
qed

lemma edma_remove_moves:
  assumes "fail_dw_edma_remove ret akida w = (r, a, w')" "chip_dw akida = Some dw" "dw_core dw \<noteq> CORE_NONE" "vec_stable f w"
  shows "r = ret \<and> a = None \<and>
    moves (add_mset R_dma_device (irq_lines f (nat (dw_nr_irqs dw))) + add_mset R_irq_vectors R) w R w'"
proof -
  obtain q w1 where 1: "akida_dw_edma_remove (Some dw) w = (q, w1)" by fastforce
  have m: "moves (add_mset R_dma_device (irq_lines f (nat (dw_nr_irqs dw))) + add_mset R_irq_vectors R) w (add_mset R_irq_vectors R) w1"
    using remove_moves [OF assms(4,3) 1, where R = "add_mset R_irq_vectors R"] by (simp add: add_mset_commute)
  have "fail_free_irq_vectors ret w1 = (r, a, w')"
    using assms(1,2) by (simp add: fail_dw_edma_remove_def 1)
  then show ?thesis
    using free_vectors_moves [of ret w1 r a w' R] moves_trans [OF m] by blast
qed

lemma dma_exit_label_moves:
  assumes "fail_akida_dma_exit ret akida w = (r, a, w')" "chip_dw akida = Some dw" "dw_core dw \<noteq> CORE_NONE" "vec_stable f w"
    "clients_ok akida"
  shows "r = ret \<and> a = None \<and>
    moves (clients_own akida + (add_mset R_dma_device (irq_lines f (nat (dw_nr_irqs dw))) + add_mset R_irq_vectors R)) w R w'"
proof -
  define w1 where "w1 = akida_dma_exit akida w"
  have m: "moves (clients_own akida + Q) w Q w1" for Q
    unfolding w1_def by (rule dma_exit_moves [OF assms(5)])
  have r: "fail_dw_edma_remove ret akida w1 = (r, a, w')"
    using assms(1) by (simp add: fail_akida_dma_exit_def w1_def)
  show ?thesis
    using edma_remove_moves [OF r assms(2,3) vec_stable_io [OF assms(4) moves_io [OF m]], of R] moves_trans [OF m] by blast
qed

lemma ida_label_moves:
  assumes "fail_ida_alloc ret akida w = (r, a, w')" "chip_dw akida = Some dw" "dw_core dw \<noteq> CORE_NONE" "vec_stable f w"
    "clients_ok akida"
  shows "r = ret \<and> a = None \<and>
    moves (add_mset (R_devno (devno akida))
      (clients_own akida + (add_mset R_dma_device (irq_lines f (nat (dw_nr_irqs dw))) + add_mset R_irq_vectors R))) w R w'"
proof -
  obtain q w1 where 1: "kcall (K_ida_free (devno akida)) w = (q, w1)" by fastforce
  have m: "moves (add_mset (R_devno (devno akida)) Q) w Q w1" for Q
    by (rule moves_kcall [OF 1]) simp
  have r: "fail_akida_dma_exit ret akida w1 = (r, a, w')"
    using assms(1) by (simp add: fail_ida_alloc_def 1)
  show ?thesis
    using dma_exit_label_moves [OF r assms(2,3) vec_stable_io [OF assms(4) moves_io [OF m]] assms(5), of R] moves_trans [OF m]
    by blast
qed

text \<open>The result of probe, from what is held before.\<close>

definition probe_result ::
  "(nat \<Rightarrow> int) \<Rightarrow> dw_edma_chip \<Rightarrow> resource multiset \<Rightarrow> world \<Rightarrow> resource multiset \<Rightarrow>
   (int \<times> akida_priv option \<times> world) option \<Rightarrow> bool" where
  "probe_result f chip R0 w R res \<longleftrightarrow>
     (case res of None \<Rightarrow> False
      | Some (r, a, w') \<Rightarrow>
          if r \<noteq> 0 then a = None \<and> moves R0 w R w'
          else \<exists>b. a = Some b \<and> board_ok chip b \<and> moves R0 w (board_holds f b + R) w')"

lemma probe_result_prefix:
  assumes "moves R0 w R1 w1" "probe_result f chip R1 w1 R res"
  shows "probe_result f chip R0 w R res"
  using assms moves_trans by (fastforce simp: probe_result_def split: option.splits if_splits)

text \<open>What is held once the engine is probed, and the results of the labels reached from there.\<close>

definition engine_own :: "(nat \<Rightarrow> int) \<Rightarrow> dw_edma \<Rightarrow> resource multiset \<Rightarrow> resource multiset" where
  "engine_own f dw R = add_mset R_dma_device (irq_lines f (nat (dw_nr_irqs dw))) + add_mset R_irq_vectors R"

lemma failed_result:
  assumes "n \<noteq> 0" "\<And>r a w'. x = (r, a, w') \<Longrightarrow> r = n \<and> a = None \<and> moves R0 w R w'"
  shows "probe_result f chip R0 w R (Some x)"
proof -
  obtain r a w' where x: "x = (r, a, w')" by (rule prod_cases3)
  show ?thesis
    using assms(1) assms(2) [OF x] by (simp add: probe_result_def x)
qed

lemma label_results:
  assumes "n \<noteq> 0"
  shows "probe_result f chip (add_mset R_irq_vectors R) w R (Some (fail_free_irq_vectors n w))"
    and "chip_dw akida = Some dw \<Longrightarrow> dw_core dw \<noteq> CORE_NONE \<Longrightarrow> vec_stable f w \<Longrightarrow>
      probe_result f chip (engine_own f dw R) w R (Some (fail_dw_edma_remove n akida w))"
    and "chip_dw akida = Some dw \<Longrightarrow> dw_core dw \<noteq> CORE_NONE \<Longrightarrow> vec_stable f w \<Longrightarrow> clients_ok akida \<Longrightarrow>
      probe_result f chip (clients_own akida + engine_own f dw R) w R (Some (fail_akida_dma_exit n akida w))"
    and "chip_dw akida = Some dw \<Longrightarrow> dw_core dw \<noteq> CORE_NONE \<Longrightarrow> vec_stable f w \<Longrightarrow> clients_ok akida \<Longrightarrow>
      probe_result f chip (add_mset (R_devno (devno akida)) (clients_own akida + engine_own f dw R)) w R
        (Some (fail_ida_alloc n akida w))"
  unfolding engine_own_def
  by (rule failed_result [OF assms], rule free_vectors_moves edma_remove_moves dma_exit_label_moves ida_label_moves; assumption)+

text \<open>Allocation of the number and registration of the device, with the client channels set up.\<close>

definition probe_device :: "akida_priv \<Rightarrow> world \<Rightarrow> int \<times> akida_priv option \<times> world" where
  "probe_device akida w =
     (let (ret, w) = kcall K_ida_alloc w
      in if ret < 0 then fail_akida_dma_exit ret akida w
         else
           (let akida = akida\<lparr>devno := ret\<rparr>; (ret, w) = kcall K_misc_register w
            in if ret \<noteq> 0 then fail_ida_alloc ret akida w else (0, Some akida, w)))"

lemma probe_device_result:
  assumes d: "chip_dw akida = Some d" "probed (edma_chip akida) d" "clients_ok akida" and vec: "vec_stable f w"
  shows "probe_result f (edma_chip akida) (clients_own akida + engine_own f d R) w R (Some (probe_device akida w))"
proof -
  let ?O = "clients_own akida + engine_own f d R"
  have core: "dw_core d \<noteq> CORE_NONE"
    using d(2) by (simp add: probed_def)
  obtain n w1 where 1: "kcall K_ida_alloc w = (n, w1)" by fastforce
  show ?thesis
  proof (cases "n < 0")
    case True
    have m: "moves Q w Q w1" for Q
      by (rule moves_kcall [OF 1]) (simp add: True)
    have "probe_result f (edma_chip akida) ?O w1 R (Some (fail_akida_dma_exit n akida w1))"
      by (rule label_results(3) [OF _ d(1) core vec_stable_io [OF vec moves_io [OF m]] d(3)]) (use True in simp)
    from probe_result_prefix [OF m this] show ?thesis
      using True by (simp add: probe_device_def 1)
  next
    case False
    define ak where "ak = akida\<lparr>devno := n\<rparr>"
    have ak: "chip_dw ak = Some d" "edma_chip ak = edma_chip akida" "clients_ok ak" "clients_own ak = clients_own akida" "devno ak = n"
      using d by (simp_all add: ak_def clients_ok_def clients_own_def)
    obtain q w2 where 2: "kcall K_misc_register w1 = (q, w2)" by fastforce
    have run: "probe_device akida w = (if q \<noteq> 0 then fail_ida_alloc q ak w2 else (0, Some ak, w2))"
      using False by (simp add: probe_device_def 1 2 ak_def)
    have m: "moves ?O w (add_mset (R_devno n) ?O) w1"
      by (rule moves_kcall [OF 1]) (simp add: False)
    show ?thesis
    proof (cases "q = 0")
      case True
      have "moves ?O w (add_mset R_miscdev (add_mset (R_devno n) ?O)) w2"
        by (rule moves_trans [OF m moves_kcall [OF 2]]) (simp add: True)
      then have "moves ?O w (board_holds f ak + R) w2"
        by (simp add: board_holds_def engine_own_def ak ac_simps add_mset_commute)
      then show ?thesis
        using ak d(2) by (simp add: run True probe_result_def board_ok_def)
    next
      case q: False
      have m2: "moves ?O w (add_mset (R_devno n) ?O) w2"
        by (rule moves_trans [OF m moves_kcall [OF 2]]) (simp add: q)
      have "probe_result f (edma_chip akida) (add_mset (R_devno (devno ak)) (clients_own ak + engine_own f d R)) w2 R
          (Some (fail_ida_alloc q ak w2))"
        by (rule label_results(4) [OF q ak(1) core vec_stable_io [OF vec moves_io [OF m2]] ak(3)])
      from probe_result_prefix [OF m2 this [unfolded ak]] show ?thesis
        using q by (simp add: run)
    qed
  qed
qed

text \<open>The client channels, with the engine probed.\<close>

lemma probe_clients_result:
  assumes d: "dw = Some d" "probed (edma_chip akida) d" and vec: "vec_stable f w"
    and z: "p_rx akida = replicate 2 zero_dc" "p_tx akida = replicate 2 zero_dc"
  shows "probe_result f (edma_chip akida) (engine_own f d R) w R
    (Some (let (ret, akida, w) = akida_dma_init (akida\<lparr>chip_dw := dw\<rparr>) w
           in if ret \<noteq> 0 then fail_dw_edma_remove ret akida w else probe_device akida w))"
proof -
  let ?E = "engine_own f d R"
  have core: "dw_core d \<noteq> CORE_NONE"
    using d(2) by (simp add: probed_def)
  obtain r ak w1 where 1: "akida_dma_init (akida\<lparr>chip_dw := dw\<rparr>) w = (r, ak, w1)"
    by (metis prod_cases3)
  note cases = dma_init_cases [OF _ _ 1, of ?E] z
  show ?thesis
  proof (cases "r = 0")
    case True
    then have m: "moves ?E w (clients_own ak + ?E) w1" "clients_ok ak"
      and ak: "ak = (akida\<lparr>chip_dw := dw\<rparr>)\<lparr>p_rx := p_rx ak, p_tx := p_tx ak\<rparr>"
      using cases by simp_all
    have ch: "chip_dw ak = Some d" "edma_chip ak = edma_chip akida"
      using arg_cong [OF ak, of chip_dw] arg_cong [OF ak, of edma_chip] d(1) by simp_all
    have "probe_result f (edma_chip ak) (clients_own ak + ?E) w1 R (Some (probe_device ak w1))"
      by (rule probe_device_result [OF ch(1) _ m(2) vec_stable_io [OF vec moves_io [OF m(1)]]]) (simp add: ch(2) d(2))
    from probe_result_prefix [OF m(1) this [unfolded ch(2)]] show ?thesis
      using True by (simp add: 1)
  next
    case False
    then have m: "moves ?E w ?E w1" "chip_dw ak = Some d"
      using cases d(1) by simp_all
    have "probe_result f (edma_chip akida) ?E w1 R (Some (fail_dw_edma_remove r ak w1))"
      by (rule label_results(2) [OF False m(2) core vec_stable_io [OF vec moves_io [OF m(1)]]])
    from probe_result_prefix [OF m(1) this] show ?thesis
      using False by (simp add: 1)
  qed
qed

lemma probe_engine_result:
  assumes vec: "vec_stable f w" and os: "vchan_init_ok (plat_os plat)"
    and z: "p_rx akida = replicate 2 zero_dc" "p_tx akida = replicate 2 zero_dc"
  shows "probe_result f (edma_chip akida) (add_mset R_irq_vectors R) w R (akida_probe_engine plat akida w)"
proof -
  let ?V = "add_mset R_irq_vectors R"
  obtain ret dw w1 where 1: "akida_dw_edma_probe (plat_os plat) (Some (edma_chip akida)) w = Some (ret, dw, w1)"
    and ok: "if ret \<noteq> 0 then dw = None \<and> moves ?V w ?V w1
      else \<exists>d. dw = Some d \<and> probed (edma_chip akida) d \<and>
        moves ?V w (add_mset R_dma_device (irq_lines f (nat (dw_nr_irqs d)) + ?V)) w1"
    using probe_outcome [OF vec os, where R = ?V and chip = "Some (edma_chip akida)"] by (auto simp: probe_ok_def split: option.splits if_splits)
  have run: "akida_probe_engine plat akida w = Some (if ret \<noteq> 0 then fail_free_irq_vectors ret w1
      else (let (ret, akida, w) = akida_dma_init (akida\<lparr>chip_dw := dw\<rparr>) w1
            in if ret \<noteq> 0 then fail_dw_edma_remove ret akida w else probe_device akida w))"
    by (simp add: akida_probe_engine_def 1 probe_device_def Let_def split: prod.split)
  show ?thesis
  proof (cases "ret = 0")
    case False
    then show ?thesis
      using ok probe_result_prefix [OF _ label_results(1) [OF False]] by (simp add: run)
  next
    case True
    then obtain d where d: "dw = Some d" "probed (edma_chip akida) d" "moves ?V w (engine_own f d R) w1"
      using ok by (auto simp: engine_own_def add_mset_commute)
    from probe_result_prefix [OF d(3) probe_clients_result [OF d(1,2) vec_stable_io [OF vec moves_io [OF d(3)]] z]] show ?thesis
      using True by (simp add: run)
  qed
qed

subsection \<open>Lemmas: the stages before the vectors\<close>

lemma mmio_kcall: "kcall k w = (r, w') \<Longrightarrow> res_act (Kcall k r) = Neutral \<Longrightarrow> mmio w w'"
  by (auto simp: kcall_def Let_def intro: mmio_emit)

lemma masks_mmio: "akida_set_dma_masks w = (r, w') \<Longrightarrow> mmio w w'"
proof -
  assume a: "akida_set_dma_masks w = (r, w')"
  obtain r1 w1 where 1: "kcall (K_dma_set_mask 64) w = (r1, w1)" by fastforce
  obtain r2 w2 where 2: "kcall (K_dma_set_coherent_mask 64) w1 = (r2, w2)" by fastforce
  obtain r3 w3 where 3: "kcall (K_dma_set_mask 32) w1 = (r3, w3)" by fastforce
  obtain r4 w4 where 4: "kcall (K_dma_set_coherent_mask 32) w3 = (r4, w4)" by fastforce
  have m1: "mmio w w1"
    by (rule mmio_kcall [OF 1]) simp
  have m2: "mmio w w2"
    by (rule mmio_trans [OF m1 mmio_kcall [OF 2]]) simp
  have m3: "mmio w w3"
    by (rule mmio_trans [OF m1 mmio_kcall [OF 3]]) simp
  have m4: "mmio w w4"
    by (rule mmio_trans [OF m3 mmio_kcall [OF 4]]) simp
  show "mmio w w'"
    using a 1 2 3 4 m2 m3 m4 by (auto simp: akida_set_dma_masks_def split: if_splits)
qed

lemma ddr_loop_mmio: "host_ddr_loop plat sz ddr w = (ddr', w') \<Longrightarrow> mmio w w'"
proof (induction plat sz ddr w rule: host_ddr_loop.induct)
  case (1 plat sz ddr w)
  obtain p w1 where k: "kcall (K_dmam_alloc_attrs sz) w = (p, w1)" by fastforce
  have m: "mmio w w1"
    by (rule mmio_kcall [OF k]) simp
  show ?case
  proof (cases "AKIDA_1500_HOST_DDR_SIZE_MIN \<le> sz \<and> p = 0")
    case True
    then show ?thesis
      using "1.IH" [OF _ k [symmetric] refl] "1.prems" k mmio_trans [OF m]
      by (subst (asm) (2) host_ddr_loop.simps) (auto simp: Let_def)
  next
    case False
    then show ?thesis
      using "1.prems" k m by (subst (asm) host_ddr_loop.simps) (auto simp: Let_def split: if_splits)
  qed
qed

lemma iatu_1000_mmio: "iatu_1000_loop confs w = (r, w') \<Longrightarrow> mmio w w'"
proof (induction confs arbitrary: w)
  case (Cons c confs)
  obtain a v where c: "c = (a, v)" by fastforce
  obtain q w1 where 1: "kcall (K_pci_write_config_dword a v) w = (q, w1)" by fastforce
  have m: "mmio w w1"
    by (rule mmio_kcall [OF 1]) simp
  show ?case
    using Cons.prems Cons.IH [of w1] mmio_trans [OF m] m by (auto simp: c 1 split: if_splits)
qed simp

lemma iatu_1500_mmio: "mmio w (iatu_1500_loop base confs w)"
proof (induction confs arbitrary: w)
  case (Cons c confs)
  obtain a v where c: "c = (a, v)" by fastforce
  show ?case
    using mmio_trans [OF mmio_writel [OF mmio_refl] Cons.IH, of w v "base + a"] by (simp add: c)
qed simp

text \<open>What the stages before the engine leave as it was.\<close>

definition fresh_board :: "akida_priv \<Rightarrow> bool" where
  "fresh_board akida \<longleftrightarrow> p_rx akida = replicate 2 zero_dc \<and> p_tx akida = replicate 2 zero_dc \<and> edma_chip akida = zero_chip"

definition stage_ok :: "(akida_plat \<Rightarrow> akida_priv \<Rightarrow> world \<Rightarrow> int \<times> akida_priv \<times> world) \<Rightarrow> bool" where
  "stage_ok f \<longleftrightarrow> (\<forall>plat akida w. case f plat akida w of (r, akida', w') \<Rightarrow>
     mmio w w' \<and> (fresh_board akida \<longrightarrow> fresh_board akida'))"

lemma stage_okD:
  assumes "stage_ok f" "f plat akida w = (r, akida', w')" "fresh_board akida"
  shows "mmio w w' \<and> fresh_board akida'"
  using assms(1) [unfolded stage_ok_def, rule_format, where plat = plat and akida = akida and w = w] assms(2,3) by simp

lemma stage_1000_iatu: "stage_ok akida_1000_setup_iatu"
proof -
  have "mmio w w' \<and> a = akida" if "akida_1000_setup_iatu plat akida w = (r, a, w')" for plat akida w r a w'
  proof -
    obtain q w1 where 1: "iatu_1000_loop akida_1000_iatu_conf_table w = (q, w1)" by fastforce
    obtain q2 w2 where 2: "kcall (K_msleep 1000) w1 = (q2, w2)" by fastforce
    have "mmio w1 w2"
      by (rule mmio_kcall [OF 2]) simp
    then show ?thesis
      using that 1 2 iatu_1000_mmio [OF 1] mmio_trans by (auto simp: akida_1000_setup_iatu_def split: if_splits)
  qed
  then show ?thesis
    by (fastforce simp: stage_ok_def split: prod.splits)
qed

lemma stage_1500_ddr: "stage_ok akida_1500_setup_host_ddr"
  using ddr_loop_mmio by (fastforce simp: stage_ok_def akida_1500_setup_host_ddr_def fresh_board_def split: prod.splits)

lemma stage_1500_iatu: "stage_ok akida_1500_setup_iatu"
proof -
  have "mmio w w' \<and> (fresh_board akida \<longrightarrow> fresh_board a)" if "akida_1500_setup_iatu plat akida w = (r, a, w')" for plat akida w r a w'
  proof -
    obtain q w1 where 1: "kcall (K_pcim_iomap_regions (BIT 0)) w = (q, w1)" by fastforce
    have m1: "mmio w w1"
      by (rule mmio_kcall [OF 1]) simp
    define w2 where "w2 = iatu_1500_loop (iomap_table plat 0) akida_1500_iatu_conf_table w1"
    define w3 where "w3 = (if hd_size (host_ddr akida) \<noteq> 0 then iatu_outbound (iomap_table plat 0) (host_ddr akida) w2 else w2)"
    have m3: "mmio w w3"
      using mmio_trans [OF m1 iatu_1500_mmio] by (simp add: w3_def w2_def iatu_outbound_def Let_def)
    obtain q4 w4 where 4: "kcall (K_msleep 1000) w3 = (q4, w4)" by fastforce
    have m4: "mmio w w4"
      by (rule mmio_trans [OF m3 mmio_kcall [OF 4]]) simp
    show ?thesis
      using that m1 m4 4 by (auto simp: akida_1500_setup_iatu_def 1 w3_def w2_def fresh_board_def Let_def split: if_splits)
  qed
  then show ?thesis
    by (fastforce simp: stage_ok_def split: prod.splits)
qed

lemma board_stages:
  assumes "akida_board_ops b = Some ops"
  shows "stage_ok (setup_iatu ops)" "setup_host_ddr ops = Some g \<Longrightarrow> stage_ok g" "setup_iomap ops w = (r, w') \<Longrightarrow> mmio w w'"
  using assms stage_1000_iatu stage_1500_iatu stage_1500_ddr
  by (auto simp: akida_board_ops_def akida_1000_ops_def akida_1500_ops_def akida_1000_setup_iomap_def akida_1500_setup_iomap_def
      split: if_splits intro: mmio_kcall)

text \<open>The platform data of a board.\<close>

definition board_chip :: "akida_plat \<Rightarrow> int \<Rightarrow> dw_edma_chip" where
  "board_chip plat b =
     (case akida_board_ops b of
        None \<Rightarrow> zero_chip
      | Some ops \<Rightarrow> akida_setup_chip (ops_mf ops) (setup_dma_reg_base ops plat) (iomap_table plat 4) zero_chip)"

lemma probe_result_fail: "r \<noteq> 0 \<Longrightarrow> mmio w w' \<Longrightarrow> probe_result f chip R w R (Some (r, None, w'))"
  by (simp add: probe_result_def mmio_moves)

lemma probe_result_mmio: "mmio w w1 \<Longrightarrow> probe_result f chip R w1 R res \<Longrightarrow> probe_result f chip R w R res"
  using probe_result_prefix [OF mmio_moves] .

lemma probe_stage:
  assumes "mmio w w'" "r = 0 \<Longrightarrow> probe_result f chip R w' R res"
  shows "probe_result f chip R w R (if r \<noteq> 0 then Some (r, None, w') else res)"
  using probe_result_fail [OF _ assms(1)] probe_result_mmio [OF assms] by simp

text \<open>From the interrupt vectors on.\<close>

definition probe_vectors :: "akida_plat \<Rightarrow> akida_priv \<Rightarrow> world \<Rightarrow> (int \<times> akida_priv option \<times> world) option" where
  "probe_vectors plat akida w =
     (let (nr_irqs, w) = kcall K_pci_alloc_irq_vectors w
      in if nr_irqs < 1 then Some (- EPERM, None, w)
         else
           (let (msi, w) = kcall K_pci_dev_msi_enabled w
            in if msi = 0 then Some (fail_free_irq_vectors (- EPERM) w) else akida_probe_engine plat akida w))"

lemma probe_vectors_result:
  assumes vec: "vec_stable f w" and os: "vchan_init_ok (plat_os plat)"
    and z: "p_rx akida = replicate 2 zero_dc" "p_tx akida = replicate 2 zero_dc"
  shows "probe_result f (edma_chip akida) R w R (probe_vectors plat akida w)"
proof -
  obtain n w1 where 1: "kcall K_pci_alloc_irq_vectors w = (n, w1)" by fastforce
  obtain q w2 where 2: "kcall K_pci_dev_msi_enabled w1 = (q, w2)" by fastforce
  have run: "probe_vectors plat akida w = (if n < 1 then Some (- EPERM, None, w1)
      else if q = 0 then Some (fail_free_irq_vectors (- EPERM) w2) else akida_probe_engine plat akida w2)"
    by (simp add: probe_vectors_def 1 2)
  show ?thesis
  proof (cases "n < 1")
    case True
    then have "moves R w R w1"
      by (intro moves_kcall [OF 1]) simp
    then show ?thesis
      using True by (simp add: run probe_result_def EPERM_def)
  next
    case False
    then have "moves R w (add_mset R_irq_vectors R) w1"
      by (intro moves_kcall [OF 1]) simp
    then have m: "moves R w (add_mset R_irq_vectors R) w2"
      by (rule moves_trans [OF _ moves_kcall [OF 2]]) simp
    show ?thesis
      using False probe_result_prefix [OF m label_results(1) [of "- EPERM"]]
        probe_result_prefix [OF m probe_engine_result [OF vec_stable_io [OF vec moves_io [OF m]] os z]]
      by (simp add: run EPERM_def)
  qed
qed

lemma ddr_stage:
  assumes "akida_board_ops b = Some ops"
    "(case setup_host_ddr ops of None \<Rightarrow> (0, zero_priv, w) | Some f \<Rightarrow> f plat zero_priv w) = (r, a, w')"
  shows "mmio w w' \<and> fresh_board a"
proof -
  have z: "fresh_board zero_priv"
    by (simp add: fresh_board_def zero_priv_def)
  show ?thesis
  proof (cases "setup_host_ddr ops")
    case None
    then show ?thesis
      using assms(2) z by simp
  next
    case (Some g)
    then show ?thesis
      using stage_okD [OF board_stages(2) [OF assms(1) Some] _ z] assms(2) by simp
  qed
qed

lemma akida_probe_result:
  assumes vec: "vec_stable f w" and os: "vchan_init_ok (plat_os plat)"
  shows "probe_result f (board_chip plat b) R w R (akida_probe plat b w)"
proof -
  obtain p w1 where 1: "kcall K_devm_kzalloc w = (p, w1)" by fastforce
  have m1: "mmio w w1"
    by (rule mmio_kcall [OF 1]) simp
  show ?thesis
  proof (cases "p = 0 \<or> akida_board_ops b = None")
    case True
    then show ?thesis
      using probe_result_fail [OF _ m1, of "- ENOMEM"] probe_result_fail [OF _ m1, of "- EOPNOTSUPP"]
      by (auto simp: akida_probe_def 1 ENOMEM_def EOPNOTSUPP_def)
  next
    case False
    then obtain ops where ops: "akida_board_ops b = Some ops" and p: "p \<noteq> 0" by auto
    obtain q2 w2 where 2: "kcall K_pci_disable_link_state w1 = (q2, w2)" by fastforce
    obtain r3 w3 where 3: "kcall K_pcim_enable_device w2 = (r3, w3)" by fastforce
    obtain q4 w4 where 4: "kcall K_pci_set_master w3 = (q4, w4)" by fastforce
    obtain r5 w5 where 5: "akida_set_dma_masks w4 = (r5, w5)" by fastforce
    obtain r6 a6 w6 where 6: "(case setup_host_ddr ops of None \<Rightarrow> (0, zero_priv, w5) | Some f \<Rightarrow> f plat zero_priv w5) = (r6, a6, w6)"
      by (metis prod_cases3)
    obtain r7 a7 w7 where 7: "setup_iatu ops plat a6 w6 = (r7, a7, w7)"
      by (metis prod_cases3)
    obtain r8 w8 where 8: "setup_iomap ops w7 = (r8, w8)" by fastforce
    define a8 where "a8 = a7\<lparr>edma_chip := akida_setup_chip (ops_mf ops) (setup_dma_reg_base ops plat) (iomap_table plat 4) (edma_chip a7)\<rparr>"
    have run: "akida_probe plat b w = (if r3 \<noteq> 0 then Some (r3, None, w3) else if r5 \<noteq> 0 then Some (r5, None, w5)
        else if r6 \<noteq> 0 then Some (r6, None, w6) else if r7 \<noteq> 0 then Some (r7, None, w7)
        else if r8 \<noteq> 0 then Some (r8, None, w8) else probe_vectors plat a8 w8)"
      using 1 2 3 4 5 6 7 8 p by (simp add: akida_probe_def ops probe_vectors_def a8_def)
    have m3: "mmio w w3" and m5: "mmio w3 w5"
      using mmio_trans [OF mmio_trans [OF m1 mmio_kcall [OF 2]] mmio_kcall [OF 3]]
        mmio_trans [OF mmio_kcall [OF 4] masks_mmio [OF 5]] by simp_all
    note s6 = ddr_stage [OF ops 6]
    note s7 = stage_okD [OF board_stages(1) [OF ops] 7 conjunct2 [OF s6]]
    have m8: "mmio w7 w8"
      by (rule board_stages(3) [OF ops 8])
    have a8: "p_rx a8 = replicate 2 zero_dc" "p_tx a8 = replicate 2 zero_dc" "edma_chip a8 = board_chip plat b"
      using s7 by (simp_all add: a8_def fresh_board_def board_chip_def ops)
    have "io_only w w8"
      using moves_io mmio_moves mmio_trans [OF mmio_trans [OF mmio_trans [OF mmio_trans [OF m3 m5]]]] s6 s7 m8 by blast
    then have "probe_result f (board_chip plat b) R w8 R (probe_vectors plat a8 w8)"
      using probe_vectors_result [OF vec_stable_io [OF vec] os a8(1,2)] by (simp add: a8(3))
    then show ?thesis
      unfolding run using s6 s7 by (intro probe_stage m3 m5 m8; simp)
  qed
qed

end
