(* ===== verification/Akida_Board.thy ===== *)
theory Akida_Board
  imports Probe_Run
begin

section \<open>A probed board\<close>

text \<open>
  Probe and remove balance; the host buffer is the largest that could be allocated; and the state probe
  leaves is one in which read and write can start.
\<close>

subsection \<open>Lemmas: the lists of a board\<close>

lemma probe_board:
  assumes "akida_probe plat b w = Some (0, Some akida, w')"
  shows "akida_board_ops b \<noteq> None"
  using assms by (cases "akida_board_ops b") (auto simp: akida_probe_def Let_def ENOMEM_def EOPNOTSUPP_def split: if_splits prod.splits)

definition side_of :: "dw_edma_dir \<Rightarrow> ram_side" where
  "side_of dir = (case dir of EDMA_DIR_WRITE \<Rightarrow> TX | EDMA_DIR_READ \<Rightarrow> RX)"

lemma board_chip_facts:
  assumes "akida_board_ops b \<noteq> None"
  shows "ll_wr_cnt (board_chip plat b) = 2" "ll_rd_cnt (board_chip plat b) = 2" "chip_dev (board_chip plat b)"
    "i < 2 \<Longrightarrow> ll_region_of (board_chip plat b) dir i = akida_ll_region (iomap_table plat 4) (side_of dir) i"
  using assms
proof -
  obtain ops where ops: "akida_board_ops b = Some ops"
    using assms by blast
  show "ll_wr_cnt (board_chip plat b) = 2" "ll_rd_cnt (board_chip plat b) = 2" "chip_dev (board_chip plat b)"
    by (simp_all add: board_chip_def ops akida_setup_chip_def)
  assume "i < 2"
  then have "i = 0 \<or> i = 1" by auto
  then show "ll_region_of (board_chip plat b) dir i = akida_ll_region (iomap_table plat 4) (side_of dir) i"
    by (cases dir) (auto simp: board_chip_def ops akida_setup_chip_def zero_chip_def ll_region_of_def side_of_def)
qed

lemma fresh_channel:
  assumes "probed (board_chip plat b) dw" "akida_board_ops b \<noteq> None" "c \<in> set (dw_chan dw)" "heap_ok w"
  shows "ch_id c < 2" "ll_max c = 1" "idle c w"
    "ll_region_of (dw_chip dw) (ch_dir c) (ch_id c) = akida_ll_region (iomap_table plat 4) (side_of (ch_dir c)) (ch_id c)"
proof -
  note chip = board_chip_facts [OF assms(2), where plat = plat]
  have dw: "dw_chip dw = board_chip plat b" "wr_ch_cnt dw \<le> 2" "rd_ch_cnt dw \<le> 2" "dw_wf dw"
    using assms(1) chip(1,2) by (simp_all add: probed_def)
  obtain j where j: "j < length (dw_chan dw)" "c = dw_chan dw ! j"
    using assms(3) by (metis in_set_conv_nth)
  then have fresh: "chan_fresh dw j c"
    using assms(1) by (simp add: probed_def)
  have "length (dw_chan dw) = unat (wr_ch_cnt dw) + unat (rd_ch_cnt dw)"
    using dw(4) by (simp add: dw_wf_def)
  then have "num dw j < 2"
    using j(1) dw(2,3) by (auto simp: word_le_nat_alt)
  then show id: "ch_id c < 2"
    using fresh by (simp add: chan_fresh_def)
  show rg: "ll_region_of (dw_chip dw) (ch_dir c) (ch_id c) = akida_ll_region (iomap_table plat 4) (side_of (ch_dir c)) (ch_id c)"
    using chip(4) [OF id] dw(1) by simp
  show lm: "ll_max c = 1"
    using fresh rg by (simp add: chan_fresh_def akida_ll_region_def AKIDA_DMA_RAM_PHY_LL_SIZE_def EDMA_LL_SZ_def)
  show "idle c w"
    using fresh lm assms(4) by (simp add: chan_fresh_def idle_def)
qed

text \<open>The four lists lie in the reserved area and do not overlap.\<close>

lemma ll_offsets:
  "unat (AKIDA_DMA_RAM_PHY_LL_OFFSET TX i) = (if i = 0 then 0 else 0x40)"
  "unat (AKIDA_DMA_RAM_PHY_LL_OFFSET RX i) = (if i = 0 then 0x80 else 0xC0)"
  by (simp_all add: AKIDA_DMA_RAM_PHY_OFFSET_def)

lemma ll_regions:
  "bar4 \<le> vaddr (akida_ll_region bar4 t i)" "vaddr (akida_ll_region bar4 t i) + 0x40 \<le> bar4 + 0x100"
  "paddr (akida_ll_region bar4 t i) = AKIDA_DMA_RAM_PHY_ADDR + of_nat (vaddr (akida_ll_region bar4 t i) - bar4)"
proof -
  show "bar4 \<le> vaddr (akida_ll_region bar4 t i)" "vaddr (akida_ll_region bar4 t i) + 0x40 \<le> bar4 + 0x100"
    by (cases t; simp only: akida_ll_region_def dw_edma_region.select_convs ll_offsets; simp)+
  show "paddr (akida_ll_region bar4 t i) = AKIDA_DMA_RAM_PHY_ADDR + of_nat (vaddr (akida_ll_region bar4 t i) - bar4)"
    by (simp add: akida_ll_region_def)
qed

lemma ll_regions_apart:
  assumes "i < 2" "j < 2" "(s, i) \<noteq> (t, j)"
  shows "vaddr (akida_ll_region bar4 s i) + 0x40 \<le> vaddr (akida_ll_region bar4 t j) \<or>
    vaddr (akida_ll_region bar4 t j) + 0x40 \<le> vaddr (akida_ll_region bar4 s i)"
proof -
  have ij: "i = 0 \<or> i = 1" "j = 0 \<or> j = 1"
    using assms(1,2) by auto
  show ?thesis
    using assms(3) ij
    by (cases s; cases t; simp only: akida_ll_region_def dw_edma_region.select_convs ll_offsets; auto)
qed

lemma akida_remove_moves:
  assumes ok: "board_ok chip akida" "chip_dev chip" and vec: "vec_stable f w" and msi: "\<forall>tr. kret w tr K_pci_dev_msi_enabled \<noteq> 0"
  shows "moves (board_holds f akida + R) w R (akida_remove akida w)"
proof -
  obtain dw where dw: "chip_dw akida = Some dw" "probed chip dw" "edma_chip akida = chip" "clients_ok akida"
    using ok(1) by (auto simp: board_ok_def)
  have core: "dw_core dw \<noteq> CORE_NONE"
    using dw(2) by (simp add: probed_def)
  define E where "E = add_mset R_dma_device (irq_lines f (nat (dw_nr_irqs dw)))"
  let ?V = "add_mset R_irq_vectors R"
  obtain q1 w1 where 1: "kcall K_misc_deregister w = (q1, w1)" by fastforce
  obtain q2 w2 where 2: "kcall (K_ida_free (devno akida)) w1 = (q2, w2)" by fastforce
  define w3 where "w3 = akida_dma_exit akida w2"
  obtain q4 w4 where 4: "akida_dw_edma_remove (Some dw) w3 = (q4, w4)" by fastforce
  obtain q5 w5 where 5: "kcall K_pci_dev_msi_enabled w4 = (q5, w5)" by fastforce
  obtain q6 w6 where 6: "kcall K_pci_free_irq_vectors w5 = (q6, w6)" by fastforce
  obtain q7 w7 where 7: "kcall (K_pcim_iounmap_regions (BIT 0)) w6 = (q7, w7)" by fastforce
  have h: "board_holds f akida + R = add_mset R_miscdev (add_mset (R_devno (devno akida)) (clients_own akida + (E + ?V)))"
    by (simp add: board_holds_def dw(1) E_def ac_simps add_mset_commute)
  have m1: "moves (board_holds f akida + R) w (add_mset (R_devno (devno akida)) (clients_own akida + (E + ?V))) w1"
    unfolding h by (rule moves_kcall [OF 1]) simp
  have m2: "moves (board_holds f akida + R) w (clients_own akida + (E + ?V)) w2"
    by (rule moves_trans [OF m1 moves_kcall [OF 2]]) simp
  have m3: "moves (board_holds f akida + R) w (E + ?V) w3"
    unfolding w3_def by (rule moves_trans [OF m2 dma_exit_moves [OF dw(4)]])
  have "moves (E + ?V) w3 ?V w4"
    using remove_moves [OF vec_stable_io [OF vec moves_io [OF m3]] core 4, where R = ?V] by (simp add: E_def add_mset_commute)
  then have m4: "moves (board_holds f akida + R) w ?V w4"
    by (rule moves_trans [OF m3])
  have m5: "moves (board_holds f akida + R) w ?V w5"
    by (rule moves_trans [OF m4 moves_kcall [OF 5]]) simp
  have m6: "moves (board_holds f akida + R) w R w6"
    by (rule moves_trans [OF m5 moves_kcall [OF 6]]) simp
  have m7: "moves (board_holds f akida + R) w R w7"
    by (rule moves_trans [OF m6 moves_kcall [OF 7]]) simp
  have q5: "q5 \<noteq> 0"
    using kcall_kret [OF 5] msi moves_kret [OF m4] by simp
  have "p_tx akida ! 0 \<in> set (p_tx akida)" "p_rx akida ! 0 \<in> set (p_rx akida)"
    using dw(4) by (simp_all add: clients_ok_def)
  then have c: "dc_chan (p_tx akida ! 0) \<noteq> 0" "dc_chan (p_rx akida ! 0) \<noteq> 0"
    using dw(4) by (auto simp: clients_ok_def client_of_def)
  have "akida_remove akida w = (if mmio_bar0 akida \<noteq> 0 then w7 else w6)"
    using c q5 ok(2) 1 2 4 5 6 7 by (simp add: akida_remove_def w3_def dw(1,3))
  then show ?thesis
    using m6 m7 by simp
qed

subsection \<open>Properties\<close>

text \<open>C13: Probe of a board always returns. When it fails, at whichever step, it has undone every step before:
  interrupt vectors and lines, the engine, the client channels and their module references, the device
  number. When it succeeds it holds exactly these and the misc device.\<close>

theorem akida_probe_balanced:
  assumes "vec_stable f w" "vchan_init_ok (plat_os plat)"
  shows "case akida_probe plat b w of None \<Rightarrow> False
    | Some (r, a, w') \<Rightarrow>
        if r \<noteq> 0 then a = None \<and> ledger R (new_evs w w') = Some R
        else \<exists>akida. a = Some akida \<and> clients_ok akida \<and> ledger R (new_evs w w') = Some (board_holds f akida + R)"
  using akida_probe_result [OF assms, of b R]
  by (auto simp: probe_result_def moves_def board_ok_def split: option.splits if_splits)

text \<open>C14: Removing a board gives back exactly what its probe took, whatever register accesses came between,
  as long as message signalled interrupts stay enabled.\<close>

theorem akida_remove_balanced:
  assumes "akida_probe plat b w = Some (0, Some akida, w')" "vec_stable f w" "vchan_init_ok (plat_os plat)" "mmio w' v"
    and "\<forall>tr. kret w tr K_pci_dev_msi_enabled \<noteq> 0"
  shows "ledger R (new_evs w (akida_remove akida v)) = Some R"
proof -
  have p: "board_ok (board_chip plat b) akida" "moves R w (board_holds f akida + R) w'"
    using akida_probe_result [OF assms(2,3), of b R] by (simp_all add: assms(1) probe_result_def)
  have m: "moves R w (board_holds f akida + R) v"
    by (rule moves_trans [OF p(2) mmio_moves [OF assms(4)]])
  have "moves (board_holds f akida + R) v R (akida_remove akida v)"
    by (rule akida_remove_moves [OF p(1) board_chip_facts(3) [OF probe_board [OF assms(1)]]
          vec_stable_io [OF assms(2) moves_io [OF m]]]) (use assms(5) moves_kret [OF m] in simp)
  from moves_trans [OF m this] show ?thesis
    by (simp add: moves_def)
qed

text \<open>C15: A successful probe leaves a board that reads and writes can start on: every engine channel is idle,
  takes lists of one element, and has its list in its own 64 bytes of the 256 reserved ones, apart from
  the registers; every client channel is free and has the direction of its table.\<close>

theorem akida_probe_readies_io:
  assumes "akida_probe plat b w = Some (0, Some akida, w')" "vec_stable f w" "vchan_init_ok (plat_os plat)" "heap_ok w"
    and "iomap_table plat 4 + 0x100 \<le> reg_base (edma_chip akida) \<or> reg_base (edma_chip akida) + 0x1200 \<le> iomap_table plat 4"
    and "dw = the (chip_dw akida)" "rxchan akd = p_rx akida" "txchan akd = p_tx akida" "ad_w akd = w'"
    and "\<forall>h. ad_chan akd h \<in> set (dw_chan dw)"
  shows "pool_ok akd (rxchan akd) \<and> pool_ok akd (txchan akd) \<and>
    akida_acquire_chan [] (rxchan akd) \<noteq> None \<and> akida_acquire_chan [] (txchan akd) \<noteq> None \<and>
    (\<forall>dc \<in> set (rxchan akd). client_of DMA_DEV_TO_MEM DMA_FROM_DEVICE dc) \<and>
    (\<forall>dc \<in> set (txchan akd). client_of DMA_MEM_TO_DEV DMA_TO_DEVICE dc) \<and>
    (\<forall>h. ll_apart dw (ad_chan akd h) \<and> ll_max (ad_chan akd h) = 1) \<and>
    (\<forall>c \<in> set (dw_chan dw). \<forall>c' \<in> set (dw_chan dw). (ch_dir c, ch_id c) \<noteq> (ch_dir c', ch_id c') \<longrightarrow>
       (let rg = ll_region_of (dw_chip dw) (ch_dir c) (ch_id c); rg' = ll_region_of (dw_chip dw) (ch_dir c') (ch_id c')
        in iomap_table plat 4 \<le> vaddr rg \<and> vaddr rg + 0x40 \<le> iomap_table plat 4 + unat AKIDA_DMA_RAM_PHY_SIZE \<and>
           paddr rg = AKIDA_DMA_RAM_PHY_ADDR + of_nat (vaddr rg - iomap_table plat 4) \<and>
           (vaddr rg + 0x40 \<le> vaddr rg' \<or> vaddr rg' + 0x40 \<le> vaddr rg)))"
proof -
  have p: "board_ok (board_chip plat b) akida" "moves {#} w (board_holds f akida + {#}) w'"
    using akida_probe_result [OF assms(2,3), of b "{#}"] by (simp_all add: assms(1) probe_result_def)
  then have dw: "probed (board_chip plat b) dw" "edma_chip akida = board_chip plat b" "clients_ok akida"
    by (auto simp: board_ok_def assms(6))
  have heap: "heap_ok w'"
    using io_only_frame(5,6) [OF moves_io [OF p(2)]] assms(4) by (simp add: heap_ok_def)
  note ch = fresh_channel [OF dw(1) probe_board [OF assms(1)] _ heap]
  have chip: "dw_chip dw = board_chip plat b"
    using dw(1) by (simp add: probed_def)
  have free: "akida_acquire_chan [] tab \<noteq> None" if "\<forall>dc \<in> set tab. client_of x d dc" "length tab = 2" for tab x d
  proof -
    have "\<exists>c \<in> set tab. \<not> is_used c"
      using that by (cases tab) (auto simp: client_of_def)
    then have "akida_get_unsused_chan tab \<noteq> None"
      using get_unused_spec(2) [of 0 tab] by (auto simp: akida_get_unsused_chan_def)
    then show ?thesis
      by (subst akida_acquire_chan.simps) auto
  qed
  have tabs: "\<forall>dc \<in> set (rxchan akd). client_of DMA_DEV_TO_MEM DMA_FROM_DEVICE dc"
    "\<forall>dc \<in> set (txchan akd). client_of DMA_MEM_TO_DEV DMA_TO_DEVICE dc" "length (rxchan akd) = 2" "length (txchan akd) = 2"
    using dw(3) assms(7,8) by (simp_all add: clients_ok_def)
  have pool: "pool_ok akd tab" for tab
    using ch(3) assms(9,10) by (simp add: pool_ok_def)
  have apart: "ll_apart dw (ad_chan akd h) \<and> ll_max (ad_chan akd h) = 1" for h
  proof -
    have c: "ad_chan akd h \<in> set (dw_chan dw)"
      using assms(10) by blast
    note r = ll_regions(1,2) [of "iomap_table plat 4" "side_of (ch_dir (ad_chan akd h))" "ch_id (ad_chan akd h)"]
    show ?thesis
      using ch(1,2,4) [OF c] r assms(5) chip dw(2) by (auto simp: ll_apart_def Let_def)
  qed
  have lists: "let rg = ll_region_of (dw_chip dw) (ch_dir c) (ch_id c); rg' = ll_region_of (dw_chip dw) (ch_dir c') (ch_id c')
        in iomap_table plat 4 \<le> vaddr rg \<and> vaddr rg + 0x40 \<le> iomap_table plat 4 + unat AKIDA_DMA_RAM_PHY_SIZE \<and>
           paddr rg = AKIDA_DMA_RAM_PHY_ADDR + of_nat (vaddr rg - iomap_table plat 4) \<and>
           (vaddr rg + 0x40 \<le> vaddr rg' \<or> vaddr rg' + 0x40 \<le> vaddr rg)"
    if c: "c \<in> set (dw_chan dw)" "c' \<in> set (dw_chan dw)" "(ch_dir c, ch_id c) \<noteq> (ch_dir c', ch_id c')" for c c'
  proof -
    have "(side_of (ch_dir c), ch_id c) \<noteq> (side_of (ch_dir c'), ch_id c')"
      using c(3) by (auto simp: side_of_def split: dw_edma_dir.splits)
    from ll_regions_apart [OF ch(1) [OF c(1)] ch(1) [OF c(2)] this, of "iomap_table plat 4"] show ?thesis
      using ll_regions [of "iomap_table plat 4" "side_of (ch_dir c)" "ch_id c"] ch(4) [OF c(1)] ch(4) [OF c(2)]
      by (simp add: Let_def AKIDA_DMA_RAM_PHY_SIZE_def)
  qed
  show ?thesis
    using pool free [OF tabs(1,3)] free [OF tabs(2,4)] tabs(1,2) apart lists by blast
qed

subsection \<open>Witnesses\<close>

text \<open>An Akida 1000 whose kernel refuses nothing.\<close>

definition ex_akret :: "ev list \<Rightarrow> kcall \<Rightarrow> int" where
  "ex_akret tr k =
     (case k of K_dma_request_channel _ \<Rightarrow> 7 | K_pci_alloc_irq_vectors \<Rightarrow> 1 | K_pci_dev_msi_enabled \<Rightarrow> 1 | _ \<Rightarrow> ex_kret tr k)"

definition ex_aworld :: world where
  "ex_aworld = ex_world\<lparr>dev := (\<lambda>_ _. 0x20002), kret := ex_akret\<rparr>"

definition ex_plat :: akida_plat where
  "ex_plat = \<lparr>plat_os = ex_os, iomap_table = (\<lambda>bar. 0x10000 * Suc bar), ddr_dma_addr = (\<lambda>_. 0)\<rparr>"

definition ex_like :: "world \<Rightarrow> bool" where
  "ex_like w \<longleftrightarrow> kret w = ex_akret \<and> dev w = (\<lambda>_ _. 0x20002)"

lemma ex_like_kcall: "ex_like w \<Longrightarrow> kcall k w = (r, w') \<Longrightarrow> ex_like w' \<and> r = ex_akret (trace w) k"
  by (auto simp: ex_like_def kcall_def Let_def)

lemma ex_like_ok: "ex_like w \<Longrightarrow> vec_stable (\<lambda>i. 40 + int i) w" "ex_like w \<Longrightarrow> calls_succeed w"
  by (simp_all add: ex_like_def vec_stable_def calls_succeed_def steps_succeed_def registers_def ex_akret_def)

lemma ex_aworld_ok: "ex_like ex_aworld" "vchan_init_ok (plat_os ex_plat)" "heap_ok ex_aworld"
  using ex_os_ok ex_heap_ok by (simp_all add: ex_like_def ex_aworld_def ex_plat_def heap_ok_def ex_world_def)

lemma ex_board_chip:
  "board_chip ex_plat AKIDA_1000 = akida_setup_chip EDMA_MF_EDMA_LEGACY 0x30970 0x50000 zero_chip"
  by (simp add: board_chip_def akida_board_ops_def akida_1000_ops_def akida_1000_setup_dma_reg_base_def ex_plat_def)

lemma ex_engine_good:
  assumes "ex_like w"
  shows "probe_good (Some (board_chip ex_plat AKIDA_1000)) w"
proof -
  have c: "wr_ch_cnt (fst (probe_counts (probe_select (board_chip ex_plat AKIDA_1000)) (snd (kcall K_devm_kzalloc w)))) = 2"
    using assms
    by (simp add: ex_board_chip akida_setup_chip_def kcall_def Let_def probe_select_def ex_like_def
      dw_edma_v0_core_register_def probe_counts_def dw_edma_core_ch_count_def dw_edma_v0_core_ch_count_def
      v0_reg_defs readl_def EDMA_MAX_WR_CH_def EDMA_MAX_RD_CH_def EDMA_V0_MAX_NR_CH_def ex_counts split_beta)
  then show ?thesis
    using ex_like_ok(2) [OF assms]
    by (simp add: probe_good_def probe_ready_def calls_succeed_def split_beta) (simp add: ex_board_chip akida_setup_chip_def)
qed

lemma ex_init_chans: "ex_like w \<Longrightarrow> init_chans x d n i tab w = (ok, tab', w') \<Longrightarrow> ok \<and> ex_like w'"
proof (induction n arbitrary: i tab w)
  case (Suc n)
  obtain h w1 where 1: "kcall (K_dma_request_channel (BIT (xfer_dir_val x))) w = (h, w1)" by fastforce
  obtain q w2 where 2: "kcall K_module_put w1 = (q, w2)" by fastforce
  note k = ex_like_kcall [OF Suc.prems(1) 1] ex_like_kcall [OF _ 2]
  have l: "ex_like w2" "h = 7"
    using k by (simp_all add: ex_akret_def)
  have "\<exists>t. init_chans x d n (Suc i) t w2 = (ok, tab', w')"
    using Suc.prems(2) 1 2 l(2) by auto
  then show ?case
    using Suc.IH [OF l(1)] by blast
qed simp

lemma ex_engine_run:
  assumes "ex_like w" "edma_chip akida2 = board_chip ex_plat AKIDA_1000"
    and z: "p_rx akida2 = replicate 2 zero_dc" "p_tx akida2 = replicate 2 zero_dc"
  shows "\<exists>a w'. akida_probe_engine ex_plat akida2 w = Some (0, Some a, w')"
proof -
  obtain d w1 where 1: "akida_dw_edma_probe (plat_os ex_plat) (Some (edma_chip akida2)) w = Some (0, Some d, w1)" "moves {#} w Q w1"
    if "Q = add_mset R_dma_device (irq_lines (\<lambda>i. 40 + int i) (nat (dw_nr_irqs d)) + {#})" for Q
    using probe_outcome [OF ex_like_ok(1) [OF assms(1)] ex_aworld_ok(2), where R = "{#}" and chip = "Some (edma_chip akida2)"]
      ex_engine_good [OF assms(1)] assms(2)
    by (auto simp: probe_ok_def split: option.splits if_splits)
  note io = moves_io [OF 1(2) [OF refl]]
  have l1: "ex_like w1"
    using assms(1) io_only_frame(2,3) [OF io] by (simp add: ex_like_def)
  obtain ok rx w2 where 2: "init_chans DMA_DEV_TO_MEM DMA_FROM_DEVICE 2 0 (replicate 2 zero_dc) w1 = (ok, rx, w2)"
    by (metis prod_cases3)
  obtain ok3 tx w3 where 3: "init_chans DMA_MEM_TO_DEV DMA_TO_DEVICE 2 0 (replicate 2 zero_dc) w2 = (ok3, tx, w3)"
    by (metis prod_cases3)
  obtain n w4 where 4: "kcall K_ida_alloc w3 = (n, w4)" by fastforce
  obtain q w5 where 5: "kcall K_misc_register w4 = (q, w5)" by fastforce
  have ok: "ok" "ok3" "n = 0" "q = 0"
    using ex_init_chans [OF l1 2] ex_init_chans [OF _ 3] ex_like_kcall [OF _ 4] ex_like_kcall [OF _ 5]
    by (auto simp: ex_akret_def)
  show ?thesis
    using 1(1) [OF refl] 2 3 4 5 ok by (simp add: akida_probe_engine_def akida_dma_init_def z)
qed

lemma ex_iatu_run: "ex_like w \<Longrightarrow> iatu_1000_loop confs w = (r, w') \<Longrightarrow> r = 0 \<and> ex_like w'"
proof (induction confs arbitrary: w)
  case (Cons c confs)
  obtain addr val where c: "c = (addr, val)" by fastforce
  obtain q w1 where 1: "kcall (K_pci_write_config_dword addr val) w = (q, w1)" by fastforce
  have "q = 0" "ex_like w1"
    using ex_like_kcall [OF Cons.prems(1) 1] by (simp_all add: ex_akret_def)
  then show ?case
    using Cons.IH [of w1] Cons.prems by (cases "addr = 0") (simp_all add: c 1)
qed simp

lemma ex_board_run:
  obtains akida w' where "akida_probe ex_plat AKIDA_1000 ex_aworld = Some (0, Some akida, w')"
proof -
  let ?ops = akida_1000_ops
  obtain p w1 where 1: "kcall K_devm_kzalloc ex_aworld = (p, w1)" by fastforce
  obtain q2 w2 where 2: "kcall K_pci_disable_link_state w1 = (q2, w2)" by fastforce
  obtain r3 w3 where 3: "kcall K_pcim_enable_device w2 = (r3, w3)" by fastforce
  obtain q4 w4 where 4: "kcall K_pci_set_master w3 = (q4, w4)" by fastforce
  obtain r5 w5 where 5: "kcall (K_dma_set_mask 64) w4 = (r5, w5)" by fastforce
  obtain r6 w6 where 6: "kcall (K_dma_set_coherent_mask 64) w5 = (r6, w6)" by fastforce
  obtain r7 w7 where 7: "iatu_1000_loop akida_1000_iatu_conf_table w6 = (r7, w7)" by fastforce
  obtain q8 w8 where 8: "kcall (K_msleep 1000) w7 = (q8, w8)" by fastforce
  obtain r9 w9 where 9: "kcall (K_pcim_iomap_regions (BIT 2 OR BIT 4)) w8 = (r9, w9)" by fastforce
  obtain n10 w10 where 10: "kcall K_pci_alloc_irq_vectors w9 = (n10, w10)" by fastforce
  obtain q11 w11 where 11: "kcall K_pci_dev_msi_enabled w10 = (q11, w11)" by fastforce
  have w4: "ex_like w4" "p = 1" "r3 = 0"
    using ex_like_kcall [OF ex_aworld_ok(1) 1] ex_like_kcall [OF _ 2] ex_like_kcall [OF _ 3] ex_like_kcall [OF _ 4]
    by (auto simp: ex_akret_def)
  have w8: "ex_like w8" "r5 = 0" "r6 = 0" "r7 = 0"
    using w4(1) ex_like_kcall [OF _ 5] ex_like_kcall [OF _ 6] ex_iatu_run [OF _ 7] ex_like_kcall [OF _ 8]
    by (auto simp: ex_akret_def)
  have w11: "ex_like w11" "r9 = 0" "n10 = 1" "q11 = 1"
    using w8(1) ex_like_kcall [OF _ 9] ex_like_kcall [OF _ 10] ex_like_kcall [OF _ 11]
    by (auto simp: ex_akret_def)
  define akida where "akida = zero_priv\<lparr>edma_chip := board_chip ex_plat AKIDA_1000\<rparr>"
  have ops: "akida_board_ops AKIDA_1000 = Some ?ops" "edma_chip zero_priv = zero_chip"
    by (simp_all add: akida_board_ops_def zero_priv_def)
  have e: "akida_probe ex_plat AKIDA_1000 ex_aworld = akida_probe_engine ex_plat akida w11"
    using w4(2,3) w8(2-4) w11(2-4) 1 2 3 4 5 6 7 8 9 10 11
    by (simp add: akida_probe_def ops akida_set_dma_masks_def akida_1000_setup_iatu_def akida_1000_setup_iomap_def akida_def
        board_chip_def) (simp add: ops(2) akida_1000_ops_def akida_1000_setup_iatu_def akida_1000_setup_iomap_def)
  have "\<exists>a w'. akida_probe_engine ex_plat akida w11 = Some (0, Some a, w')"
    by (rule ex_engine_run [OF w11(1)]) (simp_all add: akida_def zero_priv_def)
  then show thesis
    using that e by auto
qed

theorem akida_probe_balanced_witness:
  "case akida_probe ex_plat AKIDA_1000 ex_aworld of None \<Rightarrow> False
    | Some (r, a, w') \<Rightarrow>
        if r \<noteq> 0 then a = None \<and> ledger {#} (new_evs ex_aworld w') = Some {#}
        else \<exists>akida. a = Some akida \<and> clients_ok akida \<and>
          ledger {#} (new_evs ex_aworld w') = Some (board_holds (\<lambda>i. 40 + int i) akida + {#})"
  by (rule akida_probe_balanced [OF ex_like_ok(1) [OF ex_aworld_ok(1)] ex_aworld_ok(2)])

theorem akida_remove_balanced_witness:
  "\<exists>akida w'. akida_probe ex_plat AKIDA_1000 ex_aworld = Some (0, Some akida, w') \<and>
    ledger {#} (new_evs ex_aworld (akida_remove akida w')) = Some {#}"
proof -
  obtain akida w' where r: "akida_probe ex_plat AKIDA_1000 ex_aworld = Some (0, Some akida, w')"
    using ex_board_run .
  have "\<forall>tr. kret ex_aworld tr K_pci_dev_msi_enabled \<noteq> 0"
    by (simp add: ex_aworld_def ex_akret_def)
  from akida_remove_balanced [OF r ex_like_ok(1) [OF ex_aworld_ok(1)] ex_aworld_ok(2) mmio_refl this] r show ?thesis
    by blast
qed

theorem akida_probe_readies_io_witness:
  "\<exists>akida w' akd. akida_probe ex_plat AKIDA_1000 ex_aworld = Some (0, Some akida, w') \<and>
    rxchan akd = p_rx akida \<and> txchan akd = p_tx akida \<and> ad_w akd = w' \<and>
    pool_ok akd (rxchan akd) \<and> akida_acquire_chan [] (rxchan akd) \<noteq> None"
proof -
  obtain akida w' where r: "akida_probe ex_plat AKIDA_1000 ex_aworld = Some (0, Some akida, w')"
    using ex_board_run .
  note ok = ex_like_ok(1) [OF ex_aworld_ok(1)] ex_aworld_ok(2)
  have p: "board_ok (board_chip ex_plat AKIDA_1000) akida"
    using akida_probe_result [OF ok, of AKIDA_1000 "{#}"] by (simp add: r probe_result_def)
  then have c: "edma_chip akida = board_chip ex_plat AKIDA_1000" "probed (board_chip ex_plat AKIDA_1000) (the (chip_dw akida))"
    by (auto simp: board_ok_def)
  have base: "reg_base (edma_chip akida) = 0x30970"
    by (simp add: c(1) ex_board_chip akida_setup_chip_def)
  have n: "dw_chan (the (chip_dw akida)) \<noteq> []"
    using c(2) by (auto simp: probed_def dw_wf_def unat_eq_0)
  define akd where "akd = ex_akida\<lparr>rxchan := p_rx akida, txchan := p_tx akida, ad_w := w',
    ad_chan := (\<lambda>h. hd (dw_chan (the (chip_dw akida))))\<rparr>"
  note rest = akida_probe_readies_io [OF r ok ex_aworld_ok(3) _ refl, where akd = akd]
  have "pool_ok akd (rxchan akd) \<and> akida_acquire_chan [] (rxchan akd) \<noteq> None"
    using rest n by (simp add: akd_def base ex_plat_def)
  then show ?thesis
    using r by (intro exI [where x = akida] exI [where x = w'] exI [where x = akd]) (simp add: akd_def)
qed

end
