(* ===== verification/Chan_Stuck.thy ===== *)
theory Chan_Stuck
  imports Chan_Life
begin

section \<open>A channel that no call gets going again\<close>

text \<open>
  The calls a client can make on a channel, as a function on the channel and the world, so that a run
  without interrupts is a fold over a list of calls. \<open>Call_reap\<close> is the release of a completed
  descriptor. A call that returns a status only (\<open>dw_edma_device_tx_status\<close>,
  \<open>dw_edma_alloc_chan_resources\<close>) changes nothing and is left out.
\<close>

datatype client_call =
    Call_config dma_slave_config
  | Call_prep dw_edma_transfer
  | Call_submit dw_edma_desc
  | Call_issue
  | Call_pause
  | Call_resume
  | Call_terminate
  | Call_free "(bool \<times> bool) list"
  | Call_reap

text \<open>Only a prepared descriptor can be submitted. A call that would not return leaves the state as it is.\<close>

fun client_do ::
  "kapi \<Rightarrow> (dw_edma_desc \<Rightarrow> dw_edma_desc virt_dma_chan \<Rightarrow> dw_edma_desc virt_dma_chan) \<Rightarrow> dw_edma \<Rightarrow>
   client_call \<Rightarrow> dw_edma_chan \<times> world \<Rightarrow> dw_edma_chan \<times> world" where
  "client_do k submit dw (Call_config g) (c, w) = (snd (dw_edma_device_config g c), w)"
| "client_do k submit dw (Call_prep xfer) (c, w) = snd (dw_edma_device_transfer k (dw_chip dw) c xfer w)"
| "client_do k submit dw (Call_submit d) (c, w) =
     (if d \<in> set (desc_allocated (chan_vc c)) then (c\<lparr>chan_vc := submit d (chan_vc c)\<rparr>, w) else (c, w))"
| "client_do k submit dw Call_issue (c, w) = dw_edma_device_issue_pending dw c w"
| "client_do k submit dw Call_pause (c, w) = (snd (dw_edma_device_pause c), w)"
| "client_do k submit dw Call_resume (c, w) = snd (dw_edma_device_resume dw c w)"
| "client_do k submit dw Call_terminate (c, w) = snd (dw_edma_device_terminate_all dw c w)"
| "client_do k submit dw (Call_free clk) (c, w) =
     (case dw_edma_free_chan_resources dw clk c w of None \<Rightarrow> (c, w) | Some cw \<Rightarrow> cw)"
| "client_do k submit dw Call_reap (c, w) =
     (case desc_completed (chan_vc c) of
        [] \<Rightarrow> (c, w)
      | d # ds \<Rightarrow> (c\<lparr>chan_vc := (chan_vc c)\<lparr>desc_completed := ds\<rparr>\<rparr>, vchan_free_desc d w))"

subsection \<open>Preparing and freeing leave no trace\<close>

lemma trace_kzalloc: "kzalloc w = (r, w') \<Longrightarrow> trace w' = trace w"
  using outside_kzalloc by (simp add: outside_def)

lemma trace_kfree [simp]: "trace (kfree a w) = trace w"
  by (simp add: kfree_def)

lemma trace_free_burst_list [simp]: "trace (snd (free_burst_list bs ck w)) = trace w"
  by (induction bs ck w rule: free_burst_list.induct) simp_all

lemma trace_free_burst [simp]: "trace (snd (dw_edma_free_burst ck w)) = trace w"
  by (simp add: dw_edma_free_burst_def split_beta split: option.splits)

lemma trace_free_chunk_list [simp]: "trace (snd (free_chunk_list cks d w)) = trace w"
  by (induction cks arbitrary: d w) (simp_all add: split_beta)

lemma trace_free_desc [simp]: "trace (dw_edma_free_desc d w) = trace w"
  by (simp add: dw_edma_free_desc_def dw_edma_free_chunk_def split_beta split: option.splits)

lemma trace_alloc_burst: "dw_edma_alloc_burst ck w = (ok, ck', w') \<Longrightarrow> trace w' = trace w"
  by (auto simp: dw_edma_alloc_burst_def Let_def dest: trace_kzalloc split: prod.splits option.splits)

lemma trace_alloc_chunk: "dw_edma_alloc_chunk chip chan d w = (ok, d', w') \<Longrightarrow> trace w' = trace w"
  by (auto simp: dw_edma_alloc_chunk_def Let_def dest!: trace_kzalloc trace_alloc_burst
      split: prod.splits option.splits bool.splits)

lemma trace_alloc_desc: "dw_edma_alloc_desc chip chan w = (r, w') \<Longrightarrow> trace w' = trace w"
  by (auto simp: dw_edma_alloc_desc_def Let_def dest!: trace_kzalloc trace_alloc_chunk
      split: prod.splits option.splits bool.splits)

lemma trace_transfer_loop:
  "transfer_loop k chip chan x dir n i sg s d desc w = (ok, desc', w') \<Longrightarrow> trace w' = trace w"
proof (induction n arbitrary: i sg s d desc w)
  case (Suc n)
  obtain ok1 d1 w1 where 1: "(if bursts_alloc (cur_chunk desc) = ll_max chan then dw_edma_alloc_chunk chip chan desc w
      else (True, desc, w)) = (ok1, d1, w1)"
    by (metis prod_cases3)
  have t1: "trace w1 = trace w"
    using 1 trace_alloc_chunk [of chip chan desc w ok1 d1 w1] by (auto split: if_splits)
  obtain ok2 ck w2 where 2: "dw_edma_alloc_burst (cur_chunk d1) w1 = (ok2, ck, w2)"
    by (metis prod_cases3)
  show ?case
    using Suc.prems Suc.IH t1 trace_alloc_burst [OF 2] unfolding transfer_loop.simps(2) 1
    by (auto simp: 2 Let_def split: if_splits bool.splits prod.splits)
qed simp

text \<open>A preparation changes at most the list of prepared descriptors.\<close>

lemma transfer_quiet:
  assumes "dw_edma_device_transfer k chip c xfer w = (r, c', w')"
  shows "trace w' = trace w \<and> (c' = c \<or> (\<exists>d. c' = c\<lparr>chan_vc := vchan_tx_prep (chan_vc c) d (x_flags xfer)\<rparr>))"
  using assms unfolding dw_edma_device_transfer_def
  by (auto simp: Let_def dest!: trace_alloc_desc trace_alloc_chunk trace_transfer_loop
      split: if_splits prod.splits option.splits bool.splits)

subsection \<open>A channel held up by a finished request\<close>

text \<open>Events without a start of the engine on the channel.\<close>

definition no_start :: "dw_edma \<Rightarrow> dw_edma_chan \<Rightarrow> ev list \<Rightarrow> bool" where
  "no_start dw c es \<longleftrightarrow> (\<forall>v. Writel (core_bell dw c) v \<notin> set es)"

lemma ch_status_no_start: "\<exists>es. trace (snd (dw_edma_core_ch_status dw c w)) = trace w @ es \<and> no_start dw c' es"
proof (cases "dw_core dw")
  case CORE_V0
  have "viewport_addr (dw_chip dw) \<noteq> v0_bell (dw_chip dw) c'"
    using v0_not_bell_viewport [of "dw_chip dw" c'] by (simp add: v0_not_bell_def)
  then show ?thesis
    using CORE_V0 by (auto simp: dw_edma_core_ch_status_def dw_edma_v0_core_ch_status_def GET_CH_32_def readl_ch_def
        readl_def writel_def split_beta Let_def no_start_def core_bell_def)
qed (auto simp: dw_edma_core_ch_status_def dw_hdma_v0_core_ch_status_def HGET_CH_32_def readl_def split_beta Let_def
    no_start_def)

text \<open>
  Since \<open>(c0, w0)\<close> nothing was started or completed on the channel: at the head of the issued
  requests is still \<open>d\<close>, of which no chunk is left.
\<close>

definition held_up ::
  "dw_edma \<Rightarrow> dw_edma_desc \<Rightarrow> dw_edma_desc list \<Rightarrow> dw_edma_chan \<Rightarrow> world \<Rightarrow> dw_edma_chan \<times> world \<Rightarrow> bool" where
  "held_up dw d ds c0 w0 = (\<lambda>(c, w).
     (\<exists>rest. desc_issued (chan_vc c) = d # ds @ rest) \<and>
     completed_cookie (chan_vc c) = completed_cookie (chan_vc c0) \<and>
     (\<exists>es. trace w = trace w0 @ es \<and> no_start dw c0 es))"

lemma held_up_io:
  assumes "held_up dw d ds c0 w0 (c, w)" "trace w' = trace w @ es" "no_start dw c0 es"
    "desc_issued (chan_vc c') = desc_issued (chan_vc c) @ rest"
    "completed_cookie (chan_vc c') = completed_cookie (chan_vc c)"
  shows "held_up dw d ds c0 w0 (c', w')"
proof -
  obtain es0 where es0: "trace w = trace w0 @ es0" "no_start dw c0 es0"
    using assms(1) by (auto simp: held_up_def)
  have "trace w' = trace w0 @ (es0 @ es)" "no_start dw c0 (es0 @ es)"
    using es0 assms(2,3) by (simp_all add: no_start_def)
  then show ?thesis
    using assms(1,4,5) unfolding held_up_def prod.case by auto
qed

lemma held_up_same:
  assumes "held_up dw d ds c0 w0 (c, w)" "trace w' = trace w"
    "desc_issued (chan_vc c') = desc_issued (chan_vc c) @ rest"
    "completed_cookie (chan_vc c') = completed_cookie (chan_vc c)"
  shows "held_up dw d ds c0 w0 (c', w')"
  by (rule held_up_io [OF assms(1), where es = "[]" and rest = rest]) (use assms(2-4) in \<open>simp_all add: no_start_def\<close>)

lemma terminate_shape_trace:
  assumes "dw_edma_device_terminate_all dw c w = (r, c', w')"
  shows "chan_vc c' = chan_vc c \<and> (\<exists>es. trace w' = trace w @ es \<and> no_start dw c0 es)"
  using assms ch_status_no_start [of dw c w c0]
  by (auto simp: dw_edma_device_terminate_all_def split_beta Let_def no_start_def split: if_splits)

lemma terminate_returns_0: "fst (dw_edma_device_terminate_all dw c w) = 0"
proof -
  have "\<not> ch_request c > EDMA_REQ_PAUSE"
    by (simp add: not_less)
  then show ?thesis
    by (simp add: dw_edma_device_terminate_all_def split_beta Let_def)
qed

lemma free_chan_shape:
  "dw_edma_free_chan_resources dw clk c w = Some (c', w') \<Longrightarrow>
   (c', w') = (c, w) \<or> (\<exists>r. dw_edma_device_terminate_all dw c w = (r, c', w'))"
proof (cases clk)
  case (Cons b clk')
  assume "dw_edma_free_chan_resources dw clk c w = Some (c', w')"
  moreover obtain b1 b2 where "b = (b1, b2)" by fastforce
  moreover have "fst (dw_edma_device_terminate_all dw c w) = 0"
    by (rule terminate_returns_0)
  ultimately show ?thesis
    using Cons by (cases "dw_edma_device_terminate_all dw c w") (auto simp: Let_def split: if_splits)
qed simp

lemma client_do_held_up:
  assumes "submit_ok submit" "d_chunk d \<noteq> None" "chunks d = []" "held_up dw d ds c0 w0 (c, w)"
  shows "held_up dw d ds c0 w0 (client_do k submit dw x (c, w))"
proof -
  obtain rest where i: "desc_issued (chan_vc c) = d # ds @ rest"
    using assms(4) by (auto simp: held_up_def)
  note same = held_up_same [OF assms(4)]
  have start: "dw_edma_start_transfer dw c' v = (False, c', v)"
    if "desc_issued (chan_vc c') = d # ds @ q" for c' v q
    by (rule start_transfer_done [OF that assms(2,3)])
  have stop: "held_up dw d ds c0 w0 (c', w')" if "dw_edma_device_terminate_all dw c w = (r, c', w')" for r c' w'
    using held_up_io [OF assms(4), of w' _ c' "[]"] terminate_shape_trace [OF that, of c0] by auto
  show ?thesis
  proof (cases x)
    case (Call_prep xfer)
    obtain r c' w' where 1: "dw_edma_device_transfer k (dw_chip dw) c xfer w = (r, c', w')"
      by (metis prod_cases3)
    have "held_up dw d ds c0 w0 (c', w')"
      using transfer_quiet [OF 1] by (intro same [where rest = "[]"]) (auto simp: vchan_tx_prep_def)
    then show ?thesis
      by (simp add: Call_prep 1)
  next
    case (Call_submit e)
    have "held_up dw d ds c0 w0 (c\<lparr>chan_vc := submit e (chan_vc c)\<rparr>, w)" if "e \<in> set (desc_allocated (chan_vc c))"
      using assms(1) that by (intro same [where rest = "[]"])
        (auto simp: submit_ok_def dma_cookie_assign_def Let_def split: prod.splits)
    then show ?thesis
      using assms(4) by (simp add: Call_submit)
  next
    case Call_issue
    have s: "dw_edma_start_transfer dw (c\<lparr>chan_vc := snd (vchan_issue_pending (chan_vc c)), ch_st := st\<rparr>) w =
        (False, c\<lparr>chan_vc := snd (vchan_issue_pending (chan_vc c)), ch_st := st\<rparr>, w)" for st
      by (rule start [where q = "rest @ desc_submitted (chan_vc c)"]) (simp add: i vchan_issue_pending_def Let_def)
    show ?thesis
      unfolding Call_issue client_do.simps
      by (simp add: dw_edma_device_issue_pending_def split_beta Let_def s)
        (auto intro!: same [where rest = "desc_submitted (chan_vc c)"] simp: assms(4) vchan_issue_pending_def Let_def)
  next
    case Call_resume
    have s: "dw_edma_start_transfer dw (c\<lparr>ch_st := st\<rparr>) w = (False, c\<lparr>ch_st := st\<rparr>, w)" for st
      by (rule start [where q = rest]) (simp add: i)
    show ?thesis
      unfolding Call_resume client_do.simps
      by (auto simp: dw_edma_device_resume_def s assms(4) intro!: same [where rest = "[]"])
  next
    case Call_terminate
    then show ?thesis
      using stop by (cases "dw_edma_device_terminate_all dw c w") auto
  next
    case (Call_free clk)
    then show ?thesis
      using free_chan_shape [of dw clk c w] assms(4) stop by (fastforce split: option.splits)
  next
    case Call_reap
    then show ?thesis
      using assms(4) by (auto split: list.splits intro!: same [where rest = "[]"] simp: vchan_free_desc_def)
  qed (auto simp: dw_edma_device_config_def dw_edma_device_pause_def assms(4) intro!: same [where rest = "[]"])
qed

text \<open>Only terminating the channel or giving it up takes it out of the busy state.\<close>

lemma client_do_busy:
  assumes "ch_st c = EDMA_ST_BUSY" "submit_ok submit" "x \<noteq> Call_terminate" "\<And>clk. x \<noteq> Call_free clk"
  shows "ch_st (fst (client_do k submit dw x (c, w))) = EDMA_ST_BUSY"
proof (cases x)
  case (Call_prep xfer)
  obtain r c' w' where 1: "dw_edma_device_transfer k (dw_chip dw) c xfer w = (r, c', w')"
    by (metis prod_cases3)
  show ?thesis
    using transfer_quiet [OF 1] assms(1) by (auto simp: Call_prep 1)
qed (use assms in \<open>auto simp: dw_edma_device_config_def dw_edma_device_pause_def dw_edma_device_resume_def
    dw_edma_device_issue_pending_def split_beta Let_def split: list.splits\<close>)

lemma calls_held_up:
  assumes "submit_ok submit" "d_chunk d \<noteq> None" "chunks d = []" "held_up dw d ds c0 w0 cw"
  shows "held_up dw d ds c0 w0 (fold (client_do k submit dw) calls cw)"
  using assms(4)
proof (induction calls arbitrary: cw)
  case (Cons x calls)
  show ?case
    using Cons.IH [OF client_do_held_up [OF assms(1-3), of dw ds c0 w0 "fst cw" "snd cw" k x]] Cons.prems by simp
qed simp

lemma calls_busy:
  assumes "submit_ok submit" "Call_terminate \<notin> set calls" "\<forall>clk. Call_free clk \<notin> set calls"
    "ch_st (fst cw) = EDMA_ST_BUSY"
  shows "ch_st (fst (fold (client_do k submit dw) calls cw)) = EDMA_ST_BUSY"
  using assms(2-4)
proof (induction calls arbitrary: cw)
  case (Cons x calls)
  have "ch_st (fst (client_do k submit dw x (fst cw, snd cw))) = EDMA_ST_BUSY"
    by (rule client_do_busy) (use Cons.prems assms(1) in auto)
  then show ?case
    using Cons by simp
qed simp

subsection \<open>Properties\<close>

text \<open>C33: A channel that was paused during the last chunk of the request at its head is held up by a
  resume: the call reports success and the channel is busy, but nothing was started. From then on, as
  long as no interrupt comes (and none is due, since nothing runs), no sequence of client calls of any
  length, in any order, with any requests, gets it going again, terminating and setting it up again
  included: the finished request stays at the head and is not completed, no later request gets past it,
  and the doorbell is not rung. Unless the client terminates or gives up the channel it also stays busy.\<close>

theorem resume_after_last_chunk_stuck:
  assumes "configured c" "ch_st c = EDMA_ST_PAUSE" "ch_request c = EDMA_REQ_NONE"
    "desc_issued (chan_vc c) = d # ds" "d_chunk d \<noteq> None" "chunks d = []" "submit_ok submit"
    "dw_edma_device_resume dw c w = (r, c1, w1)" "fold (client_do k submit dw) calls (c1, w1) = (c2, w2)"
  shows "r = 0 \<and> ch_st c1 = EDMA_ST_BUSY \<and> w1 = w \<and>
    (\<exists>later. desc_issued (chan_vc c2) = d # ds @ later) \<and>
    completed_cookie (chan_vc c2) = completed_cookie (chan_vc c) \<and>
    (\<exists>es. trace w2 = trace w @ es \<and> (\<forall>v. Writel (core_bell dw c) v \<notin> set es)) \<and>
    (Call_terminate \<notin> set calls \<and> (\<forall>clk. Call_free clk \<notin> set calls) \<longrightarrow> ch_st c2 = EDMA_ST_BUSY)"
proof -
  have 1: "r = 0" "c1 = c\<lparr>ch_st := EDMA_ST_BUSY\<rparr>" "w1 = w"
    using assms(1-6,8) start_transfer_done [of "c\<lparr>ch_st := EDMA_ST_BUSY\<rparr>" d ds dw w]
    by (simp_all add: dw_edma_device_resume_def)
  have "held_up dw d ds c w (c1, w1)"
    using assms(4) by (simp add: held_up_def 1 no_start_def)
  from calls_held_up [OF assms(7,5,6) this, of k calls] have "held_up dw d ds c w (c2, w2)"
    by (simp add: assms(9))
  moreover have "ch_st c2 = EDMA_ST_BUSY" if "Call_terminate \<notin> set calls" "\<forall>clk. Call_free clk \<notin> set calls"
    using calls_busy [OF assms(7) that, of "(c1, w1)" k dw] 1(2) unfolding assms(9) by simp
  ultimately show ?thesis
    by (simp add: 1 held_up_def no_start_def)
qed

text \<open>The client resumes, terminates the channel, sets it up again and issues: nothing moves.\<close>

theorem resume_after_last_chunk_stuck_witness:
  "\<exists>r c1 w1 c2 w2. dw_edma_device_resume ex_dw (ex_with EDMA_ST_PAUSE [finished ex_desc]) ex_world = (r, c1, w1) \<and>
     fold (client_do ex_kapi ex_submit ex_dw) [Call_terminate, Call_config (ch_config c1), Call_issue] (c1, w1) = (c2, w2) \<and>
     r = 0 \<and> ch_st c1 = EDMA_ST_BUSY \<and> desc_issued (chan_vc c2) = finished ex_desc # tl (desc_issued (chan_vc c2))"
proof -
  let ?c = "ex_with EDMA_ST_PAUSE [finished ex_desc]"
  have d: "chunks (finished ex_desc) = []" "d_chunk (finished ex_desc) \<noteq> None"
    by (simp_all add: finished_def chunks_def ex_desc_def)
  have c: "configured ?c" "ch_st ?c = EDMA_ST_PAUSE" "ch_request ?c = EDMA_REQ_NONE"
    "desc_issued (chan_vc ?c) = [finished ex_desc]"
    by simp_all
  obtain r c1 w1 where 1: "dw_edma_device_resume ex_dw ?c ex_world = (r, c1, w1)"
    by (metis prod_cases3)
  obtain c2 w2 where 2: "fold (client_do ex_kapi ex_submit ex_dw) [Call_terminate, Call_config (ch_config c1), Call_issue]
      (c1, w1) = (c2, w2)"
    by fastforce
  show ?thesis
    using resume_after_last_chunk_stuck [OF c(1-4) d(2,1) ex_submit_ok 1 2] 1 2 by auto
qed

end
