(* ===== verification/Device.thy ===== *)
theory Device
  imports Chan_Stuck
begin

section \<open>The whole device: several channels, several interrupt lines\<close>

text \<open>
  The channels of a device share the allocator, the registers and the interrupt handlers. A run of the
  device is any sequence of steps of single channels (\<open>chan_step\<close>, the client's calls on that channel)
  and of whole interrupts on its lines. The handler of an engine visits the channels one by one; that
  this is a sequence of channel steps is one more law of its contract, the locale \<open>dma_irq_steps\<close>.
\<close>

subsection \<open>Sequences of channel steps\<close>

inductive chans_star ::
  "(dw_edma_chan \<Rightarrow> world \<Rightarrow> dw_edma_chan \<Rightarrow> world \<Rightarrow> bool) \<Rightarrow>
   dw_edma_chan list \<Rightarrow> world \<Rightarrow> dw_edma_chan list \<Rightarrow> world \<Rightarrow> bool"
  for S where
  star_refl: "chans_star S cs w cs w"
| star_chan: "chans_star S cs w cs' w' \<Longrightarrow> j < length cs' \<Longrightarrow> S (cs' ! j) w' c w'' \<Longrightarrow>
    chans_star S cs w (cs'[j := c]) w''"
| star_io: "chans_star S cs w cs' w' \<Longrightarrow> io_only w' w'' \<Longrightarrow> chans_star S cs w cs' w''"

definition does :: "(dw_edma_chan \<Rightarrow> world \<Rightarrow> dw_edma_chan \<Rightarrow> world \<Rightarrow> bool) \<Rightarrow> dw_edma_handler \<Rightarrow> bool" where
  "does S h \<longleftrightarrow> (\<forall>c w c' w'. h c w = Some (c', w') \<longrightarrow> S c w c' w')"

lemma star_trans: "chans_star S b w' c w'' \<Longrightarrow> chans_star S a w b w' \<Longrightarrow> chans_star S a w c w''"
  by (induction rule: chans_star.induct) (auto intro: chans_star.intros)

lemma star_length: "chans_star S a w b w' \<Longrightarrow> length b = length a"
  by (induction rule: chans_star.induct) simp_all

lemma star_handler:
  assumes "does S h" "h (cs ! j) w = Some (c, w')" "j < length cs"
  shows "chans_star S cs w (cs[j := c]) w'"
  using star_chan [OF star_refl assms(3)] assms(1,2) by (simp add: does_def)

locale dma_irq_steps = dma_irq +
  assumes handle_steps: "ready dw \<Longrightarrow> dw_wf dw \<Longrightarrow> does S d \<Longrightarrow> does S a \<Longrightarrow>
    handle dw irq dir d a w = Some (ret, dw', w') \<Longrightarrow> chans_star S (dw_chan dw) w (dw_chan dw') w'"
begin

lemma handle_both_steps:
  assumes "ready dw" "dw_wf dw" "\<And>dw. does S (d dw)" "does S a" "handle_both dw irq d a w = Some (ret, dw', w')"
  shows "chans_star S (dw_chan dw) w (dw_chan dw') w'"
proof -
  obtain r1 dw1 w1 where 1: "handle dw irq EDMA_DIR_WRITE (d dw) a w = Some (r1, dw1, w1)"
    using assms(5) by (cases "handle dw irq EDMA_DIR_WRITE (d dw) a w") (auto simp: handle_both_def)
  obtain r2 where 2: "handle dw1 irq EDMA_DIR_READ (d dw1) a w1 = Some (r2, dw', w')"
    using assms(5) 1 by (simp add: handle_both_def split: option.splits prod.splits)
  note eq = handle_counts [OF 1]
  show ?thesis
    using handle_steps [OF assms(1,2,3,4) 1] handle_steps [OF _ _ assms(3,4) 2] star_trans assms(1,2) eq(3,4) by blast
qed

end

subsection \<open>The two engines visit the channels one by one\<close>

lemma v0_loop_steps:
  assumes "\<And>c w. io_only w (clear c w)" "does S h" "\<forall>p \<in> set ps. p + off < length chans"
    "v0_irq_loop clear h off ps chans w = Some (chans', w')"
  shows "chans_star S chans w chans' w'"
  using assms(3,4)
proof (induction ps arbitrary: chans w)
  case (Cons p ps)
  obtain c w1 where h: "h (chans ! (p + off)) (clear (chans ! (p + off)) w) = Some (c, w1)"
    using Cons.prems(2) by (auto split: option.splits)
  have "chans_star S chans w (chans[p + off := c]) w1"
    by (rule star_trans [OF star_handler [OF assms(2) h] star_io [OF star_refl assms(1)]]) (use Cons.prems in simp)
  moreover have "chans_star S (chans[p + off := c]) w1 chans' w'"
    using Cons.IH [of "chans[p + off := c]" w1] Cons.prems h by simp
  ultimately show ?case
    using star_trans by blast
qed (auto intro: star_refl)

lemma v0_clear_io [simp]:
  "io_only w (dw_edma_v0_core_clear_done_int chip c w)" "io_only w (dw_edma_v0_core_clear_abort_int chip c w)"
  "io_only w (snd (dw_edma_v0_core_status_done_int chip dir w))" "io_only w (snd (dw_edma_v0_core_status_abort_int chip dir w))"
  by (simp_all add: dw_edma_v0_core_clear_done_int_def dw_edma_v0_core_clear_abort_int_def v0_reg_defs
      dw_edma_v0_core_status_done_int_def dw_edma_v0_core_status_abort_int_def split_beta Let_def)

interpretation v0_steps: dma_irq_steps dw_edma_v0_core_handle_int "\<lambda>_. True"
proof
  fix S and dw :: dw_edma and irq :: dw_edma_irq and dir and d a :: dw_edma_handler and w ret dw' w'
  assume wf: "dw_wf dw" and d: "does S d" and a: "does S a"
    and H: "dw_edma_v0_core_handle_int dw irq dir d a w = Some (ret, dw', w')"
  obtain n off m where nom: "(n, off, m) =
      (if dir = EDMA_DIR_WRITE then (unat (wr_ch_cnt dw), 0, wr_mask irq)
       else (unat (rd_ch_cnt dw), unat (wr_ch_cnt dw), rd_mask irq))"
    by (cases "dir = EDMA_DIR_WRITE") auto
  have pos: "\<forall>p \<in> set (set_bits_below (v AND m) n). p + off < length (dw_chan dw)" for v
    using irq_serves_position(2) [OF _ nom wf] by blast
  obtain v1 w1 where s1: "dw_edma_v0_core_status_done_int (dw_chip dw) dir w = (v1, w1)" by fastforce
  note H' = H [unfolded v0_handle_int_eq [OF nom s1]]
  obtain chans w2 where 1: "v0_irq_loop (dw_edma_v0_core_clear_done_int (dw_chip dw)) d off
      (set_bits_below (v1 AND m) n) (dw_chan dw) w1 = Some (chans, w2)"
    using H' by (auto split: option.splits)
  obtain v2 w3 where s2: "dw_edma_v0_core_status_abort_int (dw_chip dw) dir w2 = (v2, w3)" by fastforce
  have 2: "v0_irq_loop (dw_edma_v0_core_clear_abort_int (dw_chip dw)) a off
      (set_bits_below (v2 AND m) n) chans w3 = Some (dw_chan dw', w')"
    using H' by (auto simp: 1 s2 split: option.splits)
  have io: "io_only w w1" "io_only w2 w3"
    using v0_clear_io(3) [where chip = "dw_chip dw" and dir = dir and w = w]
      v0_clear_io(4) [where chip = "dw_chip dw" and dir = dir and w = w2] by (simp_all add: s1 s2)
  have "chans_star S (dw_chan dw) w1 chans w2"
    by (rule v0_loop_steps [OF _ d pos 1]) simp
  then have a1: "chans_star S (dw_chan dw) w chans w3"
    using star_io [OF star_trans [OF _ star_io [OF star_refl io(1)]] io(2)] by blast
  have "\<forall>p \<in> set (set_bits_below (v2 AND m) n). p + off < length chans"
    using pos star_length [OF a1] by simp
  from v0_loop_steps [OF _ a this 2] have "chans_star S chans w3 (dw_chan dw') w'"
    by simp
  then show "chans_star S (dw_chan dw) w (dw_chan dw') w'"
    using a1 star_trans by blast
qed

lemma hdma_clear_io [simp]:
  "io_only w (dw_hdma_v0_core_clear_done_int chip c w)" "io_only w (dw_hdma_v0_core_clear_abort_int chip c w)"
  "io_only w (snd (dw_hdma_v0_core_status_int chip c w))"
  by (simp_all add: dw_hdma_v0_core_clear_done_int_def dw_hdma_v0_core_clear_abort_int_def dw_hdma_v0_core_status_int_def
      HSET_CH_32_def HGET_CH_32_def)

lemma hdma_half_steps:
  assumes "does S h" "\<And>c w. io_only w (clear c w)" "j < length cs"
    "(if b then h (cs ! j) (clear (cs ! j) w) else Some (cs ! j, w)) = Some (c, w')"
  shows "chans_star S cs w (cs[j := c]) w'"
proof (cases b)
  case True
  then have "h (cs ! j) (clear (cs ! j) w) = Some (c, w')"
    using assms(4) by simp
  from star_trans [OF star_handler [OF assms(1) this assms(3)] star_io [OF star_refl assms(2)]] show ?thesis .
next
  case False
  then show ?thesis
    using assms(4) star_refl by auto
qed

lemma hdma_round_steps:
  assumes "does S d" "does S a" "j < length cs" "hdma_irq_round chip d a val (cs ! j) w = Some (c, w')"
  shows "chans_star S cs w (cs[j := c]) w'"
proof -
  obtain c1 w1 where 1: "(if FIELD_GET HDMA_V0_STOP_INT_MASK val \<noteq> 0
      then d (cs ! j) (dw_hdma_v0_core_clear_done_int chip (cs ! j) w) else Some (cs ! j, w)) = Some (c1, w1)"
    using assms(4) by (auto simp: hdma_irq_round_def split: option.splits)
  have 2: "(if FIELD_GET HDMA_V0_ABORT_INT_MASK val \<noteq> 0
      then a (cs[j := c1] ! j) (dw_hdma_v0_core_clear_abort_int chip (cs[j := c1] ! j) w1)
      else Some (cs[j := c1] ! j, w1)) = Some (c, w')"
    using assms(3,4) by (simp add: hdma_irq_round_def 1 split: if_splits)
  note s1 = hdma_half_steps [where clear = "dw_hdma_v0_core_clear_done_int chip", OF assms(1) hdma_clear_io(1) assms(3) 1]
  have "j < length (cs[j := c1])"
    using assms(3) by simp
  note s2 = hdma_half_steps [where clear = "dw_hdma_v0_core_clear_abort_int chip", OF assms(2) hdma_clear_io(2) this 2]
  from star_trans [OF s2 s1] show ?thesis
    by simp
qed

lemma hdma_loop_steps:
  assumes "does S d" "does S a" "\<forall>p \<in> set ps. p + off < length chans"
    "hdma_irq_loop chip d a off ps ret chans w = Some (ret', chans', w')"
  shows "chans_star S chans w chans' w'"
  using assms(3,4)
proof (induction ps arbitrary: ret chans w)
  case (Cons p ps)
  obtain val w1 where s: "dw_hdma_v0_core_status_int chip (chans ! (p + off)) w = (val, w1)" by fastforce
  obtain c w2 where r: "hdma_irq_round chip d a val (chans ! (p + off)) w1 = Some (c, w2)"
    using Cons.prems(2) unfolding hdma_irq_loop_Cons [OF s] by (auto split: option.splits)
  have io: "io_only w w1"
    using hdma_clear_io(3) [where chip = chip and c = "chans ! (p + off)" and w = w] by (simp add: s)
  have "chans_star S chans w1 (chans[p + off := c]) w2"
    by (rule hdma_round_steps [OF assms(1,2) _ r]) (use Cons.prems(1) in simp)
  then have "chans_star S chans w (chans[p + off := c]) w2"
    using star_trans [OF _ star_io [OF star_refl io]] by blast
  moreover have "chans_star S (chans[p + off := c]) w2 chans' w'"
    using Cons.prems by (intro Cons.IH) (auto simp: hdma_irq_loop_Cons [OF s] r simp del: hdma_irq_loop.simps)
  ultimately show ?case
    using star_trans by blast
qed (auto intro: star_refl)

interpretation hdma_steps: dma_irq_steps dw_hdma_v0_core_handle_int "\<lambda>_. True"
proof
  fix S and dw :: dw_edma and irq :: dw_edma_irq and dir and d a :: dw_edma_handler and w ret dw' w'
  assume wf: "dw_wf dw" and d: "does S d" and a: "does S a"
    and H: "dw_hdma_v0_core_handle_int dw irq dir d a w = Some (ret, dw', w')"
  obtain n off m where nom: "(n, off, m) =
      (if dir = EDMA_DIR_WRITE then (unat (wr_ch_cnt dw), 0, wr_mask irq)
       else (unat (rd_ch_cnt dw), unat (wr_ch_cnt dw), rd_mask irq))"
    by (cases "dir = EDMA_DIR_WRITE") auto
  have pos: "\<forall>p \<in> set (set_bits_below m n). p + off < length (dw_chan dw)"
    using set_bits_below_position(2) [OF _ nom wf] by blast
  have "\<exists>r chans. hdma_irq_loop (dw_chip dw) d a off (set_bits_below m n) False (dw_chan dw) w = Some (r, chans, w') \<and>
      dw' = dw\<lparr>dw_chan := chans\<rparr>"
    using H unfolding dw_hdma_v0_core_handle_int_def nom [symmetric] by (auto split: option.splits prod.splits)
  then obtain r where "hdma_irq_loop (dw_chip dw) d a off (set_bits_below m n) False (dw_chan dw) w = Some (r, dw_chan dw', w')"
    by auto
  from hdma_loop_steps [OF d a pos this] show "chans_star S (dw_chan dw) w (dw_chan dw') w'" .
qed

interpretation core_steps: dma_irq_steps dw_edma_core_handle_int "\<lambda>dw. dw_core dw \<noteq> CORE_NONE"
proof
  fix S and dw :: dw_edma and irq :: dw_edma_irq and dir and d a :: dw_edma_handler and w ret dw' w'
  assume "dw_core dw \<noteq> CORE_NONE" "dw_wf dw" "does S d" "does S a"
    "dw_edma_core_handle_int dw irq dir d a w = Some (ret, dw', w')"
  then show "chans_star S (dw_chan dw) w (dw_chan dw') w'"
    using v0_steps.handle_steps [OF _ \<open>dw_wf dw\<close> \<open>does S d\<close> \<open>does S a\<close>]
      hdma_steps.handle_steps [OF _ \<open>dw_wf dw\<close> \<open>does S d\<close> \<open>does S a\<close>]
    by (cases "dw_core dw") (simp_all add: dw_edma_core_handle_int_def)
qed

text \<open>Preparation changes only the lists of the channel.\<close>

lemma transfer_frame:
  assumes "heap_ok w" "0 < ll_max c" "dw_edma_device_transfer k chip c xfer w = (r, c', w')"
  shows "\<exists>vc. c' = c\<lparr>chan_vc := vc\<rparr>"
proof (cases r)
  case None
  have "c' = c\<lparr>chan_vc := chan_vc c\<rparr>"
    using device_transfer_cases [OF assms, THEN conjunct2, THEN conjunct1] unfolding None option.case by simp
  then show ?thesis by (rule exI)
next
  case (Some a)
  show ?thesis
    using device_transfer_cases [OF assms, THEN conjunct2, THEN conjunct1] unfolding Some option.case
    by (elim exE conjE) (rule exI, assumption)
qed

subsection \<open>Runs of the device\<close>

text \<open>The three interrupt handlers the probe may install.\<close>

definition irq_entry :: "irq_handler \<Rightarrow> dw_edma \<Rightarrow> dw_edma_irq \<Rightarrow> world \<Rightarrow> (bool \<times> dw_edma \<times> world) option" where
  "irq_entry h = (case h of IRQ_COMMON \<Rightarrow> dw_edma_interrupt_common | IRQ_WRITE \<Rightarrow> dw_edma_interrupt_write
     | IRQ_READ \<Rightarrow> dw_edma_interrupt_read)"

inductive dev_reach ::
  "kapi \<Rightarrow> (dw_edma_desc \<Rightarrow> dw_edma_desc virt_dma_chan \<Rightarrow> dw_edma_desc virt_dma_chan) \<Rightarrow>
   dw_edma \<Rightarrow> world \<Rightarrow> dw_edma \<Rightarrow> world \<Rightarrow> bool"
  for k submit dw0 w0 where
  dev_init: "dev_reach k submit dw0 w0 dw0 w0"
| dev_chan: "dev_reach k submit dw0 w0 dw w \<Longrightarrow> j < length (dw_chan dw) \<Longrightarrow>
    chan_step k submit dw (dw_chan dw ! j) w c w' \<Longrightarrow>
    dev_reach k submit dw0 w0 (dw\<lparr>dw_chan := (dw_chan dw)[j := c]\<rparr>) w'"
| dev_irq: "dev_reach k submit dw0 w0 dw w \<Longrightarrow> irq_entry h dw irq w = Some (ret, dw', w') \<Longrightarrow>
    dev_reach k submit dw0 w0 dw' w'"

subsection \<open>The shape of a device and the memory of its channels\<close>

definition dev_addrs :: "dw_edma_chan list \<Rightarrow> nat list" where
  "dev_addrs cs = concat (map chan_addrs cs)"

definition chans_inv :: "world \<Rightarrow> dw_edma_chan list \<Rightarrow> world \<Rightarrow> bool" where
  "chans_inv w0 cs w \<longleftrightarrow> (\<forall>c \<in> set cs. chan_ok c \<and> 0 < ll_max c) \<and> own w0 (dev_addrs cs) w"

text \<open>What no operation changes of a channel.\<close>

definition ident :: "dw_edma_chan \<Rightarrow> nat \<times> dw_edma_dir \<times> u32 \<times> msi_msg \<times> dw_edma_region" where
  "ident c = (ch_id c, ch_dir c, ll_max c, ch_msi c, ch_private c)"

text \<open>Owning one part: what the rest owns belongs to the world before.\<close>

lemma own_part:
  assumes "own w0 (xs @ ys) w"
  defines "wm \<equiv> w\<lparr>live := filter (\<lambda>a. a \<notin> set xs) (live w)\<rparr>"
  shows "own w0 ys wm" "own wm xs w"
proof -
  have o: "distinct (xs @ ys)" "set (xs @ ys) \<subseteq> set (live w)" "set (xs @ ys) \<inter> set (live w0) = {}"
    "filter (\<lambda>a. a \<notin> set (xs @ ys)) (live w) = live w0" "heap_ok w" "mem_fault w = mem_fault w0"
    using assms(1) unfolding own_def by blast+
  have f: "filter (\<lambda>a. a \<notin> set ys) (filter (\<lambda>a. a \<notin> set xs) (live w)) = live w0"
    unfolding o(4) [symmetric] filter_filter by (intro filter_cong) auto
  have h: "heap_ok wm"
    using o(5) by (simp add: heap_ok_def wm_def)
  show "own w0 ys wm"
    using o f h unfolding own_def wm_def by auto
  show "own wm xs w"
    using o unfolding own_def wm_def by auto
qed

lemma chan_step_frame:
  assumes "chan_step k submit dw c w c' w'" "submit_ok submit" "dw_core dw \<noteq> CORE_NONE"
    "own w0 (chan_addrs c @ rest) w" "chan_ok c" "0 < ll_max c"
  shows "own w0 (chan_addrs c' @ rest) w' \<and> chan_ok c' \<and> 0 < ll_max c'"
proof -
  note part = own_part [OF assms(4)]
  have "chan_inv (w\<lparr>live := filter (\<lambda>a. a \<notin> set (chan_addrs c)) (live w)\<rparr>) c w"
    using part(2) assms(5,6) by (simp add: chan_inv_def)
  from chan_step_inv [OF assms(1-3) this]
  have c': "own (w\<lparr>live := filter (\<lambda>a. a \<notin> set (chan_addrs c)) (live w)\<rparr>) (chan_addrs c') w'" "chan_ok c'" "0 < ll_max c'"
    by (auto simp: chan_inv_def)
  have "own w0 (rest @ chan_addrs c') w'"
    by (rule own_trans [OF part(1) c'(1)])
  then have "own w0 (chan_addrs c' @ rest) w'"
    by (rule own_perm) simp
  then show ?thesis
    using c' by blast
qed

lemma dev_addrs_update:
  assumes "j < length cs"
  shows "mset (dev_addrs (cs[j := c])) = mset (chan_addrs c @ dev_addrs (take j cs @ drop (Suc j) cs))"
  using assms by (simp add: dev_addrs_def upd_conv_take_nth_drop)

lemma chans_inv_step:
  assumes "chans_inv w0 cs w" "j < length cs" "chan_step k submit dw (cs ! j) w c w'" "submit_ok submit"
    "dw_core dw \<noteq> CORE_NONE"
  shows "chans_inv w0 (cs[j := c]) w'"
proof -
  have old: "own w0 (dev_addrs cs) w" "\<forall>c \<in> set cs. chan_ok c \<and> 0 < ll_max c"
    using assms(1) by (auto simp: chans_inv_def)
  let ?rest = "dev_addrs (take j cs @ drop (Suc j) cs)"
  have "own w0 (chan_addrs (cs ! j) @ ?rest) w"
    using old(1) by (rule own_perm) (use dev_addrs_update [OF assms(2), of "cs ! j"] in simp)
  then have new: "own w0 (chan_addrs c @ ?rest) w'" "chan_ok c \<and> 0 < ll_max c"
    using chan_step_frame [OF assms(3-5)] old(2) assms(2) by auto
  have "own w0 (dev_addrs (cs[j := c])) w'"
    using new(1) by (rule own_perm) (use dev_addrs_update [OF assms(2), of c] in simp)
  then show ?thesis
    using old(2) new(2) set_update_subset_insert [of cs j c] by (auto simp: chans_inv_def)
qed

lemma chans_inv_star:
  assumes "chans_star (chan_step k submit dw) cs w cs' w'" "submit_ok submit" "dw_core dw \<noteq> CORE_NONE" "chans_inv w0 cs w"
  shows "chans_inv w0 cs' w'"
  using assms(1,4)
proof induction
  case (star_io cs w cs' w' w'')
  then show ?case
    unfolding chans_inv_def using own_io [OF _ star_io(2)] by simp
next
  case (star_chan cs w cs' w' j c w'')
  show ?case
    by (rule chans_inv_step [OF star_chan.IH [OF star_chan.prems] star_chan.hyps(2,3) assms(2,3)])
qed

lemma handlers_do: "does (chan_step k submit dw) (dw_edma_done_interrupt dw)" "does (chan_step k submit dw) dw_edma_abort_interrupt"
  by (simp_all add: does_def chan_step.done_irq chan_step.abort_irq)

text \<open>The step of a channel reads only the chip and the engine of the device.\<close>

lemma done_interrupt_cong:
  assumes "dw_chip dw = dw_chip dw'" "dw_core dw = dw_core dw'"
  shows "dw_edma_done_interrupt dw = dw_edma_done_interrupt dw'"
proof -
  have 1: "dw_edma_core_start dw = dw_edma_core_start dw'"
    by (intro ext, unfold dw_edma_core_start_def assms, rule refl)
  have 2: "dw_edma_start_transfer dw = dw_edma_start_transfer dw'"
    by (intro ext, unfold dw_edma_start_transfer_def 1, rule refl)
  show ?thesis
    by (intro ext, unfold dw_edma_done_interrupt_def 2, rule refl)
qed

lemma handlers_do_any: "does (chan_step k submit dw) (dw_edma_done_interrupt (dw\<lparr>dw_chan := cs\<rparr>))"
  using handlers_do(1) [of k submit dw] done_interrupt_cong [of "dw\<lparr>dw_chan := cs\<rparr>" dw] by simp

lemma irq_entry_steps:
  assumes "irq_entry h dw irq w = Some (ret, dw', w')" "dw_core dw \<noteq> CORE_NONE" "dw_wf dw"
  shows "chans_star (chan_step k submit dw) (dw_chan dw) w (dw_chan dw') w' \<and> dw' = dw\<lparr>dw_chan := dw_chan dw'\<rparr>"
proof -
  have one: "chans_star (chan_step k submit dw) (dw_chan dw) w (dw_chan dw1) w1 \<and> dw1 = dw\<lparr>dw_chan := dw_chan dw1\<rparr>"
    if "dw_edma_core_handle_int dw irq dir (dw_edma_done_interrupt dw) dw_edma_abort_interrupt w = Some (r, dw1, w1)" for dir r dw1 w1
    using core_steps.handle_steps [OF assms(2,3) handlers_do that] core_irq.handle_only [OF that] by blast
  show ?thesis
  proof (cases h)
    case IRQ_COMMON
    obtain r1 dw1 w1 where 1: "dw_edma_interrupt_write dw irq w = Some (r1, dw1, w1)"
      using assms(1) IRQ_COMMON by (auto simp: irq_entry_def dw_edma_interrupt_common_def split: option.splits)
    obtain r2 where 2: "dw_edma_interrupt_read dw1 irq w1 = Some (r2, dw', w')"
      using assms(1) IRQ_COMMON 1 by (auto simp: irq_entry_def dw_edma_interrupt_common_def split: option.splits prod.splits)
    note s1 = one [OF 1 [unfolded dw_edma_interrupt_write_def]]
    have eq: "dw1 = dw\<lparr>dw_chan := dw_chan dw1\<rparr>"
      using s1 by blast
    note H2 = 2 [unfolded dw_edma_interrupt_read_def]
    have "dw_core dw1 \<noteq> CORE_NONE" "dw_wf dw1"
      using core_irq.handle_counts [OF 1 [unfolded dw_edma_interrupt_write_def]] assms(2,3) by simp_all
    moreover have "does (chan_step k submit dw) (dw_edma_done_interrupt dw1)"
      by (subst eq) (rule handlers_do_any)
    ultimately have "chans_star (chan_step k submit dw) (dw_chan dw1) w1 (dw_chan dw') w'"
      using core_steps.handle_steps [OF _ _ _ handlers_do(2) H2] by blast
    moreover have "dw' = dw\<lparr>dw_chan := dw_chan dw'\<rparr>"
      using core_irq.handle_only [OF H2, THEN conjunct1] by (subst (asm) eq) simp
    ultimately show ?thesis
      using s1 star_trans by blast
  next
    case IRQ_WRITE
    then show ?thesis
      using assms(1) one by (simp add: irq_entry_def dw_edma_interrupt_write_def)
  next
    case IRQ_READ
    then show ?thesis
      using assms(1) one by (simp add: irq_entry_def dw_edma_interrupt_read_def)
  qed
qed

text \<open>No step changes what identifies a channel.\<close>

lemma start_transfer_ident: "dw_edma_start_transfer dw c w = (r, c', w') \<Longrightarrow> ident c' = ident c"
  by (auto simp: dw_edma_start_transfer_def ident_def set_issued_def Let_def split: option.splits list.splits prod.splits)

lemma complete_head_ident: "complete_head d c = Some c' \<Longrightarrow> ident c' = ident c"
  by (auto simp: complete_head_def ident_def)

lemma ident_simps [simp]:
  "ident (c\<lparr>chan_vc := vc\<rparr>) = ident c" "ident (c\<lparr>ch_st := s\<rparr>) = ident c" "ident (c\<lparr>ch_request := q\<rparr>) = ident c"
  "ident (c\<lparr>configured := b\<rparr>) = ident c" "ident (c\<lparr>ch_config := g\<rparr>) = ident c"
  by (simp_all add: ident_def)

lemma done_interrupt_ident: "dw_edma_done_interrupt dw c w = Some (c', w') \<Longrightarrow> ident c' = ident c"
  by (auto simp: dw_edma_done_interrupt_def split: option.splits dw_edma_request.splits prod.splits if_splits
      dest!: start_transfer_ident complete_head_ident)

lemma chan_step_ident:
  assumes "chan_step k submit dw c w c' w'" "heap_ok w" "0 < ll_max c"
  shows "ident c' = ident c"
  using assms(1)
proof cases
  case (prep xfer r)
  have "\<exists>vc. c' = c\<lparr>chan_vc := vc\<rparr>"
    using transfer_frame [OF assms(2,3) prep(2)] .
  then show ?thesis
    by (elim exE) simp
next
  case issue
  then show ?thesis
    by (auto simp: dw_edma_device_issue_pending_def Let_def split: if_splits prod.splits dest!: start_transfer_ident)
next
  case (resume r)
  then show ?thesis
    by (auto simp: dw_edma_device_resume_def Let_def split: if_splits prod.splits dest!: start_transfer_ident)
next
  case (terminate r)
  then show ?thesis
    by (auto simp: dw_edma_device_terminate_all_def Let_def split: if_splits prod.splits)
next
  case done_irq
  then show ?thesis using done_interrupt_ident by blast
next
  case abort_irq
  then show ?thesis
    by (auto simp: dw_edma_abort_interrupt_def split: option.splits dest!: complete_head_ident)
qed (auto simp: dw_edma_device_config_def dw_edma_device_pause_def split: if_splits)

lemma star_ident:
  assumes "chans_star (chan_step k submit dw) cs w cs' w'" "submit_ok submit" "dw_core dw \<noteq> CORE_NONE" "chans_inv w0 cs w"
  shows "map ident cs' = map ident cs"
  using assms(1,4)
proof induction
  case (star_chan cs w cs' w' j c w'')
  have "chans_inv w0 cs' w'"
    by (rule chans_inv_star [OF star_chan.hyps(1) assms(2,3) star_chan.prems])
  then have "heap_ok w'" "0 < ll_max (cs' ! j)"
    using star_chan.hyps(2) by (auto simp: chans_inv_def own_def)
  from chan_step_ident [OF star_chan.hyps(3) this] have "ident c = ident (cs' ! j)" .
  then have "map ident (cs'[j := c]) = map ident cs'"
    using star_chan.hyps(2) by (metis list_update_id map_update)
  then show ?case
    using star_chan.IH [OF star_chan.prems] by simp
qed auto

text \<open>A device in order: channels with room for their lists, nothing on them, one per counted channel.\<close>

definition dev_fresh :: "dw_edma \<Rightarrow> bool" where
  "dev_fresh dw \<longleftrightarrow> dw_core dw \<noteq> CORE_NONE \<and> dw_wf dw \<and> (\<forall>c \<in> set (dw_chan dw). vchan_descs (chan_vc c) = [] \<and> 0 < ll_max c)"

lemma fresh_inv: "dev_fresh dw \<Longrightarrow> heap_ok w \<Longrightarrow> chans_inv w (dw_chan dw) w"
proof -
  assume dw: "dev_fresh dw" and w: "heap_ok w"
  have "\<forall>c \<in> set (dw_chan dw). chan_addrs c = []"
    using dw by (simp add: dev_fresh_def chan_addrs_def)
  then have "dev_addrs (dw_chan dw) = []"
    by (simp add: dev_addrs_def)
  moreover have "chan_ok c \<and> 0 < ll_max c" if "c \<in> set (dw_chan dw)" for c
    using dw that by (simp add: dev_fresh_def chan_ok_def vchan_descs_def)
  ultimately show ?thesis
    using own_refl [OF w] by (simp add: chans_inv_def)
qed

lemma dev_step_all:
  assumes "dev_reach k submit dw0 w0 dw w" "submit_ok submit" "dev_fresh dw0" "heap_ok w0"
  shows "chans_inv w0 (dw_chan dw) w \<and> dw = dw0\<lparr>dw_chan := dw_chan dw\<rparr> \<and> map ident (dw_chan dw) = map ident (dw_chan dw0)"
  using assms(1)
proof induction
  case dev_init
  then show ?case
    using fresh_inv [OF assms(3,4)] by simp
next
  case (dev_chan dw w j c w')
  have inv: "chans_inv w0 (dw_chan dw) w" and eq: "dw = dw0\<lparr>dw_chan := dw_chan dw\<rparr>"
    and id: "map ident (dw_chan dw) = map ident (dw_chan dw0)"
    using dev_chan.IH by blast+
  have core: "dw_core dw \<noteq> CORE_NONE"
    using assms(3) by (subst eq) (simp add: dev_fresh_def)
  have st: "chans_star (chan_step k submit dw) (dw_chan dw) w ((dw_chan dw)[j := c]) w'"
    by (rule chans_star.star_chan [where S = "chan_step k submit dw" and cs' = "dw_chan dw", OF star_refl dev_chan.hyps(2,3)])
  show ?case
    using chans_inv_star [OF st assms(2) core inv] star_ident [OF st assms(2) core inv] id
    by (simp, subst (2) eq, simp)
next
  case (dev_irq dw w h irq ret dw' w')
  have inv: "chans_inv w0 (dw_chan dw) w" and eq: "dw = dw0\<lparr>dw_chan := dw_chan dw\<rparr>"
    and id: "map ident (dw_chan dw) = map ident (dw_chan dw0)"
    using dev_irq.IH by blast+
  have core: "dw_core dw \<noteq> CORE_NONE"
    using assms(3) by (subst eq) (simp add: dev_fresh_def)
  have "wr_ch_cnt dw = wr_ch_cnt dw0" "rd_ch_cnt dw = rd_ch_cnt dw0"
    by (subst eq, simp)+
  then have wf: "dw_wf dw"
    using assms(3) arg_cong [OF id, of length] by (simp add: dev_fresh_def dw_wf_def)
  note st = irq_entry_steps [OF dev_irq.hyps(2) core wf, of k submit, THEN conjunct1]
    and eq' = irq_entry_steps [OF dev_irq.hyps(2) core wf, THEN conjunct2]
  have "dw' = dw0\<lparr>dw_chan := dw_chan dw'\<rparr>"
    using eq' by (subst (asm) eq) simp
  then show ?case
    using chans_inv_star [OF st assms(2) core inv] star_ident [OF st assms(2) core inv] id by simp
qed

subsection \<open>The state machine of a channel\<close>

definition state_ok :: "dw_edma_chan \<Rightarrow> bool" where
  "state_ok c \<longleftrightarrow> (ch_st c \<noteq> EDMA_ST_IDLE \<longrightarrow> desc_issued (chan_vc c) \<noteq> []) \<and>
     (ch_st c = EDMA_ST_PAUSE \<longrightarrow> ch_request c = EDMA_REQ_NONE)"

lemma start_states:
  assumes "dw_edma_start_transfer dw c w = (r, c', w')"
  shows "ch_st c' = ch_st c \<and> ch_request c' = ch_request c \<and>
    (desc_issued (chan_vc c') = [] \<longleftrightarrow> desc_issued (chan_vc c) = []) \<and> (r \<longrightarrow> desc_issued (chan_vc c) \<noteq> [])"
  using assms by (auto simp: dw_edma_start_transfer_def vchan_next_desc_def set_issued_def Let_def
      split: option.splits list.splits prod.splits)

lemma complete_head_states: "complete_head d c = Some c' \<Longrightarrow> ch_st c' = ch_st c \<and> ch_request c' = ch_request c"
  by (auto simp: complete_head_def)

lemma done_interrupt_states:
  assumes "dw_edma_done_interrupt dw c w = Some (c', w')" "state_ok c"
  shows "state_ok c'"
proof (cases "desc_issued (chan_vc c)")
  case Nil
  then show ?thesis
    using assms by (simp add: dw_edma_done_interrupt_def vchan_next_desc_def)
next
  case (Cons d ds)
  show ?thesis
  proof (cases "ch_request c")
    case EDMA_REQ_NONE
    then obtain c1 r c2 where 1: "dw_edma_start_transfer dw c1 w = (r, c2, w')"
      "c' = c2\<lparr>ch_st := (if r then EDMA_ST_BUSY else EDMA_ST_IDLE)\<rparr>"
      using assms(1) Cons by (auto simp: dw_edma_done_interrupt_def vchan_next_desc_def Let_def
          split: option.splits prod.splits if_splits)
    show ?thesis
      using start_states [OF 1(1)] by (auto simp: state_ok_def 1(2))
  qed (use assms(1) Cons in \<open>auto simp: dw_edma_done_interrupt_def vchan_next_desc_def state_ok_def split: option.splits\<close>)
qed

lemma chan_step_states:
  assumes "chan_step k submit dw c w c' w'" "submit_ok submit" "state_ok c"
  shows "state_ok c'"
  using assms(1)
proof cases
  case (prep xfer r)
  show ?thesis
    using transfer_quiet [OF prep(2)] assms(3) by (auto simp: state_ok_def vchan_tx_prep_def)
next
  case (submit d)
  then show ?thesis
    using assms(2,3) by (auto simp: submit_ok_def state_ok_def dma_cookie_assign_def Let_def split: prod.splits)
next
  case issue
  then show ?thesis
    using assms(3) by (auto simp: dw_edma_device_issue_pending_def vchan_issue_pending_def state_ok_def Let_def
        split: if_splits prod.splits dest!: start_states)
next
  case (resume r)
  then show ?thesis
    using assms(3) by (auto simp: dw_edma_device_resume_def state_ok_def Let_def split: if_splits prod.splits dest!: start_states)
next
  case (terminate r)
  then show ?thesis
    using assms(3) by (auto simp: dw_edma_device_terminate_all_def state_ok_def Let_def split: if_splits prod.splits)
next
  case done_irq
  then show ?thesis using done_interrupt_states assms(3) by blast
next
  case abort_irq
  then show ?thesis
    by (auto simp: dw_edma_abort_interrupt_def state_ok_def split: option.splits)
qed (use assms(3) in \<open>auto simp: dw_edma_device_config_def dw_edma_device_pause_def state_ok_def split: if_splits\<close>)

lemma star_keeps:
  assumes "chans_star S cs w cs' w'" "\<forall>c \<in> set cs. P c" "\<And>c w c' w'. S c w c' w' \<Longrightarrow> P c \<Longrightarrow> P c'"
  shows "\<forall>c \<in> set cs'. P c"
  using assms(1,2)
proof induction
  case (star_chan cs w cs' w' j c w'')
  then have "P c"
    using assms(3) [OF star_chan.hyps(3)] by simp
  then show ?case
    using star_chan.IH [OF star_chan.prems] set_update_subset_insert [of cs' j c] by blast
qed auto

lemma paused_resumes:
  "state_ok c \<Longrightarrow> ch_st c = EDMA_ST_PAUSE \<Longrightarrow> configured c \<Longrightarrow>
   \<exists>c' v'. dw_edma_device_resume dw c v = (0, c', v') \<and> ch_st c' = EDMA_ST_BUSY"
  using start_states [of dw "c\<lparr>ch_st := EDMA_ST_BUSY\<rparr>" v]
  by (cases "dw_edma_start_transfer dw (c\<lparr>ch_st := EDMA_ST_BUSY\<rparr>) v")
    (auto simp: dw_edma_device_resume_def state_ok_def)

lemma dev_states:
  assumes "dev_reach k submit dw0 w0 dw w" "submit_ok submit" "dev_fresh dw0" "heap_ok w0"
    "\<forall>c \<in> set (dw_chan dw0). ch_st c = EDMA_ST_IDLE"
  shows "\<forall>c \<in> set (dw_chan dw). state_ok c"
  using assms(1)
proof induction
  case dev_init
  then show ?case
    using assms(5) by (simp add: state_ok_def)
next
  case (dev_chan dw w j c w')
  have "state_ok c"
    using chan_step_states [OF dev_chan.hyps(3) assms(2)] dev_chan.IH dev_chan.hyps(2) by simp
  then show ?case
    using dev_chan.IH set_update_subset_insert [of "dw_chan dw" j c] by auto
next
  case (dev_irq dw w h irq ret dw' w')
  note all = dev_step_all [OF dev_irq.hyps(1) assms(2-4)]
  have eq: "dw = dw0\<lparr>dw_chan := dw_chan dw\<rparr>" and len: "length (dw_chan dw) = length (dw_chan dw0)"
    using all map_eq_imp_length_eq by blast+
  have "dw_core dw \<noteq> CORE_NONE" "wr_ch_cnt dw = wr_ch_cnt dw0" "rd_ch_cnt dw = rd_ch_cnt dw0"
    using assms(3) by (subst eq, simp add: dev_fresh_def)+
  then have "chans_star (chan_step k submit dw) (dw_chan dw) w (dw_chan dw') w'"
    using irq_entry_steps [OF dev_irq.hyps(2)] assms(3) len by (simp add: dev_fresh_def dw_wf_def)
  from star_keeps [OF this dev_irq.IH] show ?case
    using chan_step_states [OF _ assms(2)] by blast
qed

lemma irq_entry_returns:
  assumes "dw_core dw \<noteq> CORE_NONE" "dw_wf dw" "\<forall>c \<in> set (dw_chan dw). chan_ok c"
  shows "irq_entry h dw irq w \<noteq> None"
  using core_irq.handle_both_keeps [OF assms handlers_keep, where irq = irq and w = w]
    core_irq.handle_keeps [OF assms handlers_keep, where irq = irq and w = w] interrupt_common_eq [of dw irq w]
  by (cases h) (fastforce simp: irq_entry_def dw_edma_interrupt_write_def dw_edma_interrupt_read_def)+

subsection \<open>Properties\<close>

text \<open>Under any interleaving of client calls on all channels and interrupts on all lines the driver never
  frees twice, never touches a freed list and never leaks: the live allocations are those from before
  and, each exactly once, those of the descriptors on the channels' lists; and no interrupt hits a
  kernel bug.\<close>

theorem device_memory_safe:
  assumes "dev_reach k submit dw0 w0 dw w" "submit_ok submit" "dev_fresh dw0" "heap_ok w0"
  shows "mem_fault w = mem_fault w0 \<and> distinct (dev_addrs (dw_chan dw)) \<and> set (dev_addrs (dw_chan dw)) \<subseteq> set (live w) \<and>
    filter (\<lambda>a. a \<notin> set (dev_addrs (dw_chan dw))) (live w) = live w0 \<and>
    (\<forall>h irq. irq_entry h dw irq w \<noteq> None)"
proof -
  note all = dev_step_all [OF assms]
  have inv: "chans_inv w0 (dw_chan dw) w" and eq: "dw = dw0\<lparr>dw_chan := dw_chan dw\<rparr>"
    and len: "length (dw_chan dw) = length (dw_chan dw0)"
    using all map_eq_imp_length_eq by blast+
  have "dw_core dw \<noteq> CORE_NONE" "wr_ch_cnt dw = wr_ch_cnt dw0" "rd_ch_cnt dw = rd_ch_cnt dw0"
    using assms(3) by (subst eq, simp add: dev_fresh_def)+
  then have "\<forall>h irq. irq_entry h dw irq w \<noteq> None"
    using irq_entry_returns [of dw] assms(3) len inv by (simp add: dev_fresh_def dw_wf_def chans_inv_def)
  then show ?thesis
    using inv ownD [of w0 "dev_addrs (dw_chan dw)" w] by (simp add: chans_inv_def)
qed


subsection \<open>The properties on the sample device\<close>

lemma ex_dw_fresh: "dev_fresh ex_dw"
  by (auto simp: dev_fresh_def ex_dw_def dw_wf_def vchan_descs_def ex_vc_def)

text \<open>A request is prepared on the second channel, then the interrupt comes.\<close>

lemma ex_dev_reach:
  obtains dw w where "dev_reach ex_kapi ex_submit ex_dw ex_world dw w"
    "\<exists>ret dw1 w1. dev_reach ex_kapi ex_submit ex_dw ex_world dw1 w1 \<and> irq_entry IRQ_COMMON dw1 ex_irq w1 = Some (ret, dw, w)"
proof -
  obtain r c w1 where p: "ex_prep = (r, c, w1)"
    by (metis prod_cases3)
  have j: "1 < length (dw_chan ex_dw)" "dw_chan ex_dw ! 1 = ex_chan EDMA_DIR_WRITE 1"
    by (simp_all add: ex_dw_def)
  have "unat (transfer_cnt (x_xfer ex_xfer)) < 2 ^ 31"
    by (simp add: ex_xfer_def transfer_cnt_def)
  then have "chan_step ex_kapi ex_submit ex_dw (dw_chan ex_dw ! 1) ex_world c w1"
    by (rule chan_step.prep [where r = r]) (use p j in \<open>simp add: ex_prep_def\<close>)
  note 1 = dev_chan [OF dev_init j(1) this]
  let ?dw = "ex_dw\<lparr>dw_chan := (dw_chan ex_dw)[1 := c]\<rparr>"
  have "irq_entry IRQ_COMMON ?dw ex_irq w1 \<noteq> None"
    using device_memory_safe [OF 1 ex_submit_ok ex_dw_fresh ex_heap_ok(1)] by blast
  then obtain ret dw w where "irq_entry IRQ_COMMON ?dw ex_irq w1 = Some (ret, dw, w)"
    by auto
  with dev_irq [OF 1 this] 1 show thesis
    by (intro that) blast+
qed


end
