(* ===== verification/Board_Safe.thy ===== *)
theory Board_Safe
  imports Akida_Board Device
begin

section \<open>From the probe of a board to every run of its channels\<close>

text \<open>
  The composition of the two drivers: the device a successful \<open>akida_probe\<close> leaves is one the runs of
  \<open>Device\<close> start from.
\<close>

lemma board_dev_fresh:
  assumes "board_ok (board_chip plat b) akida" "akida_board_ops b \<noteq> None" "heap_ok w"
  shows "dev_fresh (the (chip_dw akida))"
proof -
  obtain dw where dw: "chip_dw akida = Some dw" "probed (board_chip plat b) dw"
    using assms(1) by (auto simp: board_ok_def)
  note ch = fresh_channel [OF dw(2) assms(2) _ assms(3)]
  show ?thesis
    using dw ch(2,3) by (simp add: dev_fresh_def probed_def idle_def)
qed

text \<open>C3: From the probe of a board on, under any interleaving of client calls on all channels and interrupts
  on all lines, the driver never frees twice, never touches a freed list and never leaks: the live
  allocations are those from before the probe and, each exactly once, those of the descriptors on the
  channels' lists. No interrupt, on whichever handler, hits a kernel bug.\<close>

theorem board_memory_safe:
  assumes "akida_probe plat b w = Some (0, Some akida, w0)" "vec_stable f w" "vchan_init_ok (plat_os plat)" "heap_ok w"
    "submit_ok submit" "dev_reach k submit (the (chip_dw akida)) w0 dw v"
  shows "mem_fault v = mem_fault w \<and> distinct (dev_addrs (dw_chan dw)) \<and> set (dev_addrs (dw_chan dw)) \<subseteq> set (live v) \<and>
    filter (\<lambda>a. a \<notin> set (dev_addrs (dw_chan dw))) (live v) = live w \<and> (\<forall>h irq. irq_entry h dw irq v \<noteq> None)"
proof -
  have p: "board_ok (board_chip plat b) akida" "moves {#} w (board_holds f akida + {#}) w0"
    using akida_probe_result [OF assms(2,3), of b "{#}"] by (simp_all add: assms(1) probe_result_def)
  have same: "live w0 = live w" "mem_fault w0 = mem_fault w" "heap_ok w0"
    using io_only_frame(5,6,7) [OF moves_io [OF p(2)]] assms(4) by (simp_all add: heap_ok_def)
  have "dev_fresh (the (chip_dw akida))"
    by (rule board_dev_fresh [OF p(1) probe_board [OF assms(1)] same(3)])
  from device_memory_safe [OF assms(6,5) this same(3)] show ?thesis
    by (simp add: same)
qed

theorem board_memory_safe_witness:
  "\<exists>akida w0. akida_probe ex_plat AKIDA_1000 ex_aworld = Some (0, Some akida, w0) \<and> mem_fault w0 = False \<and>
     (\<forall>h irq. irq_entry h (the (chip_dw akida)) irq w0 \<noteq> None)"
proof -
  obtain akida w0 where r: "akida_probe ex_plat AKIDA_1000 ex_aworld = Some (0, Some akida, w0)"
    by (rule ex_board_run)
  have f: "mem_fault ex_aworld = False"
    by (simp add: ex_aworld_def ex_world_def)
  from board_memory_safe [OF r ex_like_ok(1) [OF ex_aworld_ok(1)] ex_aworld_ok(2,3) ex_submit_ok dev_init] r f
  show ?thesis
    by blast
qed

end
