(* ===== verification/Chan_Fifo.thy ===== *)
theory Chan_Fifo
  imports Chan_Life
begin

section \<open>A channel is a queue of requests\<close>

text \<open>
  What a client may rely on, without linked lists, memory or registers: a queue of jobs, each a cookie
  and the sizes of the chunks it has left to start. \<open>fifo_exec\<close> is this abstract service, \<open>chan_abs\<close>
  forgets the rest of a channel, and \<open>chan_run\<close> records which operation each step of the channel was.
  Every run of the driver's channel is the run of the service on the same operations.
\<close>

subsection \<open>The abstract service\<close>

type_synonym job = "s32 \<times> u32 list"

record chan_view =
  v_conf :: bool
  v_st :: dw_edma_status
  v_req :: dw_edma_request
  v_cookie :: s32
  v_done :: s32
  waiting :: "job list"
  queue :: "job list"

datatype fifo_op = Configure | Submit "u32 list" | Issue | Pause | Resume | Terminate bool | Done_irq | Abort_irq | Other

definition next_cookie :: "s32 \<Rightarrow> s32" where
  "next_cookie c = (if sint (c + 1) < sint DMA_MIN_COOKIE then DMA_MIN_COOKIE else c + 1)"

definition start_next :: "chan_view \<Rightarrow> bool \<times> chan_view" where
  "start_next v =
     (case queue v of
        (c, s # ss) # js \<Rightarrow> (True, v\<lparr>queue := (c, ss) # js\<rparr>)
      | _ \<Rightarrow> (False, v))"

definition finish_head :: "chan_view \<Rightarrow> chan_view" where
  "finish_head v = v\<lparr>queue := tl (queue v), v_done := fst (hd (queue v))\<rparr>"

text \<open>The new state, the cookies handed out and the cookies completed, in order.\<close>

fun fifo_exec :: "fifo_op \<Rightarrow> chan_view \<Rightarrow> chan_view \<times> s32 list \<times> s32 list" where
  "fifo_exec Configure v = (v\<lparr>v_conf := True\<rparr>, [], [])"
| "fifo_exec (Submit sizes) v =
     (let c = next_cookie (v_cookie v) in (v\<lparr>v_cookie := c, waiting := waiting v @ [(c, sizes)]\<rparr>, [c], []))"
| "fifo_exec Issue v =
     (if \<not> v_conf v then (v, [], [])
      else
        (let v = v\<lparr>queue := queue v @ waiting v, waiting := []\<rparr>
         in (if queue v \<noteq> [] \<and> v_req v = EDMA_REQ_NONE \<and> v_st v = EDMA_ST_IDLE
             then snd (start_next (v\<lparr>v_st := EDMA_ST_BUSY\<rparr>)) else v, [], [])))"
| "fifo_exec Pause v =
     (if v_conf v \<and> v_st v = EDMA_ST_BUSY \<and> v_req v = EDMA_REQ_NONE then v\<lparr>v_req := EDMA_REQ_PAUSE\<rparr> else v, [], [])"
| "fifo_exec Resume v =
     (if v_conf v \<and> v_st v = EDMA_ST_PAUSE \<and> v_req v = EDMA_REQ_NONE
      then snd (start_next (v\<lparr>v_st := EDMA_ST_BUSY\<rparr>)) else v, [], [])"
| "fifo_exec (Terminate hw_done) v =
     (if \<not> v_conf v then v
      else if v_st v = EDMA_ST_BUSY \<and> \<not> hw_done then v\<lparr>v_req := EDMA_REQ_STOP\<rparr>
      else v\<lparr>v_st := EDMA_ST_IDLE, v_conf := False\<rparr>, [], [])"
| "fifo_exec Done_irq v =
     (case queue v of
        [] \<Rightarrow> (v, [], [])
      | (c, ss) # js \<Rightarrow>
          (case v_req v of
             EDMA_REQ_NONE \<Rightarrow>
               (let (started, v) = start_next (if ss = [] then finish_head v else v)
                in (v\<lparr>v_st := (if started then EDMA_ST_BUSY else EDMA_ST_IDLE)\<rparr>, [], if ss = [] then [c] else []))
           | EDMA_REQ_STOP \<Rightarrow> ((finish_head v)\<lparr>v_req := EDMA_REQ_NONE, v_st := EDMA_ST_IDLE\<rparr>, [], [c])
           | EDMA_REQ_PAUSE \<Rightarrow> (v\<lparr>v_req := EDMA_REQ_NONE, v_st := EDMA_ST_PAUSE\<rparr>, [], [])))"
| "fifo_exec Abort_irq v =
     ((if queue v = [] then v else finish_head v)\<lparr>v_req := EDMA_REQ_NONE, v_st := EDMA_ST_IDLE\<rparr>,
      [], map fst (take 1 (queue v)))"
| "fifo_exec Other v = (v, [], [])"

fun fifo_runs :: "fifo_op list \<Rightarrow> chan_view \<Rightarrow> chan_view \<times> s32 list \<times> s32 list" where
  "fifo_runs [] v = (v, [], [])"
| "fifo_runs (x # xs) v =
     (let (v, ss, ds) = fifo_exec x v; (v, ss', ds') = fifo_runs xs v in (v, ss @ ss', ds @ ds'))"

subsection \<open>The channel as a service\<close>

definition job_of :: "dw_edma_desc \<Rightarrow> job" where
  "job_of d = (vd_cookie d, map (\<lambda>ck. ucast (rg_sz (ll_region ck))) (chunks d))"

definition chan_abs :: "dw_edma_chan \<Rightarrow> chan_view" where
  "chan_abs c = \<lparr>v_conf = configured c, v_st = ch_st c, v_req = ch_request c, v_cookie = vc_cookie (chan_vc c),
     v_done = completed_cookie (chan_vc c), waiting = map job_of (desc_submitted (chan_vc c)),
     queue = map job_of (desc_issued (chan_vc c))\<rparr>"

text \<open>The steps of \<open>chan_step\<close>, each with its operation.\<close>

inductive chan_lstep ::
  "kapi \<Rightarrow> (dw_edma_desc \<Rightarrow> dw_edma_desc virt_dma_chan \<Rightarrow> dw_edma_desc virt_dma_chan) \<Rightarrow> dw_edma \<Rightarrow>
   dw_edma_chan \<Rightarrow> world \<Rightarrow> fifo_op \<Rightarrow> dw_edma_chan \<Rightarrow> world \<Rightarrow> bool"
  for k submit dw where
  l_config: "chan_lstep k submit dw c w Configure (snd (dw_edma_device_config cfg c)) w"
| l_prep: "unat (transfer_cnt (x_xfer xfer)) < 2 ^ 31 \<Longrightarrow>
    dw_edma_device_transfer k (dw_chip dw) c xfer w = (r, c', w') \<Longrightarrow> chan_lstep k submit dw c w Other c' w'"
| l_submit: "d \<in> set (desc_allocated (chan_vc c)) \<Longrightarrow>
    chan_lstep k submit dw c w (Submit (snd (job_of d))) (c\<lparr>chan_vc := submit d (chan_vc c)\<rparr>) w"
| l_issue: "dw_edma_device_issue_pending dw c w = (c', w') \<Longrightarrow> chan_lstep k submit dw c w Issue c' w'"
| l_pause: "dw_edma_device_pause c = (r, c') \<Longrightarrow> chan_lstep k submit dw c w Pause c' w"
| l_resume: "dw_edma_device_resume dw c w = (r, c', w') \<Longrightarrow> chan_lstep k submit dw c w Resume c' w'"
| l_terminate: "dw_edma_device_terminate_all dw c w = (r, c', w') \<Longrightarrow>
    chan_lstep k submit dw c w (Terminate (fst (dw_edma_core_ch_status dw c w) = DMA_COMPLETE)) c' w'"
| l_done: "dw_edma_done_interrupt dw c w = Some (c', w') \<Longrightarrow> chan_lstep k submit dw c w Done_irq c' w'"
| l_abort: "dw_edma_abort_interrupt c w = Some (c', w') \<Longrightarrow> chan_lstep k submit dw c w Abort_irq c' w'"
| l_release: "desc_completed (chan_vc c) = d # ds \<Longrightarrow>
    chan_lstep k submit dw c w Other (c\<lparr>chan_vc := (chan_vc c)\<lparr>desc_completed := ds\<rparr>\<rparr>) (vchan_free_desc d w)"
| l_others: "io_only w w' \<Longrightarrow> chan_lstep k submit dw c w Other c w'"

inductive chan_run ::
  "kapi \<Rightarrow> (dw_edma_desc \<Rightarrow> dw_edma_desc virt_dma_chan \<Rightarrow> dw_edma_desc virt_dma_chan) \<Rightarrow> dw_edma \<Rightarrow>
   dw_edma_chan \<Rightarrow> world \<Rightarrow> fifo_op list \<Rightarrow> dw_edma_chan \<Rightarrow> world \<Rightarrow> bool"
  for k submit dw where
  run_nil: "chan_run k submit dw c w [] c w"
| run_cons: "chan_lstep k submit dw c w x c1 w1 \<Longrightarrow> chan_run k submit dw c1 w1 xs c2 w2 \<Longrightarrow>
    chan_run k submit dw c w (x # xs) c2 w2"

lemma chan_lstep_step: "chan_lstep k submit dw c w x c' w' \<Longrightarrow> chan_step k submit dw c w c' w'"
  by (cases rule: chan_lstep.cases, assumption) (auto intro: chan_step.intros)

lemma chan_step_lstep: "chan_step k submit dw c w c' w' \<Longrightarrow> \<exists>x. chan_lstep k submit dw c w x c' w'"
  by (cases rule: chan_step.cases, assumption) (blast intro: chan_lstep.intros)+

subsection \<open>Lemmas: the operations commute with the abstraction\<close>

lemma chan_abs_simps [simp]:
  "chan_abs (c\<lparr>ch_st := s\<rparr>) = (chan_abs c)\<lparr>v_st := s\<rparr>" "chan_abs (c\<lparr>ch_request := r\<rparr>) = (chan_abs c)\<lparr>v_req := r\<rparr>"
  "chan_abs (c\<lparr>configured := b\<rparr>) = (chan_abs c)\<lparr>v_conf := b\<rparr>" "chan_abs (c\<lparr>ch_config := g\<rparr>) = chan_abs c"
  "v_conf (chan_abs c) = configured c" "v_st (chan_abs c) = ch_st c" "v_req (chan_abs c) = ch_request c"
  "queue (chan_abs c) = map job_of (desc_issued (chan_vc c))" "waiting (chan_abs c) = map job_of (desc_submitted (chan_vc c))"
  "v_cookie (chan_abs c) = vc_cookie (chan_vc c)" "v_done (chan_abs c) = completed_cookie (chan_vc c)"
  by (simp_all add: chan_abs_def)

lemma abs_start:
  assumes "chan_ok c" "dw_edma_start_transfer dw c w = (r, c', w')"
  shows "(r, chan_abs c') = start_next (chan_abs c)"
proof (cases "desc_issued (chan_vc c)")
  case Nil
  then show ?thesis
    using assms(2) by (auto simp: start_next_def)
next
  case (Cons d ds)
  have d: "desc_ok d"
    using assms(1) Cons by (simp add: chan_ok_def vchan_descs_def)
  show ?thesis
  proof (cases "chunks d")
    case Nil
    then show ?thesis
      using start_transfer_done [OF Cons _ Nil, of dw w] d assms(2) Cons
      by (auto simp: start_next_def job_of_def desc_ok_def)
  next
    case (Cons ck cks)
    note i = \<open>desc_issued (chan_vc c) = d # ds\<close>
    have c': "c' = set_issued (pop_chunk d # ds) c" "r"
      using start_transfer_next [OF i _ Cons, of dw w] d assms(2) by (auto simp: desc_ok_def)
    have "job_of (pop_chunk d) = (vd_cookie d, map (\<lambda>ck. ucast (rg_sz (ll_region ck))) cks)"
      using desc_ok_pop [OF d Cons] by (simp add: job_of_def) (simp add: pop_chunk_def)
    then show ?thesis
      using i Cons c' by (simp add: start_next_def job_of_def chan_abs_def set_issued_def)
  qed
qed

lemma abs_complete:
  assumes "desc_issued (chan_vc c) = d # ds" "complete_head d c = Some c'"
  shows "chan_abs c' = finish_head (chan_abs c)"
  using assms
  by (auto simp: complete_head_def vchan_cookie_complete_def dma_cookie_complete_def finish_head_def chan_abs_def job_of_def
      split: if_splits)

lemma abs_issue:
  assumes "chan_ok c" "dw_edma_device_issue_pending dw c w = (c', w')"
  shows "fifo_exec Issue (chan_abs c) = (chan_abs c', [], [])"
proof -
  define c1 where "c1 = c\<lparr>chan_vc := snd (vchan_issue_pending (chan_vc c))\<rparr>"
  have a: "(chan_abs c)\<lparr>queue := queue (chan_abs c) @ waiting (chan_abs c), waiting := []\<rparr> = chan_abs c1"
    and f: "configured c1 = configured c" "ch_st c1 = ch_st c" "ch_request c1 = ch_request c"
    by (simp_all add: c1_def chan_abs_def vchan_issue_pending_def Let_def)
  have ok: "chan_ok (c1\<lparr>ch_st := EDMA_ST_BUSY\<rparr>)"
    using assms(1) by (auto simp: c1_def chan_ok_def vchan_descs_def vchan_issue_pending_def Let_def)
  obtain r c2 w2 where s: "dw_edma_start_transfer dw (c1\<lparr>ch_st := EDMA_ST_BUSY\<rparr>) w = (r, c2, w2)"
    by (rule start_transfer_split)
  have st: "start_next (chan_abs c1\<lparr>v_st := EDMA_ST_BUSY\<rparr>) = (r, chan_abs c2)"
    using abs_start [OF ok s] by simp
  have q: "queue (chan_abs c1) = [] \<longleftrightarrow> desc_issued (chan_vc c1) = []"
    by simp
  have p: "fst (vchan_issue_pending (chan_vc c)) \<longleftrightarrow> desc_issued (chan_vc c1) \<noteq> []"
    by (simp add: c1_def vchan_issue_pending_def Let_def)
  have "dw_edma_device_issue_pending dw c w =
      (if \<not> configured c then (c, w)
       else if desc_issued (chan_vc c1) \<noteq> [] \<and> ch_request c = EDMA_REQ_NONE \<and> ch_st c = EDMA_ST_IDLE then (c2, w2)
       else (c1, w))"
    using s f by (simp add: dw_edma_device_issue_pending_def split_beta Let_def p c1_def [symmetric])
  then show ?thesis
    using assms(2) st f q by (auto simp: a Let_def simp del: chan_abs_simps(8,9) split: if_splits)
qed

lemma abs_done:
  assumes "chan_ok c" "dw_edma_done_interrupt dw c w = Some (c', w')"
  shows "fifo_exec Done_irq (chan_abs c) =
    (chan_abs c', [], if desc_issued (chan_vc c) \<noteq> [] \<and> (ch_request c = EDMA_REQ_STOP \<or>
        ch_request c = EDMA_REQ_NONE \<and> chunks (hd (desc_issued (chan_vc c))) = [])
      then [vd_cookie (hd (desc_issued (chan_vc c)))] else [])"
proof (cases "desc_issued (chan_vc c)")
  case Nil
  then show ?thesis
    using assms(2) by (simp add: dw_edma_done_interrupt_def vchan_next_desc_def)
next
  case (Cons d ds)
  have d: "desc_ok d"
    using assms(1) Cons by (simp add: chan_ok_def vchan_descs_def)
  obtain c1 where c1: "complete_head d c = Some c1" "chan_ok c1"
    using complete_head_inv [OF assms(1) Cons] by blast
  have a1: "chan_abs c1 = finish_head (chan_abs c)"
    using abs_complete [OF Cons c1(1)] .
  show ?thesis
  proof (cases "ch_request c")
    case EDMA_REQ_NONE
    define c2 where "c2 = (if chunks d = [] then c1 else c)"
    have c2: "chan_ok c2" "chan_abs c2 = (if chunks d = [] then finish_head (chan_abs c) else chan_abs c)"
      using assms(1) c1(2) a1 by (simp_all add: c2_def)
    obtain r c3 w3 where s: "dw_edma_start_transfer dw c2 w = (r, c3, w3)"
      by (rule start_transfer_split)
    have "c' = c3\<lparr>ch_st := if r then EDMA_ST_BUSY else EDMA_ST_IDLE\<rparr>"
      using assms(2) EDMA_REQ_NONE Cons c1(1) s chunks_alloc_zero [OF d]
      by (simp add: dw_edma_done_interrupt_def vchan_next_desc_def c2_def split: if_splits)
    then show ?thesis
      using EDMA_REQ_NONE Cons abs_start [OF c2(1) s, symmetric] c2(2) by (simp add: job_of_def split: if_splits)
  next
    case EDMA_REQ_STOP
    then show ?thesis
      using assms(2) Cons c1(1) a1 by (auto simp: dw_edma_done_interrupt_def vchan_next_desc_def job_of_def)
  next
    case EDMA_REQ_PAUSE
    then show ?thesis
      using assms(2) Cons by (auto simp: dw_edma_done_interrupt_def vchan_next_desc_def job_of_def)
  qed
qed

lemma abs_abort:
  assumes "chan_ok c" "dw_edma_abort_interrupt c w = Some (c', w')"
  shows "fifo_exec Abort_irq (chan_abs c) = (chan_abs c', [], map vd_cookie (take 1 (desc_issued (chan_vc c))))"
proof (cases "desc_issued (chan_vc c)")
  case Nil
  then show ?thesis
    using assms(2) by (auto simp: dw_edma_abort_interrupt_def vchan_next_desc_def)
next
  case (Cons d ds)
  obtain c1 where c1: "complete_head d c = Some c1"
    using complete_head_inv [OF assms(1) Cons] by blast
  show ?thesis
    using assms(2) Cons c1 abs_complete [OF Cons c1]
    by (auto simp: dw_edma_abort_interrupt_def vchan_next_desc_def job_of_def)
qed

lemma abs_submit:
  assumes "submit_ok submit" "d \<in> set (desc_allocated (chan_vc c))"
  shows "fst (fifo_exec (Submit (snd (job_of d))) (chan_abs c)) = chan_abs (c\<lparr>chan_vc := submit d (chan_vc c)\<rparr>)"
  using assms(1) [unfolded submit_ok_def, rule_format, OF assms(2)]
  by (simp add: dma_cookie_assign_def Let_def chan_abs_def job_of_def next_cookie_def split: if_splits)

lemma abs_terminate:
  assumes "dw_edma_device_terminate_all dw c w = (r, c', w')"
  shows "fst (fifo_exec (Terminate (fst (dw_edma_core_ch_status dw c w) = DMA_COMPLETE)) (chan_abs c)) = chan_abs c'"
proof -
  have "\<not> EDMA_REQ_PAUSE < ch_request c"
    by (simp add: not_less)
  then show ?thesis
    using assms
    by (cases "ch_st c") (auto simp: dw_edma_device_terminate_all_def split_beta Let_def chan_abs_def split: if_splits)
qed

lemma transfer_keeps:
  assumes "dw_edma_device_transfer k chip c xfer w = (r, c', w')" "heap_ok w" "0 < ll_max c"
  shows "chan_abs c' = chan_abs c"
proof -
  have "c' = c \<or> (\<exists>d f. c' = c\<lparr>chan_vc := vchan_tx_prep (chan_vc c) d f\<rparr>)"
  proof (cases r)
    case None
    then show ?thesis
      using device_transfer_cases [OF assms(2,3,1), THEN conjunct2, THEN conjunct1] unfolding None option.case
      by (elim conjE) (rule disjI1)
  next
    case (Some a)
    have "\<exists>d. c' = c\<lparr>chan_vc := vchan_tx_prep (chan_vc c) d (x_flags xfer)\<rparr>"
      using device_transfer_cases [OF assms(2,3,1), THEN conjunct2, THEN conjunct1] unfolding Some option.case
      by (elim exE conjE) (rule exI, assumption)
    then show ?thesis
      by (elim exE) (intro disjI2 exI, assumption)
  qed
  then show ?thesis
    by (elim disjE exE) (simp_all add: chan_abs_def vchan_tx_prep_def)
qed

text \<open>One step of the channel is one operation of the service.\<close>

lemma lstep_refines:
  assumes "chan_lstep k submit dw c w x c' w'" "submit_ok submit" "dw_core dw \<noteq> CORE_NONE" "chan_inv w0 c w"
  shows "fst (fifo_exec x (chan_abs c)) = chan_abs c'"
proof -
  have ok: "chan_ok c" and heap: "heap_ok w" "0 < ll_max c"
    using assms(4) by (auto simp: chan_inv_def own_def)
  show ?thesis
    using assms(1)
  proof cases
    case (l_resume r)
    obtain r2 c2 w2 where s: "dw_edma_start_transfer dw (c\<lparr>ch_st := EDMA_ST_BUSY\<rparr>) w = (r2, c2, w2)"
      by (rule start_transfer_split)
    have "start_next ((chan_abs c)\<lparr>v_st := EDMA_ST_BUSY\<rparr>) = (r2, chan_abs c2)"
      using abs_start [OF _ s] ok by simp
    then show ?thesis
      using l_resume s by (auto simp: dw_edma_device_resume_def split: if_splits)
  next
    case (l_submit d)
    then show ?thesis using abs_submit [OF assms(2)] by simp
  next
    case l_issue
    then show ?thesis using abs_issue [OF ok] by simp
  next
    case (l_terminate r)
    then show ?thesis using abs_terminate by blast
  next
    case l_done
    then show ?thesis using abs_done [OF ok] by simp
  next
    case l_abort
    then show ?thesis using abs_abort [OF ok] by simp
  next
    case (l_prep xfer r)
    then show ?thesis using transfer_keeps heap by simp
  next
    case (l_pause r)
    then show ?thesis by (auto simp: dw_edma_device_pause_def split: if_splits)
  next
    case (l_config cfg)
    then show ?thesis by (simp add: dw_edma_device_config_def)
  next
    case (l_release d ds)
    then show ?thesis by (simp add: chan_abs_def)
  next
    case l_others
    then show ?thesis by simp
  qed
qed

subsection \<open>Lemmas: the service is first in, first out\<close>

definition jobs :: "chan_view \<Rightarrow> s32 list" where
  "jobs v = map fst (queue v @ waiting v)"

lemma jobs_simps [simp]:
  "jobs (v\<lparr>v_st := s\<rparr>) = jobs v" "jobs (v\<lparr>v_req := r\<rparr>) = jobs v" "jobs (v\<lparr>v_conf := b\<rparr>) = jobs v"
  "jobs (snd (start_next v)) = jobs v" "v_done (snd (start_next v)) = v_done v"
  by (auto simp: jobs_def start_next_def split: list.splits prod.splits)

lemma jobs_all:
  "jobs (v\<lparr>queue := queue v @ waiting v, waiting := []\<rparr>) = jobs v"
  "jobs (v\<lparr>queue := queue v @ waiting v, waiting := [], v_st := s\<rparr>) = jobs v"
  "jobs (v\<lparr>v_cookie := c, waiting := waiting v @ [j]\<rparr>) = jobs v @ [fst j]"
  "jobs (v\<lparr>queue := [], waiting := []\<rparr>) = []" "queue v = [] \<Longrightarrow> waiting v = [] \<Longrightarrow> jobs v = []"
  by (simp_all add: jobs_def)

lemma jobs_finish: "queue v \<noteq> [] \<Longrightarrow> jobs v = fst (hd (queue v)) # jobs (finish_head v)"
  by (cases "queue v") (auto simp: jobs_def finish_head_def)

lemma exec_order:
  assumes "fifo_exec x v = (v', ss, ds)"
  shows "jobs v @ ss = ds @ jobs v' \<and> v_done v' = last (v_done v # ds)"
  using assms
proof (cases x)
  case Done_irq
  show ?thesis
  proof (cases "queue v")
    case Nil
    then show ?thesis using assms Done_irq by simp
  next
    case (Cons j js)
    obtain c sizes where j: "j = (c, sizes)" by fastforce
    note h = jobs_finish [of v]
    have d: "v_done (finish_head v) = c"
      using Cons j by (simp add: finish_head_def)
    show ?thesis
    proof (cases "v_req v")
      case EDMA_REQ_NONE
      have "v' = (snd (start_next (if sizes = [] then finish_head v else v)))\<lparr>v_st := v_st v'\<rparr>"
        "ss = []" "ds = (if sizes = [] then [c] else [])"
        using assms Done_irq Cons EDMA_REQ_NONE by (auto simp: j split_beta Let_def)
      then have "jobs v' = jobs (if sizes = [] then finish_head v else v)"
        "v_done v' = v_done (if sizes = [] then finish_head v else v)"
        using jobs_simps chan_view.select_convs by (metis, metis (no_types, lifting) chan_view.ext_inject chan_view.surjective chan_view.update_convs(2) jobs_simps(5))
      then show ?thesis
        using h Cons j d \<open>ss = []\<close> \<open>ds = _\<close> by simp
    next
      case EDMA_REQ_STOP
      then show ?thesis
        using assms Done_irq Cons h d by (auto simp: j)
    next
      case EDMA_REQ_PAUSE
      then show ?thesis
        using assms Done_irq Cons by (auto simp: j)
    qed
  qed
next
  case Abort_irq
  then show ?thesis
    using assms jobs_finish [of v] by (cases "queue v") (auto simp: finish_head_def)
qed (auto simp: jobs_all Let_def split: if_splits)

text \<open>Over a whole run: what was handed out is what was completed, then what is queued, then what waits.\<close>

lemma runs_order:
  "fifo_runs xs v = (v', ss, ds) \<Longrightarrow> jobs v @ ss = ds @ jobs v' \<and> v_done v' = last (v_done v # ds)"
proof (induction xs arbitrary: v v' ss ds)
  case (Cons x xs)
  obtain v1 s1 d1 where 1: "fifo_exec x v = (v1, s1, d1)" by (metis prod_cases3)
  obtain v2 s2 d2 where 2: "fifo_runs xs v1 = (v2, s2, d2)" by (metis prod_cases3)
  have e: "v' = v2" "ss = s1 @ s2" "ds = d1 @ d2"
    using Cons.prems 1 2 by simp_all
  have "jobs v @ ss = d1 @ d2 @ jobs v2"
    using exec_order [OF 1] Cons.IH [OF 2] e(2) by (metis append_assoc)
  then show ?case
    using exec_order [OF 1] Cons.IH [OF 2] e by (cases d2) auto
qed simp

lemma run_refines:
  assumes "chan_run k submit dw c w xs c' w'" "submit_ok submit" "dw_core dw \<noteq> CORE_NONE" "chan_inv w0 c w"
  shows "fst (fifo_runs xs (chan_abs c)) = chan_abs c'"
  using assms(1,4)
proof induction
  case (run_cons c w x c1 w1 xs c2 w2)
  have "fst (fifo_exec x (chan_abs c)) = chan_abs c1"
    using lstep_refines [OF run_cons(1) assms(2,3) run_cons(4)] .
  moreover have "chan_inv w0 c1 w1"
    using chan_step_inv [OF chan_lstep_step [OF run_cons(1)] assms(2,3) run_cons(4)] .
  ultimately show ?case
    using run_cons.IH by (auto simp: split_beta Let_def)
qed simp

subsection \<open>Properties\<close>

text \<open>C4: Every run of a channel, whatever the order of client calls, interrupts and completions, is the run of
  the abstract queue on the same operations. The cookies handed out are the completed ones followed by
  the queued and the waiting ones, in order: requests complete first in, first out, each once, none is
  lost; and the last completed cookie is what the channel reports.\<close>

theorem channel_refines_fifo:
  assumes "chan_run k submit dw c0 w0 ops c w" "submit_ok submit" "dw_core dw \<noteq> CORE_NONE"
    "vchan_descs (chan_vc c0) = []" "heap_ok w0" "0 < ll_max c0" "fifo_runs ops (chan_abs c0) = (v, handed, completions)"
  shows "chan_abs c = v \<and> handed = completions @ map fst (queue v) @ map fst (waiting v) \<and>
    completed_cookie (chan_vc c) = last (completed_cookie (chan_vc c0) # completions)"
proof -
  have "chan_inv w0 c0 w0"
    using assms(4-6) by (auto simp: chan_inv_def chan_ok_def chan_addrs_def vchan_descs_def intro: own_refl)
  then have v: "chan_abs c = v"
    using run_refines [OF assms(1-3)] assms(7) by simp
  have "jobs (chan_abs c0) = []"
    using assms(4) by (simp add: jobs_def vchan_descs_def)
  then show ?thesis
    using runs_order [OF assms(7)] v by (auto simp: jobs_def)
qed

lemma ex_fifo:
  "fifo_runs [Other, Submit sizes, Issue] \<lparr>v_conf = True, v_st = EDMA_ST_IDLE, v_req = EDMA_REQ_NONE, v_cookie = 1,
      v_done = 1, waiting = [], queue = []\<rparr> =
   (\<lparr>v_conf = True, v_st = EDMA_ST_BUSY, v_req = EDMA_REQ_NONE, v_cookie = 2, v_done = 1, waiting = [],
      queue = [(2, tl sizes)]\<rparr>, [2], [])"
  by (cases sizes) (simp_all add: next_cookie_def start_next_def)

text \<open>The sample channel prepares a request, submits and issues it.\<close>

theorem channel_refines_fifo_witness:
  "\<exists>sizes c w. chan_run ex_kapi ex_submit ex_dw (ex_chan EDMA_DIR_WRITE 1) ex_world [Other, Submit sizes, Issue] c w \<and>
     map fst (queue (chan_abs c)) = [2] \<and> completed_cookie (chan_vc c) = 1"
proof -
  let ?c0 = "ex_chan EDMA_DIR_WRITE 1"
  obtain r c1 w1 where p: "ex_prep = (r, c1, w1)"
    by (metis prod_cases3)
  have ok: "submit_ok ex_submit" "dw_core ex_dw \<noteq> CORE_NONE" "vchan_descs (chan_vc ?c0) = []" "heap_ok ex_world"
    "0 < ll_max ?c0"
    by simp_all
  have run: "dw_edma_device_transfer ex_kapi (dw_chip ex_dw) ?c0 ex_xfer ex_world = (r, c1, w1)"
    using p by (simp add: ex_prep_def)
  note D = device_transfer_cases [OF ok(4,5) run]
  have "transfer_dir_ok (dw_chip ex_dw) ?c0 (x_direction ex_xfer)" "transfer_xfer_ok (x_xfer ex_xfer)"
    by (simp_all add: transfer_dir_ok_def transfer_xfer_ok_def ex_xfer_def chip_local_def ex_chip_def)
  then have "r \<noteq> None"
    using D [THEN conjunct2, THEN conjunct2, THEN conjunct2] by simp
  then obtain a where a: "r = Some a" by blast
  obtain d where d: "c1 = ?c0\<lparr>chan_vc := vchan_tx_prep (chan_vc ?c0) d (x_flags ex_xfer)\<rparr>"
    using D [THEN conjunct2, THEN conjunct1] unfolding a option.case by (elim exE conjE)
  let ?d = "d\<lparr>vd_flags := x_flags ex_xfer, vd_residue := 0\<rparr>"
  have mem: "?d \<in> set (desc_allocated (chan_vc c1))"
    by (simp add: d vchan_tx_prep_def)
  define c2 where "c2 = c1\<lparr>chan_vc := ex_submit ?d (chan_vc c1)\<rparr>"
  obtain c3 w3 where 3: "dw_edma_device_issue_pending ex_dw c2 w1 = (c3, w3)" by fastforce
  have cnt: "unat (transfer_cnt (x_xfer ex_xfer)) < 2 ^ 31"
    by (simp add: ex_xfer_def transfer_cnt_def)
  define sizes where "sizes = snd (job_of ?d)"
  have steps: "chan_run ex_kapi ex_submit ex_dw ?c0 ex_world [Other, Submit sizes, Issue] c3 w3"
    unfolding sizes_def
    by (rule run_cons [OF l_prep [OF cnt run]], rule run_cons [OF l_submit [OF mem]],
        rule run_cons [OF l_issue [OF 3 [unfolded c2_def]]], rule run_nil)
  obtain v hs cs where f: "fifo_runs [Other, Submit sizes, Issue] (chan_abs ?c0) = (v, hs, cs)"
    by (metis prod_cases3)
  have v0: "chan_abs ?c0 = \<lparr>v_conf = True, v_st = EDMA_ST_IDLE, v_req = EDMA_REQ_NONE, v_cookie = 1, v_done = 1,
      waiting = [], queue = []\<rparr>"
    by (simp add: chan_abs_def ex_vc_def)
  have e: "v = \<lparr>v_conf = True, v_st = EDMA_ST_BUSY, v_req = EDMA_REQ_NONE, v_cookie = 2, v_done = 1, waiting = [],
      queue = [(2, tl sizes)]\<rparr> \<and> hs = [2] \<and> cs = []"
    using f [unfolded v0 ex_fifo, symmetric] by (simp only: prod.inject simp_thms)
  note R = channel_refines_fifo [OF steps ok f]
  have "map fst (queue (chan_abs c3)) = [2]"
    using R [THEN conjunct1] e by simp
  moreover have "completed_cookie (chan_vc c3) = 1"
    using R [THEN conjunct2, THEN conjunct2] e by (simp add: ex_vc_def)
  ultimately have "map fst (queue (chan_abs c3)) = [2]" "completed_cookie (chan_vc c3) = 1"
    by simp_all
  then show ?thesis
    using steps by - (intro exI conjI)
qed

end
