(* ===== verification/List_Walk.thy ===== *)
theory List_Walk
  imports Chan_Life
begin

section \<open>What the device reads back from a linked list\<close>

text \<open>
  The engine walks a list element by element: a data element while bit 2 (\<open>LLP\<close>) of its control word is
  clear, then the link element. \<open>walk_list\<close> is this decoder on 32-bit memory; it gives the cycle bit and the
  local interrupt bit of each element with its size and addresses, and the cycle bit and target of
  the link. The driver's writer is its inverse.
\<close>

fun walk_list :: "nat \<Rightarrow> (iomem \<rightharpoonup> u32) \<Rightarrow> iomem \<Rightarrow> ((bool \<times> bool \<times> u32 \<times> u64 \<times> u64) list \<times> bool \<times> u64) option" where
  "walk_list 0 m a = None"
| "walk_list (Suc n) m a =
     (case m a of
        None \<Rightarrow> None
      | Some control \<Rightarrow>
          if bit control 2
          then (case read_llp m a of None \<Rightarrow> None | Some (c, p) \<Rightarrow> Some ([], bit c 0, p))
          else
            (case read_lli m a of
               None \<Rightarrow> None
             | Some (c, s, sa, da) \<Rightarrow>
                 (case walk_list n m (a + 24) of
                    None \<Rightarrow> None
                  | Some (es, link) \<Rightarrow> Some ((bit c 0, bit c 3, s, sa, da) # es, link))))"

definition list_view :: "dw_edma_chunk \<Rightarrow> nat \<Rightarrow> bool \<times> bool \<times> u32 \<times> u64 \<times> u64" where
  "list_view ck i =
     (ck_cb ck \<noteq> 0, Suc i = length (bursts ck), b_sz (bursts ck ! i), b_sar (bursts ck ! i), b_dar (bursts ck ! i))"

subsection \<open>Lemmas\<close>

lemma read_lli_control: "read_lli m a = Some (c, r) \<Longrightarrow> m a = Some c"
  by (simp add: read_lli_def split: option.splits)

lemma read_llp_control: "read_llp m a = Some (c, r) \<Longrightarrow> m a = Some c"
  by (simp add: read_llp_def split: option.splits)

lemma control_bits [simp]:
  "bit (lli_control chip ck i) 2 = False" "bit (lli_control chip ck i) 0 = (ck_cb ck \<noteq> 0)"
  "bit (lli_control chip ck i) 3 = (Suc i = length (bursts ck))"
  "bit (llp_control ck) 2" "bit (llp_control ck) 0 = (ck_cb ck = 0)"
  by (simp_all add: lli_control_def llp_control_def bit_or_iff bit_BIT)

lemma walk_from:
  assumes "ll_holds chip ck m" "i \<le> length (bursts ck)" "length (bursts ck) - i < n"
  shows "walk_list n m (vaddr (ll_region ck) + i * 24) =
    Some (map (list_view ck) [i..<length (bursts ck)], ck_cb ck = 0, paddr (ll_region ck))"
  using assms(2,3)
proof (induction n arbitrary: i)
  case (Suc n)
  let ?a = "vaddr (ll_region ck) + i * 24"
  show ?case
  proof (cases "i < length (bursts ck)")
    case True
    then have lli: "read_lli m ?a = Some (lli_control chip ck i, b_sz (bursts ck ! i), b_sar (bursts ck ! i), b_dar (bursts ck ! i))"
      using assms(1) by (simp add: ll_holds_def)
    have "walk_list n m (vaddr (ll_region ck) + Suc i * 24) =
        Some (map (list_view ck) [Suc i..<length (bursts ck)], ck_cb ck = 0, paddr (ll_region ck))"
      using Suc True by (intro Suc.IH) auto
    then have rest: "walk_list n m (?a + 24) =
        Some (map (list_view ck) [Suc i..<length (bursts ck)], ck_cb ck = 0, paddr (ll_region ck))"
      by (simp add: algebra_simps)
    show ?thesis
      using True by (simp add: lli read_lli_control [OF lli] rest upt_conv_Cons list_view_def)
  next
    case False
    then have i: "i = length (bursts ck)"
      using Suc.prems(1) by simp
    have llp: "read_llp m (vaddr (ll_region ck) + length (bursts ck) * 24) = Some (llp_control ck, paddr (ll_region ck))"
      using assms(1) by (simp add: ll_holds_def)
    show ?thesis
      by (simp add: i llp read_llp_control [OF llp])
  qed
qed simp

subsection \<open>Properties\<close>

text \<open>C2: Whichever engine is used, what the device decodes at the moment the doorbell rings is what the driver
  was given: every burst of the chunk, in order, with its size and addresses, all with the chunk's
  cycle bit, the interrupt flag on the last alone, and the link back to the start with the other
  cycle bit. The walk ends after one step per burst and one for the link.\<close>

theorem list_roundtrip:
  assumes "dw_core dw \<noteq> CORE_NONE" "burst_count_ok ck" "ll_clear (dw_chip dw) ck" "ch_id chan < 8" "length (bursts ck) < n"
  shows "\<exists>es. new_evs w (dw_edma_core_start dw chan ck first w) = es @ [Writel (core_bell dw chan) (core_bell_val dw chan)] \<and>
    walk_list n (fold store_ev es m) (vaddr (ll_region ck)) =
      Some (map (list_view ck) [0..<length (bursts ck)], ck_cb ck = 0, paddr (ll_region ck))"
proof -
  obtain es where es: "new_evs w (dw_edma_core_start dw chan ck first w) =
      es @ [Writel (core_bell dw chan) (core_bell_val dw chan)]" "ll_holds (dw_chip dw) ck (fold store_ev es m)"
    using core_start_bell [OF assms(1-4), of w first m] by blast
  show ?thesis
    using walk_from [OF es(2), of 0 n] assms(5) es(1) by auto
qed

text \<open>The sample chunk: one burst, then the link.\<close>

theorem list_roundtrip_witness:
  "\<exists>es. new_evs ex_world (dw_edma_core_start ex_dw (ex_chan EDMA_DIR_READ 1) (ex_chunk 1) True ex_world) =
     es @ [Writel (core_bell ex_dw (ex_chan EDMA_DIR_READ 1)) (core_bell_val ex_dw (ex_chan EDMA_DIR_READ 1))] \<and>
     walk_list 2 (fold store_ev es Map.empty) 0x20000 = Some ([(True, True, 0x400, 0x1000, 0x80000000)], False, 0x20000000)"
proof -
  have ck: "length (bursts (ex_chunk 1)) = 1" "vaddr (ll_region (ex_chunk 1)) = 0x20000" "(ck_cb (ex_chunk 1) = 0) = False"
    "paddr (ll_region (ex_chunk 1)) = 0x20000000" "list_view (ex_chunk 1) 0 = (True, True, 0x400, 0x1000, 0x80000000)"
    by (simp_all add: ex_chunk_def ex_burst_def bursts_def ex_region_def list_view_def)
  have core: "dw_core ex_dw \<noteq> CORE_NONE" "burst_count_ok (ex_chunk 1)" "ll_clear (dw_chip ex_dw) (ex_chunk 1)"
    "ch_id (ex_chan EDMA_DIR_READ 1) < 8" "length (bursts (ex_chunk 1)) < 2"
    using ck(1) by simp_all
  have e: "map (list_view (ex_chunk 1)) [0..<1] = [(True, True, 0x400, 0x1000, 0x80000000)]"
    using ck(5) by simp
  from list_roundtrip [OF core, of ex_world True Map.empty] show ?thesis
    unfolding ck e .
qed

end
