(* ===== verification/Debugfs.thy ===== *)
theory Debugfs
  imports V0_Core Hdma_Core
begin

section \<open>The debugfs files (dw-edma-v0-debugfs.c, dw-hdma-v0-debugfs.c)\<close>

text \<open>
  One read-only file per register: the tables of names and addresses, the tree of files they make, and
  the read of a file. The tree is the list of the files with their paths, in the order of their creation
  below the directory of the DMA device; creating a directory or a file is the kernel's business and
  taken to succeed, the allocation of the entries may fail and then creates no file. Three more files
  show driver data: the map format and the two counts of channels.
\<close>

definition dbg_addr :: "dw_edma_chip \<Rightarrow> string \<Rightarrow> iomem" where
  "dbg_addr chip name = reg_base chip + offsetof dw_edma_v0_regs name"

definition dbg_unroll_addr :: "dw_edma_chip \<Rightarrow> string \<Rightarrow> iomem" where
  "dbg_unroll_addr chip name = dbg_addr chip ''type'' + offsetof dw_edma_v0_unroll name"

definition dbg_legacy_addr :: "dw_edma_chip \<Rightarrow> string \<Rightarrow> iomem" where
  "dbg_legacy_addr chip name = dbg_addr chip ''type'' + offsetof dw_edma_v0_legacy name"

definition dbg_ch_addr :: "dw_edma_chip \<Rightarrow> string \<Rightarrow> dw_edma_dir \<Rightarrow> u16 \<Rightarrow> iomem" where
  "dbg_ch_addr chip name dir ch =
     (if chip_mf chip = EDMA_MF_EDMA_LEGACY then dbg_legacy_addr chip ''ch''
      else if dir = EDMA_DIR_READ
      then dbg_unroll_addr chip ''ch'' + unat ch * sizeof dw_edma_v0_ch + offsetof dw_edma_v0_ch ''rd''
      else dbg_unroll_addr chip ''ch'' + unat ch * sizeof dw_edma_v0_ch + offsetof dw_edma_v0_ch ''wr'') +
     offsetof dw_edma_v0_ch_regs name"

record dw_edma_debugfs_entry =
  de_name :: string
  de_reg :: iomem
  de_dir :: dw_edma_dir
  de_ch :: u16

definition REGISTER :: "dw_edma_chip \<Rightarrow> string \<Rightarrow> dw_edma_debugfs_entry" where
  "REGISTER chip name = \<lparr>de_name = name, de_reg = dbg_addr chip name, de_dir = EDMA_DIR_WRITE, de_ch = 0\<rparr>"

definition CTX_REGISTER :: "dw_edma_chip \<Rightarrow> dw_edma_dir \<Rightarrow> u16 \<Rightarrow> string \<Rightarrow> dw_edma_debugfs_entry" where
  "CTX_REGISTER chip dir ch name = \<lparr>de_name = name, de_reg = dbg_ch_addr chip name dir ch, de_dir = dir, de_ch = ch\<rparr>"

text \<open>\<open>WR_REGISTER\<close> and \<open>RD_REGISTER\<close>, and those of the unrolled map.\<close>

definition RW_REGISTER :: "dw_edma_chip \<Rightarrow> dw_edma_dir \<Rightarrow> string \<Rightarrow> dw_edma_debugfs_entry" where
  "RW_REGISTER chip dir name =
     \<lparr>de_name = name, de_reg = dbg_addr chip (rw_name dir name), de_dir = EDMA_DIR_WRITE, de_ch = 0\<rparr>"

definition RW_REGISTER_UNROLL :: "dw_edma_chip \<Rightarrow> dw_edma_dir \<Rightarrow> string \<Rightarrow> dw_edma_debugfs_entry" where
  "RW_REGISTER_UNROLL chip dir name =
     \<lparr>de_name = name, de_reg = dbg_unroll_addr chip (rw_name dir name), de_dir = EDMA_DIR_WRITE, de_ch = 0\<rparr>"

subsection \<open>Reading a file\<close>

definition dw_edma_debugfs_u32_get :: "dw_edma_chip \<Rightarrow> dw_edma_debugfs_entry \<Rightarrow> world \<Rightarrow> u32 \<times> world" where
  "dw_edma_debugfs_u32_get chip entry w =
     (if chip_mf chip = EDMA_MF_EDMA_LEGACY \<and> dbg_legacy_addr chip ''ch'' \<le> de_reg entry
      then
        (let viewport_sel = (if de_dir entry = EDMA_DIR_READ then BIT 31 else 0);
             viewport_sel = viewport_sel OR FIELD_PREP EDMA_V0_VIEWPORT_MASK (ucast (de_ch entry))
         in readl (de_reg entry) (writel viewport_sel (dbg_legacy_addr chip ''viewport_sel'') w))
      else readl (de_reg entry) w)"

subsection \<open>The files of driver data\<close>

type_synonym 'e dbg_files = "(string list \<times> 'e) list"

text \<open>Such a file points at a field of the driver's data, which it shows when it is read.\<close>

datatype dbg_data = D_mf | D_wr_ch_cnt | D_rd_ch_cnt

primrec mf_val :: "dw_edma_map_format \<Rightarrow> u32" where
  "mf_val EDMA_MF_EDMA_LEGACY = 0"
| "mf_val EDMA_MF_EDMA_UNROLL = 1"
| "mf_val EDMA_MF_HDMA_COMPAT = 5"
| "mf_val EDMA_MF_HDMA_NATIVE = 7"

primrec dbg_data_get :: "dw_edma \<Rightarrow> dbg_data \<Rightarrow> u32" where
  "dbg_data_get dw D_mf = mf_val (chip_mf (dw_chip dw))"
| "dbg_data_get dw D_wr_ch_cnt = ucast (wr_ch_cnt dw)"
| "dbg_data_get dw D_rd_ch_cnt = ucast (rd_ch_cnt dw)"

definition dbg_data_files :: "string list \<Rightarrow> dbg_data dbg_files" where
  "dbg_data_files dent =
     [(dent @ [''mf''], D_mf), (dent @ [''wr_ch_cnt''], D_wr_ch_cnt), (dent @ [''rd_ch_cnt''], D_rd_ch_cnt)]"

subsection \<open>The tree of an eDMA\<close>

text \<open>The copy of the entries may fail to be allocated.\<close>

definition dw_edma_debugfs_create_x32 ::
  "dw_edma_debugfs_entry list \<Rightarrow> string list \<Rightarrow> world \<Rightarrow> dw_edma_debugfs_entry dbg_files \<times> world" where
  "dw_edma_debugfs_create_x32 ini dent w =
     (let (entries, w) = kcall (K_devm_kcalloc (length ini)) w
      in if entries = 0 then ([], w) else (map (\<lambda>e. (dent @ [de_name e], e)) ini, w))"

definition dw_edma_debugfs_regs_ch ::
  "dw_edma_chip \<Rightarrow> dw_edma_dir \<Rightarrow> u16 \<Rightarrow> string list \<Rightarrow> world \<Rightarrow> dw_edma_debugfs_entry dbg_files \<times> world" where
  "dw_edma_debugfs_regs_ch chip dir ch dent w =
     (let debugfs_regs =
        [CTX_REGISTER chip dir ch ''ch_control1'', CTX_REGISTER chip dir ch ''ch_control2'',
         CTX_REGISTER chip dir ch ''transfer_size'',
         CTX_REGISTER chip dir ch ''sar.lsb'', CTX_REGISTER chip dir ch ''sar.msb'',
         CTX_REGISTER chip dir ch ''dar.lsb'', CTX_REGISTER chip dir ch ''dar.msb'',
         CTX_REGISTER chip dir ch ''llp.lsb'', CTX_REGISTER chip dir ch ''llp.msb'']
      in dw_edma_debugfs_create_x32 debugfs_regs dent w)"

definition WRITE_STR :: string where "WRITE_STR = ''write''"

definition READ_STR :: string where "READ_STR = ''read''"

definition CHANNEL_STR :: string where "CHANNEL_STR = ''channel''"

definition REGISTERS_STR :: string where "REGISTERS_STR = ''registers''"

text \<open>\<open>%d\<close> of a number that is not negative.\<close>

fun decimal :: "nat \<Rightarrow> string" where
  "decimal n = (if n < 10 then [char_of (48 + n)] else decimal (n div 10) @ [char_of (48 + n mod 10)])"

declare decimal.simps [simp del]

definition channel_dir :: "nat \<Rightarrow> string" where
  "channel_dir i = CHANNEL_STR @ '':'' @ decimal i"

text \<open>The loop over the channels of a direction: \<open>n\<close> of them from \<open>i\<close> on.\<close>

fun v0_dbg_channels ::
  "dw_edma_chip \<Rightarrow> dw_edma_dir \<Rightarrow> nat \<Rightarrow> nat \<Rightarrow> string list \<Rightarrow> world \<Rightarrow> dw_edma_debugfs_entry dbg_files \<times> world" where
  "v0_dbg_channels chip dir 0 i dent w = ([], w)"
| "v0_dbg_channels chip dir (Suc n) i dent w =
     (let (fs, w) = dw_edma_debugfs_regs_ch chip dir (of_nat i) (dent @ [channel_dir i]) w;
          (fs', w) = v0_dbg_channels chip dir n (Suc i) dent w
      in (fs @ fs', w))"

definition dbg_wr_names :: "string list" where
  "dbg_wr_names =
     [''engine_en'', ''doorbell'', ''ch_arb_weight.lsb'', ''ch_arb_weight.msb'',
      ''int_status'', ''int_mask'', ''int_clear'', ''err_status'',
      ''done_imwr.lsb'', ''done_imwr.msb'', ''abort_imwr.lsb'', ''abort_imwr.msb'',
      ''ch01_imwr_data'', ''ch23_imwr_data'', ''ch45_imwr_data'', ''ch67_imwr_data'', ''linked_list_err_en'']"

definition dbg_rd_names :: "string list" where
  "dbg_rd_names =
     [''engine_en'', ''doorbell'', ''ch_arb_weight.lsb'', ''ch_arb_weight.msb'',
      ''int_status'', ''int_mask'', ''int_clear'', ''err_status.lsb'', ''err_status.msb'', ''linked_list_err_en'',
      ''done_imwr.lsb'', ''done_imwr.msb'', ''abort_imwr.lsb'', ''abort_imwr.msb'',
      ''ch01_imwr_data'', ''ch23_imwr_data'', ''ch45_imwr_data'', ''ch67_imwr_data'']"

definition dbg_unroll_names :: "string list" where
  "dbg_unroll_names =
     [''engine_chgroup'', ''engine_hshake_cnt.lsb'', ''engine_hshake_cnt.msb'',
      ''ch0_pwr_en'', ''ch1_pwr_en'', ''ch2_pwr_en'', ''ch3_pwr_en'',
      ''ch4_pwr_en'', ''ch5_pwr_en'', ''ch6_pwr_en'', ''ch7_pwr_en'']"

definition dw_edma_debugfs_regs_wr ::
  "dw_edma \<Rightarrow> string list \<Rightarrow> world \<Rightarrow> dw_edma_debugfs_entry dbg_files \<times> world" where
  "dw_edma_debugfs_regs_wr dw dent w =
     (let chip = dw_chip dw;
          regs_dent = dent @ [WRITE_STR];
          (fs, w) = dw_edma_debugfs_create_x32 (map (RW_REGISTER chip EDMA_DIR_WRITE) dbg_wr_names) regs_dent w;
          (us, w) = (if chip_mf chip = EDMA_MF_HDMA_COMPAT
                     then dw_edma_debugfs_create_x32 (map (RW_REGISTER_UNROLL chip EDMA_DIR_WRITE) dbg_unroll_names) regs_dent w
                     else ([], w));
          (cs, w) = v0_dbg_channels chip EDMA_DIR_WRITE (unat (wr_ch_cnt dw)) 0 regs_dent w
      in (fs @ us @ cs, w))"

definition dw_edma_debugfs_regs_rd ::
  "dw_edma \<Rightarrow> string list \<Rightarrow> world \<Rightarrow> dw_edma_debugfs_entry dbg_files \<times> world" where
  "dw_edma_debugfs_regs_rd dw dent w =
     (let chip = dw_chip dw;
          regs_dent = dent @ [READ_STR];
          (fs, w) = dw_edma_debugfs_create_x32 (map (RW_REGISTER chip EDMA_DIR_READ) dbg_rd_names) regs_dent w;
          (us, w) = (if chip_mf chip = EDMA_MF_HDMA_COMPAT
                     then dw_edma_debugfs_create_x32 (map (RW_REGISTER_UNROLL chip EDMA_DIR_READ) dbg_unroll_names) regs_dent w
                     else ([], w));
          (cs, w) = v0_dbg_channels chip EDMA_DIR_READ (unat (rd_ch_cnt dw)) 0 regs_dent w
      in (fs @ us @ cs, w))"

definition dw_edma_debugfs_regs :: "dw_edma \<Rightarrow> world \<Rightarrow> dw_edma_debugfs_entry dbg_files \<times> world" where
  "dw_edma_debugfs_regs dw w =
     (let debugfs_regs = [REGISTER (dw_chip dw) ''ctrl_data_arb_prior'', REGISTER (dw_chip dw) ''ctrl''];
          regs_dent = [REGISTERS_STR];
          (fs, w) = dw_edma_debugfs_create_x32 debugfs_regs regs_dent w;
          (wr, w) = dw_edma_debugfs_regs_wr dw regs_dent w;
          (rd, w) = dw_edma_debugfs_regs_rd dw regs_dent w
      in (fs @ wr @ rd, w))"

text \<open>\<open>initialized\<close> is what \<open>debugfs_initialized\<close> says.\<close>

definition dw_edma_v0_debugfs_on ::
  "bool \<Rightarrow> dw_edma \<Rightarrow> world \<Rightarrow> (dbg_data dbg_files \<times> dw_edma_debugfs_entry dbg_files) \<times> world" where
  "dw_edma_v0_debugfs_on initialized dw w =
     (if \<not> initialized then (([], []), w)
      else (let data = dbg_data_files []; (regs, w) = dw_edma_debugfs_regs dw w in ((data, regs), w)))"

subsection \<open>The tree of an HDMA\<close>

record dw_hdma_debugfs_entry =
  hde_name :: string
  hde_reg :: iomem

definition hdma_dbg_ch_addr :: "dw_edma_chip \<Rightarrow> string \<Rightarrow> dw_edma_dir \<Rightarrow> u16 \<Rightarrow> iomem" where
  "hdma_dbg_ch_addr chip name dir ch =
     reg_base chip + offsetof dw_hdma_v0_regs ''ch'' + unat ch * sizeof dw_hdma_v0_ch +
     (if dir = EDMA_DIR_READ then offsetof dw_hdma_v0_ch ''rd'' else offsetof dw_hdma_v0_ch ''wr'') +
     offsetof dw_hdma_v0_ch_regs name"

definition HDMA_CTX_REGISTER :: "dw_edma_chip \<Rightarrow> dw_edma_dir \<Rightarrow> u16 \<Rightarrow> string \<Rightarrow> dw_hdma_debugfs_entry" where
  "HDMA_CTX_REGISTER chip dir ch name = \<lparr>hde_name = name, hde_reg = hdma_dbg_ch_addr chip name dir ch\<rparr>"

definition dw_hdma_debugfs_u32_get :: "dw_hdma_debugfs_entry \<Rightarrow> world \<Rightarrow> u32 \<times> world" where
  "dw_hdma_debugfs_u32_get entry w = readl (hde_reg entry) w"

definition dw_hdma_debugfs_create_x32 ::
  "dw_hdma_debugfs_entry list \<Rightarrow> string list \<Rightarrow> world \<Rightarrow> dw_hdma_debugfs_entry dbg_files \<times> world" where
  "dw_hdma_debugfs_create_x32 ini dent w =
     (let (entries, w) = kcall (K_devm_kcalloc (length ini)) w
      in if entries = 0 then ([], w) else (map (\<lambda>e. (dent @ [hde_name e], e)) ini, w))"

definition hdma_dbg_names :: "string list" where
  "hdma_dbg_names =
     [''ch_en'', ''doorbell'', ''prefetch'', ''handshake'', ''llp.lsb'', ''llp.msb'', ''cycle_sync'', ''transfer_size'',
      ''sar.lsb'', ''sar.msb'', ''dar.lsb'', ''dar.msb'', ''watermark_en'', ''control1'', ''func_num'', ''qos'',
      ''ch_stat'', ''int_stat'', ''int_setup'', ''int_clear'', ''msi_stop.lsb'', ''msi_stop.msb'',
      ''msi_watermark.lsb'', ''msi_watermark.msb'', ''msi_abort.lsb'', ''msi_abort.msb'', ''msi_msgdata'']"

definition dw_hdma_debugfs_regs_ch ::
  "dw_edma_chip \<Rightarrow> dw_edma_dir \<Rightarrow> u16 \<Rightarrow> string list \<Rightarrow> world \<Rightarrow> dw_hdma_debugfs_entry dbg_files \<times> world" where
  "dw_hdma_debugfs_regs_ch chip dir ch dent w =
     dw_hdma_debugfs_create_x32 (map (HDMA_CTX_REGISTER chip dir ch) hdma_dbg_names) dent w"

fun hdma_dbg_channels ::
  "dw_edma_chip \<Rightarrow> dw_edma_dir \<Rightarrow> nat \<Rightarrow> nat \<Rightarrow> string list \<Rightarrow> world \<Rightarrow> dw_hdma_debugfs_entry dbg_files \<times> world" where
  "hdma_dbg_channels chip dir 0 i dent w = ([], w)"
| "hdma_dbg_channels chip dir (Suc n) i dent w =
     (let (fs, w) = dw_hdma_debugfs_regs_ch chip dir (of_nat i) (dent @ [channel_dir i]) w;
          (fs', w) = hdma_dbg_channels chip dir n (Suc i) dent w
      in (fs @ fs', w))"

definition dw_hdma_debugfs_regs_wr :: "dw_edma \<Rightarrow> string list \<Rightarrow> world \<Rightarrow> dw_hdma_debugfs_entry dbg_files \<times> world" where
  "dw_hdma_debugfs_regs_wr dw dent w =
     hdma_dbg_channels (dw_chip dw) EDMA_DIR_WRITE (unat (wr_ch_cnt dw)) 0 (dent @ [WRITE_STR]) w"

definition dw_hdma_debugfs_regs_rd :: "dw_edma \<Rightarrow> string list \<Rightarrow> world \<Rightarrow> dw_hdma_debugfs_entry dbg_files \<times> world" where
  "dw_hdma_debugfs_regs_rd dw dent w =
     hdma_dbg_channels (dw_chip dw) EDMA_DIR_READ (unat (rd_ch_cnt dw)) 0 (dent @ [READ_STR]) w"

definition dw_hdma_debugfs_regs :: "dw_edma \<Rightarrow> world \<Rightarrow> dw_hdma_debugfs_entry dbg_files \<times> world" where
  "dw_hdma_debugfs_regs dw w =
     (let regs_dent = [REGISTERS_STR];
          (wr, w) = dw_hdma_debugfs_regs_wr dw regs_dent w;
          (rd, w) = dw_hdma_debugfs_regs_rd dw regs_dent w
      in (wr @ rd, w))"

definition dw_hdma_v0_debugfs_on ::
  "bool \<Rightarrow> dw_edma \<Rightarrow> world \<Rightarrow> (dbg_data dbg_files \<times> dw_hdma_debugfs_entry dbg_files) \<times> world" where
  "dw_hdma_v0_debugfs_on initialized dw w =
     (if \<not> initialized then (([], []), w)
      else (let data = dbg_data_files []; (regs, w) = dw_hdma_debugfs_regs dw w in ((data, regs), w)))"

subsection \<open>Lemmas: the tables and the names of the channels\<close>

definition ctx_names :: "string list" where
  "ctx_names = [''ch_control1'', ''ch_control2'', ''transfer_size'', ''sar.lsb'', ''sar.msb'', ''dar.lsb'', ''dar.msb'',
     ''llp.lsb'', ''llp.msb'']"

lemma regs_ch_eq: "dw_edma_debugfs_regs_ch chip dir ch = dw_edma_debugfs_create_x32 (map (CTX_REGISTER chip dir ch) ctx_names)"
  by (intro ext) (simp add: dw_edma_debugfs_regs_ch_def ctx_names_def)

lemma entry_names [simp]:
  "de_name (CTX_REGISTER chip dir ch n) = n" "de_name (RW_REGISTER chip dir n) = n" "de_name (RW_REGISTER_UNROLL chip dir n) = n"
  "de_name (REGISTER chip n) = n" "hde_name (HDMA_CTX_REGISTER chip dir ch n) = n"
  by (simp_all add: CTX_REGISTER_def RW_REGISTER_def RW_REGISTER_UNROLL_def REGISTER_def HDMA_CTX_REGISTER_def)

lemma names_distinct:
  "distinct (dbg_wr_names @ dbg_unroll_names)" "distinct (dbg_rd_names @ dbg_unroll_names)" "distinct ctx_names" "distinct hdma_dbg_names"
  by (simp_all add: dbg_wr_names_def dbg_rd_names_def dbg_unroll_names_def ctx_names_def hdma_dbg_names_def)

lemma decimal_digit: "a < 10 \<Longrightarrow> b < 10 \<Longrightarrow> char_of (48 + a) = (char_of (48 + b) :: char) \<Longrightarrow> a = (b :: nat)"
  using arg_cong [of "char_of (48 + a)" "char_of (48 + b) :: char" "of_char :: char \<Rightarrow> nat"] by simp

lemma decimal_nonempty: "decimal n \<noteq> []"
  by (subst decimal.simps) simp

lemma decimal_inj: "decimal m = decimal n \<Longrightarrow> m = n"
proof (induction m arbitrary: n rule: decimal.induct)
  case (1 m)
  consider "m < 10" "n < 10" | "m < 10" "10 \<le> n" | "10 \<le> m" "n < 10" | "10 \<le> m" "10 \<le> n"
    by linarith
  then show ?case
  proof cases
    case 1
    then have "char_of (48 + m) = (char_of (48 + n) :: char)"
      using "1.prems" by (simp add: decimal.simps [of m] decimal.simps [of n])
    then show ?thesis
      using decimal_digit 1 by blast
  next
    case 2
    then show ?thesis
      using "1.prems" decimal_nonempty [of "n div 10"] by (simp add: decimal.simps [of m] decimal.simps [of n])
  next
    case 3
    then show ?thesis
      using "1.prems" decimal_nonempty [of "m div 10"] by (simp add: decimal.simps [of m] decimal.simps [of n])
  next
    case 4
    then have e: "decimal (m div 10) = decimal (n div 10)" "char_of (48 + m mod 10) = (char_of (48 + n mod 10) :: char)"
      using "1.prems" by (simp_all add: decimal.simps [of m] decimal.simps [of n])
    have "m div 10 = n div 10" "m mod 10 = n mod 10"
      using "1.IH" [OF _ e(1)] 4 decimal_digit [OF _ _ e(2)] by simp_all
    then show ?thesis
      by (metis div_mult_mod_eq)
  qed
qed

lemma channel_dir_inj [simp]: "channel_dir i = channel_dir j \<longleftrightarrow> i = j"
  using decimal_inj by (auto simp: channel_dir_def)

text \<open>The files of a tree moved below a directory.\<close>

definition below :: "string list \<Rightarrow> 'e dbg_files \<Rightarrow> 'e dbg_files" where
  "below q fs = map (\<lambda>(p, e). (q @ p, e)) fs"

lemma below_simps [simp]: "below q [] = []" "below q (fs @ gs) = below q fs @ below q gs" "below [] fs = fs"
  by (simp_all add: below_def)

text \<open>Every allocation is granted.\<close>

definition kcalloc_ok :: "world \<Rightarrow> bool" where
  "kcalloc_ok w \<longleftrightarrow> (\<forall>t n. kret w t (K_devm_kcalloc n) \<noteq> 0)"

subsection \<open>The interface of the two trees\<close>

text \<open>
  Both engines make the files of a table in one go or not at all, and the directories of the channels one
  after the other with one table in each. The laws say so; the lemmas say which files there are.
\<close>

locale debug_tree =
  fixes create :: "'e list \<Rightarrow> string list \<Rightarrow> world \<Rightarrow> 'e dbg_files \<times> world"
    and name_of :: "'e \<Rightarrow> string"
    and entry :: "dw_edma_chip \<Rightarrow> dw_edma_dir \<Rightarrow> u16 \<Rightarrow> string \<Rightarrow> 'e"
    and names :: "string list"
    and channels :: "dw_edma_chip \<Rightarrow> dw_edma_dir \<Rightarrow> nat \<Rightarrow> nat \<Rightarrow> string list \<Rightarrow> world \<Rightarrow> 'e dbg_files \<times> world"
  assumes all_or_none: "create ini dent w =
      (let (p, w) = kcall (K_devm_kcalloc (length ini)) w
       in if p = 0 then ([], w) else (map (\<lambda>e. (dent @ [name_of e], e)) ini, w))"
    and name_entry [simp]: "name_of (entry chip dir ch reg) = reg"
    and distinct_names: "distinct names"
    and channels_0 [simp]: "channels chip dir 0 i dent w = ([], w)"
    and channels_Suc: "channels chip dir (Suc n) i dent w =
      (let (fs, w) = create (map (entry chip dir (of_nat i)) names) (dent @ [channel_dir i]) w;
           (fs', w) = channels chip dir n (Suc i) dent w
       in (fs @ fs', w))"
begin

text \<open>The table \<open>f\<close> of some names.\<close>

lemma table_files:
  assumes "(p, e) \<in> set (fst (create (map f ns) dent w))" "\<And>n. name_of (f n) = n"
  shows "\<exists>n \<in> set ns. p = dent @ [n] \<and> e = f n"
  using assms by (auto simp: all_or_none split_beta Let_def split: if_splits)

lemma table_paths:
  assumes "distinct ns" "\<And>n. name_of (f n) = n"
  shows "distinct (map fst (fst (create (map f ns) dent w)))"
  using assms by (auto simp: all_or_none split_beta Let_def comp_def distinct_map inj_on_def)

lemma table_ok:
  assumes "kcalloc_ok w" "\<And>n. name_of (f n) = n"
  shows "fst (create (map f ns) dent w) = map (\<lambda>n. (dent @ [n], f n)) ns" "kcalloc_ok (snd (create (map f ns) dent w))"
  using assms by (simp_all add: all_or_none kcall_def kcalloc_ok_def emit_def Let_def comp_def)

text \<open>The channels from \<open>i\<close> on.\<close>

lemma channel_files:
  "(p, e) \<in> set (fst (channels chip dir n i dent w)) \<Longrightarrow>
   \<exists>j name. i \<le> j \<and> j < i + n \<and> name \<in> set names \<and> p = dent @ [channel_dir j, name] \<and> e = entry chip dir (of_nat j) name"
proof (induction n arbitrary: i w)
  case (Suc n)
  obtain fs w1 where 1: "create (map (entry chip dir (of_nat i)) names) (dent @ [channel_dir i]) w = (fs, w1)" by fastforce
  obtain fs' w2 where 2: "channels chip dir n (Suc i) dent w1 = (fs', w2)" by fastforce
  have "(p, e) \<in> set fs \<or> (p, e) \<in> set fs'"
    using Suc.prems by (simp add: channels_Suc 1 2)
  then show ?case
  proof
    assume "(p, e) \<in> set fs"
    then have "(p, e) \<in> set (fst (create (map (entry chip dir (of_nat i)) names) (dent @ [channel_dir i]) w))"
      by (simp add: 1)
    from table_files [OF this] show ?thesis
      by auto
  next
    assume "(p, e) \<in> set fs'"
    then have "\<exists>j name. Suc i \<le> j \<and> j < Suc i + n \<and> name \<in> set names \<and> p = dent @ [channel_dir j, name] \<and>
        e = entry chip dir (of_nat j) name"
      by (intro Suc.IH [of "Suc i" w1]) (simp add: 2)
    then show ?thesis
      by (metis Suc_leD add_Suc_shift)
  qed
qed simp

lemma channel_paths: "distinct (map fst (fst (channels chip dir n i dent w)))"
proof (induction n arbitrary: i w)
  case (Suc n)
  obtain fs w1 where 1: "create (map (entry chip dir (of_nat i)) names) (dent @ [channel_dir i]) w = (fs, w1)" by fastforce
  obtain fs' w2 where 2: "channels chip dir n (Suc i) dent w1 = (fs', w2)" by fastforce
  have fs: "fs = fst (create (map (entry chip dir (of_nat i)) names) (dent @ [channel_dir i]) w)"
    by (simp add: 1)
  have "distinct (map fst fs)"
    unfolding fs by (rule table_paths [OF distinct_names]) simp
  moreover have "distinct (map fst fs')"
    using Suc.IH [of "Suc i" w1] by (simp add: 2)
  moreover have "\<exists>n. p = dent @ [channel_dir i, n]" if "p \<in> set (map fst fs)" for p
    using that table_files [where dent = "dent @ [channel_dir i]" and f = "entry chip dir (of_nat i)"] unfolding fs by fastforce
  moreover have "\<exists>j n. i < j \<and> p = dent @ [channel_dir j, n]" if "p \<in> set (map fst fs')" for p
  proof -
    obtain e where "(p, e) \<in> set (fst (channels chip dir n (Suc i) dent w1))"
      using \<open>p \<in> set (map fst fs')\<close> 2 by auto
    from channel_files [OF this] show ?thesis
      by (metis Suc_le_lessD)
  qed
  ultimately have "distinct (map fst (fs @ fs'))"
    by (fastforce simp: disjoint_iff)
  then show ?case
    by (simp add: channels_Suc 1 2)
qed simp

text \<open>The same below another directory.\<close>

lemma create_below: "create ini (q @ dent) w = (below q (fst (create ini dent w)), snd (create ini dent w))"
  by (simp add: all_or_none below_def split_beta Let_def)

lemma channels_below: "channels chip dir n i (q @ dent) w = (below q (fst (channels chip dir n i dent w)), snd (channels chip dir n i dent w))"
  by (induction n arbitrary: i w) (simp_all add: channels_Suc create_below split_beta)

lemma channels_ok:
  "kcalloc_ok w \<Longrightarrow>
   fst (channels chip dir n i dent w) =
     concat (map (\<lambda>j. map (\<lambda>name. (dent @ [channel_dir j, name], entry chip dir (of_nat j) name)) names) [i..<i + n]) \<and>
   kcalloc_ok (snd (channels chip dir n i dent w))"
proof (induction n arbitrary: i w)
  case (Suc n)
  obtain fs w1 where 1: "create (map (entry chip dir (of_nat i)) names) (dent @ [channel_dir i]) w = (fs, w1)" by fastforce
  have "fs = map (\<lambda>n. (dent @ [channel_dir i, n], entry chip dir (of_nat i) n)) names" "kcalloc_ok w1"
    using table_ok [OF Suc.prems, of "entry chip dir (of_nat i)" names "dent @ [channel_dir i]"] 1 by simp_all
  with Suc.IH [of w1 "Suc i"] show ?case
    by (simp add: channels_Suc 1 split_beta upt_conv_Cons del: upt_Suc)
qed simp

end

interpretation v0_tree: debug_tree dw_edma_debugfs_create_x32 de_name CTX_REGISTER ctx_names v0_dbg_channels
proof
  show "distinct ctx_names"
    by (rule names_distinct(3))
qed (simp_all add: dw_edma_debugfs_create_x32_def regs_ch_eq)

interpretation hdma_tree: debug_tree dw_hdma_debugfs_create_x32 hde_name HDMA_CTX_REGISTER hdma_dbg_names hdma_dbg_channels
proof
  show "distinct hdma_dbg_names"
    by (rule names_distinct(4))
qed (simp_all add: dw_hdma_debugfs_create_x32_def dw_hdma_debugfs_regs_ch_def)

subsection \<open>Lemmas: the registers of the names\<close>

text \<open>The names are fields of the register structures, in front of the channel registers.\<close>

lemma name_offsets:
  "name \<in> set dbg_wr_names \<Longrightarrow> offsetof dw_edma_v0_regs (rw_name EDMA_DIR_WRITE name) < 0xfc"
  "name \<in> set dbg_rd_names \<Longrightarrow> offsetof dw_edma_v0_regs (rw_name EDMA_DIR_READ name) < 0xfc"
  "name \<in> set dbg_unroll_names \<Longrightarrow> offsetof dw_edma_v0_unroll (rw_name dir name) < 0x104"
  "name \<in> set ctx_names \<Longrightarrow> offsetof dw_edma_v0_ch_regs name < 0x24"
  "name \<in> set hdma_dbg_names \<Longrightarrow> offsetof dw_hdma_v0_ch_regs name < 0x100"
  by (auto simp: dbg_wr_names_def dbg_rd_names_def dbg_unroll_names_def ctx_names_def hdma_dbg_names_def rw_name_def
      dw_edma_v0_regs_def dw_edma_v0_unroll_def dw_edma_v0_ch_regs_def dw_hdma_v0_ch_regs_def)

lemma dbg_addrs [simp]:
  "dbg_addr chip ''type'' = reg_base chip + 0xfc" "dbg_legacy_addr chip ''ch'' = reg_base chip + 0x100"
  "dbg_legacy_addr chip ''viewport_sel'' = viewport_addr chip"
  by (simp_all add: dbg_addr_def dbg_legacy_addr_def viewport_addr_def layout_simps)

lemma dbg_ch_addr_eq: "dbg_ch_addr chip name dir ch = dw_ch_regs chip dir (unat ch) + offsetof dw_edma_v0_ch_regs name"
  by (cases dir) (simp_all add: dbg_ch_addr_def dw_ch_regs_def dbg_unroll_addr_def layout_simps Let_def)

lemma get_below: "de_reg e < reg_base chip + 0x100 \<Longrightarrow> dw_edma_debugfs_u32_get chip e v = readl (de_reg e) v"
  by (simp add: dw_edma_debugfs_u32_get_def)

lemma unat_of_nat_16: "j < 8 \<Longrightarrow> unat (of_nat j :: u16) = j"
  by (simp add: unat_of_nat)

lemma get_ctx:
  assumes "j < 8"
  shows "dw_edma_debugfs_u32_get chip (CTX_REGISTER chip dir (of_nat j) name) v = GET_CH_32 chip dir j name v"
proof -
  have u: "unat (of_nat j :: u16) = j" "ucast (of_nat j :: u16) = (of_nat j :: u32)"
    using assms by (simp_all add: unat_of_nat_16 unsigned_of_nat take_bit_nat_eq_self)
  show ?thesis
  proof (cases "chip_mf chip = EDMA_MF_EDMA_LEGACY")
    case True
    then have "dw_ch_regs chip dir j = reg_base chip + 0x100"
      by (simp add: dw_ch_regs_def layout_simps)
    then show ?thesis
      using True by (simp add: dw_edma_debugfs_u32_get_def CTX_REGISTER_def dbg_ch_addr_eq u GET_CH_32_def readl_ch_def
          viewport_val_def or.commute Let_def)
  next
    case False
    then show ?thesis
      by (simp add: dw_edma_debugfs_u32_get_def CTX_REGISTER_def dbg_ch_addr_eq u GET_CH_32_def readl_ch_def)
  qed
qed

end
