(* ===== verification/Debug_Files.thy ===== *)
theory Debug_Files
  imports Debugfs
begin

section \<open>What the debugfs files show\<close>

text \<open>
  The whole tree of an engine: no path twice, every file reads the register its path names, and with every
  allocation granted no register is missing.
\<close>

subsection \<open>Lemmas: one direction\<close>

text \<open>The functions of the two directions are one, over the names and the count.\<close>

definition dir_str :: "dw_edma_dir \<Rightarrow> string" where
  "dir_str dir = (if dir = EDMA_DIR_WRITE then WRITE_STR else READ_STR)"

definition dir_names :: "dw_edma_dir \<Rightarrow> string list" where
  "dir_names dir = (if dir = EDMA_DIR_WRITE then dbg_wr_names else dbg_rd_names)"

definition dir_cnt :: "dw_edma \<Rightarrow> dw_edma_dir \<Rightarrow> nat" where
  "dir_cnt dw dir = (if dir = EDMA_DIR_WRITE then unat (wr_ch_cnt dw) else unat (rd_ch_cnt dw))"

definition v0_dbg_dir :: "dw_edma \<Rightarrow> dw_edma_dir \<Rightarrow> string list \<Rightarrow> world \<Rightarrow> dw_edma_debugfs_entry dbg_files \<times> world" where
  "v0_dbg_dir dw dir dent w =
     (let (fs, w) = dw_edma_debugfs_create_x32 (map (RW_REGISTER (dw_chip dw) dir) (dir_names dir)) (dent @ [dir_str dir]) w;
          (us, w) = (if chip_mf (dw_chip dw) = EDMA_MF_HDMA_COMPAT
                     then dw_edma_debugfs_create_x32 (map (RW_REGISTER_UNROLL (dw_chip dw) dir) dbg_unroll_names) (dent @ [dir_str dir]) w
                     else ([], w));
          (cs, w) = v0_dbg_channels (dw_chip dw) dir (dir_cnt dw dir) 0 (dent @ [dir_str dir]) w
      in (fs @ us @ cs, w))"

lemma dir_simps [simp]:
  "dir_str EDMA_DIR_WRITE = WRITE_STR" "dir_str EDMA_DIR_READ = READ_STR"
  "dir_names EDMA_DIR_WRITE = dbg_wr_names" "dir_names EDMA_DIR_READ = dbg_rd_names"
  "dir_cnt dw EDMA_DIR_WRITE = unat (wr_ch_cnt dw)" "dir_cnt dw EDMA_DIR_READ = unat (rd_ch_cnt dw)"
  by (simp_all add: dir_str_def dir_names_def dir_cnt_def)

lemma regs_dir_eq:
  "dw_edma_debugfs_regs_wr dw = v0_dbg_dir dw EDMA_DIR_WRITE" "dw_edma_debugfs_regs_rd dw = v0_dbg_dir dw EDMA_DIR_READ"
  unfolding dw_edma_debugfs_regs_wr_def dw_edma_debugfs_regs_rd_def v0_dbg_dir_def dir_simps Let_def by (rule refl)+

text \<open>A file of a direction: a register, an unrolled register, or a register of a channel.\<close>

definition dir_file :: "dw_edma \<Rightarrow> dw_edma_dir \<Rightarrow> string list \<Rightarrow> string list \<Rightarrow> dw_edma_debugfs_entry \<Rightarrow> bool" where
  "dir_file dw dir dent p e \<longleftrightarrow>
     (\<exists>n \<in> set (dir_names dir). p = dent @ [dir_str dir, n] \<and> e = RW_REGISTER (dw_chip dw) dir n) \<or>
     chip_mf (dw_chip dw) = EDMA_MF_HDMA_COMPAT \<and>
       (\<exists>n \<in> set dbg_unroll_names. p = dent @ [dir_str dir, n] \<and> e = RW_REGISTER_UNROLL (dw_chip dw) dir n) \<or>
     (\<exists>j < dir_cnt dw dir. \<exists>n \<in> set ctx_names. p = dent @ [dir_str dir, channel_dir j, n] \<and>
        e = CTX_REGISTER (dw_chip dw) dir (of_nat j) n)"

lemma dir_files:
  assumes "(p, e) \<in> set (fst (v0_dbg_dir dw dir dent w))"
  shows "dir_file dw dir dent p e"
proof -
  let ?d = "dent @ [dir_str dir]"
  obtain fs w1 where 1: "dw_edma_debugfs_create_x32 (map (RW_REGISTER (dw_chip dw) dir) (dir_names dir)) ?d w = (fs, w1)"
    by fastforce
  obtain us w2 where 2: "(if chip_mf (dw_chip dw) = EDMA_MF_HDMA_COMPAT
      then dw_edma_debugfs_create_x32 (map (RW_REGISTER_UNROLL (dw_chip dw) dir) dbg_unroll_names) ?d w1 else ([], w1)) = (us, w2)"
    by fastforce
  obtain cs w3 where 3: "v0_dbg_channels (dw_chip dw) dir (dir_cnt dw dir) 0 ?d w2 = (cs, w3)"
    by fastforce
  have "(p, e) \<in> set fs \<or> (p, e) \<in> set us \<or> (p, e) \<in> set cs"
    using assms by (simp add: v0_dbg_dir_def 1 2 3)
  moreover have "dir_file dw dir dent p e" if "(p, e) \<in> set fs"
    using v0_tree.table_files [of p e "RW_REGISTER (dw_chip dw) dir" "dir_names dir" ?d w] that 1 by (auto simp: dir_file_def)
  moreover have "dir_file dw dir dent p e" if "(p, e) \<in> set us"
    using v0_tree.table_files [of p e "RW_REGISTER_UNROLL (dw_chip dw) dir" dbg_unroll_names ?d w1] that 2
    by (auto simp: dir_file_def split: if_splits)
  moreover have "dir_file dw dir dent p e" if "(p, e) \<in> set cs"
    using v0_tree.channel_files [of p e "dw_chip dw" dir "dir_cnt dw dir" 0 ?d w2] that 3 by (auto simp: dir_file_def)
  ultimately show ?thesis
    by blast
qed

lemma dir_paths: "distinct (map fst (fst (v0_dbg_dir dw dir dent w)))"
proof -
  let ?d = "dent @ [dir_str dir]"
  obtain fs w1 where 1: "dw_edma_debugfs_create_x32 (map (RW_REGISTER (dw_chip dw) dir) (dir_names dir)) ?d w = (fs, w1)"
    by fastforce
  obtain us w2 where 2: "(if chip_mf (dw_chip dw) = EDMA_MF_HDMA_COMPAT
      then dw_edma_debugfs_create_x32 (map (RW_REGISTER_UNROLL (dw_chip dw) dir) dbg_unroll_names) ?d w1 else ([], w1)) = (us, w2)"
    by fastforce
  obtain cs w3 where 3: "v0_dbg_channels (dw_chip dw) dir (dir_cnt dw dir) 0 ?d w2 = (cs, w3)"
    by fastforce
  have names: "distinct (dir_names dir @ dbg_unroll_names)"
    using names_distinct by (simp add: dir_names_def)
  have d: "distinct (map fst fs)" "distinct (map fst us)" "distinct (map fst cs)"
    using v0_tree.table_paths [of "dir_names dir" "RW_REGISTER (dw_chip dw) dir" ?d w] names 1
      v0_tree.table_paths [of dbg_unroll_names "RW_REGISTER_UNROLL (dw_chip dw) dir" ?d w1] 2
      v0_tree.channel_paths [of "dw_chip dw" dir "dir_cnt dw dir" 0 ?d w2] 3 by (auto split: if_splits)
  have f: "\<exists>n \<in> set (dir_names dir). p = ?d @ [n]" if "p \<in> set (map fst fs)" for p
    using that v0_tree.table_files [of p _ "RW_REGISTER (dw_chip dw) dir" "dir_names dir" ?d w] 1 by fastforce
  have u: "\<exists>n \<in> set dbg_unroll_names. p = ?d @ [n]" if "p \<in> set (map fst us)" for p
    using that v0_tree.table_files [of p _ "RW_REGISTER_UNROLL (dw_chip dw) dir" dbg_unroll_names ?d w1] 2
    by (fastforce split: if_splits)
  have c: "length p = length ?d + 2" if "p \<in> set (map fst cs)" for p
    using that v0_tree.channel_files [of p _ "dw_chip dw" dir "dir_cnt dw dir" 0 ?d w2] 3 by fastforce
  have "set (map fst fs) \<inter> set (map fst us) = {}"
  proof (rule ccontr)
    assume "set (map fst fs) \<inter> set (map fst us) \<noteq> {}"
    then obtain p where "p \<in> set (map fst fs)" "p \<in> set (map fst us)" by blast
    from f [OF this(1)] u [OF this(2)] show False
      using names by auto
  qed
  moreover have "(set (map fst fs) \<union> set (map fst us)) \<inter> set (map fst cs) = {}"
  proof (rule ccontr)
    assume "(set (map fst fs) \<union> set (map fst us)) \<inter> set (map fst cs) \<noteq> {}"
    then obtain p where p: "p \<in> set (map fst fs) \<or> p \<in> set (map fst us)" "p \<in> set (map fst cs)" by blast
    obtain n where "p = ?d @ [n]"
      using p(1) f u by (elim disjE) blast+
    then have "length p = length ?d + 1" by simp
    with c [OF p(2)] show False by simp
  qed
  ultimately have "distinct (map fst (fs @ us @ cs))"
    using d unfolding map_append distinct_append set_append by blast
  then show ?thesis
    by (simp add: v0_dbg_dir_def 1 2 3)
qed

subsection \<open>Lemmas: a whole tree\<close>

text \<open>What the tree should be: under every path the read of the register of that name.\<close>

definition v0_dbg_spec :: "dw_edma \<Rightarrow> (string list \<times> (world \<Rightarrow> u32 \<times> world)) set" where
  "v0_dbg_spec dw =
     {([REGISTERS_STR, n], GET_32 (dw_chip dw) n) | n. n \<in> {''ctrl_data_arb_prior'', ''ctrl''}} \<union>
     {([REGISTERS_STR, dir_str dir, n], GET_RW_32 (dw_chip dw) dir n) | dir n. n \<in> set (dir_names dir)} \<union>
     {([REGISTERS_STR, dir_str dir, n], readl (reg_base (dw_chip dw) + 0xfc + offsetof dw_edma_v0_unroll (rw_name dir n))) | dir n.
        chip_mf (dw_chip dw) = EDMA_MF_HDMA_COMPAT \<and> n \<in> set dbg_unroll_names} \<union>
     {([REGISTERS_STR, dir_str dir, channel_dir j, n], GET_CH_32 (dw_chip dw) dir j n) | dir j n.
        j < dir_cnt dw dir \<and> n \<in> set ctx_names}"

definition v0_dbg_reads :: "dw_edma \<Rightarrow> dw_edma_debugfs_entry dbg_files \<Rightarrow> (string list \<times> (world \<Rightarrow> u32 \<times> world)) set" where
  "v0_dbg_reads dw fs = (\<lambda>(p, e). (p, dw_edma_debugfs_u32_get (dw_chip dw) e)) ` set fs"

lemma get_registers:
  "n \<in> {''ctrl_data_arb_prior'', ''ctrl''} \<Longrightarrow> dw_edma_debugfs_u32_get chip (REGISTER chip n) = GET_32 chip n"
  "n \<in> set (dir_names dir) \<Longrightarrow> dw_edma_debugfs_u32_get chip (RW_REGISTER chip dir n) = GET_RW_32 chip dir n"
proof -
  assume "n \<in> {''ctrl_data_arb_prior'', ''ctrl''}"
  then have "offsetof dw_edma_v0_regs n < 0xfc"
    by (auto simp: dw_edma_v0_regs_def)
  then show "dw_edma_debugfs_u32_get chip (REGISTER chip n) = GET_32 chip n"
    by (intro ext) (simp add: get_below REGISTER_def dbg_addr_def GET_32_def)
next
  assume "n \<in> set (dir_names dir)"
  then have "offsetof dw_edma_v0_regs (rw_name dir n) < 0xfc"
    using name_offsets(1,2) by (cases dir) simp_all
  then show "dw_edma_debugfs_u32_get chip (RW_REGISTER chip dir n) = GET_RW_32 chip dir n"
    by (intro ext) (simp add: get_below RW_REGISTER_def dbg_addr_def GET_RW_32_def GET_32_def)
qed

lemma get_unroll:
  "chip_mf chip = EDMA_MF_HDMA_COMPAT \<Longrightarrow>
   dw_edma_debugfs_u32_get chip (RW_REGISTER_UNROLL chip dir n) = readl (reg_base chip + 0xfc + offsetof dw_edma_v0_unroll (rw_name dir n))"
  by (intro ext) (simp add: dw_edma_debugfs_u32_get_def RW_REGISTER_UNROLL_def dbg_unroll_addr_def)

lemma dir_file_reads:
  assumes "dir_file dw dir [REGISTERS_STR] p e" "dir_cnt dw dir \<le> 8"
  shows "(p, dw_edma_debugfs_u32_get (dw_chip dw) e) \<in> v0_dbg_spec dw"
proof -
  consider n where "n \<in> set (dir_names dir)" "p = [REGISTERS_STR, dir_str dir, n]" "e = RW_REGISTER (dw_chip dw) dir n"
    | n where "chip_mf (dw_chip dw) = EDMA_MF_HDMA_COMPAT" "n \<in> set dbg_unroll_names" "p = [REGISTERS_STR, dir_str dir, n]"
        "e = RW_REGISTER_UNROLL (dw_chip dw) dir n"
    | j n where "j < dir_cnt dw dir" "n \<in> set ctx_names" "p = [REGISTERS_STR, dir_str dir, channel_dir j, n]"
        "e = CTX_REGISTER (dw_chip dw) dir (of_nat j) n"
    using assms(1) by (auto simp: dir_file_def)
  then show ?thesis
  proof cases
    case 1
    then show ?thesis by (auto simp: v0_dbg_spec_def get_registers)
  next
    case 2
    then show ?thesis by (auto simp: v0_dbg_spec_def get_unroll)
  next
    case 3
    then have "dw_edma_debugfs_u32_get (dw_chip dw) e = GET_CH_32 (dw_chip dw) dir j n"
      using assms(2) by (intro ext) (simp add: get_ctx)
    then show ?thesis
      using 3 by (auto simp: v0_dbg_spec_def)
  qed
qed

text \<open>With every allocation granted the trees are complete.\<close>

lemma dir_ok:
  assumes "kcalloc_ok w"
  shows "set (fst (v0_dbg_dir dw dir dent w)) =
      (\<lambda>n. (dent @ [dir_str dir, n], RW_REGISTER (dw_chip dw) dir n)) ` set (dir_names dir) \<union>
      (if chip_mf (dw_chip dw) = EDMA_MF_HDMA_COMPAT
       then (\<lambda>n. (dent @ [dir_str dir, n], RW_REGISTER_UNROLL (dw_chip dw) dir n)) ` set dbg_unroll_names else {}) \<union>
      (\<Union>j < dir_cnt dw dir. (\<lambda>n. (dent @ [dir_str dir, channel_dir j, n], CTX_REGISTER (dw_chip dw) dir (of_nat j) n)) ` set ctx_names)"
      (is ?S)
    "kcalloc_ok (snd (v0_dbg_dir dw dir dent w))"
proof -
  let ?d = "dent @ [dir_str dir]" and ?chip = "dw_chip dw"
  obtain fs w1 where 1: "dw_edma_debugfs_create_x32 (map (RW_REGISTER ?chip dir) (dir_names dir)) ?d w = (fs, w1)"
    by fastforce
  obtain us w2 where 2: "(if chip_mf ?chip = EDMA_MF_HDMA_COMPAT
      then dw_edma_debugfs_create_x32 (map (RW_REGISTER_UNROLL ?chip dir) dbg_unroll_names) ?d w1 else ([], w1)) = (us, w2)"
    by fastforce
  have fs: "fs = map (\<lambda>n. (dent @ [dir_str dir, n], RW_REGISTER ?chip dir n)) (dir_names dir)" "kcalloc_ok w1"
    using v0_tree.table_ok [OF assms, of "RW_REGISTER ?chip dir" "dir_names dir" ?d] 1 by simp_all
  have us: "us = (if chip_mf ?chip = EDMA_MF_HDMA_COMPAT
      then map (\<lambda>n. (dent @ [dir_str dir, n], RW_REGISTER_UNROLL ?chip dir n)) dbg_unroll_names else [])" "kcalloc_ok w2"
    using v0_tree.table_ok [OF fs(2), of "RW_REGISTER_UNROLL ?chip dir" dbg_unroll_names ?d] 2 fs(2) by (auto split: if_splits)
  obtain cs w3 where 3: "v0_dbg_channels ?chip dir (dir_cnt dw dir) 0 ?d w2 = (cs, w3)"
    by fastforce
  have cs: "set cs = (\<Union>j < dir_cnt dw dir. (\<lambda>n. (dent @ [dir_str dir, channel_dir j, n], CTX_REGISTER ?chip dir (of_nat j) n)) ` set ctx_names)"
    "kcalloc_ok w3"
    using v0_tree.channels_ok [OF us(2), of ?chip dir "dir_cnt dw dir" 0 ?d] 3 by (auto simp: atLeast0LessThan)
  have "v0_dbg_dir dw dir dent w = (fs @ us @ cs, w3)"
    by (simp add: v0_dbg_dir_def 1 2 3)
  then show ?S "kcalloc_ok (snd (v0_dbg_dir dw dir dent w))"
    using cs by (simp_all add: fs(1) us(1) Un_assoc)
qed

lemma dir_members:
  assumes "kcalloc_ok w"
  shows "n \<in> set (dir_names dir) \<Longrightarrow> (dent @ [dir_str dir, n], RW_REGISTER (dw_chip dw) dir n) \<in> set (fst (v0_dbg_dir dw dir dent w))"
    "chip_mf (dw_chip dw) = EDMA_MF_HDMA_COMPAT \<Longrightarrow> n \<in> set dbg_unroll_names \<Longrightarrow>
     (dent @ [dir_str dir, n], RW_REGISTER_UNROLL (dw_chip dw) dir n) \<in> set (fst (v0_dbg_dir dw dir dent w))"
    "j < dir_cnt dw dir \<Longrightarrow> n \<in> set ctx_names \<Longrightarrow>
     (dent @ [dir_str dir, channel_dir j, n], CTX_REGISTER (dw_chip dw) dir (of_nat j) n) \<in> set (fst (v0_dbg_dir dw dir dent w))"
  unfolding dir_ok(1) [OF assms] by (simp, simp, rule UnI2, rule UN_I [of j], simp, rule imageI, assumption)

lemma on_eq:
  assumes "init"
  shows "dw_edma_v0_debugfs_on init dw w =
    (let (fs, w) = dw_edma_debugfs_create_x32 (map (REGISTER (dw_chip dw)) [''ctrl_data_arb_prior'', ''ctrl'']) [REGISTERS_STR] w;
         (wr, w) = v0_dbg_dir dw EDMA_DIR_WRITE [REGISTERS_STR] w;
         (rd, w) = v0_dbg_dir dw EDMA_DIR_READ [REGISTERS_STR] w
     in ((dbg_data_files [], fs @ wr @ rd), w))"
  using assms by (simp add: dw_edma_v0_debugfs_on_def dw_edma_debugfs_regs_def regs_dir_eq Let_def split_beta)

lemma tree_sound:
  assumes "unat (wr_ch_cnt dw) \<le> 8" "unat (rd_ch_cnt dw) \<le> 8"
  shows "v0_dbg_reads dw (snd (fst (dw_edma_v0_debugfs_on init dw w))) \<subseteq> v0_dbg_spec dw"
proof -
  have "(p, dw_edma_debugfs_u32_get (dw_chip dw) e) \<in> v0_dbg_spec dw"
    if pe: "(p, e) \<in> set (snd (fst (dw_edma_v0_debugfs_on init dw w)))" for p e
  proof -
    have "init"
      using pe by (simp add: dw_edma_v0_debugfs_on_def split: if_splits)
    then consider w1 where "(p, e) \<in> set (fst (dw_edma_debugfs_create_x32 (map (REGISTER (dw_chip dw)) [''ctrl_data_arb_prior'', ''ctrl'']) [REGISTERS_STR] w1))"
      | dir w1 where "(p, e) \<in> set (fst (v0_dbg_dir dw dir [REGISTERS_STR] w1))"
      using pe by (auto simp: on_eq split_beta Let_def)
    then show ?thesis
    proof cases
      case 1
      from v0_tree.table_files [OF this] obtain n where "n \<in> {''ctrl_data_arb_prior'', ''ctrl''}" "p = [REGISTERS_STR, n]" "e = REGISTER (dw_chip dw) n"
        by (auto simp: REGISTER_def)
      then show ?thesis
        using get_registers(1) by (auto simp: v0_dbg_spec_def)
    next
      case 2
      have "dir_cnt dw dir \<le> 8"
        using assms by (cases dir) simp_all
      from dir_file_reads [OF dir_files [OF 2] this] show ?thesis .
    qed
  qed
  then show ?thesis
    by (auto simp: v0_dbg_reads_def)
qed

lemma reads_mem: "(p, e) \<in> set fs \<Longrightarrow> dw_edma_debugfs_u32_get (dw_chip dw) e = g \<Longrightarrow> (p, g) \<in> v0_dbg_reads dw fs"
  unfolding v0_dbg_reads_def by (rule rev_image_eqI, assumption) simp

lemma tree_complete:
  assumes "init" "kcalloc_ok w" "unat (wr_ch_cnt dw) \<le> 8" "unat (rd_ch_cnt dw) \<le> 8"
  shows "v0_dbg_spec dw \<subseteq> v0_dbg_reads dw (snd (fst (dw_edma_v0_debugfs_on init dw w)))"
proof -
  let ?chip = "dw_chip dw"
  obtain fs w1 where 1: "dw_edma_debugfs_create_x32 (map (REGISTER ?chip) [''ctrl_data_arb_prior'', ''ctrl'']) [REGISTERS_STR] w = (fs, w1)"
    by fastforce
  obtain wr w2 where 2: "v0_dbg_dir dw EDMA_DIR_WRITE [REGISTERS_STR] w1 = (wr, w2)" by fastforce
  obtain rd w3 where 3: "v0_dbg_dir dw EDMA_DIR_READ [REGISTERS_STR] w2 = (rd, w3)" by fastforce
  have files: "snd (fst (dw_edma_v0_debugfs_on init dw w)) = fs @ wr @ rd"
    using 1 2 3 by (simp add: on_eq [OF assms(1)])
  have fs: "fs = map (\<lambda>n. ([REGISTERS_STR, n], REGISTER ?chip n)) [''ctrl_data_arb_prior'', ''ctrl'']" "kcalloc_ok w1"
    using v0_tree.table_ok [OF assms(2), of "REGISTER ?chip" "[''ctrl_data_arb_prior'', ''ctrl'']" "[REGISTERS_STR]"] 1 by (simp_all add: REGISTER_def)
  define D where "D dir = (if dir = EDMA_DIR_WRITE then wr else rd)" for dir
  have D: "\<exists>v. kcalloc_ok v \<and> D dir = fst (v0_dbg_dir dw dir [REGISTERS_STR] v)" for dir
    using fs(2) 2 3 dir_ok(2) [OF fs(2), of dw EDMA_DIR_WRITE "[REGISTERS_STR]"] by (cases dir) (auto simp: D_def)
  have sub: "v0_dbg_reads dw (D dir) \<subseteq> v0_dbg_reads dw (fs @ wr @ rd)" for dir
    by (auto simp: v0_dbg_reads_def D_def)
  have cnt: "dir_cnt dw dir \<le> 8" for dir
    using assms(3,4) by (cases dir) simp_all
  have reg: "([REGISTERS_STR, dir_str dir, n], GET_RW_32 ?chip dir n) \<in> v0_dbg_reads dw (D dir)" if "n \<in> set (dir_names dir)" for dir n
  proof -
    have "([REGISTERS_STR, dir_str dir, n], RW_REGISTER ?chip dir n) \<in> set (D dir)"
      using D [of dir] dir_members(1) [OF _ that, where dent = "[REGISTERS_STR]"] by (elim exE conjE) simp
    from reads_mem [OF this get_registers(2) [OF that]] show ?thesis .
  qed
  have unroll: "([REGISTERS_STR, dir_str dir, n], readl (reg_base ?chip + 0xfc + offsetof dw_edma_v0_unroll (rw_name dir n))) \<in> v0_dbg_reads dw (D dir)"
    if "chip_mf ?chip = EDMA_MF_HDMA_COMPAT" "n \<in> set dbg_unroll_names" for dir n
  proof -
    have "([REGISTERS_STR, dir_str dir, n], RW_REGISTER_UNROLL ?chip dir n) \<in> set (D dir)"
      using D [of dir] dir_members(2) [OF _ that, where dent = "[REGISTERS_STR]"] by (elim exE conjE) simp
    from reads_mem [OF this get_unroll [OF that(1)]] show ?thesis .
  qed
  have ch: "([REGISTERS_STR, dir_str dir, channel_dir j, n], GET_CH_32 ?chip dir j n) \<in> v0_dbg_reads dw (D dir)"
    if "j < dir_cnt dw dir" "n \<in> set ctx_names" for dir j n
  proof -
    have "([REGISTERS_STR, dir_str dir, channel_dir j, n], CTX_REGISTER ?chip dir (of_nat j) n) \<in> set (D dir)"
      using D [of dir] dir_members(3) [OF _ that, where dent = "[REGISTERS_STR]"] by (elim exE conjE) simp
    moreover have "dw_edma_debugfs_u32_get ?chip (CTX_REGISTER ?chip dir (of_nat j) n) = GET_CH_32 ?chip dir j n"
      using that cnt [of dir] by (intro ext) (simp add: get_ctx)
    ultimately show ?thesis
      by (rule reads_mem)
  qed
  have top: "([REGISTERS_STR, n], GET_32 ?chip n) \<in> v0_dbg_reads dw (fs @ wr @ rd)" if "n \<in> {''ctrl_data_arb_prior'', ''ctrl''}" for n
    using that get_registers(1) [OF that, of ?chip] by (auto simp: v0_dbg_reads_def fs(1))
  show ?thesis
    unfolding files v0_dbg_spec_def using top reg [THEN subsetD [OF sub]] unroll [THEN subsetD [OF sub]] ch [THEN subsetD [OF sub]]
    by (intro Un_least subsetI; elim CollectE exE conjE; simp)
qed

lemma dir_file_path: "dir_file dw dir dent p e \<Longrightarrow> \<exists>q. q \<noteq> [] \<and> p = dent @ dir_str dir # q"
  by (auto simp: dir_file_def)

lemma dir_str_neq [simp]: "WRITE_STR \<noteq> READ_STR" "READ_STR \<noteq> WRITE_STR"
  by (simp_all add: WRITE_STR_def READ_STR_def)

lemma tree_paths: "distinct (map fst (snd (fst (dw_edma_v0_debugfs_on init dw w))))"
proof (cases init)
  case True
  let ?names = "[''ctrl_data_arb_prior'', ''ctrl'']"
  obtain fs w1 where 1: "dw_edma_debugfs_create_x32 (map (REGISTER (dw_chip dw)) ?names) [REGISTERS_STR] w = (fs, w1)"
    by fastforce
  obtain wr w2 where 2: "v0_dbg_dir dw EDMA_DIR_WRITE [REGISTERS_STR] w1 = (wr, w2)" by fastforce
  obtain rd w3 where 3: "v0_dbg_dir dw EDMA_DIR_READ [REGISTERS_STR] w2 = (rd, w3)" by fastforce
  have d: "distinct (map fst fs)" "distinct (map fst wr)" "distinct (map fst rd)"
    using v0_tree.table_paths [of ?names "REGISTER (dw_chip dw)" "[REGISTERS_STR]" w] 1
      dir_paths [of dw EDMA_DIR_WRITE "[REGISTERS_STR]" w1] 2 dir_paths [of dw EDMA_DIR_READ "[REGISTERS_STR]" w2] 3
    by (simp_all add: REGISTER_def)
  have f: "length p = 2" if "p \<in> set (map fst fs)" for p
    using that v0_tree.table_files [of p _ "REGISTER (dw_chip dw)" ?names "[REGISTERS_STR]" w] 1 by (fastforce simp: REGISTER_def)
  have wr: "3 \<le> length p \<and> p ! 1 = WRITE_STR" if "p \<in> set (map fst wr)" for p
    using that dir_file_path [OF dir_files, of p _ dw EDMA_DIR_WRITE "[REGISTERS_STR]" w1] 2 by (fastforce simp: Suc_le_eq)
  have rd: "3 \<le> length p \<and> p ! 1 = READ_STR" if "p \<in> set (map fst rd)" for p
    using that dir_file_path [OF dir_files, of p _ dw EDMA_DIR_READ "[REGISTERS_STR]" w2] 3 by (fastforce simp: Suc_le_eq)
  have "set (map fst fs) \<inter> (set (map fst wr) \<union> set (map fst rd)) = {}"
  proof (rule ccontr)
    assume "set (map fst fs) \<inter> (set (map fst wr) \<union> set (map fst rd)) \<noteq> {}"
    then obtain p where p: "p \<in> set (map fst fs)" "p \<in> set (map fst wr) \<or> p \<in> set (map fst rd)" by blast
    then have "3 \<le> length p" using wr rd by (elim disjE) blast+
    then show False using f [OF p(1)] by simp
  qed
  moreover have "set (map fst wr) \<inter> set (map fst rd) = {}"
  proof (rule ccontr)
    assume "set (map fst wr) \<inter> set (map fst rd) \<noteq> {}"
    then obtain p where p: "p \<in> set (map fst wr)" "p \<in> set (map fst rd)" by blast
    from wr [OF p(1)] rd [OF p(2)] show False by simp
  qed
  ultimately have "distinct (map fst (fs @ wr @ rd))"
    using d unfolding map_append distinct_append set_append by blast
  then show ?thesis
    using 1 2 3 by (simp add: on_eq [OF True])
qed (simp add: dw_edma_v0_debugfs_on_def)

definition ex_dbg_dw :: dw_edma where
  "ex_dbg_dw = \<lparr>dw_chip = ex_chip, wr_ch_cnt = 2, rd_ch_cnt = 2, dw_irqs = [], dw_nr_irqs = 0, dw_chan = [], dw_core = CORE_V0\<rparr>"

definition ex_dbg_world :: world where
  "ex_dbg_world = ex_world\<lparr>kret := \<lambda>_ _. 1\<rparr>"

lemma ex_dbg [simp]:
  "unat (wr_ch_cnt ex_dbg_dw) = 2" "unat (rd_ch_cnt ex_dbg_dw) = 2" "dw_chip ex_dbg_dw = ex_chip" "kcalloc_ok ex_dbg_world"
  by (simp_all add: ex_dbg_dw_def ex_dbg_world_def kcalloc_ok_def)

subsection \<open>Lemmas: the tree of an HDMA\<close>

definition hdma_dbg_spec :: "dw_edma \<Rightarrow> (string list \<times> (world \<Rightarrow> u32 \<times> world)) set" where
  "hdma_dbg_spec dw =
     {([REGISTERS_STR, dir_str dir, channel_dir j, n], HGET_CH_32 (dw_chip dw) (dir_val dir) j n) | dir j n.
        j < dir_cnt dw dir \<and> n \<in> set hdma_dbg_names}"

definition hdma_dbg_reads :: "dw_hdma_debugfs_entry dbg_files \<Rightarrow> (string list \<times> (world \<Rightarrow> u32 \<times> world)) set" where
  "hdma_dbg_reads fs = (\<lambda>(p, e). (p, dw_hdma_debugfs_u32_get e)) ` set fs"

lemma hdma_reads_mem: "(p, e) \<in> set fs \<Longrightarrow> dw_hdma_debugfs_u32_get e = g \<Longrightarrow> (p, g) \<in> hdma_dbg_reads fs"
  unfolding hdma_dbg_reads_def by (rule rev_image_eqI, assumption) simp

lemma hdma_get_ctx:
  "j < 8 \<Longrightarrow> dw_hdma_debugfs_u32_get (HDMA_CTX_REGISTER chip dir (of_nat j) n) = HGET_CH_32 chip (dir_val dir) j n"
  by (intro ext, cases dir)
    (simp_all add: dw_hdma_debugfs_u32_get_def HDMA_CTX_REGISTER_def hdma_dbg_ch_addr_def HGET_CH_32_def hdma_ch_regs_def
      unat_of_nat_16 Let_def)

lemma hdma_on_eq:
  assumes "init"
  shows "snd (fst (dw_hdma_v0_debugfs_on init dw w)) =
    (let (wr, w) = hdma_dbg_channels (dw_chip dw) EDMA_DIR_WRITE (dir_cnt dw EDMA_DIR_WRITE) 0 [REGISTERS_STR, dir_str EDMA_DIR_WRITE] w;
         (rd, w) = hdma_dbg_channels (dw_chip dw) EDMA_DIR_READ (dir_cnt dw EDMA_DIR_READ) 0 [REGISTERS_STR, dir_str EDMA_DIR_READ] w
     in wr @ rd)"
  using assms by (simp add: dw_hdma_v0_debugfs_on_def dw_hdma_debugfs_regs_def dw_hdma_debugfs_regs_wr_def
      dw_hdma_debugfs_regs_rd_def Let_def split_beta)

lemma hdma_tree:
  assumes "unat (wr_ch_cnt dw) \<le> 8" "unat (rd_ch_cnt dw) \<le> 8"
  shows "distinct (map fst (snd (fst (dw_hdma_v0_debugfs_on init dw w))))"
    "hdma_dbg_reads (snd (fst (dw_hdma_v0_debugfs_on init dw w))) \<subseteq> hdma_dbg_spec dw"
    "init \<Longrightarrow> kcalloc_ok w \<Longrightarrow> hdma_dbg_spec dw \<subseteq> hdma_dbg_reads (snd (fst (dw_hdma_v0_debugfs_on init dw w)))"
proof -
  let ?chip = "dw_chip dw"
  define D where "D dir v = fst (hdma_dbg_channels ?chip dir (dir_cnt dw dir) 0 [REGISTERS_STR, dir_str dir] v)" for dir v
  have cnt: "dir_cnt dw dir \<le> 8" for dir
    using assms by (cases dir) simp_all
  have files: "\<exists>j n. j < dir_cnt dw dir \<and> n \<in> set hdma_dbg_names \<and> p = [REGISTERS_STR, dir_str dir, channel_dir j, n] \<and>
      e = HDMA_CTX_REGISTER ?chip dir (of_nat j) n" if "(p, e) \<in> set (D dir v)" for p e dir v
    using hdma_tree.channel_files [of p e ?chip dir _ 0 "[REGISTERS_STR, dir_str dir]" v] that by (auto simp: D_def)
  obtain v where on: "init \<Longrightarrow> snd (fst (dw_hdma_v0_debugfs_on init dw w)) = D EDMA_DIR_WRITE w @ D EDMA_DIR_READ v"
    and v: "v = snd (hdma_dbg_channels ?chip EDMA_DIR_WRITE (dir_cnt dw EDMA_DIR_WRITE) 0 [REGISTERS_STR, dir_str EDMA_DIR_WRITE] w)"
    by (simp add: hdma_on_eq D_def Let_def split_beta)
  have "set (map fst (D EDMA_DIR_WRITE w)) \<inter> set (map fst (D EDMA_DIR_READ v)) = {}"
  proof (rule ccontr)
    assume "set (map fst (D EDMA_DIR_WRITE w)) \<inter> set (map fst (D EDMA_DIR_READ v)) \<noteq> {}"
    then obtain p e e' where p: "(p, e) \<in> set (D EDMA_DIR_WRITE w)" "(p, e') \<in> set (D EDMA_DIR_READ v)" by auto
    from files [OF p(1)] files [OF p(2)] show False by auto
  qed
  then show "distinct (map fst (snd (fst (dw_hdma_v0_debugfs_on init dw w))))"
    using hdma_tree.channel_paths on by (cases init) (simp_all add: D_def dw_hdma_v0_debugfs_on_def)
  have "(p, dw_hdma_debugfs_u32_get e) \<in> hdma_dbg_spec dw" if "(p, e) \<in> set (D dir u)" for p e dir u
  proof -
    obtain j n where j: "j < dir_cnt dw dir" "n \<in> set hdma_dbg_names" "p = [REGISTERS_STR, dir_str dir, channel_dir j, n]"
      "e = HDMA_CTX_REGISTER ?chip dir (of_nat j) n"
      using files [OF \<open>(p, e) \<in> set (D dir u)\<close>] by blast
    then have "dw_hdma_debugfs_u32_get e = HGET_CH_32 ?chip (dir_val dir) j n"
      using cnt [of dir] by (simp add: hdma_get_ctx)
    then show ?thesis
      using j by (auto simp: hdma_dbg_spec_def)
  qed
  then show "hdma_dbg_reads (snd (fst (dw_hdma_v0_debugfs_on init dw w))) \<subseteq> hdma_dbg_spec dw"
    using on by (cases init) (auto simp: hdma_dbg_reads_def dw_hdma_v0_debugfs_on_def)
  assume i: "init" "kcalloc_ok w"
  have "kcalloc_ok v"
    using hdma_tree.channels_ok [OF i(2)] by (simp add: v)
  have "([REGISTERS_STR, dir_str dir, channel_dir j, n], HGET_CH_32 ?chip (dir_val dir) j n) \<in>
      hdma_dbg_reads (D EDMA_DIR_WRITE w @ D EDMA_DIR_READ v)" if j: "j < dir_cnt dw dir" "n \<in> set hdma_dbg_names" for dir j n
  proof (rule hdma_reads_mem)
    have "([REGISTERS_STR, dir_str dir, channel_dir j, n], HDMA_CTX_REGISTER ?chip dir (of_nat j) n) \<in> set (D dir u)" if "kcalloc_ok u" for u
      using hdma_tree.channels_ok [OF that] j by (auto simp: D_def)
    from this [OF i(2)] this [OF \<open>kcalloc_ok v\<close>]
    show "([REGISTERS_STR, dir_str dir, channel_dir j, n], HDMA_CTX_REGISTER ?chip dir (of_nat j) n) \<in> set (D EDMA_DIR_WRITE w @ D EDMA_DIR_READ v)"
      by (cases dir) simp_all
    show "dw_hdma_debugfs_u32_get (HDMA_CTX_REGISTER ?chip dir (of_nat j) n) = HGET_CH_32 ?chip (dir_val dir) j n"
      using cnt [of dir] j(1) by (intro hdma_get_ctx) simp
  qed
  then show "hdma_dbg_spec dw \<subseteq> hdma_dbg_reads (snd (fst (dw_hdma_v0_debugfs_on init dw w)))"
    unfolding on [OF i(1)] hdma_dbg_spec_def by blast
qed

subsection \<open>Both trees\<close>

definition dbg_data_reads :: "dw_edma \<Rightarrow> dbg_data dbg_files \<Rightarrow> (string list \<times> u32) set" where
  "dbg_data_reads dw fs = (\<lambda>(p, d). (p, dbg_data_get dw d)) ` set fs"

definition dbg_data_spec :: "dw_edma \<Rightarrow> (string list \<times> u32) set" where
  "dbg_data_spec dw = {([''mf''], mf_val (chip_mf (dw_chip dw))), ([''wr_ch_cnt''], ucast (wr_ch_cnt dw)),
     ([''rd_ch_cnt''], ucast (rd_ch_cnt dw))}"

text \<open>The files of the registers are all below their directory, those of the data are not.\<close>

lemma below_registers:
  "v0_dbg_reads dw fs \<subseteq> v0_dbg_spec dw \<Longrightarrow> (p, e) \<in> set fs \<Longrightarrow> \<exists>q. p = REGISTERS_STR # q"
  "hdma_dbg_reads hs \<subseteq> hdma_dbg_spec dw \<Longrightarrow> (p, h) \<in> set hs \<Longrightarrow> \<exists>q. p = REGISTERS_STR # q"
proof -
  assume "v0_dbg_reads dw fs \<subseteq> v0_dbg_spec dw" "(p, e) \<in> set fs"
  then have "(p, dw_edma_debugfs_u32_get (dw_chip dw) e) \<in> v0_dbg_spec dw"
    using reads_mem [OF _ refl] by blast
  then show "\<exists>q. p = REGISTERS_STR # q"
    by (auto simp: v0_dbg_spec_def)
next
  assume "hdma_dbg_reads hs \<subseteq> hdma_dbg_spec dw" "(p, h) \<in> set hs"
  then have "(p, dw_hdma_debugfs_u32_get h) \<in> hdma_dbg_spec dw"
    using hdma_reads_mem [OF _ refl] by blast
  then show "\<exists>q. p = REGISTERS_STR # q"
    by (auto simp: hdma_dbg_spec_def)
qed

lemma data_paths:
  assumes "\<And>p e. (p, e) \<in> set fs \<Longrightarrow> \<exists>q. p = REGISTERS_STR # q" "distinct (map fst fs)" "data = [] \<or> data = dbg_data_files []"
  shows "distinct (map fst data @ map fst fs)"
proof -
  have "p \<notin> set (map fst fs)" if "p \<in> {[''mf''], [''wr_ch_cnt''], [''rd_ch_cnt'']}" for p
  proof
    assume "p \<in> set (map fst fs)"
    then obtain e where "(p, e) \<in> set fs" by auto
    from assms(1) [OF this] that show False
      by (auto simp: REGISTERS_STR_def)
  qed
  then show ?thesis
    using assms(2,3) by (elim disjE) (simp_all add: dbg_data_files_def del: set_map)
qed

text \<open>C36: Every register file of either tree reads exactly the register its path names, through
  the same access as the driver itself: on an eDMA with the legacy map the viewport is set to the channel
  and the direction of the file's directory first. The other files show the map format and the counts. No
  path occurs twice, and when debugfs is up and every allocation is granted no register of the tables, no
  direction and no channel is missing.\<close>

theorem debugfs_reads_named_register:
  assumes "unat (wr_ch_cnt dw) \<le> 8" "unat (rd_ch_cnt dw) \<le> 8"
    "dw_edma_v0_debugfs_on init dw w = ((data, regs), w')" "dw_hdma_v0_debugfs_on init dw w = ((hdata, hregs), hw')"
  shows "distinct (map fst data @ map fst regs) \<and> distinct (map fst hdata @ map fst hregs) \<and>
    v0_dbg_reads dw regs \<subseteq> v0_dbg_spec dw \<and> hdma_dbg_reads hregs \<subseteq> hdma_dbg_spec dw \<and>
    (init \<longrightarrow> dbg_data_reads dw data = dbg_data_spec dw \<and> dbg_data_reads dw hdata = dbg_data_spec dw) \<and>
    (init \<and> kcalloc_ok w \<longrightarrow> v0_dbg_reads dw regs = v0_dbg_spec dw \<and> hdma_dbg_reads hregs = hdma_dbg_spec dw)"
proof -
  have data: "data = (if init then dbg_data_files [] else [])" "hdata = (if init then dbg_data_files [] else [])"
    using assms(3,4) by (auto simp: dw_edma_v0_debugfs_on_def dw_hdma_v0_debugfs_on_def split: prod.splits)
  have on: "snd (fst (dw_edma_v0_debugfs_on init dw w)) = regs" "snd (fst (dw_hdma_v0_debugfs_on init dw w)) = hregs"
    using assms(3,4) by simp_all
  note v0 = tree_paths [of init dw w, unfolded on] tree_sound [OF assms(1,2), of init w, unfolded on]
    tree_complete [OF _ _ assms(1,2), of init w, unfolded on]
  note hdma = hdma_tree [OF assms(1,2), of init w, unfolded on]
  have "distinct (map fst data @ map fst regs)" "distinct (map fst hdata @ map fst hregs)"
    using v0(1) hdma(1) data below_registers(1) [OF v0(2)] below_registers(2) [OF hdma(2)]
    by (intro data_paths; simp)+
  moreover have "init \<longrightarrow> dbg_data_reads dw data = dbg_data_spec dw \<and> dbg_data_reads dw hdata = dbg_data_spec dw"
    by (simp add: data dbg_data_reads_def dbg_data_spec_def dbg_data_files_def)
  ultimately show ?thesis
    using v0(2,3) hdma(2,3) by (simp add: equalityI)
qed

theorem debugfs_reads_named_register_witness:
  "([''registers'', ''read'', ''channel:1'', ''sar.lsb''], GET_CH_32 ex_chip EDMA_DIR_READ 1 ''sar.lsb'') \<in>
     v0_dbg_reads ex_dbg_dw (snd (fst (dw_edma_v0_debugfs_on True ex_dbg_dw ex_dbg_world))) \<and>
   ([''wr_ch_cnt''], 2) \<in> dbg_data_reads ex_dbg_dw (fst (fst (dw_edma_v0_debugfs_on True ex_dbg_dw ex_dbg_world)))"
proof -
  obtain data regs w' hdata hregs hw' where on: "dw_edma_v0_debugfs_on True ex_dbg_dw ex_dbg_world = ((data, regs), w')"
    "dw_hdma_v0_debugfs_on True ex_dbg_dw ex_dbg_world = ((hdata, hregs), hw')"
    by (metis surj_pair)
  have "v0_dbg_reads ex_dbg_dw regs = v0_dbg_spec ex_dbg_dw" "dbg_data_reads ex_dbg_dw data = dbg_data_spec ex_dbg_dw"
    using debugfs_reads_named_register [OF _ _ on] by simp_all
  moreover have "channel_dir 1 = ''channel:1''"
    by (simp add: channel_dir_def CHANNEL_STR_def decimal.simps [of "Suc 0"] char_of_def bit_Suc_0_iff)
  moreover have "([REGISTERS_STR, dir_str EDMA_DIR_READ, channel_dir 1, ''sar.lsb''], GET_CH_32 (dw_chip ex_dbg_dw) EDMA_DIR_READ 1 ''sar.lsb'') \<in>
      v0_dbg_spec ex_dbg_dw"
    unfolding v0_dbg_spec_def by (intro UnI2 CollectI exI conjI, rule refl) (simp_all add: ctx_names_def)
  moreover have "([''wr_ch_cnt''], 2) \<in> dbg_data_spec ex_dbg_dw"
    by (simp add: dbg_data_spec_def ex_dbg_dw_def)
  ultimately show ?thesis
    by (simp add: on REGISTERS_STR_def READ_STR_def)
qed

end
