(* ===== verification/Debug_54.thy ===== *)
theory Debug_54
  imports Debug_Files "HOL-Library.Sublist"
begin

section \<open>The debugfs files of the copy for kernel 5.4\<close>

text \<open>
  The copies \<open>kernel/5.4/akida-dw-edma/dw-edma-v0-debugfs.c\<close> and \<open>dw-hdma-v0-debugfs.c\<close> make the
  files of the driver's trees in a directory \<open>dw->debugfs\<close> of their own, where the driver uses the one
  of its DMA device. Paths are those below the root of debugfs, which is also what a parent of \<open>NULL\<close>
  (here \<open>None\<close>) stands for; a pointer to a directory is its path. The tables and the loops over the
  channels are the driver's text.
\<close>

type_synonym dentry = "string list option"

definition dentry_path :: "dentry \<Rightarrow> string list" where
  "dentry_path dent = (case dent of None \<Rightarrow> [] | Some p \<Rightarrow> p)"

definition dw_edma_debugfs_regs_54 ::
  "dw_edma \<Rightarrow> dentry \<Rightarrow> world \<Rightarrow> dw_edma_debugfs_entry dbg_files \<times> world" where
  "dw_edma_debugfs_regs_54 dw debugfs w =
     (let debugfs_regs = [REGISTER (dw_chip dw) ''ctrl_data_arb_prior'', REGISTER (dw_chip dw) ''ctrl''];
          regs_dent = dentry_path debugfs @ [REGISTERS_STR];
          (fs, w) = dw_edma_debugfs_create_x32 debugfs_regs regs_dent w;
          (wr, w) = dw_edma_debugfs_regs_wr dw regs_dent w;
          (rd, w) = dw_edma_debugfs_regs_rd dw regs_dent w
      in (fs @ wr @ rd, w))"

text \<open>The result has the files, the new value of \<open>dw->debugfs\<close> and the world.\<close>

definition dw_edma_v0_debugfs_on_54 ::
  "bool \<Rightarrow> string \<Rightarrow> dw_edma \<Rightarrow> dentry \<Rightarrow> world \<Rightarrow>
   (dbg_data dbg_files \<times> dw_edma_debugfs_entry dbg_files) \<times> dentry \<times> world" where
  "dw_edma_v0_debugfs_on_54 initialized name dw debugfs w =
     (if \<not> initialized then (([], []), debugfs, w)
      else
        (let debugfs = Some [name];
             data = dbg_data_files (dentry_path debugfs);
             (regs, w) = dw_edma_debugfs_regs_54 dw debugfs w
         in ((data, regs), debugfs, w)))"

text \<open>On the files there are: \<open>debugfs_remove_recursive\<close> of \<open>NULL\<close> does nothing.\<close>

definition dw_edma_v0_debugfs_off_54 :: "dentry \<Rightarrow> 'f dbg_files \<Rightarrow> dentry \<times> 'f dbg_files" where
  "dw_edma_v0_debugfs_off_54 debugfs fs =
     (let fs = (case debugfs of None \<Rightarrow> fs | Some d \<Rightarrow> filter (\<lambda>(p, _). \<not> prefix d p) fs) in (None, fs))"

definition dw_hdma_debugfs_regs_54 ::
  "dw_edma \<Rightarrow> dentry \<Rightarrow> world \<Rightarrow> dw_hdma_debugfs_entry dbg_files \<times> world" where
  "dw_hdma_debugfs_regs_54 dw debugfs w =
     (let regs_dent = dentry_path debugfs @ [REGISTERS_STR];
          (wr, w) = dw_hdma_debugfs_regs_wr dw regs_dent w;
          (rd, w) = dw_hdma_debugfs_regs_rd dw regs_dent w
      in (wr @ rd, w))"

definition dw_hdma_v0_debugfs_on_54 ::
  "bool \<Rightarrow> dw_edma \<Rightarrow> dentry \<Rightarrow> world \<Rightarrow> (dbg_data dbg_files \<times> dw_hdma_debugfs_entry dbg_files) \<times> dentry \<times> world" where
  "dw_hdma_v0_debugfs_on_54 initialized dw debugfs w =
     (if \<not> initialized then (([], []), debugfs, w)
      else
        (let data = dbg_data_files (dentry_path debugfs);
             (regs, w) = dw_hdma_debugfs_regs_54 dw debugfs w
         in ((data, regs), debugfs, w)))"

subsection \<open>Lemmas\<close>

lemma data_below: "dbg_data_files q = below q (dbg_data_files [])"
  by (simp add: dbg_data_files_def below_def)

lemma v0_dir_below: "v0_dbg_dir dw dir (q @ dent) w = (below q (fst (v0_dbg_dir dw dir dent w)), snd (v0_dbg_dir dw dir dent w))"
  by (simp add: v0_dbg_dir_def v0_tree.create_below v0_tree.channels_below Let_def split_beta)

lemma v0_regs_below:
  "dw_edma_debugfs_regs_54 dw debugfs w =
     (below (dentry_path debugfs) (fst (dw_edma_debugfs_regs dw w)), snd (dw_edma_debugfs_regs dw w))"
  by (simp add: dw_edma_debugfs_regs_54_def dw_edma_debugfs_regs_def regs_dir_eq v0_tree.create_below v0_dir_below
      Let_def split_beta)

lemma hdma_dirs_below:
  "dw_hdma_debugfs_regs_wr dw (q @ dent) w =
     (below q (fst (dw_hdma_debugfs_regs_wr dw dent w)), snd (dw_hdma_debugfs_regs_wr dw dent w))"
  "dw_hdma_debugfs_regs_rd dw (q @ dent) w =
     (below q (fst (dw_hdma_debugfs_regs_rd dw dent w)), snd (dw_hdma_debugfs_regs_rd dw dent w))"
  by (simp_all add: dw_hdma_debugfs_regs_wr_def dw_hdma_debugfs_regs_rd_def hdma_tree.channels_below)

lemma hdma_regs_below:
  "dw_hdma_debugfs_regs_54 dw debugfs w =
     (below (dentry_path debugfs) (fst (dw_hdma_debugfs_regs dw w)), snd (dw_hdma_debugfs_regs dw w))"
  by (simp add: dw_hdma_debugfs_regs_54_def dw_hdma_debugfs_regs_def hdma_dirs_below Let_def split_beta)

lemma off_below:
  assumes "\<forall>(p, e) \<in> set fs. \<not> prefix q p"
  shows "dw_edma_v0_debugfs_off_54 (Some q) (fs @ below q gs) = (None, fs)"
  using assms by (auto simp: dw_edma_v0_debugfs_off_54_def below_def filter_id_conv filter_empty_conv)

text \<open>The copy for kernel 5.4 makes the driver's files. Those of an eDMA are below a directory
  with the name of the device, and switching debugfs off removes them and no others. Those of an HDMA are
  at the root of debugfs, without the name of the device, since nothing has set the directory of an HDMA;
  switching off with this directory removes nothing.\<close>

theorem kernel54_debugfs_tree:
  assumes "dw_edma_v0_debugfs_on init dw w = ((data, regs), w')" "dw_hdma_v0_debugfs_on init dw w = ((hdata, hregs), hw')"
    "\<forall>(p, e) \<in> set fs. \<not> prefix [name] p"
  shows "dw_edma_v0_debugfs_on_54 init name dw debugfs w =
      ((below [name] data, below [name] regs), (if init then Some [name] else debugfs), w') \<and>
    dw_edma_v0_debugfs_off_54 (Some [name]) (fs @ below [name] regs) = (None, fs) \<and>
    dw_hdma_v0_debugfs_on_54 init dw None w = ((hdata, hregs), None, hw') \<and>
    dw_edma_v0_debugfs_off_54 None (gs @ hregs) = (None, gs @ hregs)"
proof (intro conjI)
  show "dw_edma_v0_debugfs_on_54 init name dw debugfs w =
      ((below [name] data, below [name] regs), (if init then Some [name] else debugfs), w')"
    using assms(1) by (auto simp: dw_edma_v0_debugfs_on_54_def dw_edma_v0_debugfs_on_def v0_regs_below dentry_path_def
        data_below [of "[name]"] Let_def split_beta)
  show "dw_hdma_v0_debugfs_on_54 init dw None w = ((hdata, hregs), None, hw')"
    using assms(2) by (auto simp: dw_hdma_v0_debugfs_on_54_def dw_hdma_v0_debugfs_on_def hdma_regs_below dentry_path_def
        Let_def split_beta)
qed (rule off_below [OF assms(3)], simp add: dw_edma_v0_debugfs_off_54_def)

theorem kernel54_debugfs_tree_witness:
  "([''dw-edma'', ''registers'', ''ctrl''], REGISTER ex_chip ''ctrl'') \<in>
     set (snd (fst (dw_edma_v0_debugfs_on_54 True ''dw-edma'' ex_dbg_dw None ex_dbg_world)))"
proof -
  obtain data regs w' hdata hregs hw' where on: "dw_edma_v0_debugfs_on True ex_dbg_dw ex_dbg_world = ((data, regs), w')"
    "dw_hdma_v0_debugfs_on True ex_dbg_dw ex_dbg_world = ((hdata, hregs), hw')"
    by (metis surj_pair)
  have "([''registers'', ''ctrl''], REGISTER ex_chip ''ctrl'') \<in> set regs"
    using on(1) v0_tree.table_ok(1) [OF ex_dbg(4), of "REGISTER ex_chip" "[''ctrl_data_arb_prior'', ''ctrl'']" "[REGISTERS_STR]"]
    by (auto simp: on_eq Let_def split_beta REGISTERS_STR_def REGISTER_def)
  then show ?thesis
    using kernel54_debugfs_tree [OF on, of "[]" "''dw-edma''" None "[]"] by (force simp: below_def)
qed

end
