(* ===== verification/Virt_Dma_54.thy ===== *)
theory Virt_Dma_54
  imports Virt_Dma "HOL-Library.Multiset"
begin

section \<open>The headers of kernel 5.4 (kernel/5.4/drivers/dma/virt-dma.h, dmaengine.h)\<close>

text \<open>
  Up to kernel 5.6 the driver is compiled against the headers of kernel 5.4. A channel there has four
  descriptor lists and one pointer \<open>vd_terminated\<close> in place of the fifth list; terminating a descriptor
  releases the one terminated before. This theory models these headers and compares them with the newer
  ones of \<open>Virt_Dma\<close> (those of 5.6 and 5.7 are the same text for \<open>virt-dma.h\<close>): what the driver uses
  behaves alike under the abstraction \<open>upgrade\<close>, and with either header no descriptor is lost or
  released twice.
\<close>

record 'd virt_dma_chan_54 =
  cookie_54 :: s32
  completed_cookie_54 :: s32
  allocated_54 :: "'d list"
  submitted_54 :: "'d list"
  issued_54 :: "'d list"
  completed_54 :: "'d list"
  cyclic_54 :: "nat option"
  vd_terminated :: "'d option"
  tasklet_54 :: bool

subsection \<open>Cookies\<close>

definition dma_cookie_init_54 :: "'d virt_dma_chan_54 \<Rightarrow> 'd virt_dma_chan_54" where
  "dma_cookie_init_54 vc = vc\<lparr>cookie_54 := DMA_MIN_COOKIE, completed_cookie_54 := DMA_MIN_COOKIE\<rparr>"

definition dma_cookie_assign_54 ::
  "'a virt_dma_desc_scheme \<Rightarrow> 'd virt_dma_chan_54 \<Rightarrow> s32 \<times> 'a virt_dma_desc_scheme \<times> 'd virt_dma_chan_54" where
  "dma_cookie_assign_54 tx vc =
     (let cookie = cookie_54 vc + 1;
          cookie = (if sint cookie < sint DMA_MIN_COOKIE then DMA_MIN_COOKIE else cookie)
      in (cookie, tx\<lparr>vd_cookie := cookie\<rparr>, vc\<lparr>cookie_54 := cookie\<rparr>))"

definition dma_cookie_complete_54 ::
  "'a virt_dma_desc_scheme \<Rightarrow> 'd virt_dma_chan_54 \<Rightarrow> ('a virt_dma_desc_scheme \<times> 'd virt_dma_chan_54) option" where
  "dma_cookie_complete_54 tx vc =
     (if sint (vd_cookie tx) < sint DMA_MIN_COOKIE then None
      else Some (tx\<lparr>vd_cookie := 0\<rparr>, vc\<lparr>completed_cookie_54 := vd_cookie tx\<rparr>))"

text \<open>The transfer state of kernel 5.4 has no count of bytes in flight: that field is not written.\<close>

definition dma_cookie_status_54 ::
  "(s32 \<Rightarrow> s32 \<Rightarrow> s32 \<Rightarrow> dma_status) \<Rightarrow> 'd virt_dma_chan_54 \<Rightarrow> s32 \<Rightarrow> dma_tx_state option \<Rightarrow>
   dma_status \<times> dma_tx_state option" where
  "dma_cookie_status_54 dma_async_is_complete vc cookie state =
     (let used = cookie_54 vc; complete = completed_cookie_54 vc;
          state = map_option (\<lambda>st. st\<lparr>tx_last := complete, tx_used := used, tx_residue := 0\<rparr>) state
      in (dma_async_is_complete cookie complete used, state))"

definition dmaengine_desc_callback_valid_54 :: "('r, 'p) desc_callback \<Rightarrow> bool" where
  "dmaengine_desc_callback_valid_54 cb \<longleftrightarrow> (if cb_callback cb \<noteq> None then True else False)"

subsection \<open>Descriptor lists\<close>

definition vchan_tx_prep_54 ::
  "'a virt_dma_desc_scheme virt_dma_chan_54 \<Rightarrow> 'a virt_dma_desc_scheme \<Rightarrow> u64 \<Rightarrow>
   'a virt_dma_desc_scheme virt_dma_chan_54" where
  "vchan_tx_prep_54 vc vd tx_flags =
     vc\<lparr>allocated_54 := allocated_54 vc @ [vd\<lparr>vd_flags := tx_flags, vd_residue := 0\<rparr>]\<rparr>"

definition vchan_issue_pending_54 :: "'d virt_dma_chan_54 \<Rightarrow> bool \<times> 'd virt_dma_chan_54" where
  "vchan_issue_pending_54 vc =
     (let vc' = vc\<lparr>issued_54 := issued_54 vc @ submitted_54 vc, submitted_54 := []\<rparr>
      in (issued_54 vc' \<noteq> [], vc'))"

text \<open>The descriptor has been unlinked by the caller, here and in \<open>vchan_terminate_vdesc_54\<close>.\<close>

definition vchan_cookie_complete_54 ::
  "'a virt_dma_desc_scheme \<Rightarrow> 'a virt_dma_desc_scheme virt_dma_chan_54 \<Rightarrow>
   'a virt_dma_desc_scheme virt_dma_chan_54 option" where
  "vchan_cookie_complete_54 vd vc =
     (case dma_cookie_complete_54 vd vc of
        None \<Rightarrow> None
      | Some (vd', vc') \<Rightarrow> Some (vc'\<lparr>completed_54 := completed_54 vc' @ [vd'], tasklet_54 := True\<rparr>))"

text \<open>Reuse, or the list of descriptors handed to the driver's \<open>desc_free\<close>.\<close>

definition vchan_vdesc_fini_54 ::
  "'a virt_dma_desc_scheme \<Rightarrow> 'a virt_dma_desc_scheme virt_dma_chan_54 \<Rightarrow>
   'a virt_dma_desc_scheme virt_dma_chan_54 \<times> 'a virt_dma_desc_scheme list" where
  "vchan_vdesc_fini_54 vd vc =
     (if vd_reuse vd then (vc\<lparr>allocated_54 := vd # allocated_54 vc\<rparr>, []) else (vc, [vd]))"

definition vchan_cyclic_callback_54 ::
  "'a virt_dma_desc_scheme \<Rightarrow> 'd virt_dma_chan_54 \<Rightarrow> 'd virt_dma_chan_54" where
  "vchan_cyclic_callback_54 vd vc = vc\<lparr>cyclic_54 := Some (vd_addr vd), tasklet_54 := True\<rparr>"

definition vchan_terminate_vdesc_54 ::
  "'a virt_dma_desc_scheme \<Rightarrow> 'a virt_dma_desc_scheme virt_dma_chan_54 \<Rightarrow>
   'a virt_dma_desc_scheme virt_dma_chan_54 \<times> 'a virt_dma_desc_scheme list" where
  "vchan_terminate_vdesc_54 vd vc =
     (let (vc, freed) = (case vd_terminated vc of None \<Rightarrow> (vc, []) | Some stuck \<Rightarrow> vchan_vdesc_fini_54 stuck vc);
          vc = vc\<lparr>vd_terminated := Some vd\<rparr>;
          vc = (if cyclic_54 vc = Some (vd_addr vd) then vc\<lparr>cyclic_54 := None\<rparr> else vc)
      in (vc, freed))"

definition vchan_next_desc_54 :: "'d virt_dma_chan_54 \<Rightarrow> 'd option" where
  "vchan_next_desc_54 vc = (case issued_54 vc of [] \<Rightarrow> None | vd # _ \<Rightarrow> Some vd)"

definition vchan_get_all_descriptors_54 ::
  "'d virt_dma_chan_54 \<Rightarrow> 'd list \<Rightarrow> 'd list \<times> 'd virt_dma_chan_54" where
  "vchan_get_all_descriptors_54 vc head =
     (head @ allocated_54 vc @ submitted_54 vc @ issued_54 vc @ completed_54 vc,
      vc\<lparr>allocated_54 := [], submitted_54 := [], issued_54 := [], completed_54 := []\<rparr>)"

text \<open>The list handed to \<open>vchan_dma_desc_free_list\<close>, and the emptied channel.\<close>

definition vchan_free_chan_resources_54 ::
  "'a virt_dma_desc_scheme virt_dma_chan_54 \<Rightarrow>
   'a virt_dma_desc_scheme list \<times> 'a virt_dma_desc_scheme virt_dma_chan_54" where
  "vchan_free_chan_resources_54 vc =
     (let (head, vc') = vchan_get_all_descriptors_54 vc []
      in (map (\<lambda>vd. vd\<lparr>vd_reuse := False\<rparr>) head, vc'))"

definition vchan_synchronize_54 ::
  "'a virt_dma_desc_scheme virt_dma_chan_54 \<Rightarrow>
   'a virt_dma_desc_scheme list \<times> 'a virt_dma_desc_scheme virt_dma_chan_54" where
  "vchan_synchronize_54 vc =
     (let vc = vc\<lparr>tasklet_54 := False\<rparr> in
      case vd_terminated vc of
        None \<Rightarrow> ([], vc)
      | Some vd \<Rightarrow> (let (vc, freed) = vchan_vdesc_fini_54 vd vc in (freed, vc\<lparr>vd_terminated := None\<rparr>)))"

subsection \<open>Sequences of header calls\<close>

text \<open>
  A client of a header works on the descriptor at the head of the issued list: it unlinks it before it
  completes or terminates it. \<open>V_kernel\<close> is a function of the kernel on the channel, such as
  \<open>vchan_tx_submit\<close>. A call has a result, the descriptors it hands back, and the channel it leaves;
  \<open>None\<close> is the \<open>BUG_ON\<close> of a descriptor without a cookie.
\<close>

datatype ('c, 'd) vc_op =
  V_prep 'd u64 | V_kernel "'c \<Rightarrow> 'c" | V_issue | V_next | V_complete | V_status s32 "dma_tx_state option" |
  V_cyclic | V_terminate | V_sync | V_free

datatype 'd vc_out = O_none | O_issue bool | O_next "'d option" | O_status dma_status "dma_tx_state option"

fun vc_exec_54 ::
  "(s32 \<Rightarrow> s32 \<Rightarrow> s32 \<Rightarrow> dma_status) \<Rightarrow>
   ('a virt_dma_desc_scheme virt_dma_chan_54, 'a virt_dma_desc_scheme) vc_op \<Rightarrow> 'a virt_dma_desc_scheme virt_dma_chan_54 \<Rightarrow>
   ('a virt_dma_desc_scheme vc_out \<times> 'a virt_dma_desc_scheme list \<times> 'a virt_dma_desc_scheme virt_dma_chan_54) option" where
  "vc_exec_54 cm (V_prep vd fl) vc = Some (O_none, [], vchan_tx_prep_54 vc vd fl)"
| "vc_exec_54 cm (V_kernel g) vc = Some (O_none, [], g vc)"
| "vc_exec_54 cm V_issue vc = (let (b, vc) = vchan_issue_pending_54 vc in Some (O_issue b, [], vc))"
| "vc_exec_54 cm V_next vc = Some (O_next (vchan_next_desc_54 vc), [], vc)"
| "vc_exec_54 cm V_complete vc =
     (case issued_54 vc of
        [] \<Rightarrow> Some (O_none, [], vc)
      | vd # ds \<Rightarrow> map_option (\<lambda>vc. (O_none, [], vc)) (vchan_cookie_complete_54 vd (vc\<lparr>issued_54 := ds\<rparr>)))"
| "vc_exec_54 cm (V_status cookie st) vc =
     (let (r, st) = dma_cookie_status_54 cm vc cookie st in Some (O_status r st, [], vc))"
| "vc_exec_54 cm V_cyclic vc =
     (case issued_54 vc of [] \<Rightarrow> Some (O_none, [], vc) | vd # _ \<Rightarrow> Some (O_none, [], vchan_cyclic_callback_54 vd vc))"
| "vc_exec_54 cm V_terminate vc =
     (case issued_54 vc of
        [] \<Rightarrow> Some (O_none, [], vc)
      | vd # ds \<Rightarrow> (let (vc, freed) = vchan_terminate_vdesc_54 vd (vc\<lparr>issued_54 := ds\<rparr>) in Some (O_none, freed, vc)))"
| "vc_exec_54 cm V_sync vc = (let (freed, vc) = vchan_synchronize_54 vc in Some (O_none, freed, vc))"
| "vc_exec_54 cm V_free vc = (let (freed, vc) = vchan_free_chan_resources_54 vc in Some (O_none, freed, vc))"

fun vc_exec ::
  "(s32 \<Rightarrow> s32 \<Rightarrow> s32 \<Rightarrow> dma_status) \<Rightarrow>
   ('a virt_dma_desc_scheme virt_dma_chan, 'a virt_dma_desc_scheme) vc_op \<Rightarrow> 'a virt_dma_desc_scheme virt_dma_chan \<Rightarrow>
   ('a virt_dma_desc_scheme vc_out \<times> 'a virt_dma_desc_scheme list \<times> 'a virt_dma_desc_scheme virt_dma_chan) option" where
  "vc_exec cm (V_prep vd fl) vc = Some (O_none, [], vchan_tx_prep vc vd fl)"
| "vc_exec cm (V_kernel g) vc = Some (O_none, [], g vc)"
| "vc_exec cm V_issue vc = (let (b, vc) = vchan_issue_pending vc in Some (O_issue b, [], vc))"
| "vc_exec cm V_next vc = Some (O_next (vchan_next_desc vc), [], vc)"
| "vc_exec cm V_complete vc =
     (case desc_issued vc of
        [] \<Rightarrow> Some (O_none, [], vc)
      | vd # ds \<Rightarrow> map_option (\<lambda>vc. (O_none, [], vc)) (vchan_cookie_complete vd (vc\<lparr>desc_issued := ds\<rparr>)))"
| "vc_exec cm (V_status cookie st) vc =
     (let (r, st) = dma_cookie_status cm vc cookie st in Some (O_status r st, [], vc))"
| "vc_exec cm V_cyclic vc =
     (case desc_issued vc of [] \<Rightarrow> Some (O_none, [], vc) | vd # _ \<Rightarrow> Some (O_none, [], vchan_cyclic_callback vd vc))"
| "vc_exec cm V_terminate vc =
     (case desc_issued vc of
        [] \<Rightarrow> Some (O_none, [], vc)
      | vd # ds \<Rightarrow> Some (O_none, [], vchan_terminate_vdesc vd (vc\<lparr>desc_issued := ds\<rparr>)))"
| "vc_exec cm V_sync vc = (let (freed, vc) = vchan_synchronize vc in Some (O_none, freed, vc))"
| "vc_exec cm V_free vc = (let (freed, vc) = vchan_free_chan_resources vc in Some (O_none, freed, vc))"

text \<open>A run collects the results and what was handed back.\<close>

fun vc_run ::
  "('o \<Rightarrow> 'c \<Rightarrow> ('r \<times> 'd list \<times> 'c) option) \<Rightarrow> 'o list \<Rightarrow> 'c \<Rightarrow> ('r list \<times> 'd list \<times> 'c) option" where
  "vc_run exec [] vc = Some ([], [], vc)"
| "vc_run exec (x # xs) vc =
     (case exec x vc of
        None \<Rightarrow> None
      | Some (r, freed, vc) \<Rightarrow>
          map_option (\<lambda>(rs, freed', vc). (r # rs, freed @ freed', vc)) (vc_run exec xs vc))"

subsection \<open>No descriptor is lost\<close>

definition held_54 :: "'a virt_dma_desc_scheme virt_dma_chan_54 \<Rightarrow> nat multiset" where
  "held_54 vc = mset (map vd_addr (allocated_54 vc @ submitted_54 vc @ issued_54 vc @ completed_54 vc)) +
     (case vd_terminated vc of None \<Rightarrow> {#} | Some vd \<Rightarrow> {# vd_addr vd #})"

definition held_516 :: "'a virt_dma_desc_scheme virt_dma_chan \<Rightarrow> nat multiset" where
  "held_516 vc = mset (map vd_addr (vchan_descs vc))"

fun op_adds :: "('c, 'a virt_dma_desc_scheme) vc_op \<Rightarrow> nat multiset" where
  "op_adds (V_prep vd _) = {# vd_addr vd #}"
| "op_adds _ = {#}"

text \<open>What the kernel does to the channel keeps its descriptors.\<close>

fun kernel_keeps :: "('c \<Rightarrow> nat multiset) \<Rightarrow> ('c, 'd) vc_op \<Rightarrow> bool" where
  "kernel_keeps holds (V_kernel g) \<longleftrightarrow> (\<forall>vc. holds (g vc) = holds vc)"
| "kernel_keeps holds _ \<longleftrightarrow> True"

text \<open>The contract of a header: a call hands back exactly what leaves the channel.\<close>

locale vchan_header =
  fixes holds :: "'c \<Rightarrow> nat multiset"
    and exec :: "('c, 'a virt_dma_desc_scheme) vc_op \<Rightarrow> 'c \<Rightarrow> ('r \<times> 'a virt_dma_desc_scheme list \<times> 'c) option"
  assumes exec_keeps:
    "kernel_keeps holds x \<Longrightarrow> exec x vc = Some (r, freed, vc') \<Longrightarrow>
     holds vc' + mset (map vd_addr freed) = holds vc + op_adds x"
begin

lemma run_keeps:
  assumes "\<forall>x \<in> set xs. kernel_keeps holds x" "vc_run exec xs vc = Some (rs, freed, vc')"
  shows "holds vc' + mset (map vd_addr freed) = holds vc + sum_list (map op_adds xs)"
  using assms
proof (induction xs arbitrary: vc rs freed)
  case (Cons x xs)
  then obtain r f v rs' f' where 1: "exec x vc = Some (r, f, v)" "vc_run exec xs v = Some (rs', f', vc')" "freed = f @ f'"
    by (auto split: option.splits)
  have "holds v + mset (map vd_addr f) = holds vc + op_adds x"
    using exec_keeps [OF _ 1(1)] Cons.prems(1) by simp
  moreover have "holds vc' + mset (map vd_addr f') = holds v + sum_list (map op_adds xs)"
    using Cons.IH [OF _ 1(2)] Cons.prems(1) by simp
  ultimately show ?case
    by (simp add: 1(3) ac_simps) (metis union_assoc union_commute)
qed simp

end

lemma addr_reuse [simp]: "image_mset vd_addr (image_mset (vd_reuse_update f) M) = image_mset vd_addr M"
  by (simp add: multiset.map_comp comp_def)

lemmas header_54_defs = vchan_tx_prep_54_def vchan_issue_pending_54_def vchan_next_desc_54_def
  vchan_cookie_complete_54_def dma_cookie_complete_54_def vchan_cyclic_callback_54_def vchan_terminate_vdesc_54_def
  vchan_vdesc_fini_54_def vchan_synchronize_54_def vchan_free_chan_resources_54_def vchan_get_all_descriptors_54_def
  dma_cookie_status_54_def

lemmas header_defs = vchan_tx_prep_def vchan_issue_pending_def vchan_next_desc_def
  vchan_cookie_complete_def dma_cookie_complete_def vchan_cyclic_callback_def vchan_terminate_vdesc_def
  vchan_synchronize_def vchan_free_chan_resources_def vchan_get_all_descriptors_def dma_cookie_status_def

interpretation hdr54: vchan_header held_54 "vc_exec_54 cm"
proof
  fix x and vc vc' :: "'a virt_dma_desc_scheme virt_dma_chan_54" and r freed
  assume *: "kernel_keeps held_54 x" "vc_exec_54 cm x vc = Some (r, freed, vc')"
  show "held_54 vc' + mset (map vd_addr freed) = held_54 vc + op_adds x"
  proof (cases x)
    case (V_kernel g)
    then show ?thesis using * by auto
  qed (use * in \<open>auto simp: held_54_def header_54_defs Let_def split: option.splits list.splits if_splits\<close>)
qed

interpretation hdr: vchan_header held_516 "vc_exec cm"
proof
  fix x and vc vc' :: "'a virt_dma_desc_scheme virt_dma_chan" and r freed
  assume *: "kernel_keeps held_516 x" "vc_exec cm x vc = Some (r, freed, vc')"
  show "held_516 vc' + mset (map vd_addr freed) = held_516 vc + op_adds x"
  proof (cases x)
    case (V_kernel g)
    then show ?thesis using * by auto
  qed (use * in \<open>auto simp: held_516_def vchan_descs_def header_defs Let_def split: option.splits list.splits if_splits\<close>)
qed

subsection \<open>The headers agree\<close>

text \<open>A channel of 5.4 as one of the newer header, with \<open>T\<close> for the list of terminated descriptors.\<close>

definition upgrade :: "'d list \<Rightarrow> 'd virt_dma_chan_54 \<Rightarrow> 'd virt_dma_chan" where
  "upgrade T vc = \<lparr>vc_cookie = cookie_54 vc, completed_cookie = completed_cookie_54 vc,
     desc_allocated = allocated_54 vc, desc_submitted = submitted_54 vc, desc_issued = issued_54 vc,
     desc_completed = completed_54 vc, desc_terminated = T, vc_cyclic = cyclic_54 vc, vc_tasklet = tasklet_54 vc\<rparr>"

definition pending_54 :: "'d virt_dma_chan_54 \<Rightarrow> 'd list" where
  "pending_54 vc = (case vd_terminated vc of None \<Rightarrow> [] | Some vd \<Rightarrow> [vd])"

text \<open>No client marks descriptors for reuse (the driver does not offer it).\<close>

definition no_reuse :: "'a virt_dma_desc_scheme virt_dma_chan_54 \<Rightarrow> bool" where
  "no_reuse vc \<longleftrightarrow>
     (\<forall>vd \<in> set (allocated_54 vc @ submitted_54 vc @ issued_54 vc @ completed_54 vc @ pending_54 vc). \<not> vd_reuse vd)"

text \<open>
  The same call on either header. A function of the kernel does the same to the common fields and leaves
  terminated descriptors alone; the state to be filled in has no bytes in flight, a field 5.4 does not have.
\<close>

fun same_op ::
  "('a virt_dma_desc_scheme virt_dma_chan_54, 'a virt_dma_desc_scheme) vc_op \<Rightarrow>
   ('a virt_dma_desc_scheme virt_dma_chan, 'a virt_dma_desc_scheme) vc_op \<Rightarrow> bool" where
  "same_op (V_prep vd fl) y \<longleftrightarrow> y = V_prep vd fl \<and> \<not> vd_reuse vd"
| "same_op (V_kernel g) y \<longleftrightarrow>
     (\<exists>h. y = V_kernel h \<and> (\<forall>vc. (\<forall>T. h (upgrade T vc) = upgrade T (g vc)) \<and> pending_54 (g vc) = pending_54 vc \<and>
                                  (no_reuse vc \<longrightarrow> no_reuse (g vc))))"
| "same_op (V_status cookie st) y \<longleftrightarrow> y = V_status cookie st \<and> (\<forall>s. st = Some s \<longrightarrow> tx_in_flight_bytes s = 0)"
| "same_op V_issue y \<longleftrightarrow> y = V_issue"
| "same_op V_next y \<longleftrightarrow> y = V_next"
| "same_op V_complete y \<longleftrightarrow> y = V_complete"
| "same_op V_cyclic y \<longleftrightarrow> y = V_cyclic"
| "same_op V_terminate y \<longleftrightarrow> y = V_terminate"
| "same_op V_sync y \<longleftrightarrow> y = V_sync"
| "same_op V_free y \<longleftrightarrow> y = V_free"

text \<open>One call: what the two headers hand back differs by what they still keep as terminated.\<close>

definition sim_step ::
  "'a virt_dma_desc_scheme virt_dma_chan_54 \<Rightarrow> 'a virt_dma_desc_scheme list \<Rightarrow>
   'r \<times> 'a virt_dma_desc_scheme list \<times> 'a virt_dma_desc_scheme virt_dma_chan_54 \<Rightarrow>
   'r \<times> 'a virt_dma_desc_scheme list \<times> 'a virt_dma_desc_scheme virt_dma_chan \<Rightarrow> bool" where
  "sim_step vc T = (\<lambda>(r, f, v) (r', f', v').
     r' = r \<and> no_reuse v \<and> (\<forall>vd \<in> set (desc_terminated v'). \<not> vd_reuse vd) \<and> v' = upgrade (desc_terminated v') v \<and>
     mset f' + mset (desc_terminated v') + mset (pending_54 vc) = mset T + mset f + mset (pending_54 v))"

lemma upgrade_simps [simp]:
  "vc_cookie (upgrade T vc) = cookie_54 vc" "completed_cookie (upgrade T vc) = completed_cookie_54 vc"
  "desc_allocated (upgrade T vc) = allocated_54 vc" "desc_submitted (upgrade T vc) = submitted_54 vc"
  "desc_issued (upgrade T vc) = issued_54 vc" "desc_completed (upgrade T vc) = completed_54 vc"
  "desc_terminated (upgrade T vc) = T" "vc_cyclic (upgrade T vc) = cyclic_54 vc"
  by (simp_all add: upgrade_def)

lemma clear_no_reuse: "\<forall>vd \<in> set ds. \<not> vd_reuse vd \<Longrightarrow> map (vd_reuse_update (\<lambda>_. False)) ds = ds"
  by (induction ds) simp_all

lemma exec_agree:
  assumes "same_op x y" "no_reuse vc" "\<forall>vd \<in> set T. \<not> vd_reuse vd"
  shows "rel_option (sim_step vc T) (vc_exec_54 cm x vc) (vc_exec cm y (upgrade T vc))"
proof (cases x)
  case (V_kernel g)
  then show ?thesis
    using assms by (auto simp: sim_step_def)
next
  case V_free
  then show ?thesis
    using assms by (auto simp: sim_step_def header_54_defs header_defs no_reuse_def upgrade_def pending_54_def clear_no_reuse Let_def)
next
  case V_sync
  then show ?thesis
    using assms by (auto simp: sim_step_def header_54_defs header_defs no_reuse_def upgrade_def pending_54_def Let_def split: option.split)
next
  case V_terminate
  then show ?thesis
    using assms by (auto simp: sim_step_def header_54_defs header_defs no_reuse_def upgrade_def pending_54_def Let_def
        split: option.splits list.split)
next
  case (V_status cookie st)
  then show ?thesis
    using assms by (cases st) (auto simp: sim_step_def header_54_defs header_defs no_reuse_def upgrade_def pending_54_def Let_def)
qed (use assms in \<open>auto simp: sim_step_def header_54_defs header_defs no_reuse_def upgrade_def pending_54_def Let_def
    split: option.split list.split\<close>)

text \<open>Two steps of the account in a row.\<close>

lemma mset_chain:
  fixes a b c d e f g h i :: "'x multiset"
  assumes "a + b + c = d + e + f" "g + h + f = b + i + k"
  shows "a + g + h + c = d + (e + i) + k"
proof -
  have "(a + b + c) + (g + h + f) = (d + e + f) + (b + i + k)"
    by (simp only: assms)
  then show ?thesis
    by (simp add: ac_simps)
qed

lemma run_agree:
  assumes "list_all2 same_op xs ys" "no_reuse vc" "\<forall>vd \<in> set T. \<not> vd_reuse vd"
  shows "rel_option (sim_step vc T) (vc_run (vc_exec_54 cm) xs vc) (vc_run (vc_exec cm) ys (upgrade T vc))"
  using assms
proof (induction xs ys arbitrary: vc T rule: list_all2_induct)
  case Nil
  then show ?case by (simp add: sim_step_def)
next
  case (Cons x xs y ys)
  from exec_agree [OF Cons.hyps(1) Cons.prems, of cm] show ?case
  proof (cases rule: option.rel_cases)
    case (Some a b)
    then obtain r f v f' T' where 1: "vc_exec_54 cm x vc = Some (r, f, v)" "vc_exec cm y (upgrade T vc) = Some (r, f', upgrade T' v)"
      "no_reuse v" "\<forall>vd \<in> set T'. \<not> vd_reuse vd"
      "mset f' + mset T' + mset (pending_54 vc) = mset T + mset f + mset (pending_54 v)"
      by (cases a, cases b) (auto simp: sim_step_def)
    from Cons.IH [OF 1(3,4)] show ?thesis
      by (cases rule: option.rel_cases) (auto simp: 1(1,2) sim_step_def intro: mset_chain [OF 1(5)])
  qed simp
qed

lemma run_last:
  "vc_run exec (xs @ [x]) vc = Some (rs, freed, v) \<Longrightarrow> \<exists>u r f. exec x u = Some (r, f, v)"
  by (induction xs arbitrary: vc rs freed) (auto split: option.splits)

lemma sync_clears:
  "vc_exec_54 cm V_sync u = Some (r, f, v) \<Longrightarrow> pending_54 v = []"
  "vc_exec cm V_sync u' = Some (r, f', v') \<Longrightarrow> desc_terminated v' = []"
  by (auto simp: header_54_defs header_defs pending_54_def Let_def split: option.splits if_splits)

lemma run_two:
  "vc_run exec (xs @ [x, y]) vc = Some (rs, freed, v) \<Longrightarrow>
   \<exists>u r f u' r' f'. exec x u = Some (r, f, u') \<and> exec y u' = Some (r', f', v)"
proof (induction xs arbitrary: vc rs freed)
  case Nil
  then show ?case
    by (simp split: option.splits prod.splits) blast
qed (auto split: option.splits)

lemma sync_free_empty:
  "vc_exec_54 cm V_sync u = Some (r, f, u') \<Longrightarrow> vc_exec_54 cm V_free u' = Some (r', f', v) \<Longrightarrow> held_54 v = {#}"
  "vc_exec cm V_sync w = Some (r, g, w') \<Longrightarrow> vc_exec cm V_free w' = Some (r', g', v') \<Longrightarrow> held_516 v' = {#}"
  by (auto simp: header_54_defs header_defs held_54_def held_516_def vchan_descs_def Let_def split: option.splits if_splits)

text \<open>C37: Whatever a client calls, functions of the kernel between them, the older and the newer
  header answer alike; once it has synchronized, both have handed back the same descriptors, and the
  channels are the same. The newer header only keeps terminated descriptors longer.\<close>

theorem headers_agree:
  assumes "list_all2 same_op xs ys" "no_reuse vc"
  shows "rel_option (\<lambda>(rs, freed, v) (rs', freed', v'). rs' = rs \<and> mset freed' = mset freed \<and> v' = upgrade [] v)
    (vc_run (vc_exec_54 cm) (xs @ [V_sync]) vc) (vc_run (vc_exec cm) (ys @ [V_sync]) (upgrade (pending_54 vc) vc))"
proof -
  have "rel_option (sim_step vc (pending_54 vc)) (vc_run (vc_exec_54 cm) (xs @ [V_sync]) vc)
      (vc_run (vc_exec cm) (ys @ [V_sync]) (upgrade (pending_54 vc) vc))"
    using assms by (intro run_agree list_all2_appendI) (auto simp: no_reuse_def)
  then show ?thesis
  proof (cases rule: option.rel_cases)
    case (Some p q)
    obtain rs f v rs' f' v' where p: "p = (rs, f, v)" and q: "q = (rs', f', v')"
      by (cases p, cases q)
    have "pending_54 v = []" "desc_terminated v' = []"
      using run_last [OF Some(1) [unfolded p]] run_last [OF Some(2) [unfolded q]] sync_clears by blast+
    then show ?thesis
      using Some by (auto simp: p q sim_step_def)
  qed simp
qed

text \<open>An example: a client prepares, submits and issues a descriptor and terminates it.\<close>

definition ex_vd :: virt_dma_desc where
  "ex_vd = \<lparr>vd_addr = 7, vd_cookie = 0, vd_flags = 0, vd_reuse = False, vd_residue = 0\<rparr>"

definition ex_vc_54 :: "virt_dma_desc virt_dma_chan_54" where
  "ex_vc_54 = \<lparr>cookie_54 = 1, completed_cookie_54 = 1, allocated_54 = [], submitted_54 = [], issued_54 = [],
     completed_54 = [], cyclic_54 = None, vd_terminated = None, tasklet_54 = False\<rparr>"

text \<open>What \<open>vchan_tx_submit\<close> is documented to do to the descriptor prepared first.\<close>

definition ex_submit_54 :: "virt_dma_desc virt_dma_chan_54 \<Rightarrow> virt_dma_desc virt_dma_chan_54" where
  "ex_submit_54 vc = (case allocated_54 vc of
     [] \<Rightarrow> vc
   | vd # ds \<Rightarrow> (let (_, vd, vc) = dma_cookie_assign_54 vd vc
                 in vc\<lparr>allocated_54 := ds, submitted_54 := submitted_54 vc @ [vd]\<rparr>))"

definition ex_submit_new :: "virt_dma_desc virt_dma_chan \<Rightarrow> virt_dma_desc virt_dma_chan" where
  "ex_submit_new vc = (case desc_allocated vc of
     [] \<Rightarrow> vc
   | vd # ds \<Rightarrow> (let (_, vd, vc) = dma_cookie_assign vd vc
                 in vc\<lparr>desc_allocated := ds, desc_submitted := desc_submitted vc @ [vd]\<rparr>))"

lemma ex_submit_same: "same_op (V_kernel ex_submit_54) (V_kernel ex_submit_new)"
proof -
  have "ex_submit_new (upgrade T vc) = upgrade T (ex_submit_54 vc)" for T vc
    by (cases "allocated_54 vc")
      (simp_all add: ex_submit_54_def ex_submit_new_def dma_cookie_assign_def dma_cookie_assign_54_def upgrade_def Let_def)
  moreover have "pending_54 (ex_submit_54 vc) = pending_54 vc" "no_reuse vc \<longrightarrow> no_reuse (ex_submit_54 vc)" for vc
    by (auto simp: ex_submit_54_def dma_cookie_assign_54_def pending_54_def no_reuse_def Let_def split: list.split option.split)
  ultimately show ?thesis
    by simp
qed

definition ex_ops :: "('c \<Rightarrow> 'c) \<Rightarrow> ('c, virt_dma_desc) vc_op list" where
  "ex_ops submit = [V_prep ex_vd 3, V_kernel submit, V_issue, V_terminate]"

theorem headers_agree_witness:
  "list_all2 same_op (ex_ops ex_submit_54) (ex_ops ex_submit_new) \<and> no_reuse ex_vc_54 \<and>
   (\<exists>rs f v f' v'. vc_run (vc_exec_54 (\<lambda>_ _ _. DMA_COMPLETE)) (ex_ops ex_submit_54 @ [V_sync]) ex_vc_54 = Some (rs, f, v) \<and>
      vc_run (vc_exec (\<lambda>_ _ _. DMA_COMPLETE)) (ex_ops ex_submit_new @ [V_sync]) (upgrade [] ex_vc_54) = Some (rs, f', v') \<and>
      mset f' = mset f \<and> map vd_addr f = [7] \<and> v' = upgrade [] v)"
proof -
  have ops: "list_all2 same_op (ex_ops ex_submit_54) (ex_ops ex_submit_new)"
    using ex_submit_same by (simp add: ex_ops_def ex_vd_def)
  have ok: "no_reuse ex_vc_54" "pending_54 ex_vc_54 = []"
    by (simp_all add: no_reuse_def pending_54_def ex_vc_54_def)
  obtain rs f v where run: "vc_run (vc_exec_54 (\<lambda>_ _ _. DMA_COMPLETE)) (ex_ops ex_submit_54 @ [V_sync]) ex_vc_54 = Some (rs, f, v)"
    "map vd_addr f = [7]"
    by (simp add: ex_ops_def header_54_defs ex_submit_54_def dma_cookie_assign_54_def ex_vc_54_def ex_vd_def Let_def)
  from headers_agree [OF ops ok(1), of "\<lambda>_ _ _. DMA_COMPLETE"] show ?thesis
    using ops ok run by (auto simp: option_rel_Some1)
qed

text \<open>A client that synchronizes and then frees the channel has got back every descriptor it
  prepared or found in the channel, each exactly once, with the older header and with the newer.\<close>

theorem headers_conserve:
  assumes "\<forall>x \<in> set xs. kernel_keeps held_54 x"
    "vc_run (vc_exec_54 cm) (xs @ [V_sync, V_free]) vc = Some (rs, freed, v)"
    "\<forall>y \<in> set ys. kernel_keeps held_516 y"
    "vc_run (vc_exec cm) (ys @ [V_sync, V_free]) vc' = Some (rs', freed', v')"
  shows "mset (map vd_addr freed) = held_54 vc + sum_list (map op_adds xs) \<and>
    mset (map vd_addr freed') = held_516 vc' + sum_list (map op_adds ys)"
proof -
  have "held_54 v = {#}" "held_516 v' = {#}"
    using run_two [OF assms(2)] run_two [OF assms(4)] sync_free_empty by blast+
  then show ?thesis
    using hdr54.run_keeps [OF _ assms(2)] hdr.run_keeps [OF _ assms(4)] assms(1,3) by (simp add: ball_Un)
qed

lemma ex_ops_keep:
  "\<forall>x \<in> set (ex_ops ex_submit_54). kernel_keeps held_54 x" "\<forall>x \<in> set (ex_ops ex_submit_new). kernel_keeps held_516 x"
proof -
  have "held_54 (ex_submit_54 vc) = held_54 vc" for vc
    by (cases "allocated_54 vc") (simp_all add: ex_submit_54_def dma_cookie_assign_54_def held_54_def Let_def)
  moreover have "held_516 (ex_submit_new vc) = held_516 vc" for vc
    by (cases "desc_allocated vc") (simp_all add: ex_submit_new_def dma_cookie_assign_def held_516_def vchan_descs_def Let_def)
  ultimately show "\<forall>x \<in> set (ex_ops ex_submit_54). kernel_keeps held_54 x" "\<forall>x \<in> set (ex_ops ex_submit_new). kernel_keeps held_516 x"
    by (simp_all add: ex_ops_def)
qed

theorem headers_conserve_witness:
  "\<exists>rs f v rs' f' v'.
     vc_run (vc_exec_54 (\<lambda>_ _ _. DMA_COMPLETE)) (ex_ops ex_submit_54 @ [V_sync, V_free]) ex_vc_54 = Some (rs, f, v) \<and>
     vc_run (vc_exec (\<lambda>_ _ _. DMA_COMPLETE)) (ex_ops ex_submit_new @ [V_sync, V_free]) (upgrade [] ex_vc_54) = Some (rs', f', v') \<and>
     mset (map vd_addr f) = {# 7 #} \<and> mset (map vd_addr f') = {# 7 #}"
proof -
  obtain rs f v where 1: "vc_run (vc_exec_54 (\<lambda>_ _ _. DMA_COMPLETE)) (ex_ops ex_submit_54 @ [V_sync, V_free]) ex_vc_54 = Some (rs, f, v)"
    by (simp add: ex_ops_def header_54_defs ex_submit_54_def dma_cookie_assign_54_def ex_vc_54_def ex_vd_def Let_def)
  obtain rs' f' v' where 2: "vc_run (vc_exec (\<lambda>_ _ _. DMA_COMPLETE)) (ex_ops ex_submit_new @ [V_sync, V_free])
      (upgrade [] ex_vc_54) = Some (rs', f', v')"
    by (simp add: ex_ops_def header_defs ex_submit_new_def dma_cookie_assign_def ex_vc_54_def ex_vd_def upgrade_def Let_def)
  from headers_conserve [OF ex_ops_keep(1) 1 ex_ops_keep(2) 2]
  have all: "mset (map vd_addr f) = {# 7 #}" "mset (map vd_addr f') = {# 7 #}"
    by (simp_all add: ex_ops_def held_54_def held_516_def vchan_descs_def ex_vc_54_def ex_vd_def)
  show ?thesis
    by (intro exI conjI, rule 1, rule 2, rule all(1), rule all(2))
qed

end
