(* ===== verification/Kernel54.thy ===== *)
theory Kernel54
  imports Probe_Setup
begin

section \<open>The copy for kernel 5.4 (kernel/5.4/akida-dw-edma/dw-edma-core.c)\<close>

text \<open>
  The sources kept for kernel 5.4 are those of the driver itself, but for the setup of the channels,
  probe and remove: two DMA devices, one per direction, set up in two passes and registered one after
  the other. This theory models the three functions and compares them with those of the driver. A DMA
  device has the list of its channels, here their places in the channel array.
\<close>

record dw_edma_54 =
  core54 :: dw_edma
  wr_edma :: dma_device
  wr_edma_channels :: "nat list"
  rd_edma :: dma_device
  rd_edma_channels :: "nat list"

subsection \<open>Channel setup\<close>

text \<open>The capabilities of the device of one direction.\<close>

definition dma_device_54 :: "bool \<Rightarrow> dma_device" where
  "dma_device_54 write = \<lparr>cap_mask = [DMA_SLAVE, DMA_CYCLIC, DMA_PRIVATE, DMA_INTERLEAVE],
     directions = BIT (xfer_dir_val (if write then DMA_DEV_TO_MEM else DMA_MEM_TO_DEV)),
     src_addr_widths = BIT DMA_SLAVE_BUSWIDTH_4_BYTES, dst_addr_widths = BIT DMA_SLAVE_BUSWIDTH_4_BYTES,
     residue_gran = DMA_RESIDUE_GRANULARITY_DESCRIPTOR, max_seg_size = 0xffffffff\<rparr>"

text \<open>The body of the loop, for channel \<open>j\<close> of the direction in place \<open>i\<close> of the array.\<close>

definition setup_chan_54 ::
  "edma_os \<Rightarrow> bool \<Rightarrow> u32 \<Rightarrow> u32 \<Rightarrow> nat \<Rightarrow> nat \<Rightarrow> dw_edma \<Rightarrow> world \<Rightarrow> (dw_edma \<times> world) option" where
  "setup_chan_54 os write off_alloc alloc j i dw w =
     (let chip = dw_chip dw; chan = dw_chan dw ! i;
          chan = chan\<lparr>ch_id := j, ch_dir := (if write then EDMA_DIR_WRITE else EDMA_DIR_READ)\<rparr>;
          chan = chan\<lparr>configured := False, ch_request := EDMA_REQ_NONE, ch_st := EDMA_ST_IDLE\<rparr>;
          chan = chan\<lparr>ll_max := ucast (rg_sz (if write then ll_region_wr chip ! j else ll_region_rd chip ! j) div EDMA_LL_SZ)\<rparr>;
          chan = chan\<lparr>ll_max := ll_max chan - 1\<rparr>
      in if dw_nr_irqs dw \<noteq> 1 \<and> alloc = 0 then None
         else
           (let pos = (if dw_nr_irqs dw = 1 then 0 else unat (off_alloc + (of_nat j mod alloc))) in
            if \<not> pos < length (dw_irqs dw) then None
            else
              (let irq = dw_irqs dw ! pos;
                   irq = (if write then irq\<lparr>wr_mask := wr_mask irq OR BIT j\<rparr> else irq\<lparr>rd_mask := rd_mask irq OR BIT j\<rparr>);
                   chan = chan\<lparr>ch_msi := irq_msi irq\<rparr>;
                   chan = chan\<lparr>ch_private := (if ch_dir chan = EDMA_DIR_WRITE then dt_region_wr chip ! ch_id chan
                                             else dt_region_rd chip ! ch_id chan),
                               chan_vc := vchan_init os (chan_vc chan)\<rparr>;
                   dw = dw\<lparr>dw_irqs := (dw_irqs dw)[pos := irq], dw_chan := (dw_chan dw)[i := chan]\<rparr>
               in Some (dw, dw_edma_core_ch_config dw chan w))))"

text \<open>The loop with \<open>n\<close> channels left; \<open>chs\<close> is the list of the DMA device.\<close>

fun setup_chans_54 ::
  "edma_os \<Rightarrow> bool \<Rightarrow> u32 \<Rightarrow> u32 \<Rightarrow> nat \<Rightarrow> nat \<Rightarrow> nat \<Rightarrow> dw_edma \<Rightarrow> nat list \<Rightarrow> world \<Rightarrow>
   (dw_edma \<times> nat list \<times> world) option" where
  "setup_chans_54 os write off_alloc alloc 0 j i dw chs w = Some (dw, chs, w)"
| "setup_chans_54 os write off_alloc alloc (Suc n) j i dw chs w =
     (if alloc \<noteq> 0 \<or> dw_nr_irqs dw = 1
      then (case setup_chan_54 os write off_alloc alloc j i dw w of
              None \<Rightarrow> None
            | Some (dw, w) \<Rightarrow> setup_chans_54 os write off_alloc alloc n (Suc j) (Suc i) dw (chs @ [i]) w)
      else Some (dw, chs, w))"

definition dw_edma_channel_setup_54 ::
  "edma_os \<Rightarrow> dw_edma \<Rightarrow> bool \<Rightarrow> u32 \<Rightarrow> u32 \<Rightarrow> world \<Rightarrow>
   (int \<times> dw_edma \<times> dma_device \<times> nat list \<times> world) option" where
  "dw_edma_channel_setup_54 os dw write wr_alloc rd_alloc w =
     (let i = (if write then 0 else unat (wr_ch_cnt dw));
          cnt = (if write then unat (wr_ch_cnt dw) else unat (rd_ch_cnt dw));
          alloc = (if write then wr_alloc else rd_alloc);
          off_alloc = (if write then 0 else wr_alloc)
      in case setup_chans_54 os write off_alloc alloc cnt 0 i dw [] w of
           None \<Rightarrow> None
         | Some (dw, chs, w) \<Rightarrow>
             (let (err, w) = kcall K_dma_async_device_register w in Some (err, dw, dma_device_54 write, chs, w)))"

subsection \<open>Probe and remove\<close>

text \<open>The selection of the engine, the counts and the interrupts are as in the driver.\<close>

definition akida_dw_edma_probe_54 ::
  "edma_os \<Rightarrow> dw_edma_chip option \<Rightarrow> world \<Rightarrow> (int \<times> dw_edma_54 option \<times> world) option" where
  "akida_dw_edma_probe_54 os chip w =
     (case chip of
        None \<Rightarrow> Some (- EINVAL, None, w)
      | Some chip \<Rightarrow>
          if \<not> chip_dev chip \<or> \<not> chip_ops chip then Some (- EINVAL, None, w)
          else
            (let (p, w) = kcall K_devm_kzalloc w in
             if p = 0 then Some (- ENOMEM, None, w)
             else
               (let (dw, w) = probe_counts (probe_select chip) w in
                if wr_ch_cnt dw = 0 \<and> rd_ch_cnt dw = 0 then Some (- EINVAL, None, w)
                else
                  (let cnt = unat (wr_ch_cnt dw) + unat (rd_ch_cnt dw);
                       (p, w) = kcall (K_devm_kcalloc cnt) w
                   in if p = 0 then Some (- ENOMEM, None, w)
                      else
                        (let dw = dw\<lparr>dw_chan := replicate cnt zero_chan\<rparr>;
                             w = dw_edma_core_off dw w
                         in case dw_edma_irq_request os dw 0 0 w of
                              None \<Rightarrow> None
                            | Some (err, wr_alloc, rd_alloc, dw, w) \<Rightarrow>
                                if err \<noteq> 0 then Some (err, None, w)
                                else
                                  (case dw_edma_channel_setup_54 os dw True wr_alloc rd_alloc w of
                                     None \<Rightarrow> None
                                   | Some (err, dw, wr_dma, wr_chs, w) \<Rightarrow>
                                       if err \<noteq> 0 then Some (err, None, irq_free_loop (nat (dw_nr_irqs dw)) w)
                                       else
                                         (case dw_edma_channel_setup_54 os dw False wr_alloc rd_alloc w of
                                            None \<Rightarrow> None
                                          | Some (err, dw, rd_dma, rd_chs, w) \<Rightarrow>
                                              if err \<noteq> 0 then Some (err, None, irq_free_loop (nat (dw_nr_irqs dw)) w)
                                              else
                                                (let (_, w) = kcall K_debugfs_on w
                                                 in Some (0, Some \<lparr>core54 = dw, wr_edma = wr_dma, wr_edma_channels = wr_chs,
                                                             rd_edma = rd_dma, rd_edma_channels = rd_chs\<rparr>, w)))))))))"

text \<open>The tasklets of the channels of a list are killed.\<close>

fun tasklet_kill_list :: "nat list \<Rightarrow> world \<Rightarrow> world" where
  "tasklet_kill_list [] w = w"
| "tasklet_kill_list (i # is) w = (let (_, w) = kcall (K_tasklet_kill i) w in tasklet_kill_list is w)"

definition akida_dw_edma_remove_54 :: "dw_edma_54 option \<Rightarrow> world \<Rightarrow> int \<times> world" where
  "akida_dw_edma_remove_54 d w =
     (case d of
        None \<Rightarrow> (- ENODEV, w)
      | Some d \<Rightarrow>
          (let dw = core54 d;
               w = dw_edma_core_off dw w;
               w = irq_free_loop (nat (dw_nr_irqs dw)) w;
               (_, w) = kcall K_dma_async_device_unregister w;
               w = tasklet_kill_list (wr_edma_channels d) w;
               (_, w) = kcall K_dma_async_device_unregister w
           in (0, tasklet_kill_list (rd_edma_channels d) w)))"

subsection \<open>Lemmas: the passes are parts of the driver's one pass\<close>

text \<open>The guard of the loop: without it the driver would divide by zero.\<close>

lemma setup_chan_54_write:
  assumes "j < unat (wr_ch_cnt dw)"
  shows "setup_chan_54 os True 0 wa j j dw w = setup_chan os wa ra j dw w"
  using assms by (simp add: setup_chan_54_def setup_chan_def irq_pos_def ll_region_of_def dt_region_of_def Let_def)

lemma setup_chan_54_read:
  "setup_chan_54 os False wa ra j (unat (wr_ch_cnt dw) + j) dw w = setup_chan os wa ra (unat (wr_ch_cnt dw) + j) dw w"
  by (simp add: setup_chan_54_def setup_chan_def irq_pos_def ll_region_of_def dt_region_of_def Let_def)

lemma setup_chan_frame:
  assumes "setup_chan os wa ra i dw w = Some (dw', w')"
  shows "wr_ch_cnt dw' = wr_ch_cnt dw" "rd_ch_cnt dw' = rd_ch_cnt dw" "dw_nr_irqs dw' = dw_nr_irqs dw"
  using assms by (auto simp: setup_chan_def Let_def split: option.splits if_splits)

lemma setup_chans_frame:
  "setup_chans os wa ra n i dw w = Some (dw', w') \<Longrightarrow>
   wr_ch_cnt dw' = wr_ch_cnt dw \<and> rd_ch_cnt dw' = rd_ch_cnt dw \<and> dw_nr_irqs dw' = dw_nr_irqs dw"
proof (induction n arbitrary: i dw w)
  case (Suc n)
  then obtain d v where 1: "setup_chan os wa ra i dw w = Some (d, v)" "setup_chans os wa ra n (Suc i) d v = Some (dw', w')"
    by (auto split: option.splits)
  show ?case
    using Suc.IH [OF 1(2)] setup_chan_frame [OF 1(1)] by simp
qed simp

text \<open>What the setup leaves in memory does not depend on the device.\<close>

lemma setup_chan_world:
  "setup_chan os wa ra i dw w = Some (dw', w') \<Longrightarrow> \<exists>v'. setup_chan os wa ra i dw v = Some (dw', v')"
  by (auto simp: setup_chan_def Let_def split: option.splits if_splits)

lemma setup_chans_world:
  "setup_chans os wa ra n i dw w = Some (dw', w') \<Longrightarrow> \<exists>v'. setup_chans os wa ra n i dw v = Some (dw', v')"
proof (induction n arbitrary: i dw w v)
  case (Suc n)
  then obtain d u where 1: "setup_chan os wa ra i dw w = Some (d, u)" "setup_chans os wa ra n (Suc i) d u = Some (dw', w')"
    by (auto split: option.splits)
  obtain u' where 2: "setup_chan os wa ra i dw v = Some (d, u')"
    using setup_chan_world [OF 1(1)] by blast
  show ?case
    using Suc.IH [OF 1(2), of u'] by (simp add: 2)
qed simp

lemma setup_chans_add:
  "setup_chans os wa ra (m + n) i dw w =
     (case setup_chans os wa ra m i dw w of None \<Rightarrow> None | Some (d, v) \<Rightarrow> setup_chans os wa ra n (i + m) d v)"
  by (induction m arbitrary: i dw w) (auto split: option.splits)

lemma pass_write:
  "wa \<noteq> 0 \<or> dw_nr_irqs dw = 1 \<Longrightarrow> j + n \<le> unat (wr_ch_cnt dw) \<Longrightarrow>
   setup_chans_54 os True 0 wa n j j dw chs w =
     map_option (\<lambda>(d, v). (d, chs @ [j..<j + n], v)) (setup_chans os wa ra n j dw w)"
proof (induction n arbitrary: j dw chs w)
  case (Suc n)
  show ?case
  proof (cases "setup_chan os wa ra j dw w")
    case None
    then show ?thesis
      using Suc.prems by (auto simp: setup_chan_54_write [where ra = ra])
  next
    case (Some p)
    obtain d v where p: "p = (d, v)" by fastforce
    note fr = setup_chan_frame [OF Some [unfolded p]]
    have "setup_chans_54 os True 0 wa n (Suc j) (Suc j) d (chs @ [j]) v =
        map_option (\<lambda>(d, v). (d, (chs @ [j]) @ [Suc j..<Suc j + n], v)) (setup_chans os wa ra n (Suc j) d v)"
      using Suc.prems by (intro Suc.IH) (simp_all add: fr)
    then show ?thesis
      using Suc.prems Some p by (auto simp: setup_chan_54_write [where ra = ra] upt_conv_Cons simp del: upt_Suc)
  qed
qed simp

lemma pass_read:
  "ra \<noteq> 0 \<or> dw_nr_irqs dw = 1 \<Longrightarrow> W = unat (wr_ch_cnt dw) \<Longrightarrow>
   setup_chans_54 os False wa ra n j (W + j) dw chs w =
     map_option (\<lambda>(d, v). (d, chs @ [W + j..<W + j + n], v)) (setup_chans os wa ra n (W + j) dw w)"
proof (induction n arbitrary: j dw chs w)
  case (Suc n)
  have body: "setup_chan_54 os False wa ra j (W + j) dw w = setup_chan os wa ra (W + j) dw w"
    using setup_chan_54_read Suc.prems(2) by simp
  show ?case
  proof (cases "setup_chan os wa ra (W + j) dw w")
    case None
    then show ?thesis
      using Suc.prems(1) by (auto simp: body)
  next
    case (Some p)
    obtain d v where p: "p = (d, v)" by fastforce
    note fr = setup_chan_frame [OF Some [unfolded p]]
    have "setup_chans_54 os False wa ra n (Suc j) (W + Suc j) d (chs @ [W + j]) v =
        map_option (\<lambda>(d, v). (d, (chs @ [W + j]) @ [W + Suc j..<W + Suc j + n], v)) (setup_chans os wa ra n (W + Suc j) d v)"
      using Suc.prems by (intro Suc.IH) (simp_all add: fr)
    then show ?thesis
      using Suc.prems(1) Some p by (auto simp: body upt_conv_Cons simp del: upt_Suc)
  qed
qed simp

text \<open>What the guard of the loop needs, and what the distribution of the lines provides.\<close>

definition pass_guard :: "dw_edma \<Rightarrow> u32 \<Rightarrow> u32 \<Rightarrow> bool" where
  "pass_guard dw wa ra \<longleftrightarrow> dw_nr_irqs dw = 1 \<or> (wr_ch_cnt dw \<noteq> 0 \<longrightarrow> wa \<noteq> 0) \<and> (rd_ch_cnt dw \<noteq> 0 \<longrightarrow> ra \<noteq> 0)"

lemma pos_ok_guard:
  assumes "pos_ok dw wa ra"
  shows "pass_guard dw wa ra"
proof -
  have "\<exists>p. irq_pos (dw_nr_irqs dw) wa ra EDMA_DIR_WRITE 0 = Some p" if "wr_ch_cnt dw \<noteq> 0"
    using assms [unfolded pos_ok_def, THEN conjunct2, rule_format, of 0 EDMA_DIR_WRITE] that by (auto simp: unat_gt_0)
  moreover have "\<exists>p. irq_pos (dw_nr_irqs dw) wa ra EDMA_DIR_READ 0 = Some p" if "rd_ch_cnt dw \<noteq> 0"
    using assms [unfolded pos_ok_def, THEN conjunct2, rule_format, of 0 EDMA_DIR_READ] that by (auto simp: unat_gt_0)
  ultimately show ?thesis
    by (auto simp: pass_guard_def irq_pos_def split: if_splits)
qed

lemma write_setup_eq:
  assumes "pass_guard dw wa ra"
  shows "dw_edma_channel_setup_54 os dw True wa ra w =
    (case setup_chans os wa ra (unat (wr_ch_cnt dw)) 0 dw w of
       None \<Rightarrow> None
     | Some (d, v) \<Rightarrow> (let (err, v) = kcall K_dma_async_device_register v
                       in Some (err, d, dma_device_54 True, [0..<unat (wr_ch_cnt dw)], v)))"
proof (cases "wr_ch_cnt dw = 0")
  case True
  then show ?thesis
    by (simp add: dw_edma_channel_setup_54_def)
next
  case False
  then have "wa \<noteq> 0 \<or> dw_nr_irqs dw = 1"
    using assms by (auto simp: pass_guard_def)
  from pass_write [OF this, of 0 "unat (wr_ch_cnt dw)" os "[]" w ra] show ?thesis
    by (simp add: dw_edma_channel_setup_54_def split: option.splits)
qed

lemma read_setup_eq:
  assumes "pass_guard dw wa ra"
  shows "dw_edma_channel_setup_54 os dw False wa ra w =
    (case setup_chans os wa ra (unat (rd_ch_cnt dw)) (unat (wr_ch_cnt dw)) dw w of
       None \<Rightarrow> None
     | Some (d, v) \<Rightarrow> (let (err, v) = kcall K_dma_async_device_register v
                       in Some (err, d, dma_device_54 False,
                                [unat (wr_ch_cnt dw)..<unat (wr_ch_cnt dw) + unat (rd_ch_cnt dw)], v)))"
proof (cases "rd_ch_cnt dw = 0")
  case True
  then show ?thesis
    by (simp add: dw_edma_channel_setup_54_def)
next
  case False
  then have "ra \<noteq> 0 \<or> dw_nr_irqs dw = 1"
    using assms by (auto simp: pass_guard_def)
  from pass_read [OF this refl, of os wa "unat (rd_ch_cnt dw)" 0 "[]" w] show ?thesis
    by (simp add: dw_edma_channel_setup_54_def split: option.splits)
qed

text \<open>The two passes, whatever the registrations answer.\<close>

definition two_passes ::
  "edma_os \<Rightarrow> dw_edma \<Rightarrow> u32 \<Rightarrow> u32 \<Rightarrow> world \<Rightarrow> (dw_edma \<times> dma_device \<times> nat list \<times> dma_device \<times> nat list) option" where
  "two_passes os dw wa ra w =
     (case dw_edma_channel_setup_54 os dw True wa ra w of
        None \<Rightarrow> None
      | Some (_, dw, wr_dma, wr_chs, w) \<Rightarrow>
          (case dw_edma_channel_setup_54 os dw False wa ra w of
             None \<Rightarrow> None
           | Some (_, dw, rd_dma, rd_chs, w) \<Rightarrow> Some (dw, wr_dma, wr_chs, rd_dma, rd_chs)))"

lemma setup_chans_data:
  "map_option fst (setup_chans os wa ra n i dw w) = map_option fst (setup_chans os wa ra n i dw v)"
proof (cases "setup_chans os wa ra n i dw w")
  case None
  then have "setup_chans os wa ra n i dw v = None"
    using setup_chans_world [of os wa ra n i dw v _ _ w] by (cases "setup_chans os wa ra n i dw v") auto
  then show ?thesis
    using None by simp
next
  case (Some p)
  then show ?thesis
    using setup_chans_world [of os wa ra n i dw w "fst p" "snd p" v] by auto
qed

lemma two_passes_eq:
  assumes "pass_guard dw wa ra"
  shows "two_passes os dw wa ra w =
    map_option (\<lambda>(err, d, dma, v). (d, dma_device_54 True, [0..<unat (wr_ch_cnt dw)], dma_device_54 False,
        [unat (wr_ch_cnt dw)..<unat (wr_ch_cnt dw) + unat (rd_ch_cnt dw)])) (dw_edma_channel_setup os dw wa ra w)"
proof (cases "setup_chans os wa ra (unat (wr_ch_cnt dw)) 0 dw w")
  case None
  then show ?thesis
    by (simp add: two_passes_def write_setup_eq [OF assms] dw_edma_channel_setup_def setup_chans_add)
next
  case (Some p)
  obtain d v where p: "p = (d, v)" by fastforce
  obtain e u where 1: "kcall K_dma_async_device_register v = (e, u)" by fastforce
  have fr: "wr_ch_cnt d = wr_ch_cnt dw" "rd_ch_cnt d = rd_ch_cnt dw" "pass_guard d wa ra"
    using setup_chans_frame [OF Some [unfolded p]] assms by (auto simp: pass_guard_def)
  have "map_option fst (setup_chans os wa ra (unat (rd_ch_cnt dw)) (unat (wr_ch_cnt dw)) d u) =
      map_option fst (setup_chans os wa ra (unat (rd_ch_cnt dw)) (unat (wr_ch_cnt dw)) d v)"
    by (rule setup_chans_data)
  then show ?thesis
    by (cases "setup_chans os wa ra (unat (rd_ch_cnt dw)) (unat (wr_ch_cnt dw)) d u";
        cases "setup_chans os wa ra (unat (rd_ch_cnt dw)) (unat (wr_ch_cnt dw)) d v")
      (simp_all add: two_passes_def write_setup_eq [OF assms] read_setup_eq [OF fr(3)] dw_edma_channel_setup_def
        setup_chans_add Some p 1 fr(1,2) split_beta Let_def)
qed

subsection \<open>Lemmas: the outcome of probe\<close>

text \<open>
  From the holdings \<open>R\<close>: a failure before the registrations (excluded when \<open>ready\<close>), a refused first
  registration, a refused second one, or success. \<open>u\<close> and \<open>u'\<close> are the worlds of the registrations.
\<close>

abbreviation registration :: "world \<Rightarrow> world \<Rightarrow> int" where
  "registration w u \<equiv> kret w (trace u) K_dma_async_device_register"

definition early_54 :: "resource multiset \<Rightarrow> bool \<Rightarrow> world \<Rightarrow> int \<times> dw_edma_54 option \<times> world \<Rightarrow> bool" where
  "early_54 R ready w res \<longleftrightarrow> (case res of (err, d, v) \<Rightarrow> err \<noteq> 0 \<and> d = None \<and> moves R w R v \<and> \<not> ready)"

definition first_54 :: "(nat \<Rightarrow> int) \<Rightarrow> resource multiset \<Rightarrow> world \<Rightarrow> int \<times> dw_edma_54 option \<times> world \<Rightarrow> bool" where
  "first_54 f R w res \<longleftrightarrow> (case res of (err, d, v) \<Rightarrow> err \<noteq> 0 \<and> d = None \<and> moves R w R v \<and>
     (\<exists>n u. moves R w (irq_lines f n + R) u \<and> registration w u = err))"

definition second_54 :: "(nat \<Rightarrow> int) \<Rightarrow> resource multiset \<Rightarrow> world \<Rightarrow> int \<times> dw_edma_54 option \<times> world \<Rightarrow> bool" where
  "second_54 f R w res \<longleftrightarrow> (case res of (err, d, v) \<Rightarrow> err \<noteq> 0 \<and> d = None \<and> moves R w (add_mset R_dma_device R) v \<and>
     (\<exists>n u u'. moves R w (irq_lines f n + R) u \<and> registration w u = 0 \<and>
        moves R w (add_mset R_dma_device (irq_lines f n + R)) u' \<and> registration w u' = err))"

definition good_54 :: "(nat \<Rightarrow> int) \<Rightarrow> resource multiset \<Rightarrow> dw_edma_chip option \<Rightarrow> world \<Rightarrow> int \<times> dw_edma_54 option \<times> world \<Rightarrow> bool" where
  "good_54 f R chip w res \<longleftrightarrow> (case res of (err, d, v) \<Rightarrow> err = 0 \<and>
     (\<exists>d' c u u'. d = Some d' \<and> chip = Some c \<and> probed c (core54 d') \<and>
        wr_edma d' = dma_device_54 True \<and> rd_edma d' = dma_device_54 False \<and>
        wr_edma_channels d' = [0..<unat (wr_ch_cnt (core54 d'))] \<and>
        rd_edma_channels d' = [unat (wr_ch_cnt (core54 d'))..<length (dw_chan (core54 d'))] \<and>
        moves R w (irq_lines f (nat (dw_nr_irqs (core54 d'))) + R) u \<and> registration w u = 0 \<and>
        moves R w (add_mset R_dma_device (irq_lines f (nat (dw_nr_irqs (core54 d'))) + R)) u' \<and> registration w u' = 0 \<and>
        moves R w (add_mset R_dma_device (add_mset R_dma_device (irq_lines f (nat (dw_nr_irqs (core54 d'))) + R))) v))"

definition outcome_54 ::
  "(nat \<Rightarrow> int) \<Rightarrow> resource multiset \<Rightarrow> bool \<Rightarrow> dw_edma_chip option \<Rightarrow> world \<Rightarrow> (int \<times> dw_edma_54 option \<times> world) option \<Rightarrow> bool" where
  "outcome_54 f R ready chip w res \<longleftrightarrow>
     (\<exists>r. res = Some r \<and> (early_54 R ready w r \<or> first_54 f R w r \<or> second_54 f R w r \<or> good_54 f R chip w r))"

lemma outcome_54_prefix:
  assumes "moves R w R v" "outcome_54 f R ready chip v res"
  shows "outcome_54 f R ready chip w res"
proof -
  note k = moves_kret [OF assms(1)]
  obtain r where r: "res = Some r" "early_54 R ready v r \<or> first_54 f R v r \<or> second_54 f R v r \<or> good_54 f R chip v r"
    using assms(2) by (auto simp: outcome_54_def)
  have "early_54 R ready v r \<Longrightarrow> early_54 R ready w r"
    using moves_trans [OF assms(1)] by (auto simp: early_54_def)
  moreover have "first_54 f R v r \<Longrightarrow> first_54 f R w r"
    using moves_trans [OF assms(1)] by (auto simp: first_54_def k)
  moreover have "second_54 f R v r \<Longrightarrow> second_54 f R w r"
    using moves_trans [OF assms(1)] unfolding second_54_def k by (cases r) (simp, blast)
  moreover have "good_54 f R chip v r \<Longrightarrow> good_54 f R chip w r"
    using moves_trans [OF assms(1)] unfolding good_54_def k by (cases r) (simp, blast)
  ultimately show ?thesis
    using r by (auto simp: outcome_54_def)
qed

text \<open>One pass and its registration.\<close>

lemma pass_run:
  assumes "setup_inv dw0 wa ra i dw" "pos_ok dw0 wa ra" "i + n \<le> unat (wr_ch_cnt dw0) + unat (rd_ch_cnt dw0)"
    "length (dw_chan dw0) = unat (wr_ch_cnt dw0) + unat (rd_ch_cnt dw0)"
    "unat (wr_ch_cnt dw0) \<le> 8" "unat (rd_ch_cnt dw0) \<le> 8" "vchan_init_ok os" "dw_core dw0 \<noteq> CORE_NONE"
  obtains dw' v u err where "setup_chans os wa ra n i dw w = Some (dw', u)" "setup_inv dw0 wa ra (i + n) dw'"
    "kcall K_dma_async_device_register u = (err, v)" "mmio w u" "err = registration w u"
    "\<And>R. moves R w (if err = 0 then add_mset R_dma_device R else R) v"
proof -
  obtain dw' u where 1: "setup_chans os wa ra n i dw w = Some (dw', u)" "setup_inv dw0 wa ra (i + n) dw'" "mmio w u"
    using setup_chans_run [OF assms, of w] by blast
  obtain err v where 2: "kcall K_dma_async_device_register u = (err, v)" by fastforce
  have e: "err = registration w u"
    using kcall_kret [OF 2] moves_kret [OF mmio_moves [OF 1(3)]] by simp
  have "moves R u (if err = 0 then add_mset R_dma_device R else R) v" for R
    by (rule moves_kcall [OF 2]) simp
  then have m: "moves R w (if err = 0 then add_mset R_dma_device R else R) v" for R
    using moves_trans [OF mmio_moves [OF 1(3)]] by blast
  show ?thesis
    by (rule that [OF 1(1,2) 2 1(3) e m])
qed

text \<open>From the request of the lines on.\<close>

definition tail_54 :: "edma_os \<Rightarrow> dw_edma \<Rightarrow> world \<Rightarrow> (int \<times> dw_edma_54 option \<times> world) option" where
  "tail_54 os dw w =
     (case dw_edma_irq_request os dw 0 0 w of
        None \<Rightarrow> None
      | Some (err, wr_alloc, rd_alloc, dw, w) \<Rightarrow>
          if err \<noteq> 0 then Some (err, None, w)
          else
            (case dw_edma_channel_setup_54 os dw True wr_alloc rd_alloc w of
               None \<Rightarrow> None
             | Some (err, dw, wr_dma, wr_chs, w) \<Rightarrow>
                 if err \<noteq> 0 then Some (err, None, irq_free_loop (nat (dw_nr_irqs dw)) w)
                 else
                   (case dw_edma_channel_setup_54 os dw False wr_alloc rd_alloc w of
                      None \<Rightarrow> None
                    | Some (err, dw, rd_dma, rd_chs, w) \<Rightarrow>
                        if err \<noteq> 0 then Some (err, None, irq_free_loop (nat (dw_nr_irqs dw)) w)
                        else
                          (let (_, w) = kcall K_debugfs_on w
                           in Some (0, Some \<lparr>core54 = dw, wr_edma = wr_dma, wr_edma_channels = wr_chs,
                                       rd_edma = rd_dma, rd_edma_channels = rd_chs\<rparr>, w)))))"

lemma pass_moves:
  assumes "vec_stable f w" "moves R w (irq_lines f n + X) v"
  shows "moves R w X (irq_free_loop n v)"
  by (rule moves_trans [OF assms(2) irq_free_moves [OF vec_stable_io [OF assms(1) moves_io [OF assms(2)]]]])

text \<open>The second pass, after a first registration in \<open>u\<close>, and the end of probe.\<close>

lemma second_pass:
  assumes l: "lines_requested f R chip dw1 wa ra w w1" and os: "vec_stable f w" "vchan_init_ok os"
    and inv: "setup_inv dw1 wa ra (unat (wr_ch_cnt dw1)) dw2"
    and u: "moves R w (irq_lines f (nat (dw_nr_irqs dw1)) + R) u" "registration w u = 0"
    and m2: "moves R w (add_mset R_dma_device (irq_lines f (nat (dw_nr_irqs dw1)) + R)) w2"
  obtains e dw3 chs w3 where "dw_edma_channel_setup_54 os dw2 False wa ra w2 = Some (e, dw3, dma_device_54 False, chs, w3)"
    "e \<noteq> 0 \<Longrightarrow> second_54 f R w (e, None, irq_free_loop (nat (dw_nr_irqs dw3)) w3)"
    "\<And>r w4. e = 0 \<Longrightarrow> kcall K_debugfs_on w3 = (r, w4) \<Longrightarrow>
      good_54 f R chip w (0, Some \<lparr>core54 = dw3, wr_edma = dma_device_54 True, wr_edma_channels = [0..<unat (wr_ch_cnt dw1)],
        rd_edma = dma_device_54 False, rd_edma_channels = chs\<rparr>, w4)"
proof -
  let ?L = "irq_lines f (nat (dw_nr_irqs dw1))"
  note l = l [unfolded lines_requested_def]
  have pos: "pos_ok dw1 wa ra" and cnt: "length (dw_chan dw1) = unat (wr_ch_cnt dw1) + unat (rd_ch_cnt dw1)"
      "unat (wr_ch_cnt dw1) \<le> 8" "unat (rd_ch_cnt dw1) \<le> 8" and core: "dw_core dw1 \<noteq> CORE_NONE"
    using l by blast+
  obtain dw3 w3 u' e where p: "setup_chans os wa ra (unat (rd_ch_cnt dw1)) (unat (wr_ch_cnt dw1)) dw2 w2 = Some (dw3, u')"
    "setup_inv dw1 wa ra (unat (wr_ch_cnt dw1) + unat (rd_ch_cnt dw1)) dw3" "kcall K_dma_async_device_register u' = (e, w3)"
    "mmio w2 u'" "e = registration w2 u'" "\<And>R. moves R w2 (if e = 0 then add_mset R_dma_device R else R) w3"
    by (rule pass_run [OF inv pos order_refl cnt os(2) core, of w2], rule that)
  note D2 = setup_invD [OF inv] and D3 = setup_invD [OF p(2)]
  let ?chs = "[unat (wr_ch_cnt dw1)..<unat (wr_ch_cnt dw1) + unat (rd_ch_cnt dw1)]"
  have "pass_guard dw2 wa ra"
    using pos_ok_guard [OF pos] by (simp add: pass_guard_def D2)
  from read_setup_eq [OF this] have s: "dw_edma_channel_setup_54 os dw2 False wa ra w2 = Some (e, dw3, dma_device_54 False, ?chs, w3)"
    using p(1,3) by (simp add: D2)
  have u': "moves R w (add_mset R_dma_device (?L + R)) u'" "registration w u' = e"
    using moves_trans [OF m2 mmio_moves [OF p(4)]] p(5) moves_kret [OF m2] by simp_all
  note m3 = moves_trans [OF m2 p(6)]
  have "second_54 f R w (e, None, irq_free_loop (nat (dw_nr_irqs dw3)) w3)" if "e \<noteq> 0"
  proof -
    have "moves R w (?L + add_mset R_dma_device R) w3"
      using m3 that by simp
    then show ?thesis
      using that u u' pass_moves [OF os(1)] unfolding second_54_def prod.case D3 by (intro conjI exI) auto
  qed
  moreover have "good_54 f R chip w (0, Some \<lparr>core54 = dw3, wr_edma = dma_device_54 True, wr_edma_channels = [0..<unat (wr_ch_cnt dw1)],
      rd_edma = dma_device_54 False, rd_edma_channels = ?chs\<rparr>, w4)" if e: "e = 0" and 4: "kcall K_debugfs_on w3 = (r, w4)" for r w4
  proof -
    have "probed (dw_chip dw1) dw3" "length (dw_chan dw3) = unat (wr_ch_cnt dw1) + unat (rd_ch_cnt dw1)"
      using setup_probed [of dw1 wa ra dw3] p(2) l by (auto simp: setup_inv_def)
    moreover have "moves R w (add_mset R_dma_device (add_mset R_dma_device (?L + R))) w4"
      using moves_trans [OF m3 moves_kcall [OF 4]] e by simp
    ultimately show ?thesis
      using u u' e l unfolding good_54_def by (auto simp: D3)
  qed
  ultimately show ?thesis
    by (intro that [OF s])
qed

lemma tail_54_outcome:
  assumes "vec_stable f w" "vchan_init_ok os" "at_request R chip w0 dw w"
  shows "outcome_54 f R (probe_ready chip w0) chip w (tail_54 os dw w)"
  using assms(1,3)
proof (cases rule: request_cases [where os = os])
  case (failed err wa ra dw1 w1)
  then show ?thesis
    by (simp add: tail_54_def outcome_54_def early_54_def)
next
  case (granted wa ra dw1 w1)
  note l = granted(2) [unfolded lines_requested_def]
  let ?L = "irq_lines f (nat (dw_nr_irqs dw1))"
  have m1: "moves R w (?L + R) w1" and pos: "pos_ok dw1 wa ra" and cnt: "length (dw_chan dw1) = unat (wr_ch_cnt dw1) + unat (rd_ch_cnt dw1)"
      "unat (wr_ch_cnt dw1) \<le> 8" "unat (rd_ch_cnt dw1) \<le> 8" and core: "dw_core dw1 \<noteq> CORE_NONE"
      and masks: "irq_masks (dw_irqs dw1) = replicate (length (dw_irqs dw1)) (0, 0)"
    using l by blast+
  obtain dw2 w2 u e where p: "setup_chans os wa ra (unat (wr_ch_cnt dw1)) 0 dw1 w1 = Some (dw2, u)"
    "setup_inv dw1 wa ra (0 + unat (wr_ch_cnt dw1)) dw2" "kcall K_dma_async_device_register u = (e, w2)"
    "mmio w1 u" "e = registration w1 u" "\<And>R. moves R w1 (if e = 0 then add_mset R_dma_device R else R) w2"
    by (rule pass_run [OF setup_inv_start [OF masks] pos _ cnt assms(2) core, of "unat (wr_ch_cnt dw1)" w1], simp, rule that)
  note D2 = setup_invD [OF p(2)]
  have s: "dw_edma_channel_setup_54 os dw1 True wa ra w1 = Some (e, dw2, dma_device_54 True, [0..<unat (wr_ch_cnt dw1)], w2)"
    by (simp add: write_setup_eq [OF pos_ok_guard [OF pos]] p(1,3))
  have u: "moves R w (?L + R) u" "registration w u = e"
    using moves_trans [OF m1 mmio_moves [OF p(4)]] p(5) moves_kret [OF m1] by simp_all
  note m2 = moves_trans [OF m1 p(6) [of "?L + R"]]
  show ?thesis
  proof (cases "e = 0")
    case False
    then have "first_54 f R w (e, None, irq_free_loop (nat (dw_nr_irqs dw1)) w2)"
      using u m2 pass_moves [OF assms(1), of R "nat (dw_nr_irqs dw1)" R w2] by (auto simp: first_54_def)
    then show ?thesis
      using granted(1) s False by (simp add: tail_54_def D2 outcome_54_def)
  next
    case True
    have inv: "setup_inv dw1 wa ra (unat (wr_ch_cnt dw1)) dw2" and u0: "registration w u = 0"
      and m: "moves R w (add_mset R_dma_device (?L + R)) w2"
      using p(2) u(2) m2 True by simp_all
    obtain e' dw3 chs w3 where 3: "dw_edma_channel_setup_54 os dw2 False wa ra w2 = Some (e', dw3, dma_device_54 False, chs, w3)"
      "e' \<noteq> 0 \<Longrightarrow> second_54 f R w (e', None, irq_free_loop (nat (dw_nr_irqs dw3)) w3)"
      "\<And>r w4. e' = 0 \<Longrightarrow> kcall K_debugfs_on w3 = (r, w4) \<Longrightarrow> good_54 f R chip w (0, Some \<lparr>core54 = dw3, wr_edma = dma_device_54 True,
        wr_edma_channels = [0..<unat (wr_ch_cnt dw1)], rd_edma = dma_device_54 False, rd_edma_channels = chs\<rparr>, w4)"
      by (rule second_pass [OF granted(2) assms(1,2) inv u(1) u0 m], rule that)
    obtain r w4 where "kcall K_debugfs_on w3 = (r, w4)" by fastforce
    with 3 show ?thesis
      using granted(1) s True by (cases "e' = 0") (simp_all add: tail_54_def outcome_54_def)
  qed
qed

lemma probe_54_outcome:
  assumes "vec_stable f w" "vchan_init_ok os"
  shows "outcome_54 f R (probe_ready chip w) chip w (akida_dw_edma_probe_54 os chip w)"
proof -
  have "akida_dw_edma_probe_54 os chip w = probe_with (tail_54 os) chip w"
    unfolding akida_dw_edma_probe_54_def probe_with_def tail_54_def Let_def by (rule refl)
  also have "outcome_54 f R (probe_ready chip w) chip w \<dots>"
  proof (rule probe_with_cases [where R = R])
    fix dw v assume a: "at_request R chip w dw v"
    then have "moves R w R v"
      by (simp add: at_request_def)
    then show "outcome_54 f R (probe_ready chip w) chip w (tail_54 os dw v)"
      using outcome_54_prefix tail_54_outcome [OF vec_stable_io [OF assms(1) moves_io] assms(2) a] by blast
  qed (auto simp: outcome_54_def early_54_def)
  finally show ?thesis .
qed

lemma tasklet_kill_list_mmio: "mmio w (tasklet_kill_list is w)"
proof (induction "is" arbitrary: w)
  case (Cons i "is")
  have "mmio w (emit (Kcall (K_tasklet_kill i) r) w)" for r
    by (simp add: mmio_emit)
  then show ?case
    using Cons.IH by (auto simp: kcall_def Let_def intro: mmio_trans)
qed simp

lemma remove_54_moves:
  assumes "vec_stable f w" "dw_core (core54 d) \<noteq> CORE_NONE" "akida_dw_edma_remove_54 (Some d) w = (r, w')"
  shows "r = 0 \<and> moves (add_mset R_dma_device (add_mset R_dma_device (irq_lines f (nat (dw_nr_irqs (core54 d))) + R))) w R w'"
proof -
  let ?D = "add_mset R_dma_device" and ?L = "irq_lines f (nat (dw_nr_irqs (core54 d)))"
  define w1 w2 where "w1 = dw_edma_core_off (core54 d) w" and "w2 = irq_free_loop (nat (dw_nr_irqs (core54 d))) w1"
  have m1: "moves (?D (?D (?L + R))) w (?L + ?D (?D R)) w1"
    using mmio_moves [OF mmio_core(1) [OF assms(2)]] by (simp add: w1_def)
  have m2: "moves (?L + ?D (?D R)) w1 (?D (?D R)) w2"
    unfolding w2_def by (rule irq_free_moves [OF vec_stable_io [OF assms(1) moves_io [OF m1]]])
  obtain q w3 where 3: "kcall K_dma_async_device_unregister w2 = (q, w3)" by fastforce
  define w4 where "w4 = tasklet_kill_list (wr_edma_channels d) w3"
  obtain q' w5 where 5: "kcall K_dma_async_device_unregister w4 = (q', w5)" by fastforce
  have m3: "moves (?D (?D R)) w2 (?D R) w3"
    by (rule moves_kcall [OF 3]) simp
  have m4: "moves (?D R) w3 (?D R) w4"
    unfolding w4_def by (rule mmio_moves [OF tasklet_kill_list_mmio])
  have m5: "moves (?D R) w4 R w5"
    by (rule moves_kcall [OF 5]) simp
  have "r = 0" "w' = tasklet_kill_list (rd_edma_channels d) w5"
    using assms(3) by (simp_all add: akida_dw_edma_remove_54_def Let_def w1_def [symmetric] w2_def [symmetric] 3 w4_def [symmetric] 5)
  then show ?thesis
    using moves_trans [OF moves_trans [OF moves_trans [OF moves_trans [OF moves_trans [OF m1 m2] m3] m4] m5]
        mmio_moves [OF tasklet_kill_list_mmio]] by simp
qed

subsection \<open>Properties\<close>

text \<open>C38: On kernel 5.4 the two passes leave the same channels and the same interrupt masks as the one pass
  of the driver, whatever the device and the registrations answer, and between them list every channel
  once, on the DMA device of its direction; the two devices together announce the directions of the
  driver's one device and otherwise the same capabilities. Neither divides by zero nor leaves the table of
  the lines unless the other does.\<close>

theorem kernel54_same_channels:
  assumes "dw_edma_irq_request os dw0 0 0 w0 = Some (0, wa, ra, dw, w)" "vec_stable f w0"
    "wr_ch_cnt dw0 \<noteq> 0 \<or> rd_ch_cnt dw0 \<noteq> 0"
  shows "two_passes os dw wa ra w =
      map_option (\<lambda>(err, d, dma, v). (d, dma\<lparr>directions := BIT (xfer_dir_val DMA_DEV_TO_MEM)\<rparr>, [0..<unat (wr_ch_cnt dw)],
          dma\<lparr>directions := BIT (xfer_dir_val DMA_MEM_TO_DEV)\<rparr>,
          [unat (wr_ch_cnt dw)..<unat (wr_ch_cnt dw) + unat (rd_ch_cnt dw)])) (dw_edma_channel_setup os dw wa ra w) \<and>
    directions dw_edma_dma_device = directions (dma_device_54 True) OR directions (dma_device_54 False)"
proof -
  have "pos_ok dw wa ra"
    using irq_request_ok [OF assms(2,3), of "{#}" os] unfolding assms(1) request_ok_def by simp
  moreover have "dw_edma_channel_setup os dw wa ra w = Some (err, d, dma, v) \<Longrightarrow> dma = dw_edma_dma_device" for err d dma v
    by (auto simp: dw_edma_channel_setup_def Let_def split: option.splits prod.splits)
  ultimately show ?thesis
    unfolding two_passes_eq [OF pos_ok_guard [OF \<open>pos_ok dw wa ra\<close>]]
    by (cases "dw_edma_channel_setup os dw wa ra w") (auto simp: dma_device_54_def dw_edma_dma_device_def)
qed

text \<open>C39: On kernel 5.4 probe always returns. A probe that fails has given back every interrupt line and
  holds at most one registration; one that succeeds leaves every channel ready with its one line, as the
  driver does, and what it holds, two registrations and its lines, remove gives back.\<close>

theorem kernel54_probe_remove:
  assumes "vec_stable f w" "vchan_init_ok os"
  shows "case akida_dw_edma_probe_54 os chip w of None \<Rightarrow> False
    | Some (err, d, w') \<Rightarrow>
        (if err \<noteq> 0 then d = None \<and> ledger {#} (new_evs w w') \<in> {Some {#}, Some {#R_dma_device#}}
         else \<exists>d' c. d = Some d' \<and> chip = Some c \<and> probed c (core54 d') \<and>
                wr_edma_channels d' @ rd_edma_channels d' = [0..<length (dw_chan (core54 d'))] \<and>
                ledger {#} (new_evs w w') =
                  Some (add_mset R_dma_device (add_mset R_dma_device (irq_lines f (nat (dw_nr_irqs (core54 d')))))) \<and>
                (case akida_dw_edma_remove_54 d w' of (r, v) \<Rightarrow> r = 0 \<and> ledger {#} (new_evs w v) = Some {#}))"
proof -
  obtain err d w' where r: "akida_dw_edma_probe_54 os chip w = Some (err, d, w')"
    "early_54 {#} (probe_ready chip w) w (err, d, w') \<or> first_54 f {#} w (err, d, w') \<or> second_54 f {#} w (err, d, w') \<or>
     good_54 f {#} chip w (err, d, w')"
    using probe_54_outcome [OF assms, of "{#}" chip] by (auto simp: outcome_54_def)
  show ?thesis
  proof (cases "err = 0")
    case False
    then show ?thesis
      using r by (auto simp: early_54_def first_54_def second_54_def good_54_def moves_def)
  next
    case True
    let ?H = "\<lambda>d'. add_mset R_dma_device (add_mset R_dma_device (irq_lines f (nat (dw_nr_irqs (core54 d')))))"
    obtain d' c where d: "d = Some d'" "chip = Some c" "probed c (core54 d')"
      "wr_edma_channels d' = [0..<unat (wr_ch_cnt (core54 d'))]"
      "rd_edma_channels d' = [unat (wr_ch_cnt (core54 d'))..<length (dw_chan (core54 d'))]"
      "moves {#} w (?H d') w'"
      using r(2) True by (auto simp: early_54_def first_54_def second_54_def good_54_def)
    have "unat (wr_ch_cnt (core54 d')) \<le> length (dw_chan (core54 d'))" and core: "dw_core (core54 d') \<noteq> CORE_NONE"
      using d(3) by (simp_all add: probed_def dw_wf_def)
    then have chs: "wr_edma_channels d' @ rd_edma_channels d' = [0..<length (dw_chan (core54 d'))]"
      using upt_add_eq_append [of 0 "unat (wr_ch_cnt (core54 d'))" "length (dw_chan (core54 d')) - unat (wr_ch_cnt (core54 d'))"]
      by (simp add: d(4,5))
    obtain q v where v: "akida_dw_edma_remove_54 (Some d') w' = (q, v)" by fastforce
    have "q = 0 \<and> moves (?H d') w' {#} v"
      using remove_54_moves [OF vec_stable_io [OF assms(1) moves_io [OF d(6)]] core v, of "{#}"] by simp
    then have "q = 0 \<and> ledger {#} (new_evs w v) = Some {#}"
      using moves_trans [OF d(6)] by (auto simp: moves_def)
    then show ?thesis
      using r(1) True d(1,2,3,6) chs v by (simp add: moves_def)
  qed
qed

text \<open>A trace after which a DMA device is registered.\<close>

definition holds_device :: "ev list \<Rightarrow> bool" where
  "holds_device tr \<longleftrightarrow> (case ledger {#} tr of None \<Rightarrow> False | Some M \<Rightarrow> R_dma_device \<in># M)"

lemma irq_lines_no_device: "R_dma_device \<notin># irq_lines f n"
  by (auto simp: irq_lines_def)

lemma holds_device_moves:
  assumes "trace w = []" "moves {#} w M u"
  shows "holds_device (trace u) \<longleftrightarrow> R_dma_device \<in># M"
  using assms by (simp add: holds_device_def moves_def new_evs_def)

text \<open>C40: On kernel 5.4 a probe whose second registration is refused leaves the first one behind: probe fails
  with the error of the registration, nobody is left to undo it, and the write device stays registered.
  Here everything before succeeds and the kernel refuses a registration while one is held.\<close>

theorem kernel54_probe_leaks_registration:
  assumes "vec_stable f w" "vchan_init_ok os" "probe_ready (Some c) w" "trace w = []" "e \<noteq> 0"
    "\<And>tr. kret w tr K_dma_async_device_register = (if holds_device tr then e else 0)"
  shows "\<exists>w'. akida_dw_edma_probe_54 os (Some c) w = Some (e, None, w') \<and> ledger {#} (new_evs w w') = Some {#R_dma_device#}"
proof -
  obtain err d w' where r: "akida_dw_edma_probe_54 os (Some c) w = Some (err, d, w')"
    "first_54 f {#} w (err, d, w') \<or> second_54 f {#} w (err, d, w') \<or> good_54 f {#} (Some c) w (err, d, w')"
    using probe_54_outcome [OF assms(1,2), of "{#}" "Some c"] assms(3) by (auto simp: outcome_54_def early_54_def)
  have reg: "registration w u = (if R_dma_device \<in># M then e else 0)" if "moves {#} w M u" for M u
    using assms(6) holds_device_moves [OF assms(4) that] by simp
  have "\<not> first_54 f {#} w (err, d, w')" "\<not> good_54 f {#} (Some c) w (err, d, w')"
    using assms(5) irq_lines_no_device by (auto simp: first_54_def good_54_def reg)
  then have "d = None \<and> err = e \<and> moves {#} w {#R_dma_device#} w'"
    using r(2) by (auto simp: second_54_def reg)
  then show ?thesis
    using r(1) by (simp add: moves_def)
qed

definition ex_world54 :: world where
  "ex_world54 = ex_pworld\<lparr>kret := (\<lambda>tr k. if k = K_dma_async_device_register \<and> holds_device tr then - 12 else ex_kret tr k)\<rparr>"

lemma ex_world54_ready: "probe_ready (Some ex_pchip) ex_world54" "vec_stable (\<lambda>i. 40 + int i) ex_world54"
proof -
  have "wr_ch_cnt (fst (probe_counts (probe_select ex_pchip) (snd (kcall K_devm_kzalloc ex_world54)))) = 2"
    by (simp add: kcall_def Let_def probe_select_def ex_pchip_def ex_chip_def ex_pworld_def ex_world54_def
        dw_edma_v0_core_register_def probe_counts_def dw_edma_core_ch_count_def dw_edma_v0_core_ch_count_def
        v0_reg_defs readl_def EDMA_MAX_WR_CH_def EDMA_MAX_RD_CH_def EDMA_V0_MAX_NR_CH_def ex_counts split_beta)
  then show "probe_ready (Some ex_pchip) ex_world54"
    by (simp add: probe_ready_def steps_succeed_def ex_world54_def split_beta) (simp add: ex_pchip_def ex_chip_def)
  show "vec_stable (\<lambda>i. 40 + int i) ex_world54"
    by (simp add: vec_stable_def ex_world54_def)
qed

theorem kernel54_probe_leaks_registration_witness:
  "\<exists>w'. akida_dw_edma_probe_54 ex_os (Some ex_pchip) ex_world54 = Some (- 12, None, w') \<and>
     ledger {#} (new_evs ex_world54 w') = Some {#R_dma_device#}"
  by (rule kernel54_probe_leaks_registration [OF ex_world54_ready(2) ex_os_ok ex_world54_ready(1)])
    (simp_all add: ex_world54_def ex_pworld_def ex_world_def)

theorem kernel54_probe_remove_witness:
  "\<exists>d w'. akida_dw_edma_probe_54 ex_os (Some ex_pchip) ex_pworld = Some (0, Some d, w') \<and>
     wr_edma_channels d @ rd_edma_channels d = [0..<length (dw_chan (core54 d))] \<and>
     (case akida_dw_edma_remove_54 (Some d) w' of (r, v) \<Rightarrow> r = 0 \<and> ledger {#} (new_evs ex_pworld v) = Some {#})"
proof -
  have ready: "probe_ready (Some ex_pchip) ex_pworld" "registers ex_pworld"
    using ex_probe_good by (simp_all add: probe_good_def)
  then have reg: "registration ex_pworld u = 0" for u
    by (simp add: registers_def)
  obtain d w' where "akida_dw_edma_probe_54 ex_os (Some ex_pchip) ex_pworld = Some (0, Some d, w')"
    using probe_54_outcome [OF ex_pworld_ok(1) ex_os_ok, of "{#}" "Some ex_pchip"] ready
    by (auto simp: outcome_54_def early_54_def first_54_def second_54_def good_54_def reg)
  then show ?thesis
    using kernel54_probe_remove [OF ex_pworld_ok(1) ex_os_ok, of "Some ex_pchip"] by simp
qed

definition ex_req_dw :: dw_edma where
  "ex_req_dw = (probe_select ex_pchip)\<lparr>wr_ch_cnt := 2, rd_ch_cnt := 2, dw_chan := replicate 4 zero_chan\<rparr>"

theorem kernel54_same_channels_witness:
  "\<exists>wa ra dw w. dw_edma_irq_request ex_os ex_req_dw 0 0 ex_pworld = Some (0, wa, ra, dw, w) \<and>
     map_option (\<lambda>(d, _, chs, _, chs'). (d, chs @ chs')) (two_passes ex_os dw wa ra w) =
     map_option (\<lambda>(err, d, dma, v). (d, [0..<4])) (dw_edma_channel_setup ex_os dw wa ra w)"
proof -
  have dw: "dw_chip ex_req_dw = ex_pchip" "wr_ch_cnt ex_req_dw \<noteq> 0 \<or> rd_ch_cnt ex_req_dw \<noteq> 0"
    by (simp_all add: ex_req_dw_def probe_select_def Let_def ex_pchip_def ex_chip_def dw_edma_v0_core_register_def)
  have chip: "1 \<le> chip_nr_irqs ex_pchip" "ops_irq_vector ex_pchip"
    by (simp_all add: ex_pchip_def ex_chip_def)
  have ok: "request_ok (\<lambda>i. 40 + int i) {#} ex_req_dw ex_pworld (dw_edma_irq_request ex_os ex_req_dw 0 0 ex_pworld)"
    by (rule irq_request_ok [OF ex_pworld_ok(1) dw(2)])
  moreover have "steps_succeed ex_pworld"
    using ex_pworld_ok(2) by (simp add: calls_succeed_def)
  ultimately obtain wa ra d w where r: "dw_edma_irq_request ex_os ex_req_dw 0 0 ex_pworld = Some (0, wa, ra, d, w)"
    "d = ex_req_dw\<lparr>dw_irqs := dw_irqs d, dw_nr_irqs := dw_nr_irqs d\<rparr>"
    using chip by (auto simp: request_ok_def dw(1) split: option.splits if_splits)
  have "wr_ch_cnt d = wr_ch_cnt ex_req_dw" "rd_ch_cnt d = rd_ch_cnt ex_req_dw"
    by (subst r(2), simp)+
  then have "unat (wr_ch_cnt d) = 2" "unat (rd_ch_cnt d) = 2"
    by (simp_all add: ex_req_dw_def)
  then show ?thesis
    using r(1) kernel54_same_channels [OF r(1) ex_pworld_ok(1) dw(2)]
    by (cases "dw_edma_channel_setup ex_os d wa ra w") (auto simp: upt_rec numeral_eq_Suc)
qed

end
