(* ===== verification/Host_Window.thy ===== *)
theory Host_Window
  imports Akida_Probe
begin

section \<open>The host memory a board sees (akida-pcie-core.c)\<close>

text \<open>
  The Akida 1500 reaches a buffer of the host through outbound region 0 of its address translation. This
  theory relates the three places that have to agree on it: the allocation of the buffer, the registers
  of the region, and the part of \<open>mmap\<close> that gives the same buffer to the user.
\<close>

text \<open>The value last written to a register.\<close>

definition last_write :: "ev list \<Rightarrow> iomem \<Rightarrow> u32 option" where
  "last_write es a = fold (\<lambda>e r. case e of Writel b v \<Rightarrow> if a = b then Some v else r | _ \<Rightarrow> r) es None"

text \<open>The outbound region the written registers describe: first address, last address and target. There is
  none unless the enable bit of its control register is the last thing written there.\<close>

definition out_window :: "ev list \<Rightarrow> iomem \<Rightarrow> (nat \<times> nat \<times> u64) option" where
  "out_window es base =
     (case last_write es (base + 0x404) of
        None \<Rightarrow> None
      | Some ctrl \<Rightarrow>
          if \<not> bit ctrl 31 then None
          else Some (unat (join_32 (the (last_write es (base + 0x408))) (the (last_write es (base + 0x40c)))),
                     unat (the (last_write es (base + 0x410))),
                     join_32 (the (last_write es (base + 0x414))) (the (last_write es (base + 0x418)))))"

subsection \<open>Lemmas: the allocation\<close>

definition ddr_sizes :: "u64 list" where
  "ddr_sizes = [0x1000000, 0x800000, 0x400000, 0x200000, 0x100000]"

fun try_sizes :: "akida_plat \<Rightarrow> u64 list \<Rightarrow> host_ddr_area \<Rightarrow> world \<Rightarrow> host_ddr_area \<times> world" where
  "try_sizes plat [] ddr w = (ddr\<lparr>hd_size := 0\<rparr>, w)"
| "try_sizes plat (s # ss) ddr w =
     (let (p, w) = kcall (K_dmam_alloc_attrs s) w;
          ddr = ddr\<lparr>hd_size := s, hd_cpu_addr := p, hd_dma_addr := ddr_dma_addr plat s\<rparr>
      in if p \<noteq> 0 then (ddr, w) else try_sizes plat ss ddr w)"

lemma ddr_loop_step:
  assumes "AKIDA_1500_HOST_DDR_SIZE_MIN \<le> s" "\<And>ddr w. host_ddr_loop plat (s div 2) ddr w = try_sizes plat ss ddr w"
  shows "host_ddr_loop plat s ddr w = try_sizes plat (s # ss) ddr w"
  unfolding host_ddr_loop.simps [of plat s] try_sizes.simps(2) if_P [OF assms(1)] assms(2) by (rule refl)

lemma ddr_loop_sizes: "host_ddr_loop plat AKIDA_1500_HOST_DDR_SIZE_MAX ddr w = try_sizes plat ddr_sizes ddr w"
proof -
  have "host_ddr_loop plat 0x80000 ddr w = try_sizes plat [] ddr w" for ddr w
    by (subst host_ddr_loop.simps) (simp add: AKIDA_1500_HOST_DDR_SIZE_MIN_def)
  then have 1: "host_ddr_loop plat 0x100000 ddr w = try_sizes plat [0x100000] ddr w" for ddr w
    by (intro ddr_loop_step) (simp_all add: AKIDA_1500_HOST_DDR_SIZE_MIN_def)
  have 2: "host_ddr_loop plat 0x200000 ddr w = try_sizes plat [0x200000, 0x100000] ddr w" for ddr w
    by (rule ddr_loop_step) (simp_all add: 1 AKIDA_1500_HOST_DDR_SIZE_MIN_def)
  have 3: "host_ddr_loop plat 0x400000 ddr w = try_sizes plat [0x400000, 0x200000, 0x100000] ddr w" for ddr w
    by (rule ddr_loop_step) (simp_all add: 2 AKIDA_1500_HOST_DDR_SIZE_MIN_def)
  have 4: "host_ddr_loop plat 0x800000 ddr w = try_sizes plat [0x800000, 0x400000, 0x200000, 0x100000] ddr w" for ddr w
    by (rule ddr_loop_step) (simp_all add: 3 AKIDA_1500_HOST_DDR_SIZE_MIN_def)
  show ?thesis
    unfolding AKIDA_1500_HOST_DDR_SIZE_MAX_def ddr_sizes_def
    by (rule ddr_loop_step) (simp_all add: 4 AKIDA_1500_HOST_DDR_SIZE_MIN_def)
qed

text \<open>The requests made: refused ones, and then the granted one if there is one.\<close>

definition refusals :: "u64 list \<Rightarrow> ev list" where
  "refusals ss = map (\<lambda>s. Kcall (K_dmam_alloc_attrs s) 0) ss"

definition largest_granted :: "akida_plat \<Rightarrow> u64 list \<Rightarrow> host_ddr_area \<Rightarrow> ev list \<Rightarrow> bool" where
  "largest_granted plat ss ddr es \<longleftrightarrow>
     (\<exists>pre post. ss = pre @ hd_size ddr # post \<and> hd_cpu_addr ddr \<noteq> 0 \<and> hd_dma_addr ddr = ddr_dma_addr plat (hd_size ddr) \<and>
        es = refusals pre @ [Kcall (K_dmam_alloc_attrs (hd_size ddr)) (hd_cpu_addr ddr)]) \<or>
     hd_size ddr = 0 \<and> es = refusals ss"

lemma try_sizes_result:
  "try_sizes plat ss ddr w = (ddr', w') \<Longrightarrow> largest_granted plat ss ddr' (new_evs w w') \<and> io_only w w'"
proof (induction ss arbitrary: ddr w)
  case Nil
  then show ?case
    by (auto simp: largest_granted_def refusals_def)
next
  case (Cons s ss)
  obtain p w1 where 1: "kcall (K_dmam_alloc_attrs s) w = (p, w1)" by fastforce
  have m: "io_only w w1" and e: "new_evs w w1 = [Kcall (K_dmam_alloc_attrs s) p]"
    using 1 by (auto simp: kcall_def Let_def new_evs_emit)
  show ?case
  proof (cases "p = 0")
    case False
    then show ?thesis
      using Cons.prems m e by (fastforce simp: 1 largest_granted_def refusals_def)
  next
    case True
    then have "try_sizes plat ss (ddr\<lparr>hd_size := s, hd_cpu_addr := 0, hd_dma_addr := ddr_dma_addr plat s\<rparr>) w1 = (ddr', w')"
      using Cons.prems by (simp add: 1)
    note ih = Cons.IH [OF this]
    have ev: "new_evs w w' = Kcall (K_dmam_alloc_attrs s) 0 # new_evs w1 w'"
      using new_evs_trans [OF m, of w'] ih e True by simp
    show ?thesis
      using ih unfolding largest_granted_def ev
      apply (elim conjE disjE exE)
      subgoal for pre post
        using io_only_trans [OF m] by (intro conjI disjI1 exI [of _ "s # pre"] exI [of _ post]) (simp_all add: refusals_def)
      subgoal
        using io_only_trans [OF m] by (simp add: refusals_def)
      done
  qed
qed

subsection \<open>Lemmas: the registers\<close>

text \<open>The window of a buffer: from its address on the device, over its size, to its bus address.\<close>

definition ddr_window :: "host_ddr_area \<Rightarrow> nat \<times> nat \<times> u64" where
  "ddr_window ddr = (0xC0000000, 0xC0000000 + unat (hd_size ddr) - 1, hd_dma_addr ddr)"

definition inbound_evs :: "iomem \<Rightarrow> ev list" where
  "inbound_evs base = [Writel (base + 0x700) 0, Writel (base + 0x704) 0xC0080200, Writel (base + 0x714) 0xFCC00000,
     Writel (base + 0x900) 0, Writel (base + 0x904) 0xC0080400, Writel (base + 0x914) 0x20000000]"

definition outbound_evs :: "iomem \<Rightarrow> host_ddr_area \<Rightarrow> ev list" where
  "outbound_evs base ddr = [Writel (base + 0x404) 0, Writel (base + 0x400) 0, Writel (base + 0x408) 0xC0000000,
     Writel (base + 0x40c) 0, Writel (base + 0x410) (ucast (AKIDA_1500_HOST_DDR_BASE + hd_size ddr - 1)),
     Writel (base + 0x414) (lower_32_bits (hd_dma_addr ddr)), Writel (base + 0x418) (upper_32_bits (hd_dma_addr ddr)),
     Writel (base + 0x404) 0x80000000]"

lemma inbound_trace: "trace (iatu_1500_loop base akida_1500_iatu_conf_table w) = trace w @ inbound_evs base"
  by (simp add: akida_1500_iatu_conf_table_def writel_def inbound_evs_def AKIDA_1500_BAR2_OFFSET_def AKIDA_1500_BAR4_OFFSET_def)

lemma outbound_trace: "trace (iatu_outbound base ddr w) = trace w @ outbound_evs base ddr"
  by (simp add: iatu_outbound_def Let_def writel_def outbound_evs_def) (simp add: AKIDA_1500_HOST_DDR_BASE_def)

lemma setup_iatu_evs:
  assumes "akida_1500_setup_iatu plat a w = (0, a', w')"
  shows "mmio_bar0 a' = iomap_table plat 0 \<and> host_ddr a' = host_ddr a \<and>
    (\<exists>r. new_evs w w' = Kcall (K_pcim_iomap_regions (BIT 0)) 0 # inbound_evs (iomap_table plat 0) @
       (if hd_size (host_ddr a) \<noteq> 0 then outbound_evs (iomap_table plat 0) (host_ddr a) else []) @ [Kcall (K_msleep 1000) r])"
proof -
  let ?base = "iomap_table plat 0"
  obtain q w1 where 1: "kcall (K_pcim_iomap_regions (BIT 0)) w = (q, w1)" by fastforce
  define w2 where "w2 = iatu_1500_loop ?base akida_1500_iatu_conf_table w1"
  define w3 where "w3 = (if hd_size (host_ddr a) \<noteq> 0 then iatu_outbound ?base (host_ddr a) w2 else w2)"
  obtain r w4 where 4: "kcall (K_msleep 1000) w3 = (r, w4)" by fastforce
  have q: "q = 0" and a': "a' = a\<lparr>mmio_bar0 := ?base\<rparr>" and w': "w' = w4"
    using assms 4 unfolding w3_def
    by (cases "hd_size (host_ddr a) = 0"; auto simp: akida_1500_setup_iatu_def 1 Let_def w2_def [symmetric] split: if_splits)+
  have "trace w4 = trace w @ Kcall (K_pcim_iomap_regions (BIT 0)) 0 # inbound_evs ?base @
      (if hd_size (host_ddr a) \<noteq> 0 then outbound_evs ?base (host_ddr a) else []) @ [Kcall (K_msleep 1000) r]"
    unfolding kcall_trace [OF 4] using q by (simp add: w3_def outbound_trace w2_def inbound_trace kcall_trace [OF 1])
  then show ?thesis
    unfolding w' a' by (auto intro!: new_evsI)
qed

text \<open>The window after any number of these writes.\<close>

lemma granted_size:
  assumes "largest_granted plat ddr_sizes ddr es"
  shows "hd_size ddr \<in> insert 0 (set ddr_sizes)"
  using assms unfolding largest_granted_def by (metis in_set_conv_decomp insert_iff)

lemma last_write_snoc: "last_write (es @ [e]) a = (case e of Writel b v \<Rightarrow> if a = b then Some v else last_write es a | _ \<Rightarrow> last_write es a)"
  by (cases e) (simp_all add: last_write_def)

lemma last_write_mem: "last_write es a = Some v \<Longrightarrow> Writel a v \<in> set es"
proof (induction es rule: rev_induct)
  case Nil
  then show ?case by (simp add: last_write_def)
next
  case (snoc e es)
  then show ?case
    by (auto simp: last_write_snoc split: ev.splits if_splits)
qed

text \<open>Up to the last write the region is off.\<close>

lemma window_off: "(\<And>v. Writel (base + 0x404) v \<in> set es \<Longrightarrow> \<not> bit v 31) \<Longrightarrow> out_window es base = None"
  unfolding out_window_def using last_write_mem [of es "base + 0x404"] by (auto split: option.splits)

lemma window_prefix:
  assumes "hd_size ddr \<in> set ddr_sizes" "es = Kcall c q # inbound_evs base @ outbound_evs base ddr @ [Kcall c' r]"
  shows "out_window es base = Some (ddr_window ddr)" "out_window (take k es) base \<in> {None, Some (ddr_window ddr)}"
proof -
  have lim: "unat (ucast (AKIDA_1500_HOST_DDR_BASE + hd_size ddr - 1) :: u32) = 0xC0000000 + unat (hd_size ddr) - 1"
    using assms(1) by (auto simp: ddr_sizes_def AKIDA_1500_HOST_DDR_BASE_def)
  define xs where "xs = Kcall c q # inbound_evs base @ butlast (outbound_evs base ddr)"
  have es: "es = xs @ [Writel (base + 0x404) 0x80000000, Kcall c' r]"
    unfolding assms(2) xs_def by (simp add: outbound_evs_def)
  have j: "join_32 0xC0000000 0 = 0xC0000000"
    by (simp add: join_32_def)
  have full: "out_window (xs @ Writel (base + 0x404) 0x80000000 # zs) base = Some (ddr_window ddr)" if "zs \<in> {[], [Kcall c' r]}" for zs
    using that by (auto simp: out_window_def last_write_def xs_def inbound_evs_def outbound_evs_def ddr_window_def lim j)
  then show "out_window es base = Some (ddr_window ddr)"
    by (simp add: es)
  have off: "out_window (take k xs) base = None" for k
    by (rule window_off) (auto simp: xs_def inbound_evs_def outbound_evs_def dest!: in_set_takeD)
  consider "k \<le> length xs" | "k = Suc (length xs)" | "Suc (Suc (length xs)) \<le> k"
    by linarith
  then show "out_window (take k es) base \<in> {None, Some (ddr_window ddr)}"
  proof cases
    case 1
    then show ?thesis using off [of k] by (simp add: es)
  next
    case 2
    then show ?thesis using full by (simp add: es)
  next
    case 3
    then show ?thesis using full by (simp add: es)
  qed
qed

subsection \<open>Lemmas: the mapping\<close>

text \<open>An area that \<open>mmap\<close> gives the host buffer: the pages of the window, no more and no less.\<close>

definition maps_ddr :: "host_ddr_area \<Rightarrow> ev list \<Rightarrow> bool" where
  "maps_ddr ddr es \<longleftrightarrow> (\<exists>r. es = [Kcall (K_dma_mmap_attrs (hd_cpu_addr ddr) (hd_dma_addr ddr) AKIDA_1500_HOST_DDR_BASE) r])"

lemma akida_mmap_evs: "akida_mmap bars bar vma w = (r, vma', w') \<Longrightarrow> \<not> maps_ddr ddr (new_evs w w')"
  by (auto simp: akida_mmap_def Let_def maps_ddr_def kcall_def new_evs_emit split: prod.splits)

lemma ddr_pages:
  assumes "hd_size ddr \<in> set ddr_sizes"
  shows "unat (0xC0000 + pages_of (hd_size ddr)) = 0xC0000 + unat (hd_size ddr) div 4096"
    "4096 * (unat (hd_size ddr) div 4096) = unat (hd_size ddr)" "unat (hd_size ddr) div 4096 \<le> 0x1000"
  using assms by (auto simp: ddr_sizes_def pages_of_def PAGE_SHIFT_def drop_bit_eq_div)

text \<open>The page tests of the DDR branch, in bytes; a window they accept passes neither BAR test.\<close>

lemma ddr_window_iff:
  assumes "hd_size ddr \<in> insert 0 (set ddr_sizes)" "unat p + unat n < 2 ^ 52"
  shows "hd_size ddr \<noteq> 0 \<and> 0xC0000 \<le> p \<and> p + n \<le> 0xC0000 + pages_of (hd_size ddr) \<longleftrightarrow>
    hd_size ddr \<noteq> 0 \<and> 0xC0000000 \<le> 4096 * unat p \<and> 4096 * (unat p + unat n) \<le> 0xC0000000 + unat (hd_size ddr)"
proof (cases "hd_size ddr = 0")
  case False
  then have size: "unat (0xC0000 + pages_of (hd_size ddr)) = 0xC0000 + unat (hd_size ddr) div 4096"
    "4096 * (unat (hd_size ddr) div 4096) = unat (hd_size ddr)"
    using assms(1) ddr_pages by auto
  have "unat (p + n) = unat p + unat n"
    using assms(2) by (intro unat_plus) simp
  then have "0xC0000 \<le> p \<and> p + n \<le> 0xC0000 + pages_of (hd_size ddr) \<longleftrightarrow>
      0xC0000 \<le> unat p \<and> unat p + unat n \<le> 0xC0000 + unat (hd_size ddr) div 4096"
    by (simp add: word_le_nat_alt size(1))
  then show ?thesis
    using size(2) by auto
qed simp

lemma ddr_window_no_bar:
  assumes "hd_size ddr \<in> set ddr_sizes" "unat p + unat n < 2 ^ 52" "n \<noteq> 0"
    and "0xC0000 \<le> p" "p + n \<le> 0xC0000 + pages_of (hd_size ddr)" and len: "len \<noteq> 0" "len \<le> 0xA0000000"
  shows "\<not> 0xFCC00 \<le> p" "\<not> p + n \<le> 0x20000 + pages_of len"
proof -
  have sum: "unat (p + n) = unat p + unat n"
    using assms(2) by (intro unat_plus) simp
  have "unat len \<le> 0xA0000000"
    using len(2) by (simp add: word_le_nat_alt)
  then have "unat (pages_of len) \<le> 0xA0000"
    unfolding pages_of_eq [OF len(1)] by (simp add: div_le_mono [of _ "0xA0000FFF" 4096, simplified])
  moreover from this have "unat (0x20000 + pages_of len) = 0x20000 + unat (pages_of len)"
    by (subst unat_plus) simp_all
  ultimately have "unat (0x20000 + pages_of len) \<le> 0xC0000"
    by simp
  moreover have "0 < unat n"
    using assms(3) by (simp add: unat_gt_0)
  ultimately show "\<not> 0xFCC00 \<le> p" "\<not> p + n \<le> 0x20000 + pages_of len"
    using assms(4,5) ddr_pages [OF assms(1)] by (simp_all add: word_le_nat_alt sum)
qed

lemma mmap_ddr_iff:
  assumes "hd_size ddr \<in> insert 0 (set ddr_sizes)" "unat (vm_pgoff vma) + unat (vma_pages vma) < 2 ^ 52" "vma_pages vma \<noteq> 0"
    "bar_len bars 4 \<noteq> 0" "bar_len bars 4 \<le> 0xA0000000" "akida_1500_mmap bars ddr vma w = (r, vma', w')"
  shows "maps_ddr ddr (new_evs w w') \<longleftrightarrow>
      hd_size ddr \<noteq> 0 \<and> 0xC0000000 \<le> 4096 * unat (vm_pgoff vma) \<and>
      4096 * (unat (vm_pgoff vma) + unat (vma_pages vma)) \<le> 0xC0000000 + unat (hd_size ddr)"
    "maps_ddr ddr (new_evs w w') \<Longrightarrow> 4096 * unat (vm_pgoff vma') = 4096 * unat (vm_pgoff vma) - 0xC0000000"
proof -
  have starts: "drop_bit PAGE_SHIFT AKIDA_1500_BAR2_OFFSET = 0xFCC00" "drop_bit PAGE_SHIFT AKIDA_1500_BAR4_OFFSET = 0x20000"
    "drop_bit PAGE_SHIFT AKIDA_1500_HOST_DDR_BASE = 0xC0000"
    by (simp_all add: PAGE_SHIFT_def AKIDA_1500_BAR2_OFFSET_def AKIDA_1500_BAR4_OFFSET_def AKIDA_1500_HOST_DDR_BASE_def drop_bit_eq_div)
  let ?D = "hd_size ddr \<noteq> 0 \<and> 0xC0000 \<le> vm_pgoff vma \<and> vm_pgoff vma + vma_pages vma \<le> 0xC0000 + pages_of (hd_size ddr)"
  note iff = ddr_window_iff [OF assms(1,2)] and def = akida_1500_mmap_def [of bars ddr vma w, unfolded starts Let_def]
  have yes: "maps_ddr ddr (new_evs w w') \<and> vm_pgoff vma' = vm_pgoff vma - 0xC0000" if ?D
  proof -
    obtain q w1 where 1: "kcall (K_dma_mmap_attrs (hd_cpu_addr ddr) (hd_dma_addr ddr) AKIDA_1500_HOST_DDR_BASE) w = (q, w1)"
      by fastforce
    have "\<not> 0xFCC00 \<le> vm_pgoff vma" "\<not> vm_pgoff vma + vma_pages vma \<le> 0x20000 + pages_of (bar_len bars 4)"
      using ddr_window_no_bar [OF _ assms(2,3) _ _ assms(4,5)] assms(1) that by blast+
    then have "akida_1500_mmap bars ddr vma w = (q, vma\<lparr>vm_pgoff := vm_pgoff vma - 0xC0000\<rparr>, w1)"
      unfolding def using that 1 by simp
    then show ?thesis
      using assms(6) new_evsI [OF kcall_trace [OF 1]] by (auto simp: maps_ddr_def)
  qed
  have no: "\<not> maps_ddr ddr (new_evs w w')" if "\<not> ?D"
    using assms(6) unfolding def if_not_P [OF that]
    by (auto simp: maps_ddr_def [of ddr "[]"] dest: akida_mmap_evs [where ddr = ddr] split: if_splits)
  show "maps_ddr ddr (new_evs w w') \<longleftrightarrow>
      hd_size ddr \<noteq> 0 \<and> 0xC0000000 \<le> 4096 * unat (vm_pgoff vma) \<and>
      4096 * (unat (vm_pgoff vma) + unat (vma_pages vma)) \<le> 0xC0000000 + unat (hd_size ddr)"
    using yes no iff by blast
  assume "maps_ddr ddr (new_evs w w')"
  then have d: ?D and v: "vm_pgoff vma' = vm_pgoff vma - 0xC0000"
    using yes no by blast+
  show "4096 * unat (vm_pgoff vma') = 4096 * unat (vm_pgoff vma) - 0xC0000000"
    unfolding v using unat_sub [of "0xC0000" "vm_pgoff vma"] d by simp
qed

subsection \<open>Property\<close>

text \<open>C10: The buffer of the host, the window of the device onto it and what a user can map are the same
  memory. The buffer is the largest of 16, 8, 4, 2 and 1 MB the kernel grants, asked for in this order,
  or none; the outbound region of the Akida 1500 then shows exactly the buffer from 0xC0000000 on, is
  never on with other contents while it is set up, and stays off without a buffer; and an area is given
  the buffer exactly when all its pages lie in the window, each at its place in the buffer.\<close>

theorem host_window_agrees:
  assumes "akida_1500_setup_host_ddr plat akida w = (r, a, w1)" "akida_1500_setup_iatu plat a w1 = (0, a', w2)"
  shows "r = 0 \<and> largest_granted plat ddr_sizes (host_ddr a') (new_evs w w1) \<and>
    out_window (new_evs w1 w2) (mmio_bar0 a') =
      (if hd_size (host_ddr a') = 0 then None else Some (ddr_window (host_ddr a'))) \<and>
    (\<forall>k. out_window (take k (new_evs w1 w2)) (mmio_bar0 a') \<in> {None, Some (ddr_window (host_ddr a'))}) \<and>
    (\<forall>bars vma v. unat (vm_pgoff vma) + unat (vma_pages vma) < 2 ^ 52 \<and> vma_pages vma \<noteq> 0 \<and>
        bar_len bars 4 \<noteq> 0 \<and> bar_len bars 4 \<le> 0xA0000000 \<longrightarrow>
      (case akida_1500_mmap bars (host_ddr a') vma v of (r, vma', v') \<Rightarrow>
        (maps_ddr (host_ddr a') (new_evs v v') \<longleftrightarrow>
           hd_size (host_ddr a') \<noteq> 0 \<and> 0xC0000000 \<le> 4096 * unat (vm_pgoff vma) \<and>
           4096 * (unat (vm_pgoff vma) + unat (vma_pages vma)) \<le> 0xC0000000 + unat (hd_size (host_ddr a'))) \<and>
        (maps_ddr (host_ddr a') (new_evs v v') \<longrightarrow>
           4096 * unat (vm_pgoff vma') = 4096 * unat (vm_pgoff vma) - 0xC0000000)))"
proof -
  note i = setup_iatu_evs [OF assms(2)]
  have l: "r = 0" "largest_granted plat ddr_sizes (host_ddr a') (new_evs w w1)"
    using assms(1) try_sizes_result i by (auto simp: akida_1500_setup_host_ddr_def ddr_loop_sizes split: prod.splits)
  note size = granted_size [OF l(2)]
  obtain q where q: "new_evs w1 w2 = Kcall (K_pcim_iomap_regions (BIT 0)) 0 # inbound_evs (mmio_bar0 a') @
      (if hd_size (host_ddr a') \<noteq> 0 then outbound_evs (mmio_bar0 a') (host_ddr a') else []) @ [Kcall (K_msleep 1000) q]"
    using i by auto
  have w: "out_window (new_evs w1 w2) (mmio_bar0 a') =
      (if hd_size (host_ddr a') = 0 then None else Some (ddr_window (host_ddr a'))) \<and>
    (\<forall>k. out_window (take k (new_evs w1 w2)) (mmio_bar0 a') \<in> {None, Some (ddr_window (host_ddr a'))})"
  proof (cases "hd_size (host_ddr a') = 0")
    case True
    have off: "out_window (take k (new_evs w1 w2)) (mmio_bar0 a') = None" for k
      by (rule window_off) (use True q in \<open>auto simp: inbound_evs_def dest!: in_set_takeD\<close>)
    then show ?thesis
      using True off [of "length (new_evs w1 w2)"] by simp
  next
    case False
    then show ?thesis
      using window_prefix [of "host_ddr a'" "new_evs w1 w2"] size q by auto
  qed
  show ?thesis
    using l w mmap_ddr_iff [OF size] by (auto split: prod.splits)
qed

definition ex_ddr_world :: world where
  "ex_ddr_world = ex_world\<lparr>kret := (\<lambda>_ k. if k = K_dmam_alloc_attrs 0x800000 then 7 else 0)\<rparr>"

definition ex_ddr_plat :: akida_plat where
  "ex_ddr_plat = \<lparr>plat_os = ex_os, iomap_table = (\<lambda>bar. 0x10000 * Suc bar), ddr_dma_addr = (\<lambda>_. 0x123400000)\<rparr>"

theorem host_window_agrees_witness:
  "\<exists>a w1 a' w2. akida_1500_setup_host_ddr ex_ddr_plat zero_priv ex_ddr_world = (0, a, w1) \<and>
    akida_1500_setup_iatu ex_ddr_plat a w1 = (0, a', w2) \<and>
    out_window (new_evs w1 w2) 0x10000 = Some (0xC0000000, 0xC07FFFFF, 0x123400000)"
proof -
  obtain r a w1 where 1: "akida_1500_setup_host_ddr ex_ddr_plat zero_priv ex_ddr_world = (r, a, w1)" by (metis prod_cases3)
  have a: "hd_size (host_ddr a) = 0x800000" "hd_dma_addr (host_ddr a) = 0x123400000" "kret w1 = kret ex_ddr_world"
    using 1 by (auto simp: akida_1500_setup_host_ddr_def ddr_loop_sizes ddr_sizes_def kcall_def Let_def ex_ddr_world_def ex_ddr_plat_def)
  obtain r' a' w2 where 2: "akida_1500_setup_iatu ex_ddr_plat a w1 = (r', a', w2)" by (metis prod_cases3)
  have r': "r' = 0"
    using 2 a(3) by (auto simp: akida_1500_setup_iatu_def kcall_def Let_def ex_ddr_world_def split: if_splits)
  note a' = setup_iatu_evs [OF 2 [unfolded r']]
  have "out_window (new_evs w1 w2) (mmio_bar0 a') = Some (ddr_window (host_ddr a'))"
    using host_window_agrees [OF 1 2 [unfolded r']] a a' by auto
  moreover have "r = 0"
    using host_window_agrees [OF 1 2 [unfolded r']] by blast
  ultimately show ?thesis
    using 1 2 r' a' a by (auto simp: ddr_window_def ex_ddr_plat_def)
qed

end
