(* ===== verification/Spec2Isabelle.thy ===== *)
theory Spec2Isabelle
  imports Board_Safe Chan_Fifo List_Walk Debug_54 Virt_Dma_54 Kernel54 Host_Window
begin

text \<open>
  Verification of the Akida PCIe driver: the DesignWare eDMA engine under \<open>akida-dw-edma/\<close>, the board
  driver \<open>akida-pcie-core.c\<close> on top of it, and the copies of the engine and of the kernel headers kept for
  kernel 5.4.

  The program. A board has a DMA engine with write and read channels. A client of the engine prepares a
  request (cut into chunks of bursts that fit the channel's linked-list memory), submits it and issues it;
  the engine driver writes the list of a chunk into memory, sets up the registers and rings a doorbell; an
  interrupt per chunk starts the next one or completes the request. The board driver finds the board, sets
  up its address translation and the engine, reserves channels as a client, and offers \<open>read\<close>, \<open>write\<close> and
  \<open>mmap\<close> to user programs. The parts meet in calls (board driver to channel callbacks to engine operations),
  in callbacks (interrupt handlers, completion) and in shared data (channels, interrupt table).

  Modelling. State is passed explicitly. A C structure is a record, an enumeration a datatype, an integer a
  word of its width (an \<open>int\<close> where it only carries a return code). \<open>World\<close> is what is outside the driver:
  the device and the kernel are oracles, functions of the whole history of accesses, the driver's own
  accesses are the trace, and the allocator hands out fresh addresses, may fail at any call and records bad
  frees. Every theorem holds for all oracles unless it names what it needs of them. \<open>None\<close> is a kernel
  bug, an endless loop or an access out of range; theorems exclude it. Loops are structural over a
  count or a list; \<open>dw_edma_add_irq_mask\<close> and the distribution of the lines are
  \<open>partial_function (option)\<close> and proved to return, the search for the host buffer has a measure. No fuel
  is used: waiting consumes a list of events (\<open>wait_ev\<close>, \<open>sleep_ev\<close>) that stands for what happens
  meanwhile, and the theorems on waiting quantify over these lists; an exhausted list is a timeout.

  The theories, in the order of the code:
  \<^item> \<open>Prelude\<close> (integer types, errno, \<open>bitfield.h\<close>), \<open>World\<close>, \<open>Ledger\<close>: the ledger reads off a trace which
    kernel resources were taken and given back.
  \<^item> \<open>Virt_Dma\<close>: \<open>kernel/5.16/drivers/dma/virt-dma.h\<close> and \<open>dmaengine.h\<close>: descriptor lists and cookies.
  \<^item> \<open>Edma_Types\<close>: \<open>kernel/common/include/edma.h\<close>, \<open>dw-edma-core.h\<close>. \<open>Regs\<close>: \<open>dw-edma-v0-regs.h\<close> and
    \<open>dw-hdma-v0-regs.h\<close> as lists of fields from which offsets are computed. \<open>Samples\<close>: a concrete device.
  \<^item> \<open>Engine\<close>: the contracts \<open>dma_engine\<close> (start) and \<open>dma_irq\<close> (interrupt handling) of the operation table
    \<open>dw_edma_core_ops\<close>, with the lemmas every client of an engine uses. \<open>V0_Core\<close> (\<open>dw-edma-v0-core.c\<close>) and
    \<open>Hdma_Core\<close> (\<open>dw-hdma-v0-core.c\<close>) are its two providers.
  \<^item> \<open>Edma_Desc\<close>, \<open>Edma_Chan\<close>, \<open>Edma_Probe\<close>: \<open>dw-edma-core.c\<close>: preparation; channel callbacks, interrupts
    and dispatch; probe and remove.
  \<^item> \<open>Chan_Life\<close>, \<open>Device\<close>: runs of one channel and of a whole device, as relations over steps in any
    order, with their invariants. \<open>Chan_Stuck\<close>: runs of client calls without interrupts. \<open>Chan_Fifo\<close>: the abstract service of a channel and the refinement.
    \<open>List_Walk\<close>: the list in memory as the engine reads it. \<open>Probe_Setup\<close>: what probe establishes.
  \<^item> \<open>Chan_Trace\<close>, \<open>Akida_Xfer\<close>, \<open>Akida_Io\<close>, \<open>Akida_Mmap\<close>, \<open>Akida_Probe\<close>: \<open>akida-pcie-core.c\<close>: one transfer,
    \<open>read\<close> and \<open>write\<close>, \<open>mmap\<close>, probe and remove. \<open>Xfer_Run\<close>, \<open>Io_Pool\<close>, \<open>Io_Run\<close>, \<open>Io_Ops\<close>, \<open>Probe_Run\<close>,
    \<open>Akida_Board\<close>: their properties; \<open>Host_Window\<close>: the host buffer of the Akida 1500; \<open>Board_Safe\<close>: from the
    probe of a board to any run of its engine.
  \<^item> \<open>Debugfs\<close>, \<open>Debug_Files\<close>: \<open>dw-edma-v0-debugfs.c\<close>, \<open>dw-hdma-v0-debugfs.c\<close>.
  \<^item> \<open>Kernel54\<close>, \<open>Debug_54\<close>: what differs in \<open>kernel/5.4/akida-dw-edma/\<close>: \<open>dw-edma-core.c\<close> and the two
    debugfs files. \<open>Virt_Dma_54\<close>: \<open>kernel/5.4/drivers/dma/virt-dma.h\<close> and \<open>dmaengine.h\<close>.

  Interfaces. \<open>dma_engine\<close> and \<open>dma_irq\<close> (extended by \<open>dma_irq_steps\<close>) are interpreted by both engines
  and the dispatch; \<open>chunked\<close> and \<open>file_op\<close> by reading and writing; \<open>channel_pool\<close> by the reservation of
  client channels; \<open>debug_tree\<close> by the two debugfs trees; \<open>vchan_header\<close> by the older and the newer header.

  What is shown.
  \<^item> Starting a chunk leaves the complete list in memory before the doorbell rings, for both engines, and
    walking this list gives back the bursts of the chunk. Preparation turns each kind of request into
    exactly its bursts, in chunks that fit, and leaks nothing when an allocation fails.
  \<^item> A channel refines a queue of requests; issued requests complete in order; the residue is the bytes not
    yet started; an interrupt line touches only the channels of its masks; the states of every channel stay
    sound under late and spurious interrupts too; from the probe of a board on no
    order of client calls and interrupts leaks, frees twice or uses a freed list.
  \<^item> Engine and board probes return, undo on failure what they did, and remove gives back what they took;
    a successful probe gives every channel exactly one line and disjoint lists.
  \<^item> A transfer programs what was asked and unmaps as often as it maps; \<open>read\<close> and \<open>write\<close> move exactly the
    chunks of the request, never touch the lists, and give back what they took, the reserved channel
    included; two callers never hold one
    channel; mappings stay inside one BAR or the host buffer, which is what the device sees of the host.
  \<^item> Debugfs files read the registers they are named after.
  \<^item> The copies for kernel 5.4 set up the same channels, make the same debugfs files in another place, and
    the headers there answer as the newer ones do and give back the same descriptors.
  \<^item> The behaviours that are not what the code means to do are theorems too: an abort reported as success,
    the second unmapping after a timeout, the channel that no call gets going after a resume, the terminated
    channel that a late interrupt starts again, the HDMA status read with direction and number swapped, the
    registration left behind on kernel 5.4.

  Bounds. Both engines have at most eight channels per direction, which probe establishes; theorems on
  register addresses and masks take it as a hypothesis. Reads and writes go in chunks of 1024 bytes.

  Not modelled. Locks and interrupt disabling (each callback and handler is one step; the steps
  interleave freely), log messages, names and version-dependent alternatives other than those for kernels
  after 5.17; the memory behind a pointer given to the kernel, so what a transfer moves is stated by its
  addresses and lengths. The kernel's own functions (allocation, interrupts, DMA mapping, \<open>vchan_init\<close>,
  \<open>vchan_tx_submit\<close>, misc devices) are oracles or arguments with their documented behaviour as named
  hypotheses (\<open>submit_ok\<close>, \<open>vchan_init_ok\<close>, \<open>vec_stable\<close>). The files and functions under
  \<open>kernel/5.4/akida-dw-edma/\<close> that have the driver's text, and the headers of \<open>kernel/5.6\<close> and \<open>5.7\<close>, which
  have the text of 5.16 (\<open>virt-dma.h\<close>; \<open>dmaengine.h\<close> but for \<open>dmaengine_desc_callback_valid\<close>, which is that
  of 5.4), are modelled once. Makefile, scripts and tests.
\<close>

end
